(* ===== verification/Prelude.thy ===== *)
theory Prelude
  imports Main "HOL-Library.Word"
begin

text \<open>
  The vocabulary shared by every component: the machine types of the Go code, the state-and-error
  effect in which Go's \<open>(value, error)\<close> results are written, the Hoare triples used to reason about
  it, and list lemmas about tables.
\<close>

section \<open>Types\<close>

text \<open>
  \<open>int64\<close> and \<open>int32\<close> are Go's (and PostgreSQL's \<open>BIGINT\<close>, \<open>INTEGER\<close>) two's complement integers,
  \<open>uuid\<close> is the 16 byte array of \<open>github.com/google/uuid\<close> with \<open>uuid.Nil\<close> as 0, and a Go string is
  its list of bytes. Instants are integers; a duration is a difference of two of them.
\<close>

type_synonym int64 = "64 word"
type_synonym int32 = "32 word"
type_synonym byte = "8 word"
type_synonym bytes = "8 word list"
type_synonym uuid = "128 word"
type_synonym time = int

abbreviation uuid_Nil :: uuid where
  "uuid_Nil \<equiv> 0"

named_theorems eff_defs \<open>unfolding rules for the effect combinators\<close>
named_theorems triple_rules \<open>Hoare rules for the effect combinators\<close>
named_theorems row_simps \<open>simplification rules for table operations\<close>

text \<open>
  \<open>int64(ttl.Seconds())\<close>: the whole seconds of a duration in nanoseconds. The detour through
  \<open>float64\<close> is exact below $2^{22}$ seconds.
\<close>

definition Duration_Seconds :: "int \<Rightarrow> int" where
  "Duration_Seconds ttl = (if ttl < 0 then - (- ttl div 1000000000) else ttl div 1000000000)"

section \<open>Effects: state and error\<close>

text \<open>
  A Go function that returns \<open>(a, error)\<close> and changes the world is a function from the world to
  the error (\<open>Inl\<close>) or value (\<open>Inr\<close>) and the new world. An error does not undo the effects that
  happened before it.
\<close>

type_synonym ('w, 'e, 'a) eff = "'w \<Rightarrow> ('e + 'a) \<times> 'w"

definition ret :: "'a \<Rightarrow> ('w, 'e, 'a) eff" where
  "ret x = (\<lambda>w. (Inr x, w))"

definition fail :: "'e \<Rightarrow> ('w, 'e, 'a) eff" where
  "fail e = (\<lambda>w. (Inl e, w))"

text \<open>\<open>x, err := m(); if err != nil { return err }; k(x)\<close>\<close>

definition bindE :: "('w, 'e, 'a) eff \<Rightarrow> ('a \<Rightarrow> ('w, 'e, 'b) eff) \<Rightarrow> ('w, 'e, 'b) eff" where
  "bindE m k = (\<lambda>w. case m w of (Inl e, w') \<Rightarrow> (Inl e, w') | (Inr x, w') \<Rightarrow> k x w')"

text \<open>\<open>x, err := m()\<close> where the code looks at \<open>err\<close> itself.\<close>

definition attempt :: "('w, 'e, 'a) eff \<Rightarrow> ('e + 'a \<Rightarrow> ('w, 'f, 'b) eff) \<Rightarrow> ('w, 'f, 'b) eff" where
  "attempt m k = (\<lambda>w. case m w of (r, w') \<Rightarrow> k r w')"

text \<open>\<open>_ = m()\<close>: the result and the error are dropped.\<close>

definition ignore :: "('w, 'e, 'a) eff \<Rightarrow> ('w, 'f, unit) eff" where
  "ignore m = (\<lambda>w. (Inr (), snd (m w)))"

text \<open>\<open>fmt.Errorf("...: %w", err)\<close> and the other error conversions.\<close>

definition map_err :: "('e \<Rightarrow> 'f) \<Rightarrow> ('w, 'e, 'a) eff \<Rightarrow> ('w, 'f, 'a) eff" where
  "map_err g m = (\<lambda>w. case m w of (Inl e, w') \<Rightarrow> (Inl (g e), w') | (Inr x, w') \<Rightarrow> (Inr x, w'))"

text \<open>\<open>for _, x := range xs { _ = m(x) }\<close>\<close>

fun for_ignore :: "('x \<Rightarrow> ('w, 'e, 'a) eff) \<Rightarrow> 'x list \<Rightarrow> ('w, 'f, unit) eff" where
  "for_ignore m [] = ret ()"
| "for_ignore m (x # xs) = bindE (ignore (m x)) (\<lambda>_. for_ignore m xs)"

declare ret_def [eff_defs] fail_def [eff_defs] bindE_def [eff_defs] attempt_def [eff_defs]
  ignore_def [eff_defs] map_err_def [eff_defs]

lemma bindE_ret [simp]: "bindE (ret x) k = k x"
  by (simp add: eff_defs)

lemma bindE_fail [simp]: "bindE (fail e) k = fail e"
  by (simp add: eff_defs)

lemma bindE_assoc: "bindE (bindE m k) h = bindE m (\<lambda>x. bindE (k x) h)"
  by (rule ext) (simp add: eff_defs split: prod.splits sum.splits)

lemma bindE_ok: "m w = (Inr x, w') \<Longrightarrow> bindE m k w = k x w'"
  by (simp add: bindE_def)

lemma bindE_err: "m w = (Inl e, w') \<Longrightarrow> bindE m k w = (Inl e, w')"
  by (simp add: bindE_def)

lemma bindE_InrE:
  assumes "bindE m k w = (Inr y, w')"
  obtains x w1 where "m w = (Inr x, w1)" and "k x w1 = (Inr y, w')"
  using assms by (auto simp: bindE_def split: prod.splits sum.splits)

lemma map_err_InrE:
  assumes "map_err g m w = (Inr y, w')"
  obtains "m w = (Inr y, w')"
  using assms by (auto simp: map_err_def split: prod.splits sum.splits)

section \<open>Hoare triples\<close>

text \<open>
  \<open>triple P m Q R\<close>: from a world in \<open>P\<close>, if \<open>m\<close> returns \<open>x\<close> the new world is in \<open>Q x\<close>, and if it
  returns the error \<open>e\<close> the new world is in \<open>R e\<close>. Effects are total functions, so a triple says
  that one of the two happens.
\<close>

definition triple ::
  "('w \<Rightarrow> bool) \<Rightarrow> ('w, 'e, 'a) eff \<Rightarrow> ('a \<Rightarrow> 'w \<Rightarrow> bool) \<Rightarrow> ('e \<Rightarrow> 'w \<Rightarrow> bool) \<Rightarrow> bool" where
  "triple P m Q R \<longleftrightarrow>
     (\<forall>w. P w \<longrightarrow> (case m w of (Inr x, w') \<Rightarrow> Q x w' | (Inl e, w') \<Rightarrow> R e w'))"

abbreviation keeps :: "('w \<Rightarrow> bool) \<Rightarrow> ('w, 'e, 'a) eff \<Rightarrow> bool" where
  "keeps I m \<equiv> triple I m (\<lambda>_. I) (\<lambda>_. I)"

lemma tripleI:
  assumes "\<And>w x w'. P w \<Longrightarrow> m w = (Inr x, w') \<Longrightarrow> Q x w'"
    and "\<And>w e w'. P w \<Longrightarrow> m w = (Inl e, w') \<Longrightarrow> R e w'"
  shows "triple P m Q R"
  using assms by (auto simp: triple_def split: prod.splits sum.splits)

lemma triple_Inr: "triple P m Q R \<Longrightarrow> P w \<Longrightarrow> m w = (Inr x, w') \<Longrightarrow> Q x w'"
  unfolding triple_def by (drule spec [of _ w]) simp

lemma triple_Inl: "triple P m Q R \<Longrightarrow> P w \<Longrightarrow> m w = (Inl e, w') \<Longrightarrow> R e w'"
  unfolding triple_def by (drule spec [of _ w]) simp

lemma keeps_snd: "keeps I m \<Longrightarrow> I w \<Longrightarrow> I (snd (m w))"
  unfolding triple_def by (drule spec [of _ w]) (simp split: prod.splits sum.splits)

lemma triple_sndI: "(\<And>w. P w \<Longrightarrow> Q (snd (m w))) \<Longrightarrow> triple P m (\<lambda>_. Q) (\<lambda>_. Q)"
  by (rule tripleI) (metis snd_conv)+

lemma keepsI: "(\<And>w. I w \<Longrightarrow> I (snd (m w))) \<Longrightarrow> keeps I m"
  by (rule triple_sndI)

lemma triple_pre: "triple P' m Q R \<Longrightarrow> (\<And>w. P w \<Longrightarrow> P' w) \<Longrightarrow> triple P m Q R"
  by (simp add: triple_def)

lemma triple_weaken:
  assumes "triple P' m Q' R'" and "\<And>w. P w \<Longrightarrow> P' w"
    and "\<And>x w. Q' x w \<Longrightarrow> Q x w" and "\<And>e w. R' e w \<Longrightarrow> R e w"
  shows "triple P m Q R"
  using assms by (intro tripleI) (blast dest: triple_Inr triple_Inl)+

lemma triple_ret [triple_rules]: "(\<And>w. P w \<Longrightarrow> Q x w) \<Longrightarrow> triple P (ret x) Q R"
  by (simp add: triple_def ret_def)

lemma triple_fail [triple_rules]: "(\<And>w. P w \<Longrightarrow> R e w) \<Longrightarrow> triple P (fail e) Q R"
  by (simp add: triple_def fail_def)

lemma triple_bindE:
  assumes "triple P m M R" and "\<And>x. triple (M x) (k x) Q R"
  shows "triple P (bindE m k) Q R"
proof (rule tripleI)
  fix w y w'
  assume "P w" and "bindE m k w = (Inr y, w')"
  then show "Q y w'"
    using assms by (elim bindE_InrE) (blast dest: triple_Inr)
next
  fix w e w'
  assume "P w" and "bindE m k w = (Inl e, w')"
  then show "R e w'"
    using assms by (auto simp: bindE_def split: prod.splits sum.splits
        dest: triple_Inr triple_Inl)
qed

lemma triple_map_err:
  assumes "triple P m Q (\<lambda>e. R (g e))"
  shows "triple P (map_err g m) Q R"
  using assms by (auto simp: triple_def map_err_def split: prod.splits sum.splits)

lemma keeps_like_snd: "triple P m (\<lambda>_. Q) (\<lambda>_. Q) \<Longrightarrow> P w \<Longrightarrow> Q (snd (m w))"
  unfolding triple_def by (drule spec [of _ w]) (simp split: prod.splits sum.splits)

lemma triple_ignore:
  assumes "triple P m (\<lambda>_. Q ()) (\<lambda>_. Q ())"
  shows "triple P (ignore m) Q R"
  by (rule tripleI) (auto simp: ignore_def dest: keeps_like_snd [OF assms])

lemma triple_attempt:
  assumes "triple P m (\<lambda>x. M (Inr x)) (\<lambda>e. M (Inl e))"
    and "\<And>r. triple (M r) (k r) Q R"
  shows "triple P (attempt m k) Q R"
proof -
  have M: "M r w'" if "P w" and "m w = (r, w')" for w r w'
    using that assms(1) by (cases r) (auto dest: triple_Inr triple_Inl)
  show ?thesis
  proof (rule tripleI)
    fix w y w'
    assume "P w" and a: "attempt m k w = (Inr y, w')"
    obtain r w1 where "m w = (r, w1)" by (cases "m w")
    with \<open>P w\<close> a show "Q y w'"
      by (auto simp: attempt_def intro: triple_Inr [OF assms(2)] dest: M)
  next
    fix w e w'
    assume "P w" and a: "attempt m k w = (Inl e, w')"
    obtain r w1 where "m w = (r, w1)" by (cases "m w")
    with \<open>P w\<close> a show "R e w'"
      by (auto simp: attempt_def intro: triple_Inl [OF assms(2)] dest: M)
  qed
qed

lemma keeps_for_ignore: "(\<And>x. x \<in> set xs \<Longrightarrow> keeps I (m x)) \<Longrightarrow> keeps I (for_ignore m xs)"
proof (induction xs)
  case Nil
  show ?case by (simp add: triple_ret)
next
  case (Cons x xs)
  then show ?case
    by (auto intro!: triple_bindE [where M = "\<lambda>_. I"] triple_ignore)
qed

named_theorems keeps_rules

lemma keeps_ret [keeps_rules]: "keeps I (ret x)"
  by (simp add: triple_ret)

lemma keeps_fail [keeps_rules]: "keeps I (fail e)"
  by (simp add: triple_fail)

lemma keeps_bind [keeps_rules]: "keeps I m \<Longrightarrow> (\<And>x. keeps I (k x)) \<Longrightarrow> keeps I (bindE m k)"
  by (rule triple_bindE)

lemma keeps_map_err [keeps_rules]: "keeps I m \<Longrightarrow> keeps I (map_err g m)"
  by (rule triple_map_err)

lemma keeps_attempt [keeps_rules]: "keeps I m \<Longrightarrow> (\<And>r. keeps I (k r)) \<Longrightarrow> keeps I (attempt m k)"
  by (rule triple_attempt)

lemma keeps_ignore [keeps_rules]: "keeps I m \<Longrightarrow> keeps I (ignore m)"
  by (rule triple_ignore)

lemma keeps_if [keeps_rules]: "keeps I m \<Longrightarrow> keeps I n \<Longrightarrow> keeps I (if c then m else n)"
  by simp

lemma keeps_option [keeps_rules]:
  "keeps I m \<Longrightarrow> (\<And>x. keeps I (n x)) \<Longrightarrow> keeps I (case r of None \<Rightarrow> m | Some x \<Rightarrow> n x)"
  by (cases r) auto

lemma keeps_sum [keeps_rules]:
  "(\<And>e. keeps I (m e)) \<Longrightarrow> (\<And>x. keeps I (n x)) \<Longrightarrow> keeps I (case r of Inl e \<Rightarrow> m e | Inr x \<Rightarrow> n x)"
  by (cases r) auto

lemma keeps_prod [keeps_rules]: "(\<And>x y. keeps I (m x y)) \<Longrightarrow> keeps I (case r of (x, y) \<Rightarrow> m x y)"
  by (cases r) auto

declare keeps_for_ignore [keeps_rules]

lemma keeps_case_option:
  "keeps I a \<Longrightarrow> (\<And>x. keeps I (b x)) \<Longrightarrow> keeps I (case v of None \<Rightarrow> a | Some x \<Rightarrow> b x)"
  by (cases v) auto

section \<open>Tables as lists of rows\<close>

lemma map_key_update [row_simps]:
  "(\<And>r. f (g r) = f r) \<Longrightarrow> map f (map (\<lambda>r. if p r then g r else r) xs) = map f xs"
  by simp

lemma distinct_map_eqD:
  "distinct (map f xs) \<Longrightarrow> x \<in> set xs \<Longrightarrow> y \<in> set xs \<Longrightarrow> f x = f y \<Longrightarrow> x = y"
  by (auto simp: distinct_map dest: inj_onD)

lemma find_SomeD: "find p xs = Some x \<Longrightarrow> x \<in> set xs \<and> p x"
  by (metis find_Some_iff nth_mem)

lemma find_NoneD: "find p xs = None \<Longrightarrow> x \<in> set xs \<Longrightarrow> \<not> p x"
  by (metis find_None_iff)

lemma find_key_unique:
  assumes "distinct (map f xs)" and "x \<in> set xs" and "p x" and "\<And>y. p y \<Longrightarrow> f y = f x"
  shows "find p xs = Some x"
proof (cases "find p xs")
  case None
  with assms(2,3) show ?thesis by (auto dest: find_NoneD)
next
  case (Some y)
  then have "y \<in> set xs" and "p y" by (auto dest: find_SomeD)
  with assms have "y = x" by (blast intro: distinct_map_eqD)
  with Some show ?thesis by simp
qed

text \<open>An update that only removes rows from a partial unique index keeps it.\<close>

lemma distinct_partial_update:
  assumes "distinct (map f (filter p xs))"
    and "\<And>x. x \<in> set xs \<Longrightarrow> p (g x) \<Longrightarrow> p x \<and> f (g x) = f x"
  shows "distinct (map f (filter p (map g xs)))"
  using assms
proof (induction xs)
  case (Cons x xs)
  have "f ` set (filter p (map g xs)) \<subseteq> f ` set (filter p xs)"
    using Cons.prems(2) by force
  moreover have "distinct (map f (filter p (map g xs)))"
    using Cons by (auto split: if_splits)
  ultimately show ?case using Cons.prems by (auto split: if_splits)
qed simp

lemma map_key_same: "(\<And>x. f (g x) = f x) \<Longrightarrow> map f (map g xs) = map f xs"
  by simp

lemma find_map_same:
  "(\<And>x. x \<in> set xs \<Longrightarrow> p (g x) = q x) \<Longrightarrow> find p (map g xs) = map_option g (find q xs)"
  by (induction xs) auto

lemma find_append:
  "find p (xs @ ys) = (case find p xs of None \<Rightarrow> find p ys | Some x \<Rightarrow> Some x)"
  by (induction xs) auto

lemma find_cong_set: "(\<And>x. x \<in> set xs \<Longrightarrow> p x = q x) \<Longrightarrow> find p xs = find q xs"
  by (induction xs) auto

end
