(* ===== verification/Schema.thy ===== *)
theory Schema
  imports Prelude
begin

text \<open>
  The rows of \<open>internal/entity\<close> and of the tables of \<open>migrations\<close>, the database as a record of
  tables, the constraints PostgreSQL enforces on them (primary and unique keys, foreign keys with
  their \<open>ON DELETE\<close> actions, \<open>CHECK\<close>), and a database call that may fail. The SQL text of the
  repositories is translated against this schema, statement by statement.
\<close>

section \<open>Rows\<close>

text \<open>\<open>entity.Blob\<close>, which is also a row of \<open>stored_blobs\<close>.\<close>

record Blob =
  bl_ID :: uuid
  bl_UserID :: uuid
  bl_FolderID :: "uuid option"
  bl_FileName :: string
  bl_ContentType :: string
  bl_ObjectKey :: string
  bl_FileSize :: int64
  bl_FileSizePlain :: int64
  bl_ChunkSize :: int32
  bl_CreatedAt :: time
  bl_UploadedAt :: "time option"
  bl_EncryptedFileKey :: bytes
  bl_UploadID :: string
  bl_DeletedAt :: "time option"

text \<open>\<open>entity.Folder\<close>, a row of \<open>folders\<close>.\<close>

record Folder =
  fo_ID :: uuid
  fo_UserID :: uuid
  fo_ParentID :: "uuid option"
  fo_Name :: string
  fo_CreatedAt :: time
  fo_DeletedAt :: "time option"

text \<open>\<open>entity.FileShare\<close>, a row of \<open>file_shares\<close>.\<close>

record FileShare =
  sh_ID :: uuid
  sh_BlobID :: uuid
  sh_OwnerID :: uuid
  sh_RecipientID :: uuid
  sh_EphemeralPub :: bytes
  sh_WrappedFileKey :: bytes
  sh_ExpiresAt :: "time option"
  sh_RevokedAt :: "time option"
  sh_CreatedAt :: time

text \<open>A row of \<open>users\<close>; a nullable \<open>BYTEA\<close> column is an option.\<close>

record user_row =
  us_id :: uuid
  us_email :: string
  us_srp_salt :: string
  us_srp_verifier :: string
  us_bcrypt_salt :: string
  us_crypto_salt :: bytes
  us_public_key :: "bytes option"
  us_encrypted_private_key :: "bytes option"
  us_kek_encrypted_master :: "bytes option"
  us_kek_encrypted_recovery :: "bytes option"
  us_recovery_salt :: "bytes option"
  us_created_at :: time

text \<open>A row of \<open>device_sessions\<close>: \<open>entity.DeviceSession\<close> and the column \<open>device_id\<close>.\<close>

record device_session =
  ds_ID :: uuid
  ds_UserID :: uuid
  ds_device_id :: string
  ds_DeviceName :: string
  ds_IPAddress :: string
  ds_UserAgent :: string
  ds_CreatedAt :: time
  ds_LastActiveAt :: time
  ds_RevokedAt :: "time option"

text \<open>A row of \<open>refresh_sessions\<close>.\<close>

record refresh_session =
  rs_id :: uuid
  rs_user_id :: uuid
  rs_device_session_id :: uuid
  rs_refresh_token_hash :: bytes
  rs_client_key :: bytes
  rs_expires_at :: time
  rs_created_at :: time
  rs_revoked_at :: "time option"

text \<open>\<open>entity.PasswordResetToken\<close>, a row of \<open>password_reset_tokens\<close>.\<close>

record PasswordResetToken =
  pt_ID :: uuid
  pt_UserID :: uuid
  pt_TokenHash :: bytes
  pt_ExpiresAt :: time
  pt_UsedAt :: "time option"
  pt_CreatedAt :: time

text \<open>A row of \<open>favorites\<close>: exactly one of the two references is set.\<close>

record favorite =
  fv_user_id :: uuid
  fv_blob_id :: "uuid option"
  fv_folder_id :: "uuid option"
  fv_created_at :: time

text \<open>\<open>entity.AuditEvent\<close>; \<open>ip_address\<close> and \<open>user_agent\<close> are nullable columns, \<open>''''\<close> in the entity.\<close>

record AuditEvent =
  au_ID :: uuid
  au_UserID :: uuid
  au_EventType :: string
  au_IPAddress :: string
  au_UserAgent :: string
  au_ResourceID :: "uuid option"
  au_ResourceName :: string
  au_CreatedAt :: time

record db =
  users :: "user_row list"
  device_sessions :: "device_session list"
  refresh_sessions :: "refresh_session list"
  folders :: "Folder list"
  stored_blobs :: "Blob list"
  file_shares :: "FileShare list"
  favorites :: "favorite list"
  password_reset_tokens :: "PasswordResetToken list"
  audit_log :: "AuditEvent list"

section \<open>Statements and calls\<close>

text \<open>
  What a statement can fail with: the SQLSTATE classes the code distinguishes, and everything else
  (connection loss, context deadline, a value that does not scan).
\<close>

datatype pg_err = UniqueViolation | ForeignKeyViolation | CheckViolation | DbError

text \<open>
  A statement, or the statements of one transaction: on an error nothing is changed.
\<close>

type_synonym 'a stmt = "db \<Rightarrow> pg_err + ('a \<times> db)"

definition stmt_ret :: "'a \<Rightarrow> 'a stmt" where
  "stmt_ret x = (\<lambda>d. Inr (x, d))"

definition stmt_bind :: "'a stmt \<Rightarrow> ('a \<Rightarrow> 'b stmt) \<Rightarrow> 'b stmt" where
  "stmt_bind m k = (\<lambda>d. case m d of Inl e \<Rightarrow> Inl e | Inr (x, d') \<Rightarrow> k x d')"

definition stmt_fail :: "pg_err \<Rightarrow> 'a stmt" where
  "stmt_fail e = (\<lambda>d. Inl e)"

definition stmt_read :: "(db \<Rightarrow> 'a) \<Rightarrow> 'a stmt" where
  "stmt_read q = (\<lambda>d. Inr (q d, d))"

lemma stmt_bind_InrE:
  assumes "stmt_bind m k d = Inr (y, d')"
  obtains x d1 where "m d = Inr (x, d1)" and "k x d1 = Inr (y, d')"
  using assms by (auto simp: stmt_bind_def split: sum.splits prod.splits)

lemma stmt_simps [simp]:
  "stmt_ret x d = Inr (x, d)" "stmt_fail e d = Inl e" "stmt_read q d = Inr (q d, d)"
  by (simp_all add: stmt_ret_def stmt_fail_def stmt_read_def)

lemma stmt_bind_read [simp]: "stmt_bind (stmt_read q) k d = k (q d) d"
  by (simp add: stmt_bind_def)

lemma stmt_bind_ok: "m d = Inr (x, d1) \<Longrightarrow> stmt_bind m k d = k x d1"
  by (simp add: stmt_bind_def)

lemma stmt_bind_err: "m d = Inl e \<Longrightarrow> stmt_bind m k d = Inl e"
  by (simp add: stmt_bind_def)

text \<open>
  The world a repository call runs in: the database, the instant \<open>now()\<close> reads, and a schedule of
  faults. A call takes the next entry of the schedule: \<open>Pass\<close> (also when it is used up) runs the
  statement; \<open>FailBefore\<close> is an error with nothing done; \<open>FailAfter\<close> is an error reported although
  the statement was committed (a deadline or a connection loss after the commit).
\<close>

datatype fault = Pass | FailBefore | FailAfter

record world =
  w_db :: db
  w_now :: time
  w_faults :: "fault list"

definition pop_fault :: "'x world_scheme \<Rightarrow> fault \<times> 'x world_scheme" where
  "pop_fault w = (case w_faults w of [] \<Rightarrow> (Pass, w) | f # fs \<Rightarrow> (f, w\<lparr>w_faults := fs\<rparr>))"

definition db_call :: "(time \<Rightarrow> 'a stmt) \<Rightarrow> ('x world_scheme, pg_err, 'a) eff" where
  "db_call s w =
     (case pop_fault w of (f, w1) \<Rightarrow>
       (if f = FailBefore then (Inl DbError, w1)
        else (case s (w_now w1) (w_db w1) of
                Inl e \<Rightarrow> (Inl e, w1)
              | Inr (x, d) \<Rightarrow>
                  ((if f = FailAfter then Inl DbError else Inr x), w1\<lparr>w_db := d\<rparr>))))"

text \<open>A query does not change the database.\<close>

definition query :: "(time \<Rightarrow> db \<Rightarrow> 'a) \<Rightarrow> ('x world_scheme, pg_err, 'a) eff" where
  "query q = db_call (\<lambda>now d. Inr (q now d, d))"

lemma pop_fault_frame [simp]:
  "w_db (snd (pop_fault w)) = w_db w" "w_now (snd (pop_fault w)) = w_now w"
  "world.more (snd (pop_fault w)) = world.more w"
  by (simp_all add: pop_fault_def split: list.splits)

lemma pop_fault_nil [simp]: "w_faults w = [] \<Longrightarrow> pop_fault w = (Pass, w)"
  by (simp add: pop_fault_def)

lemma db_call_now [simp]: "w_now (snd (db_call s w)) = w_now w"
  by (simp add: db_call_def split: prod.splits sum.splits)
    (metis pop_fault_frame(2) snd_conv)

lemma db_call_more [simp]: "world.more (snd (db_call s w)) = world.more w"
  by (simp add: db_call_def split: prod.splits sum.splits)
    (metis pop_fault_frame(3) snd_conv)

lemma db_call_ok:
  assumes "db_call s w = (Inr x, w')"
  shows "s (w_now w) (w_db w) = Inr (x, w_db w')" and "w_now w' = w_now w"
    and "world.more w' = world.more w"
proof -
  obtain f w1 where p: "pop_fault w = (f, w1)" by (cases "pop_fault w")
  then have "w_db w1 = w_db w" and "w_now w1 = w_now w"
    using pop_fault_frame [of w] by simp_all
  with p assms show "s (w_now w) (w_db w) = Inr (x, w_db w')"
    by (auto simp: db_call_def split: if_splits sum.splits prod.splits)
  show "w_now w' = w_now w" and "world.more w' = world.more w"
    using db_call_now [of s w] db_call_more [of s w] assms by simp_all
qed

text \<open>Whatever the fault, the database is as it was or as the statement leaves it.\<close>

lemma db_call_db:
  "w_db (snd (db_call s w)) = w_db w \<or>
   (\<exists>x. s (w_now w) (w_db w) = Inr (x, w_db (snd (db_call s w))))"
proof -
  obtain f w1 where p: "pop_fault w = (f, w1)" by (cases "pop_fault w")
  then have "w_db w1 = w_db w" and "w_now w1 = w_now w"
    using pop_fault_frame [of w] by simp_all
  with p show ?thesis
    by (auto simp: db_call_def split: sum.splits prod.splits)
qed

lemma db_call_nil:
  "w_faults w = [] \<Longrightarrow>
     db_call s w = (case s (w_now w) (w_db w) of
       Inl e \<Rightarrow> (Inl e, w) | Inr (x, d) \<Rightarrow> (Inr x, w\<lparr>w_db := d\<rparr>))"
  by (simp add: db_call_def split: sum.splits prod.splits)

lemma query_db [simp]: "w_db (snd (query q w)) = w_db w"
  using db_call_db [of "\<lambda>now d. Inr (q now d, d)" w] by (auto simp: query_def)

lemma query_ok:
  assumes "query q w = (Inr x, w')"
  shows "x = q (w_now w) (w_db w)" and "w_db w' = w_db w" and "w_now w' = w_now w"
    and "world.more w' = world.more w"
  using db_call_ok [OF assms [unfolded query_def]] by auto

lemma query_nil: "w_faults w = [] \<Longrightarrow> query q w = (Inr (q (w_now w) (w_db w)), w)"
  by (simp add: query_def db_call_nil)

text \<open>An invariant of the database and the clock, as a predicate on worlds.\<close>

definition on_db :: "(time \<Rightarrow> db \<Rightarrow> bool) \<Rightarrow> 'x world_scheme \<Rightarrow> bool" where
  "on_db I w = I (w_now w) (w_db w)"

lemma triple_db_call:
  assumes "\<And>now d x d'. J now d \<Longrightarrow> s now d = Inr (x, d') \<Longrightarrow> I now d'"
    and "\<And>now d. J now d \<Longrightarrow> I now d"
  shows "triple (on_db J) (db_call s) (\<lambda>_. on_db I) (\<lambda>_. on_db I)"
proof -
  have "on_db I (snd (db_call s w))" if "on_db J w" for w :: "'x world_scheme"
    using that assms db_call_db [of s w] by (fastforce simp: on_db_def)
  then show ?thesis by (rule triple_sndI)
qed

lemma keeps_db_call:
  assumes "\<And>now d x d'. I now d \<Longrightarrow> s now d = Inr (x, d') \<Longrightarrow> I now d'"
  shows "keeps (on_db I) (db_call s)"
  using assms by (rule triple_db_call)

lemma keeps_query [keeps_rules]: "keeps (on_db I) (query q)"
  unfolding query_def by (rule keeps_db_call) simp

text \<open>A query that returned tells what the database holds.\<close>

lemma triple_query:
  "triple (on_db I) (query q) (\<lambda>x w. on_db I w \<and> x = q (w_now w) (w_db w)) (\<lambda>_. on_db I)"
proof (rule tripleI)
  fix w :: "'a world_scheme" and x w'
  assume "on_db I w" and "query q w = (Inr x, w')"
  then show "on_db I w' \<and> x = q (w_now w') (w_db w')"
    using query_ok [of q w x w'] by (simp add: on_db_def)
next
  fix w :: "'a world_scheme" and e w'
  assume "on_db I w" and "query q w = (Inl e, w')"
  then show "on_db I w'" by (rule triple_Inl [OF keeps_query])
qed

section \<open>The constraints of stored\_blobs and folders\<close>

text \<open>\<open>char_length\<close> counts characters: the bytes of a UTF-8 text that do not continue one.\<close>

definition char_length :: "string \<Rightarrow> nat" where
  "char_length s = length (filter (\<lambda>c. of_char c div 64 \<noteq> (2::nat)) s)"

definition user_exists :: "uuid \<Rightarrow> db \<Rightarrow> bool" where
  "user_exists u d = (u \<in> us_id ` set (users d))"

definition folder_exists :: "uuid \<Rightarrow> db \<Rightarrow> bool" where
  "folder_exists f d = (f \<in> fo_ID ` set (folders d))"

text \<open>A nullable reference to \<open>folders(id)\<close>.\<close>

definition folder_ref :: "uuid option \<Rightarrow> db \<Rightarrow> bool" where
  "folder_ref r d = (case r of None \<Rightarrow> True | Some f \<Rightarrow> folder_exists f d)"

text \<open>\<open>INSERT INTO stored_blobs\<close>: primary key, unique \<open>object_key\<close>, references to the user and folder.\<close>

definition insert_blob :: "Blob \<Rightarrow> unit stmt" where
  "insert_blob b d =
     (if bl_ID b \<in> bl_ID ` set (stored_blobs d)
         \<or> bl_ObjectKey b \<in> bl_ObjectKey ` set (stored_blobs d) then Inl UniqueViolation
      else if \<not> user_exists (bl_UserID b) d \<or> \<not> folder_ref (bl_FolderID b) d
        then Inl ForeignKeyViolation
      else Inr ((), d\<lparr>stored_blobs := stored_blobs d @ [b]\<rparr>))"

text \<open>\<open>UPDATE stored_blobs SET .. WHERE ..\<close> of columns other than the keys; the number of rows.\<close>

definition update_blobs :: "(Blob \<Rightarrow> bool) \<Rightarrow> (Blob \<Rightarrow> Blob) \<Rightarrow> nat stmt" where
  "update_blobs p f d =
     (if \<exists>b \<in> set (stored_blobs d). p b \<and> \<not> folder_ref (bl_FolderID (f b)) d
        then Inl ForeignKeyViolation
      else Inr (length (filter p (stored_blobs d)),
                d\<lparr>stored_blobs := map (\<lambda>b. if p b then f b else b) (stored_blobs d)\<rparr>))"

text \<open>
  \<open>DELETE FROM stored_blobs WHERE ..\<close>, returning the deleted rows; shares and favorites of a
  deleted blob go with it (\<open>ON DELETE CASCADE\<close>).
\<close>

definition delete_blobs :: "(Blob \<Rightarrow> bool) \<Rightarrow> Blob list stmt" where
  "delete_blobs p d =
     (let gone = filter p (stored_blobs d); ids = bl_ID ` set gone
      in Inr (gone,
           d\<lparr>stored_blobs := filter (\<lambda>b. \<not> p b) (stored_blobs d),
             file_shares := filter (\<lambda>s. sh_BlobID s \<notin> ids) (file_shares d),
             favorites := filter (\<lambda>v. case fv_blob_id v of None \<Rightarrow> True | Some b \<Rightarrow> b \<notin> ids)
                            (favorites d)\<rparr>))"

text \<open>
  The two partial unique indexes on folders: among the folders that are not in the trash, a name
  occurs once per user and parent (\<open>idx_folders_unique_root\<close>, \<open>idx_folders_unique_parent\<close>).
\<close>

definition active_folder_keys :: "Folder list \<Rightarrow> (uuid \<times> uuid option \<times> string) list" where
  "active_folder_keys t =
     map (\<lambda>f. (fo_UserID f, fo_ParentID f, fo_Name f)) (filter (\<lambda>f. fo_DeletedAt f = None) t)"

definition folder_names_unique :: "Folder list \<Rightarrow> bool" where
  "folder_names_unique t = distinct (active_folder_keys t)"

definition folder_name_ok :: "string \<Rightarrow> bool" where
  "folder_name_ok s = (1 \<le> char_length s \<and> char_length s \<le> 255)"

definition insert_folder :: "Folder \<Rightarrow> unit stmt" where
  "insert_folder f d =
     (if \<not> folder_name_ok (fo_Name f) then Inl CheckViolation
      else if fo_ID f \<in> fo_ID ` set (folders d) \<or> \<not> folder_names_unique (folders d @ [f])
        then Inl UniqueViolation
      else if \<not> user_exists (fo_UserID f) d \<or> \<not> folder_ref (fo_ParentID f) (d\<lparr>folders := folders d @ [f]\<rparr>)
        then Inl ForeignKeyViolation
      else Inr ((), d\<lparr>folders := folders d @ [f]\<rparr>))"

definition update_folders :: "(Folder \<Rightarrow> bool) \<Rightarrow> (Folder \<Rightarrow> Folder) \<Rightarrow> nat stmt" where
  "update_folders p f d =
     (let t = map (\<lambda>r. if p r then f r else r) (folders d) in
      if \<exists>r \<in> set (folders d). p r \<and> \<not> folder_name_ok (fo_Name (f r)) then Inl CheckViolation
      else if \<not> folder_names_unique t then Inl UniqueViolation
      else if \<exists>r \<in> set (folders d). p r \<and> \<not> folder_ref (fo_ParentID (f r)) d
        then Inl ForeignKeyViolation
      else Inr (length (filter p (folders d)), d\<lparr>folders := t\<rparr>))"

text \<open>
  \<open>DELETE FROM folders WHERE ..\<close>, returning the deleted rows. A folder that stays and has a deleted
  parent stops it (\<open>parent_id .. ON DELETE RESTRICT\<close>); the blobs of a deleted folder stay, with
  \<open>folder_id\<close> null (\<open>ON DELETE SET NULL\<close>); its favorites go (\<open>ON DELETE CASCADE\<close>).
\<close>

definition delete_folders :: "(Folder \<Rightarrow> bool) \<Rightarrow> Folder list stmt" where
  "delete_folders p d =
     (let gone = filter p (folders d); ids = fo_ID ` set gone;
          stay = filter (\<lambda>f. \<not> p f) (folders d)
      in if \<exists>f \<in> set stay. \<exists>i \<in> ids. fo_ParentID f = Some i then Inl ForeignKeyViolation
         else Inr (gone,
           d\<lparr>folders := stay,
             stored_blobs := map (\<lambda>b. case bl_FolderID b of None \<Rightarrow> b
                 | Some i \<Rightarrow> if i \<in> ids then b\<lparr>bl_FolderID := None\<rparr> else b) (stored_blobs d),
             favorites := filter (\<lambda>v. case fv_folder_id v of None \<Rightarrow> True | Some i \<Rightarrow> i \<notin> ids)
                            (favorites d)\<rparr>))"

end
