(* ===== verification/Encoding.thy ===== *)
theory Encoding
  imports Prelude
begin

text \<open>
  The byte encodings of Go's standard library that the code calls: \<open>[]byte(s)\<close>, \<open>encoding/hex\<close>,
  \<open>encoding/base64\<close> (\<open>StdEncoding\<close> and \<open>RawURLEncoding\<close>) and the big-endian bytes of a
  non-negative \<open>math/big.Int\<close>, each with its round trip.
\<close>

section \<open>Bytes of a string\<close>

definition string_bytes :: "string \<Rightarrow> bytes" where
  "string_bytes s = map (\<lambda>c. word_of_nat (of_char c)) s"

definition bytes_string :: "bytes \<Rightarrow> string" where
  "bytes_string bs = map (\<lambda>b. char_of (unat b)) bs"

lemma unat_byte: "unat (b :: byte) < 256"
  using unsigned_less [of b, where ?'a = nat] by simp

lemma word_unat_self: "word_of_nat (unat (b :: byte)) = b"
  by simp

lemma bytes_of_string [simp]: "string_bytes (bytes_string bs) = bs"
proof (induction bs)
  case (Cons b bs)
  have "of_char (char_of (unat b) :: char) = unat b"
    using unat_byte [of b] by (simp add: of_char_of)
  with Cons show ?case by (simp add: string_bytes_def bytes_string_def)
qed (simp add: string_bytes_def bytes_string_def)

section \<open>encoding/hex\<close>

definition hex_digit :: "nat \<Rightarrow> char" where
  "hex_digit n = ''0123456789abcdef'' ! n"

definition hex_value :: "char \<Rightarrow> nat option" where
  "hex_value c = (let n = of_char c in
     if 48 \<le> n \<and> n \<le> 57 then Some (n - 48)
     else if 97 \<le> n \<and> n \<le> 102 then Some (n - 87)
     else if 65 \<le> n \<and> n \<le> 70 then Some (n - 55)
     else None)"

definition hex_EncodeToString :: "bytes \<Rightarrow> string" where
  "hex_EncodeToString bs =
     concat (map (\<lambda>b. [hex_digit (unat b div 16), hex_digit (unat b mod 16)]) bs)"

text \<open>\<open>None\<close> is \<open>ErrLength\<close> or an \<open>InvalidByteError\<close>.\<close>

fun hex_DecodeString :: "string \<Rightarrow> bytes option" where
  "hex_DecodeString [] = Some []"
| "hex_DecodeString [c] = None"
| "hex_DecodeString (c # d # s) =
     (case (hex_value c, hex_value d, hex_DecodeString s) of
        (Some x, Some y, Some bs) \<Rightarrow> Some (word_of_nat (16 * x + y) # bs)
      | _ \<Rightarrow> None)"

lemma hex_value_digit:
  assumes "n < 16"
  shows "hex_value (hex_digit n) = Some n"
proof -
  have "\<forall>k \<in> set [0..<16]. hex_value (hex_digit k) = Some k" by code_simp
  with assms show ?thesis by simp
qed

lemma hex_roundtrip [simp]: "hex_DecodeString (hex_EncodeToString bs) = Some bs"
proof (induction bs)
  case (Cons b bs)
  have "unat b div 16 < 16" using unat_byte [of b] by simp
  moreover have "word_of_nat (16 * (unat b div 16) + unat b mod 16) = b"
    by (simp only: mult_div_mod_eq word_unat_self)
  ultimately show ?case using Cons by (simp add: hex_EncodeToString_def hex_value_digit)
qed (simp add: hex_EncodeToString_def)

lemma length_hex: "length (hex_EncodeToString bs) = 2 * length bs"
  by (induction bs) (simp_all add: hex_EncodeToString_def)

section \<open>big.Int: SetBytes and Bytes\<close>

definition SetBytes :: "bytes \<Rightarrow> nat" where
  "SetBytes bs = foldl (\<lambda>n b. 256 * n + unat b) 0 bs"

text \<open>Big-endian, without leading zeros; 0 has no bytes.\<close>

fun Bytes :: "nat \<Rightarrow> bytes" where
  "Bytes n = (if n = 0 then [] else Bytes (n div 256) @ [word_of_nat (n mod 256)])"

declare Bytes.simps [simp del]

lemma SetBytes_snoc [simp]: "SetBytes (bs @ [b]) = 256 * SetBytes bs + unat b"
  by (simp add: SetBytes_def)

lemma SetBytes_Nil [simp]: "SetBytes [] = 0"
  by (simp add: SetBytes_def)

lemma SetBytes_Bytes [simp]: "SetBytes (Bytes n) = n"
proof (induction n rule: Bytes.induct)
  case (1 n)
  show ?case
  proof (cases "n = 0")
    case True
    then show ?thesis by (simp add: Bytes.simps)
  next
    case False
    have "unat (word_of_nat (n mod 256) :: byte) = n mod 256" by (simp add: unat_of_nat)
    with 1 [OF False] False show ?thesis by (subst Bytes.simps) simp
  qed
qed

lemma SetBytes_leading_zeros [simp]: "SetBytes (replicate k 0 @ bs) = SetBytes bs"
proof -
  have "foldl (\<lambda>n b. 256 * n + unat b) 0 (replicate k (0 :: byte)) = 0"
    by (induction k) simp_all
  then show ?thesis by (simp add: SetBytes_def)
qed

lemma length_Bytes: "n < 256 ^ k \<Longrightarrow> length (Bytes n) \<le> k"
proof (induction k arbitrary: n)
  case 0
  then show ?case by (simp add: Bytes.simps)
next
  case (Suc k)
  then have "n div 256 < 256 ^ k" by (simp add: div_less_iff_less_mult mult.commute)
  with Suc.IH show ?case by (subst Bytes.simps) simp
qed

section \<open>encoding/base64\<close>

definition b64_std :: string where
  "b64_std = ''ABCDEFGHIJKLMNOPQRSTUVWXYZabcdefghijklmnopqrstuvwxyz0123456789+/''"

definition b64_url :: string where
  "b64_url = ''ABCDEFGHIJKLMNOPQRSTUVWXYZabcdefghijklmnopqrstuvwxyz0123456789-_''"

text \<open>The four six-bit groups of three bytes.\<close>

definition sextets :: "byte \<Rightarrow> byte \<Rightarrow> byte \<Rightarrow> nat list" where
  "sextets a b c = [unat a div 4, unat a mod 4 * 16 + unat b div 16,
                    unat b mod 16 * 4 + unat c div 64, unat c mod 64]"

fun b64_encode :: "string \<Rightarrow> bool \<Rightarrow> bytes \<Rightarrow> string" where
  "b64_encode alph padded [] = []"
| "b64_encode alph padded [a] =
     map ((!) alph) (take 2 (sextets a 0 0)) @ (if padded then ''=='' else [])"
| "b64_encode alph padded [a, b] =
     map ((!) alph) (take 3 (sextets a b 0)) @ (if padded then ''='' else [])"
| "b64_encode alph padded (a # b # c # bs) =
     map ((!) alph) (sextets a b c) @ b64_encode alph padded bs"

definition StdEncoding_EncodeToString :: "bytes \<Rightarrow> string" where
  "StdEncoding_EncodeToString = b64_encode b64_std True"

definition RawURLEncoding_EncodeToString :: "bytes \<Rightarrow> string" where
  "RawURLEncoding_EncodeToString = b64_encode b64_url False"

fun index_of :: "char \<Rightarrow> string \<Rightarrow> nat option" where
  "index_of c [] = None"
| "index_of c (d # ds) = (if c = d then Some 0 else map_option Suc (index_of c ds))"

text \<open>The bytes of four six-bit groups.\<close>

definition octets :: "nat \<Rightarrow> nat \<Rightarrow> nat \<Rightarrow> nat \<Rightarrow> bytes" where
  "octets w x y z = [word_of_nat (w * 4 + x div 16), word_of_nat (x mod 16 * 16 + y div 4),
                     word_of_nat (y mod 4 * 64 + z)]"

text \<open>
  The padded decoder: the bytes decoded before an error, and whether there was none. Line breaks
  are skipped wherever they stand; unused bits of the last group are not checked.
\<close>

fun b64_quanta :: "string \<Rightarrow> string \<Rightarrow> bytes \<times> bool" where
  "b64_quanta alph [] = ([], True)"
| "b64_quanta alph (a # b # c # d # s) =
     (case (index_of a alph, index_of b alph, index_of c alph, index_of d alph) of
        (Some w, Some x, Some y, Some z) \<Rightarrow>
          (case b64_quanta alph s of (bs, ok) \<Rightarrow> (octets w x y z @ bs, ok))
      | (Some w, Some x, Some y, None) \<Rightarrow>
          if d = CHR ''='' then (take 2 (octets w x y 0), s = []) else ([], False)
      | (Some w, Some x, None, _) \<Rightarrow>
          if c = CHR ''='' \<and> d = CHR ''='' then (take 1 (octets w x 0 0), s = []) else ([], False)
      | _ \<Rightarrow> ([], False))"
| "b64_quanta alph s = ([], False)"

definition StdEncoding_DecodeString :: "string \<Rightarrow> bytes \<times> bool" where
  "StdEncoding_DecodeString s =
     b64_quanta b64_std (filter (\<lambda>c. c \<noteq> CHR 0x0A \<and> c \<noteq> CHR 0x0D) s)"

lemma index_b64_std:
  assumes "n < 64"
  shows "index_of (b64_std ! n) b64_std = Some n"
proof -
  have "\<forall>k \<in> set [0..<64]. index_of (b64_std ! k) b64_std = Some k" by code_simp
  with assms show ?thesis by simp
qed

lemma b64_std_no_pad: "index_of (CHR ''='') b64_std = None"
  by code_simp

lemma sextets_small: "list_all (\<lambda>n. n < 64) (sextets a b c)"
proof -
  have "unat a div 4 < 64" "unat b div 16 < 16" "unat c div 64 < 4"
    using unat_byte [of a] unat_byte [of b] unat_byte [of c] by simp_all
  moreover have "unat a mod 4 < 4" "unat b mod 16 < 16" by simp_all
  ultimately have "unat a mod 4 * 16 + unat b div 16 < 64" "unat b mod 16 * 4 + unat c div 64 < 64"
    by linarith+
  with \<open>unat a div 4 < 64\<close> show ?thesis by (simp add: sextets_def)
qed

lemma word_of_split: "word_of_nat (unat (a :: byte) div k * k + unat a mod k) = a"
  by (simp only: div_mult_mod_eq word_unat_self)

lemma octets_sextets:
  "octets (unat a div 4) (unat a mod 4 * 16 + unat b div 16)
     (unat b mod 16 * 4 + unat c div 64) (unat c mod 64) = [a, b, c]"
proof -
  have "unat b div 16 < 16" "unat c div 64 < 4"
    using unat_byte [of b] unat_byte [of c] by simp_all
  then have "(unat a mod 4 * 16 + unat b div 16) div 16 = unat a mod 4"
    and "(unat a mod 4 * 16 + unat b div 16) mod 16 = unat b div 16"
    and "(unat b mod 16 * 4 + unat c div 64) div 4 = unat b mod 16"
    and "(unat b mod 16 * 4 + unat c div 64) mod 4 = unat c div 64"
    by simp_all
  then show ?thesis by (simp add: octets_def word_of_split)
qed

lemma b64_std_quanta: "b64_quanta b64_std (b64_encode b64_std True bs) = (bs, True)"
proof (induction b64_std True bs rule: b64_encode.induct)
  case (2 a)
  show ?case
    using sextets_small [of a 0 0] octets_sextets [of a 0 0]
    by (simp add: sextets_def index_b64_std b64_std_no_pad octets_def)
next
  case (3 a b)
  show ?case
    using sextets_small [of a b 0] octets_sextets [of a b 0]
    by (simp add: sextets_def index_b64_std b64_std_no_pad octets_def)
next
  case (4 a b c bs)
  then show ?case
    using sextets_small [of a b c] octets_sextets [of a b c]
    by (simp add: sextets_def index_b64_std)
qed simp

text \<open>An encoding has no line break.\<close>

lemma b64_encode_chars:
  "length alph = 64 \<Longrightarrow> set (b64_encode alph padded bs) \<subseteq> set alph \<union> {CHR ''=''}"
proof (induction alph padded bs rule: b64_encode.induct)
  case (2 alph padded a)
  then show ?case using sextets_small [of a 0 0] by (auto simp: sextets_def)
next
  case (3 alph padded a b)
  then show ?case using sextets_small [of a b 0] by (auto simp: sextets_def)
next
  case (4 alph padded a b c bs)
  then show ?case using sextets_small [of a b c] by (simp add: sextets_def)
qed simp

lemma b64_std_chars: "set (StdEncoding_EncodeToString bs) \<subseteq> set b64_std \<union> {CHR ''=''}"
  unfolding StdEncoding_EncodeToString_def by (rule b64_encode_chars) code_simp

lemma b64_roundtrip [simp]:
  "StdEncoding_DecodeString (StdEncoding_EncodeToString bs) = (bs, True)"
proof -
  have "CHR 0x0A \<notin> set b64_std \<union> {CHR ''=''}" and "CHR 0x0D \<notin> set b64_std \<union> {CHR ''=''}"
    by code_simp+
  then have "filter (\<lambda>c. c \<noteq> CHR 0x0A \<and> c \<noteq> CHR 0x0D) (StdEncoding_EncodeToString bs)
      = StdEncoding_EncodeToString bs"
    using b64_std_chars [of bs] by (intro filter_True) blast
  then show ?thesis
    by (simp add: StdEncoding_DecodeString_def) (simp add: StdEncoding_EncodeToString_def b64_std_quanta)
qed

end
