(* ===== verification/Sha256.thy ===== *)
theory Sha256
  imports Encoding
begin

unbundle bit_operations_syntax

text \<open>
  \<open>crypto/sha256\<close>: \<open>sha256.Sum256\<close>, and \<open>sha256.New\<close> with a sequence of \<open>Write\<close>s, which is the
  digest of the concatenation. FIPS 180-4 on lists of bytes.
\<close>

text \<open>
  The first 32 bits of the fractional part of the \<open>e\<close>-th root of \<open>p\<close>: the root of
  \<open>p * 2 ^ (32 * e)\<close> is found bit by bit, and the conversion to 32 bits drops its integer part.
\<close>

definition frac_root :: "nat \<Rightarrow> nat \<Rightarrow> 32 word" where
  "frac_root e p = word_of_nat (foldl
     (\<lambda>r k. if (r + 2 ^ k) ^ e \<le> p * 2 ^ (32 * e) then r + 2 ^ k else r) 0 (rev [0..<40]))"

definition sha_primes :: "nat list" where
  "sha_primes =
     [2, 3, 5, 7, 11, 13, 17, 19, 23, 29, 31, 37, 41, 43, 47, 53, 59, 61, 67, 71, 73, 79, 83,
      89, 97, 101, 103, 107, 109, 113, 127, 131, 137, 139, 149, 151, 157, 163, 167, 173, 179,
      181, 191, 193, 197, 199, 211, 223, 227, 229, 233, 239, 241, 251, 257, 263, 269, 271,
      277, 281, 283, 293, 307, 311]"

definition sha_init :: "32 word list" where
  "sha_init = map (frac_root 2) (take 8 sha_primes)"

definition sha_k :: "32 word list" where
  "sha_k = map (frac_root 3) sha_primes"

definition small_sigma0 :: "32 word \<Rightarrow> 32 word" where
  "small_sigma0 x = word_rotr 7 x XOR word_rotr 18 x XOR drop_bit 3 x"

definition small_sigma1 :: "32 word \<Rightarrow> 32 word" where
  "small_sigma1 x = word_rotr 17 x XOR word_rotr 19 x XOR drop_bit 10 x"

definition big_sigma0 :: "32 word \<Rightarrow> 32 word" where
  "big_sigma0 x = word_rotr 2 x XOR word_rotr 13 x XOR word_rotr 22 x"

definition big_sigma1 :: "32 word \<Rightarrow> 32 word" where
  "big_sigma1 x = word_rotr 6 x XOR word_rotr 11 x XOR word_rotr 25 x"

text \<open>The message, a one bit, zeros up to 56 modulo 64, and the bit length in eight bytes.\<close>

definition be_bytes :: "nat \<Rightarrow> 'a::len word \<Rightarrow> bytes" where
  "be_bytes k w = map (\<lambda>i. ucast (drop_bit (8 * i) w)) (rev [0..<k])"

definition sha_pad :: "bytes \<Rightarrow> bytes" where
  "sha_pad m = m @ [0x80] @ replicate ((119 - length m mod 64) mod 64) 0
     @ be_bytes 8 (word_of_nat (8 * length m) :: 64 word)"

fun be_words :: "bytes \<Rightarrow> 32 word list" where
  "be_words (a # b # c # d # bs) =
     (push_bit 24 (ucast a) OR push_bit 16 (ucast b) OR push_bit 8 (ucast c) OR ucast d) # be_words bs"
| "be_words _ = []"

text \<open>The message schedule, the newest word first.\<close>

fun sha_schedule :: "nat \<Rightarrow> 32 word list \<Rightarrow> 32 word list" where
  "sha_schedule 0 ws = ws"
| "sha_schedule (Suc n) ws =
     sha_schedule n ((small_sigma1 (ws ! 1) + ws ! 6 + small_sigma0 (ws ! 14) + ws ! 15) # ws)"

fun sha_round :: "32 word list \<Rightarrow> 32 word \<times> 32 word \<Rightarrow> 32 word list" where
  "sha_round [a, b, c, d, e, f, g, h] (k, w) =
     (let t1 = h + big_sigma1 e + ((e AND f) XOR (NOT e AND g)) + k + w;
          t2 = big_sigma0 a + ((a AND b) XOR (a AND c) XOR (b AND c))
      in [t1 + t2, a, b, c, d + t1, e, f, g])"
| "sha_round s _ = s"

definition sha_block :: "32 word list \<Rightarrow> bytes \<Rightarrow> 32 word list" where
  "sha_block h blk =
     map2 (+) h (foldl sha_round h (zip sha_k (rev (sha_schedule 48 (rev (be_words blk))))))"

function sha_blocks :: "32 word list \<Rightarrow> bytes \<Rightarrow> 32 word list" where
  "sha_blocks h m = (if m = [] then h else sha_blocks (sha_block h (take 64 m)) (drop 64 m))"
  by pat_completeness auto
termination
  by (relation "measure (\<lambda>(h, m). length m)") auto

declare sha_blocks.simps [simp del]

definition sha256 :: "bytes \<Rightarrow> bytes" where
  "sha256 m = concat (map (\<lambda>w. be_bytes 4 w) (sha_blocks sha_init (sha_pad m)))"

text \<open>A digest has 32 bytes.\<close>

lemma length_sha_round: "length s = 8 \<Longrightarrow> length (sha_round s kw) = 8"
  by (cases "(s, kw)" rule: sha_round.cases) (simp_all add: Let_def)

lemma length_sha_rounds: "length s = 8 \<Longrightarrow> length (foldl sha_round s kws) = 8"
  by (induction kws arbitrary: s) (simp_all add: length_sha_round)

lemma length_sha_block: "length h = 8 \<Longrightarrow> length (sha_block h blk) = 8"
  by (simp add: sha_block_def length_sha_rounds)

lemma length_sha_blocks: "length h = 8 \<Longrightarrow> length (sha_blocks h m) = 8"
proof (induction h m rule: sha_blocks.induct)
  case (1 h m)
  then show ?case by (subst sha_blocks.simps) (simp add: length_sha_block)
qed

lemma length_sha256 [simp]: "length (sha256 m) = 32"
proof -
  have "length (concat (map (\<lambda>w. be_bytes 4 w) ws)) = 4 * length ws" for ws :: "32 word list"
    by (induction ws) (simp_all add: be_bytes_def)
  moreover have "length (sha_blocks sha_init (sha_pad m)) = 8"
    by (rule length_sha_blocks) (simp add: sha_init_def sha_primes_def)
  ultimately show ?thesis by (simp add: sha256_def)
qed

end
