(* ===== verification/Srp.thy ===== *)
theory Srp
  imports Sha256
begin

text \<open>
  \<open>pkg/srp/srp.go\<close>: the server side of SRP-6a in the 2048-bit group of RFC 5054 with SHA-256. A
  \<open>big.Int\<close> is never negative here and is a natural number. The random bytes of \<open>rand.Read\<close> are an
  argument, \<open>None\<close> when the source of randomness fails. Shown: the server accepts exactly the proof of
  a client that knows the private key, a session survives its snapshot, and a public value that is 0
  modulo the prime is refused.
\<close>

section \<open>The group\<close>

definition nHex :: string where
  "nHex = ''ffffffffffffffffc90fdaa22168c234c4c6628b80dc1cd1''
    @ ''29024e088a67cc74020bbea63b139b22514a08798e3404dd''
    @ ''ef9519b3cd3a431b302b0a6df25f14374fe1356d6d51c245''
    @ ''e485b576625e7ec6f44c42e9a637ed6b0bff5cb6f406b7ed''
    @ ''ee386bfb5a899fa5ae9f24117c4b1fe649286651ece45b3d''
    @ ''c2007cb8a163bf0598da48361c55d39a69163fa8fd24cf5f''
    @ ''83655d23dca3ad961c62f356208552bb9ed529077096966d''
    @ ''670c354e4abc9804f1746c08ca18217c32905e462e36ce3b''
    @ ''e39e772c180e86039b2783a2ec07a28fb5c55df06f4c52c9''
    @ ''de2bcbf6955817183995497cea956ae515d2261898fa0510''
    @ ''15728e5a8aacaa68ffffffffffffffff''"

text \<open>\<open>new(big.Int).SetString(h, 16)\<close> of an unsigned literal; \<open>None\<close> is the panic.\<close>

fun hex_digits_value :: "nat \<Rightarrow> string \<Rightarrow> nat option" where
  "hex_digits_value n [] = Some n"
| "hex_digits_value n (c # s) =
     (case hex_value c of None \<Rightarrow> None | Some d \<Rightarrow> hex_digits_value (16 * n + d) s)"

definition mustParseBigInt :: "string \<Rightarrow> nat option" where
  "mustParseBigInt h = (if h = [] then None else hex_digits_value 0 h)"

definition bigN :: nat where
  "bigN = (case mustParseBigInt nHex of Some n \<Rightarrow> n | None \<Rightarrow> 0)"

definition bigG :: nat where
  "bigG = 2"

text \<open>\<open>big.Int.BitLen\<close> and \<open>big.Int.Exp\<close> (by squaring).\<close>

fun BitLen :: "nat \<Rightarrow> nat" where
  "BitLen n = (if n = 0 then 0 else Suc (BitLen (n div 2)))"

fun Exp :: "nat \<Rightarrow> nat \<Rightarrow> nat \<Rightarrow> nat" where
  "Exp x y m =
     (if y = 0 then 1 mod m
      else (let h = Exp (x * x mod m) (y div 2) m in if odd y then h * x mod m else h))"

declare BitLen.simps [simp del] Exp.simps [simp del]

definition pad :: "nat \<Rightarrow> bytes" where
  "pad x = (let nLen = (BitLen bigN + 7) div 8; xBytes = Bytes x in
     if length xBytes \<ge> nLen then xBytes
     else replicate (nLen - length xBytes) 0 @ xBytes)"

definition computeGroupMultiplier :: nat where
  "computeGroupMultiplier = SetBytes (sha256 (pad bigN @ pad bigG))"

definition computeXorNG :: bytes where
  "computeXorNG = map2 (XOR) (sha256 (pad bigN)) (sha256 (pad bigG))"

abbreviation bigK :: nat where
  "bigK \<equiv> computeGroupMultiplier"

abbreviation srpXorNG :: bytes where
  "srpXorNG \<equiv> computeXorNG"

section \<open>The server session\<close>

datatype srp_err = ErrInvalidProof | DecodeErr string | RandErr

record ServerSession =
  ss_verifier :: nat
  ss_b :: nat
  ss_B :: nat

definition NewServerSession :: "bytes option \<Rightarrow> string \<Rightarrow> srp_err + ServerSession" where
  "NewServerSession rnd verifierHex =
     (case hex_DecodeString verifierHex of
        None \<Rightarrow> Inl (DecodeErr ''verifier'')
      | Some vBytes \<Rightarrow> (let v = SetBytes vBytes in
          case rnd of
            None \<Rightarrow> Inl RandErr
          | Some bBytes \<Rightarrow> (let b = SetBytes bBytes; kv = bigK * v mod bigN; gb = Exp bigG b bigN
              in Inr \<lparr>ss_verifier = v, ss_b = b, ss_B = (kv + gb) mod bigN\<rparr>)))"

definition PublicEphemeralHex :: "ServerSession \<Rightarrow> string" where
  "PublicEphemeralHex s = hex_EncodeToString (pad (ss_B s))"

definition Snapshot :: "ServerSession \<Rightarrow> string \<times> string \<times> string" where
  "Snapshot s = (hex_EncodeToString (Bytes (ss_verifier s)), hex_EncodeToString (Bytes (ss_b s)),
                 hex_EncodeToString (pad (ss_B s)))"

definition hexToBigInt :: "string \<Rightarrow> nat option" where
  "hexToBigInt h = map_option SetBytes (hex_DecodeString h)"

definition NewServerSessionFromSnapshot ::
  "string \<Rightarrow> string \<Rightarrow> string \<Rightarrow> srp_err + ServerSession" where
  "NewServerSessionFromSnapshot verifierHex bHex BHex =
     (case hexToBigInt verifierHex of None \<Rightarrow> Inl (DecodeErr ''verifier'')
      | Some v \<Rightarrow> (case hexToBigInt bHex of None \<Rightarrow> Inl (DecodeErr ''b'')
        | Some b \<Rightarrow> (case hexToBigInt BHex of None \<Rightarrow> Inl (DecodeErr ''B'')
          | Some B \<Rightarrow> Inr \<lparr>ss_verifier = v, ss_b = b, ss_B = B\<rparr>)))"

definition srpSessionKey :: "nat \<Rightarrow> nat \<Rightarrow> nat \<Rightarrow> nat \<Rightarrow> bytes" where
  "srpSessionKey A v b B =
     (let u = SetBytes (sha256 (pad A @ pad B));
          vu = Exp v u bigN;
          base = A * vu mod bigN;
          S = Exp base b bigN
      in sha256 (pad S))"

definition srpComputeM1 :: "nat \<Rightarrow> nat \<Rightarrow> bytes \<Rightarrow> string \<Rightarrow> bytes \<Rightarrow> bytes" where
  "srpComputeM1 A B K username saltBytes =
     sha256 (srpXorNG @ sha256 (string_bytes username) @ saltBytes @ pad A @ pad B @ K)"

definition srpComputeM2 :: "nat \<Rightarrow> bytes \<Rightarrow> bytes \<Rightarrow> bytes" where
  "srpComputeM2 A M1 K = sha256 (pad A @ M1 @ K)"

definition VerifyClientProof ::
  "ServerSession \<Rightarrow> string \<Rightarrow> string \<Rightarrow> string \<Rightarrow> string \<Rightarrow> srp_err + string" where
  "VerifyClientProof s aHex m1Hex username srpSaltHex =
     (case hex_DecodeString aHex of
        None \<Rightarrow> Inl (DecodeErr ''A'')
      | Some aBytes \<Rightarrow> (let A = SetBytes aBytes in
          if A mod bigN = 0 then Inl ErrInvalidProof
          else (case hex_DecodeString srpSaltHex of
             None \<Rightarrow> Inl (DecodeErr ''salt'')
           | Some saltBytes \<Rightarrow>
               (let K = srpSessionKey A (ss_verifier s) (ss_b s) (ss_B s);
                    wantM1 = srpComputeM1 A (ss_B s) K username saltBytes
                in case hex_DecodeString m1Hex of
                     None \<Rightarrow> Inl (DecodeErr ''M1'')
                   | Some gotM1 \<Rightarrow>
                       if wantM1 \<noteq> gotM1 then Inl ErrInvalidProof
                       else Inr (hex_EncodeToString (srpComputeM2 A wantM1 K))))))"

text \<open>
  The client of \<open>pkg/srp/srp_test.go\<close>: private ephemeral \<open>a\<close>, private key \<open>x\<close>. \<open>big.Int.Mod\<close> is
  Euclidean, so the difference is reduced as an integer.
\<close>

definition clientSessionKey :: "nat \<Rightarrow> nat \<Rightarrow> nat \<Rightarrow> nat \<Rightarrow> bytes" where
  "clientSessionKey a A x B =
     (let u = SetBytes (sha256 (pad A @ pad B));
          kgx = bigK * Exp bigG x bigN mod bigN;
          base = nat ((int B - int kgx) mod int bigN);
          S = Exp base (a + u * x) bigN
      in sha256 (pad S))"

section \<open>Arithmetic\<close>

lemma Exp_power: "Exp x y m = x ^ y mod m"
proof (induction x y m rule: Exp.induct)
  case (1 x y m)
  show ?case
  proof (cases "y = 0")
    case True
    then show ?thesis by (simp add: Exp.simps)
  next
    case False
    have "Exp (x * x mod m) (y div 2) m = (x * x mod m) ^ (y div 2) mod m" by (rule 1 [OF False])
    also have "\<dots> = x ^ (2 * (y div 2)) mod m"
      by (simp add: power_mod power_mult power2_eq_square)
    finally have h: "Exp (x * x mod m) (y div 2) m = x ^ (2 * (y div 2)) mod m" .
    show ?thesis
    proof (cases "odd y")
      case True
      then have "x ^ y = x ^ (2 * (y div 2)) * x" by (metis odd_two_times_div_two_succ power_add power_one_right)
      with True False h show ?thesis by (subst Exp.simps) (simp add: mod_mult_left_eq)
    next
      case even: False
      with False h show ?thesis by (subst Exp.simps) simp
    qed
  qed
qed

lemma BitLen_eq: "2 ^ k \<le> n \<Longrightarrow> n < 2 ^ Suc k \<Longrightarrow> BitLen n = Suc k"
proof (induction k arbitrary: n)
  case 0
  then have "n = 1" by simp
  then show ?case by (simp add: BitLen.simps)
next
  case (Suc k)
  then have "2 ^ k \<le> n div 2" and "n div 2 < 2 ^ Suc k" by (auto simp: div_less_iff_less_mult)
  with Suc show ?case by (subst BitLen.simps) simp
qed

text \<open>The constant parses; the prime is odd and has 2048 bits.\<close>

lemma hex_value_less: "hex_value c = Some d \<Longrightarrow> d < 16"
  by (auto simp: hex_value_def Let_def split: if_splits)

lemma hex_digits_total:
  "list_all (\<lambda>c. hex_value c \<noteq> None) s \<Longrightarrow> hex_digits_value n s \<noteq> None"
  by (induction s arbitrary: n) auto

lemma hex_digits_bounds:
  "hex_digits_value n s = Some m \<Longrightarrow> n * 16 ^ length s \<le> m \<and> m < Suc n * 16 ^ length s"
proof (induction s arbitrary: n)
  case (Cons c s)
  then obtain d where d: "hex_value c = Some d" and m: "hex_digits_value (16 * n + d) s = Some m"
    by (auto split: option.splits)
  have "(16 * n + d) * 16 ^ length s \<le> m" and u: "m < Suc (16 * n + d) * 16 ^ length s"
    using Cons.IH [OF m] by simp_all
  then have "n * 16 ^ length (c # s) \<le> m" by (simp add: algebra_simps)
  moreover have "Suc (16 * n + d) * 16 ^ length s \<le> (16 * Suc n) * 16 ^ length s"
    using hex_value_less [OF d] by (intro mult_le_mono1) simp
  with u have "m < (16 * Suc n) * 16 ^ length s" by (rule less_le_trans)
  then have "m < Suc n * 16 ^ length (c # s)" by (simp add: algebra_simps)
  ultimately show ?case by blast
qed simp

lemma hex_digits_last:
  assumes "hex_digits_value n (s @ [c]) = Some m"
  shows "\<exists>k d. hex_value c = Some d \<and> m = 16 * k + d"
  using assms
proof (induction s arbitrary: n)
  case Nil
  then show ?case by (auto split: option.splits)
next
  case (Cons c' s)
  then show ?case by (auto split: option.splits)
qed

definition nHex_inner :: string where
  "nHex_inner = butlast (tl nHex)"

lemma nHex_shape: "nHex = CHR ''f'' # nHex_inner @ [CHR ''f'']"
  unfolding nHex_inner_def by code_simp

lemma nHex_length: "length nHex_inner = 510"
  by code_simp

lemma nHex_digits: "list_all (\<lambda>c. hex_value c \<noteq> None) nHex"
  by (simp add: nHex_def hex_value_def)

lemma hex_value_f: "hex_value (CHR ''f'') = Some 15"
  by (simp add: hex_value_def)

lemma bigN_parsed: "hex_digits_value 0 nHex = Some bigN"
proof -
  have "nHex \<noteq> []" by (simp add: nHex_shape)
  with hex_digits_total [OF nHex_digits, of 0] show ?thesis
    by (auto simp: bigN_def mustParseBigInt_def)
qed

lemma bigN_odd: "odd bigN"
proof -
  obtain k where "bigN = 16 * k + 15"
    using hex_digits_last [of 0 "CHR ''f'' # nHex_inner" "CHR ''f''" bigN] bigN_parsed
    by (auto simp: nHex_shape hex_value_f)
  then show ?thesis by presburger
qed

lemma bigN_size: "2 ^ 2047 \<le> bigN" "bigN < 2 ^ 2048"
proof -
  have "hex_digits_value 15 (nHex_inner @ [CHR ''f'']) = Some bigN"
    using bigN_parsed by (simp add: nHex_shape hex_value_f)
  then have b: "15 * 16 ^ 511 \<le> bigN" "bigN < 16 * 16 ^ 511"
    using hex_digits_bounds [of 15 "nHex_inner @ [CHR ''f'']" bigN] nHex_length by simp_all
  have p: "(2 :: nat) ^ 2047 = 8 * 16 ^ 511" "(2 :: nat) ^ 2048 = 16 * 16 ^ 511"
    by simp_all
  show "2 ^ 2047 \<le> bigN" "bigN < 2 ^ 2048" unfolding p using b by linarith+
qed

lemma bigN_BitLen: "BitLen bigN = 2048"
  using BitLen_eq [of 2047 bigN] bigN_size by simp

lemma bigN_gt1: "1 < bigN"
proof -
  have "(1 :: nat) < 2 ^ 2047" by (rule one_less_power) simp_all
  with bigN_size(1) show ?thesis by (rule less_le_trans [rotated])
qed

lemma SetBytes_pad [simp]: "SetBytes (pad x) = x"
  by (simp add: pad_def Let_def)

lemma length_pad:
  assumes "x < bigN"
  shows "length (pad x) = 256"
proof -
  have "(2 :: nat) ^ 2048 = 256 ^ 256" by simp
  with assms bigN_size(2) have "x < 256 ^ 256" by linarith
  then show ?thesis using length_Bytes [of x 256] by (simp add: pad_def Let_def bigN_BitLen)
qed

text \<open>A power of the generator is never 0 modulo the prime.\<close>

lemma power_bigG_nonzero: "bigG ^ a mod bigN \<noteq> 0"
proof
  assume "bigG ^ a mod bigN = 0"
  then have "bigN dvd 2 ^ a" by (simp add: bigG_def mod_eq_0_iff_dvd)
  moreover have "coprime bigN (2 ^ a)" using bigN_odd by (simp add: coprime_commute)
  ultimately have "is_unit bigN" using coprime_absorb_left [of bigN "2 ^ a"] by blast
  then have "bigN = 1" by simp
  with bigN_gt1 show False by simp
qed

section \<open>Properties\<close>

text \<open>Client and server arrive at the same key.\<close>

lemma client_base:
  assumes "v = bigG ^ x mod bigN"
  shows "nat ((int ((bigK * v mod bigN + gb) mod bigN) - int (bigK * v mod bigN)) mod int bigN) = gb mod bigN"
proof -
  have "(int ((bigK * v mod bigN + gb) mod bigN) - int (bigK * v mod bigN)) mod int bigN
      = (int (bigK * v mod bigN) + int gb - int (bigK * v mod bigN)) mod int bigN"
    by (simp add: zmod_int mod_diff_left_eq)
  then show ?thesis by (simp add: zmod_int nat_mod_distrib)
qed

lemma key_agreement:
  assumes "v = bigG ^ x mod bigN" and "A = bigG ^ a mod bigN"
    and "B = (bigK * v mod bigN + bigG ^ b mod bigN) mod bigN"
  shows "clientSessionKey a A x B = srpSessionKey A v b B"
proof -
  define u where "u = SetBytes (sha256 (pad A @ pad B))"
  have base: "nat ((int B - int (bigK * v mod bigN)) mod int bigN) = bigG ^ b mod bigN"
    unfolding assms(3) by (simp add: client_base [OF assms(1)])
  have vu: "v ^ u mod bigN = (bigG ^ x) ^ u mod bigN"
    unfolding assms(1) by (rule power_mod)
  have "(A * (v ^ u mod bigN) mod bigN) ^ b mod bigN = (A * (v ^ u mod bigN)) ^ b mod bigN"
    by (rule power_mod)
  also have "\<dots> = (bigG ^ a * (bigG ^ x) ^ u) ^ b mod bigN"
    unfolding vu assms(2) by (metis mod_mult_eq power_mod)
  also have "(bigG ^ a * (bigG ^ x) ^ u) ^ b = (bigG ^ b) ^ (a + u * x)"
    by (simp add: power_add power_mult_distrib mult.commute mult.left_commute flip: power_mult)
  also have "\<dots> mod bigN = (bigG ^ b mod bigN) ^ (a + u * x) mod bigN"
    by (rule power_mod [symmetric])
  finally have "Exp (A * Exp v u bigN mod bigN) b bigN = Exp (bigG ^ b mod bigN) (a + u * x) bigN"
    by (simp add: Exp_power)
  then show ?thesis
    using base by (simp add: clientSessionKey_def srpSessionKey_def Let_def Exp_power assms(1) flip: u_def)
qed

text \<open>A session for a stored verifier, and the proof of the client that knows its key.\<close>

lemma verifier_session:
  "\<exists>s. NewServerSession (Some rnd) (hex_EncodeToString (Bytes (Exp bigG x bigN))) = Inr s"
  by (simp add: NewServerSession_def Let_def)

lemma handshake:
  fixes a x :: nat and username :: string and salt rnd :: bytes
  assumes "NewServerSession (Some rnd) (hex_EncodeToString (Bytes (Exp bigG x bigN))) = Inr s"
  defines "A \<equiv> Exp bigG a bigN"
  defines "M1 \<equiv> srpComputeM1 A (ss_B s) (clientSessionKey a A x (ss_B s)) username salt"
  shows "VerifyClientProof s (hex_EncodeToString (pad A)) (hex_EncodeToString M1) username
      (hex_EncodeToString salt)
    = Inr (hex_EncodeToString (srpComputeM2 A M1 (clientSessionKey a A x (ss_B s))))"
proof -
  define v where "v = bigG ^ x mod bigN"
  define B where "B = (bigK * v mod bigN + bigG ^ SetBytes rnd mod bigN) mod bigN"
  have s: "s = \<lparr>ss_verifier = v, ss_b = SetBytes rnd, ss_B = B\<rparr>"
    using assms(1) by (simp add: NewServerSession_def Let_def Exp_power v_def B_def)
  have "clientSessionKey a (bigG ^ a mod bigN) x B = srpSessionKey (bigG ^ a mod bigN) v (SetBytes rnd) B"
    by (rule key_agreement) (simp_all add: v_def B_def)
  then show ?thesis
    by (simp add: s VerifyClientProof_def Let_def Exp_power power_bigG_nonzero A_def M1_def)
qed

text \<open>
  C33. The handshake succeeds for a client that knows the private key: whatever the password key
  \<open>x\<close>, the ephemerals and the salt, the server that stores \<open>g^x mod N\<close> accepts the client's proof and
  answers with the proof the client expects.
\<close>

theorem srp_handshake:
  "\<exists>s. NewServerSession (Some rnd) (hex_EncodeToString (Bytes (Exp bigG x bigN))) = Inr s
     \<and> (let A = Exp bigG a bigN; K = clientSessionKey a A x (ss_B s);
            M1 = srpComputeM1 A (ss_B s) K username salt
        in VerifyClientProof s (hex_EncodeToString (pad A)) (hex_EncodeToString M1) username
             (hex_EncodeToString salt)
           = Inr (hex_EncodeToString (srpComputeM2 A M1 K)))"
  using verifier_session [of rnd x] handshake unfolding Let_def by blast

text \<open>
  A proof is accepted only when it decodes to the one value the server computes from its own
  session, for a public value that is not 0 modulo the prime: two accepted proofs for the same
  public value, identity and salt decode to the same bytes and get the same answer.
\<close>

lemma VerifyClientProof_unique:
  assumes "VerifyClientProof s aHex m1Hex username saltHex = Inr m2"
    and "VerifyClientProof s aHex m1Hex' username saltHex = Inr m2'"
  shows "m2 = m2' \<and> hex_DecodeString m1Hex = hex_DecodeString m1Hex'
    \<and> (\<exists>A. hexToBigInt aHex = Some A \<and> A mod bigN \<noteq> 0)"
  using assms
  by (auto simp: VerifyClientProof_def hexToBigInt_def Let_def split: option.splits if_splits)

text \<open>
  Saving a session and loading it again gives the same session, whatever numbers it holds.
\<close>

lemma Snapshot_roundtrip:
  "(case Snapshot s of (verifierHex, bHex, BHex) \<Rightarrow>
      NewServerSessionFromSnapshot verifierHex bHex BHex) = Inr s"
  by (simp add: Snapshot_def NewServerSessionFromSnapshot_def hexToBigInt_def)

text \<open>
  C34. The public value a new session sends has 512 hexadecimal digits and decodes to its
  number below the prime.
\<close>

theorem PublicEphemeralHex_size:
  assumes "NewServerSession rnd verifierHex = Inr s"
  shows "length (PublicEphemeralHex s) = 512 \<and> hexToBigInt (PublicEphemeralHex s) = Some (ss_B s)
    \<and> ss_B s < bigN"
proof -
  have B: "ss_B s < bigN"
    using assms bigN_gt1
    by (auto simp: NewServerSession_def Let_def split: option.splits)
  then have "length (pad (ss_B s)) = 256" by (rule length_pad)
  with B show ?thesis by (simp add: PublicEphemeralHex_def length_hex hexToBigInt_def)
qed

end
