(* ===== verification/Session_Repo.thy ===== *)
theory Session_Repo
  imports Schema Srp
begin

text \<open>
  The tables behind authentication: \<open>users.go\<close>, \<open>device_sessions.go\<close>, \<open>refresh_sessions.go\<close> and
  \<open>password_reset.go\<close> of \<open>internal/repo/persistent/postgres\<close>, and the parameter types of
  \<open>internal/usecase/auth/models.go\<close>. Identifiers drawn by \<open>gen_random_uuid()\<close> are arguments.
\<close>

section \<open>Parameters and results\<close>

record DeviceInfo =
  di_UserAgent :: string
  di_IPAddress :: string
  di_DeviceName :: string
  di_DeviceID :: string

record NewUserParams =
  nu_ID :: uuid
  nu_Email :: string
  nu_SRPSalt :: string
  nu_SRPVerifier :: string
  nu_BcryptSalt :: string
  nu_CryptoSalt :: bytes
  nu_PublicKey :: bytes
  nu_EncryptedPrivateKey :: bytes
  nu_KEKEncryptedMaster :: bytes
  nu_KEKEncryptedRecovery :: bytes
  nu_RecoverySalt :: bytes

record RecoveryData =
  rd_UserID :: uuid
  rd_KEKEncryptedRecovery :: bytes
  rd_RecoverySalt :: bytes

record ResetPasswordParams =
  rp_SRPSalt :: string
  rp_SRPVerifier :: string
  rp_BcryptSalt :: string
  rp_CryptoSalt :: bytes
  rp_KEKEncryptedMaster :: bytes
  rp_KEKEncryptedRecovery :: bytes
  rp_RecoverySalt :: bytes

record RefreshSessionParams =
  rf_SessionID :: uuid
  rf_UserID :: uuid
  rf_DeviceSessionID :: uuid
  rf_TokenHash :: bytes
  rf_ClientKey :: bytes
  rf_ExpiresAt :: time

record ConsumedSession =
  cs_SessionID :: uuid
  cs_UserID :: uuid
  cs_DeviceSessionID :: uuid
  cs_ClientKey :: bytes

text \<open>\<open>entity.User\<close>: a null column is the empty slice.\<close>

record User =
  u_ID :: uuid
  u_Email :: string
  u_SRPSalt :: string
  u_SRPVerifier :: string
  u_BcryptSalt :: string
  u_CryptoSalt :: bytes
  u_PublicKey :: bytes
  u_EncryptedPrivateKey :: bytes
  u_KEKEncryptedMaster :: bytes
  u_KEKEncryptedRecovery :: bytes
  u_RecoverySalt :: bytes

text \<open>\<open>entity.DeviceSession\<close> as the list query scans it: \<open>RevokedAt\<close> is not selected.\<close>

record DeviceSession =
  dv_ID :: uuid
  dv_UserID :: uuid
  dv_DeviceName :: string
  dv_IPAddress :: string
  dv_UserAgent :: string
  dv_CreatedAt :: time
  dv_LastActiveAt :: time

section \<open>users.go\<close>

definition nullableBytes :: "bytes \<Rightarrow> bytes option" where
  "nullableBytes b = (if b = [] then None else Some b)"

definition scan_bytes :: "bytes option \<Rightarrow> bytes" where
  "scan_bytes c = (case c of None \<Rightarrow> [] | Some b \<Rightarrow> b)"

lemma scan_nullableBytes [simp]: "scan_bytes (nullableBytes b) = b"
  by (simp add: scan_bytes_def nullableBytes_def)

text \<open>\<open>INSERT INTO users\<close>: the length check, the primary key and the unique address.\<close>

definition insert_user :: "user_row \<Rightarrow> unit stmt" where
  "insert_user u d =
     (if char_length (us_email u) < 3 \<or> 320 < char_length (us_email u) then Inl CheckViolation
      else if us_id u \<in> us_id ` set (users d) \<or> us_email u \<in> us_email ` set (users d)
        then Inl UniqueViolation
      else Inr ((), d\<lparr>users := users d @ [u]\<rparr>))"

definition user_row_of :: "time \<Rightarrow> NewUserParams \<Rightarrow> user_row" where
  "user_row_of now p =
     \<lparr>us_id = nu_ID p, us_email = nu_Email p, us_srp_salt = nu_SRPSalt p,
      us_srp_verifier = nu_SRPVerifier p, us_bcrypt_salt = nu_BcryptSalt p,
      us_crypto_salt = nu_CryptoSalt p, us_public_key = nullableBytes (nu_PublicKey p),
      us_encrypted_private_key = nullableBytes (nu_EncryptedPrivateKey p),
      us_kek_encrypted_master = nullableBytes (nu_KEKEncryptedMaster p),
      us_kek_encrypted_recovery = nullableBytes (nu_KEKEncryptedRecovery p),
      us_recovery_salt = nullableBytes (nu_RecoverySalt p), us_created_at = now\<rparr>"

datatype auth_err =
    ErrInvalidInput | ErrUserExists | ErrInvalidCredentials | ErrInvalidRefresh
  | ErrSessionNotFound | ErrResetTokenInvalid
  | Database pg_err | SrpError srp_err | SrpAtCapacity | TokenError | RandomError | NotifyError

definition CreateUser_pg :: "NewUserParams \<Rightarrow> ('x world_scheme, auth_err, unit) eff" where
  "CreateUser_pg p =
     map_err (\<lambda>e. if e = UniqueViolation then ErrUserExists else Database e)
       (db_call (\<lambda>now. insert_user (user_row_of now p)))"

definition user_of_row :: "user_row \<Rightarrow> User" where
  "user_of_row r =
     \<lparr>u_ID = us_id r, u_Email = us_email r, u_SRPSalt = us_srp_salt r,
      u_SRPVerifier = us_srp_verifier r, u_BcryptSalt = us_bcrypt_salt r,
      u_CryptoSalt = us_crypto_salt r, u_PublicKey = scan_bytes (us_public_key r),
      u_EncryptedPrivateKey = scan_bytes (us_encrypted_private_key r),
      u_KEKEncryptedMaster = scan_bytes (us_kek_encrypted_master r),
      u_KEKEncryptedRecovery = scan_bytes (us_kek_encrypted_recovery r),
      u_RecoverySalt = scan_bytes (us_recovery_salt r)\<rparr>"

lemma user_of_row_sel [simp]:
  "u_ID (user_of_row r) = us_id r" "u_Email (user_of_row r) = us_email r"
  "u_SRPSalt (user_of_row r) = us_srp_salt r" "u_SRPVerifier (user_of_row r) = us_srp_verifier r"
  "u_BcryptSalt (user_of_row r) = us_bcrypt_salt r" "u_CryptoSalt (user_of_row r) = us_crypto_salt r"
  by (simp_all add: user_of_row_def)

definition GetByEmail_pg :: "string \<Rightarrow> ('x world_scheme, pg_err, User option) eff" where
  "GetByEmail_pg email =
     query (\<lambda>now d. map_option user_of_row (find (\<lambda>r. us_email r = email) (users d)))"

definition GetRecoveryDataByUserID_pg ::
  "uuid \<Rightarrow> ('x world_scheme, pg_err, RecoveryData option) eff" where
  "GetRecoveryDataByUserID_pg userID =
     query (\<lambda>now d. map_option
       (\<lambda>r. \<lparr>rd_UserID = us_id r,
              rd_KEKEncryptedRecovery = scan_bytes (us_kek_encrypted_recovery r),
              rd_RecoverySalt = scan_bytes (us_recovery_salt r)\<rparr>)
       (find (\<lambda>r. us_id r = userID) (users d)))"

definition set_credentials :: "ResetPasswordParams \<Rightarrow> user_row \<Rightarrow> user_row" where
  "set_credentials p r =
     r\<lparr>us_srp_salt := rp_SRPSalt p, us_srp_verifier := rp_SRPVerifier p,
       us_bcrypt_salt := rp_BcryptSalt p, us_crypto_salt := rp_CryptoSalt p,
       us_kek_encrypted_master := nullableBytes (rp_KEKEncryptedMaster p),
       us_kek_encrypted_recovery := nullableBytes (rp_KEKEncryptedRecovery p),
       us_recovery_salt := nullableBytes (rp_RecoverySalt p)\<rparr>"

definition UpdateCredentialsAndKEK_pg ::
  "uuid \<Rightarrow> ResetPasswordParams \<Rightarrow> ('x world_scheme, pg_err, unit) eff" where
  "UpdateCredentialsAndKEK_pg userID p =
     db_call (\<lambda>now d. Inr ((),
       d\<lparr>users := map (\<lambda>r. if us_id r = userID then set_credentials p r else r) (users d)\<rparr>))"

definition GetCryptoSaltAndKEKByUserID_pg ::
  "uuid \<Rightarrow> ('x world_scheme, pg_err, bytes \<times> bytes \<times> bytes) eff" where
  "GetCryptoSaltAndKEKByUserID_pg userID =
     query (\<lambda>now d. case find (\<lambda>r. us_id r = userID) (users d) of
       None \<Rightarrow> ([], [], [])
     | Some r \<Rightarrow> (us_crypto_salt r, scan_bytes (us_kek_encrypted_master r),
                   scan_bytes (us_encrypted_private_key r)))"

section \<open>device\_sessions.go\<close>

definition same_active_device :: "uuid \<Rightarrow> string \<Rightarrow> device_session \<Rightarrow> bool" where
  "same_active_device userID dev r =
     (ds_UserID r = userID \<and> ds_device_id r = dev \<and> dev \<noteq> [] \<and> ds_RevokedAt r = None)"

text \<open>\<open>INSERT INTO device_sessions\<close>: primary key, the active device index, the user.\<close>

definition insert_device_session :: "device_session \<Rightarrow> unit stmt" where
  "insert_device_session r d =
     (if ds_ID r \<in> ds_ID ` set (device_sessions d)
         \<or> (\<exists>r' \<in> set (device_sessions d). same_active_device (ds_UserID r) (ds_device_id r) r')
        then Inl UniqueViolation
      else if \<not> user_exists (ds_UserID r) d then Inl ForeignKeyViolation
      else Inr ((), d\<lparr>device_sessions := device_sessions d @ [r]\<rparr>))"

definition new_device_session :: "time \<Rightarrow> uuid \<Rightarrow> uuid \<Rightarrow> DeviceInfo \<Rightarrow> device_session" where
  "new_device_session now i userID device =
     \<lparr>ds_ID = i, ds_UserID = userID, ds_device_id = di_DeviceID device,
      ds_DeviceName = di_DeviceName device, ds_IPAddress = di_IPAddress device,
      ds_UserAgent = di_UserAgent device, ds_CreatedAt = now, ds_LastActiveAt = now,
      ds_RevokedAt = None\<rparr>"

definition touch_device_session :: "time \<Rightarrow> DeviceInfo \<Rightarrow> device_session \<Rightarrow> device_session" where
  "touch_device_session now device r =
     r\<lparr>ds_DeviceName := di_DeviceName device, ds_IPAddress := di_IPAddress device,
       ds_UserAgent := di_UserAgent device, ds_LastActiveAt := now\<rparr>"

text \<open>\<open>UPDATE .. SET revoked_at = now() WHERE p AND revoked_at IS NULL\<close> on the two session tables.\<close>

definition revoke_devices :: "time \<Rightarrow> (device_session \<Rightarrow> bool) \<Rightarrow> db \<Rightarrow> db" where
  "revoke_devices now p d = d\<lparr>device_sessions :=
     map (\<lambda>r. if p r \<and> ds_RevokedAt r = None then r\<lparr>ds_RevokedAt := Some now\<rparr> else r)
       (device_sessions d)\<rparr>"

definition revoke_refresh :: "time \<Rightarrow> (refresh_session \<Rightarrow> bool) \<Rightarrow> db \<Rightarrow> db" where
  "revoke_refresh now p d = d\<lparr>refresh_sessions :=
     map (\<lambda>r. if p r \<and> rs_revoked_at r = None then r\<lparr>rs_revoked_at := Some now\<rparr> else r)
       (refresh_sessions d)\<rparr>"

text \<open>
  Without a device identifier a row is inserted. With one, \<open>ON CONFLICT DO UPDATE\<close> takes over the
  active session of the device, and the refresh tokens it had are revoked.
\<close>

definition CreateDeviceSession_stmt :: "uuid \<Rightarrow> uuid \<Rightarrow> DeviceInfo \<Rightarrow> time \<Rightarrow> uuid stmt" where
  "CreateDeviceSession_stmt i userID device now =
     (if di_DeviceID device = []
      then stmt_bind (insert_device_session (new_device_session now i userID device)) (\<lambda>_. stmt_ret i)
      else stmt_bind (stmt_read (\<lambda>d. find (same_active_device userID (di_DeviceID device)) (device_sessions d)))
        (\<lambda>c. case c of
           None \<Rightarrow> stmt_bind (insert_device_session (new_device_session now i userID device))
                     (\<lambda>_. stmt_ret i)
         | Some r \<Rightarrow> (\<lambda>d. Inr (ds_ID r,
             revoke_refresh now (\<lambda>q. rs_device_session_id q = ds_ID r \<and> ds_ID r \<noteq> i)
               (d\<lparr>device_sessions :=
                  map (\<lambda>r'. if ds_ID r' = ds_ID r then touch_device_session now device r' else r')
                    (device_sessions d)\<rparr>)))))"

definition CreateDeviceSession_pg ::
  "uuid \<Rightarrow> uuid \<Rightarrow> DeviceInfo \<Rightarrow> ('x world_scheme, pg_err, uuid) eff" where
  "CreateDeviceSession_pg i userID device = db_call (CreateDeviceSession_stmt i userID device)"

definition UpdateLastActive_pg :: "uuid \<Rightarrow> ('x world_scheme, pg_err, unit) eff" where
  "UpdateLastActive_pg i =
     db_call (\<lambda>now d. Inr ((), d\<lparr>device_sessions :=
       map (\<lambda>r. if ds_ID r = i then r\<lparr>ds_LastActiveAt := now\<rparr> else r) (device_sessions d)\<rparr>))"

definition scan_device_session :: "device_session \<Rightarrow> DeviceSession" where
  "scan_device_session r =
     \<lparr>dv_ID = ds_ID r, dv_UserID = ds_UserID r, dv_DeviceName = ds_DeviceName r,
      dv_IPAddress = ds_IPAddress r, dv_UserAgent = ds_UserAgent r,
      dv_CreatedAt = ds_CreatedAt r, dv_LastActiveAt = ds_LastActiveAt r\<rparr>"

definition ListActiveSessions_pg :: "uuid \<Rightarrow> ('x world_scheme, pg_err, DeviceSession list) eff" where
  "ListActiveSessions_pg userID =
     query (\<lambda>now d. map scan_device_session
       (rev (sort_key ds_LastActiveAt
         (filter (\<lambda>r. ds_UserID r = userID \<and> ds_RevokedAt r = None) (device_sessions d)))))"

text \<open>The transaction of \<open>RevokeSession\<close>; \<open>False\<close> when no row was affected, and it is rolled back.\<close>

definition RevokeSession_tx :: "uuid \<Rightarrow> uuid \<Rightarrow> time \<Rightarrow> bool stmt" where
  "RevokeSession_tx i userID now d =
     (if \<exists>r \<in> set (device_sessions d). ds_ID r = i \<and> ds_UserID r = userID \<and> ds_RevokedAt r = None
      then Inr (True, revoke_refresh now (\<lambda>q. rs_device_session_id q = i)
             (revoke_devices now (\<lambda>r. ds_ID r = i \<and> ds_UserID r = userID) d))
      else Inr (False, d))"

definition RevokeSession_pg :: "uuid \<Rightarrow> uuid \<Rightarrow> ('x world_scheme, auth_err, unit) eff" where
  "RevokeSession_pg i userID =
     bindE (map_err Database (db_call (RevokeSession_tx i userID)))
       (\<lambda>affected. if affected then ret () else fail ErrSessionNotFound)"

definition RevokeOtherSessions_tx :: "uuid \<Rightarrow> uuid \<Rightarrow> time \<Rightarrow> uuid list stmt" where
  "RevokeOtherSessions_tx userID exceptID now d =
     Inr (map ds_ID (filter (\<lambda>r. ds_UserID r = userID \<and> ds_ID r \<noteq> exceptID \<and> ds_RevokedAt r = None)
                       (device_sessions d)),
          revoke_refresh now (\<lambda>q. rs_user_id q = userID \<and> rs_device_session_id q \<noteq> exceptID)
            (revoke_devices now (\<lambda>r. ds_UserID r = userID \<and> ds_ID r \<noteq> exceptID) d))"

definition RevokeOtherSessions_pg :: "uuid \<Rightarrow> uuid \<Rightarrow> ('x world_scheme, pg_err, uuid list) eff" where
  "RevokeOtherSessions_pg userID exceptID = db_call (RevokeOtherSessions_tx userID exceptID)"

text \<open>\<open>NOT EXISTS\<close> a refresh session of the device that is neither revoked nor expired.\<close>

definition revokeOrphanedCond :: "time \<Rightarrow> db \<Rightarrow> device_session \<Rightarrow> bool" where
  "revokeOrphanedCond now d r =
     (\<not> (\<exists>q \<in> set (refresh_sessions d). rs_device_session_id q = ds_ID r
            \<and> rs_revoked_at q = None \<and> rs_expires_at q > now))"

definition RevokeOrphanedSessions_pg :: "('x world_scheme, pg_err, unit) eff" where
  "RevokeOrphanedSessions_pg =
     db_call (\<lambda>now d. Inr ((), revoke_devices now (revokeOrphanedCond now d) d))"

definition RevokeUserOrphanedSessions_pg :: "uuid \<Rightarrow> ('x world_scheme, pg_err, unit) eff" where
  "RevokeUserOrphanedSessions_pg userID =
     db_call (\<lambda>now d. Inr ((),
       revoke_devices now (\<lambda>r. ds_UserID r = userID \<and> revokeOrphanedCond now d r) d))"

section \<open>refresh\_sessions.go\<close>

definition insert_refresh_session :: "refresh_session \<Rightarrow> unit stmt" where
  "insert_refresh_session q d =
     (if rs_id q \<in> rs_id ` set (refresh_sessions d)
         \<or> (\<exists>q' \<in> set (refresh_sessions d). rs_refresh_token_hash q' = rs_refresh_token_hash q
              \<and> rs_revoked_at q' = None) then Inl UniqueViolation
      else if \<not> user_exists (rs_user_id q) d
         \<or> rs_device_session_id q \<notin> ds_ID ` set (device_sessions d) then Inl ForeignKeyViolation
      else Inr ((), d\<lparr>refresh_sessions := refresh_sessions d @ [q]\<rparr>))"

definition refresh_row_of :: "time \<Rightarrow> RefreshSessionParams \<Rightarrow> refresh_session" where
  "refresh_row_of now p =
     \<lparr>rs_id = rf_SessionID p, rs_user_id = rf_UserID p,
      rs_device_session_id = rf_DeviceSessionID p, rs_refresh_token_hash = rf_TokenHash p,
      rs_client_key = rf_ClientKey p, rs_expires_at = rf_ExpiresAt p, rs_created_at = now,
      rs_revoked_at = None\<rparr>"

definition CreateRefreshSession_pg :: "RefreshSessionParams \<Rightarrow> ('x world_scheme, pg_err, unit) eff" where
  "CreateRefreshSession_pg p = db_call (\<lambda>now. insert_refresh_session (refresh_row_of now p))"

text \<open>Only the user and the device session are scanned; the other fields stay empty.\<close>

definition FindRevokedSession_pg :: "bytes \<Rightarrow> ('x world_scheme, pg_err, ConsumedSession option) eff" where
  "FindRevokedSession_pg tokenHash =
     query (\<lambda>now d. map_option
       (\<lambda>q. \<lparr>cs_SessionID = uuid_Nil, cs_UserID = rs_user_id q,
              cs_DeviceSessionID = rs_device_session_id q, cs_ClientKey = []\<rparr>)
       (find (\<lambda>q. rs_refresh_token_hash q = tokenHash \<and> rs_revoked_at q \<noteq> None)
          (refresh_sessions d)))"

definition active_device :: "db \<Rightarrow> uuid \<Rightarrow> bool" where
  "active_device d i = (\<exists>r \<in> set (device_sessions d). ds_ID r = i \<and> ds_RevokedAt r = None)"

definition refresh_usable :: "time \<Rightarrow> db \<Rightarrow> refresh_session \<Rightarrow> bool" where
  "refresh_usable now d q =
     (rs_revoked_at q = None \<and> rs_expires_at q > now \<and> active_device d (rs_device_session_id q))"

definition consumed_of :: "refresh_session \<Rightarrow> ConsumedSession" where
  "consumed_of q =
     \<lparr>cs_SessionID = rs_id q, cs_UserID = rs_user_id q,
      cs_DeviceSessionID = rs_device_session_id q, cs_ClientKey = rs_client_key q\<rparr>"

definition consume_refresh :: "time \<Rightarrow> bytes \<Rightarrow> db \<Rightarrow> ConsumedSession option \<times> db" where
  "consume_refresh now tokenHash d =
     (map_option consumed_of
        (find (\<lambda>q. rs_refresh_token_hash q = tokenHash \<and> refresh_usable now d q) (refresh_sessions d)),
      d\<lparr>refresh_sessions := map (\<lambda>q. if rs_refresh_token_hash q = tokenHash \<and> refresh_usable now d q
          then q\<lparr>rs_revoked_at := Some now\<rparr> else q) (refresh_sessions d)\<rparr>)"

definition ConsumeRefreshSession_pg ::
  "bytes \<Rightarrow> ('x world_scheme, pg_err, ConsumedSession option) eff" where
  "ConsumeRefreshSession_pg tokenHash = db_call (\<lambda>now d. Inr (consume_refresh now tokenHash d))"

section \<open>password\_reset.go\<close>

definition insert_reset_token :: "PasswordResetToken \<Rightarrow> unit stmt" where
  "insert_reset_token t d =
     (if pt_ID t \<in> pt_ID ` set (password_reset_tokens d)
         \<or> pt_TokenHash t \<in> pt_TokenHash ` set (password_reset_tokens d) then Inl UniqueViolation
      else if \<not> user_exists (pt_UserID t) d then Inl ForeignKeyViolation
      else Inr ((), d\<lparr>password_reset_tokens := password_reset_tokens d @ [t]\<rparr>))"

definition CreateResetToken_pg ::
  "uuid \<Rightarrow> uuid \<Rightarrow> bytes \<Rightarrow> time \<Rightarrow> ('x world_scheme, pg_err, unit) eff" where
  "CreateResetToken_pg i userID tokenHash expiresAt =
     db_call (\<lambda>now. insert_reset_token
       \<lparr>pt_ID = i, pt_UserID = userID, pt_TokenHash = tokenHash, pt_ExpiresAt = expiresAt,
        pt_UsedAt = None, pt_CreatedAt = now\<rparr>)"

definition token_usable :: "time \<Rightarrow> bytes \<Rightarrow> PasswordResetToken \<Rightarrow> bool" where
  "token_usable now tokenHash t =
     (pt_TokenHash t = tokenHash \<and> pt_UsedAt t = None \<and> pt_ExpiresAt t > now)"

definition GetUserIDFromResetToken_pg :: "bytes \<Rightarrow> ('x world_scheme, pg_err, uuid option) eff" where
  "GetUserIDFromResetToken_pg tokenHash =
     query (\<lambda>now d. map_option pt_UserID (find (token_usable now tokenHash) (password_reset_tokens d)))"

definition InvalidateUserTokens_pg :: "uuid \<Rightarrow> ('x world_scheme, pg_err, unit) eff" where
  "InvalidateUserTokens_pg userID =
     db_call (\<lambda>now d. Inr ((), d\<lparr>password_reset_tokens :=
       map (\<lambda>t. if pt_UserID t = userID \<and> pt_UsedAt t = None then t\<lparr>pt_UsedAt := Some now\<rparr> else t)
         (password_reset_tokens d)\<rparr>))"

definition consume_reset :: "time \<Rightarrow> bytes \<Rightarrow> db \<Rightarrow> uuid option \<times> db" where
  "consume_reset now tokenHash d =
     (map_option pt_UserID (find (token_usable now tokenHash) (password_reset_tokens d)),
      d\<lparr>password_reset_tokens :=
        map (\<lambda>t. if token_usable now tokenHash t then t\<lparr>pt_UsedAt := Some now\<rparr> else t)
          (password_reset_tokens d)\<rparr>)"

definition ConsumeResetToken_pg :: "bytes \<Rightarrow> ('x world_scheme, pg_err, uuid option) eff" where
  "ConsumeResetToken_pg tokenHash = db_call (\<lambda>now d. Inr (consume_reset now tokenHash d))"

end
