(* ===== verification/Redis_Cache.thy ===== *)
theory Redis_Cache
  imports Session_Repo
begin

text \<open>
  \<open>internal/repo/cache/redis\<close>: the blocklist of revoked sessions, the store of pending SRP logins and
  the rate limiter. The server's commands are a parameter, a record of functions on its state at an
  instant; what they are documented to do is stated as a contract. A call of the client takes the
  next entry of the world's schedule of faults, as a database call does.
\<close>

section \<open>The client\<close>

record 'r redis =
  rd_Set :: "string \<Rightarrow> string \<Rightarrow> int \<Rightarrow> time \<Rightarrow> 'r \<Rightarrow> 'r"
  rd_GetDel :: "string \<Rightarrow> time \<Rightarrow> 'r \<Rightarrow> string option \<times> 'r"
  rd_Exists :: "string \<Rightarrow> time \<Rightarrow> 'r \<Rightarrow> nat"
  rd_Incr :: "string \<Rightarrow> time \<Rightarrow> 'r \<Rightarrow> int64 option \<times> 'r"
  rd_Expire :: "string \<Rightarrow> int \<Rightarrow> time \<Rightarrow> 'r \<Rightarrow> 'r"

record 'r cworld = world +
  w_redis :: 'r

datatype redis_err = RedisUnavailable | RedisReply

definition redis_call ::
  "(time \<Rightarrow> 'r \<Rightarrow> (redis_err + 'a) \<times> 'r) \<Rightarrow> (('r, 'x) cworld_scheme, redis_err, 'a) eff" where
  "redis_call c w =
     (case pop_fault w of (f, w1) \<Rightarrow>
       (if f = FailBefore then (Inl RedisUnavailable, w1)
        else (case c (w_now w1) (w_redis w1) of
                (x, r) \<Rightarrow> ((if f = FailAfter then Inl RedisUnavailable else x), w1\<lparr>w_redis := r\<rparr>))))"

text \<open>
  \<open>NewClient\<close>: the URL is parsed and the server pinged; \<open>parse\<close> and \<open>ping\<close> are the library's.
\<close>

datatype client_err = BadURL | PingFailed

definition NewClient :: "(string \<Rightarrow> 'o option) \<Rightarrow> ('o \<Rightarrow> 'c) \<Rightarrow> ('c \<Rightarrow> bool) \<Rightarrow> string \<Rightarrow> client_err + 'c" where
  "NewClient parse connect ping redisURL =
     (case parse redisURL of
        None \<Rightarrow> Inl BadURL
      | Some opts \<Rightarrow> (let c = connect opts in if ping c then Inr c else Inl PingFailed))"

section \<open>session\_blocklist.go\<close>

definition keyPrefix :: string where
  "keyPrefix = ''blocked_session:''"

definition Block ::
  "'r redis \<Rightarrow> (uuid \<Rightarrow> string) \<Rightarrow> uuid \<Rightarrow> int \<Rightarrow> (('r, 'x) cworld_scheme, redis_err, unit) eff" where
  "Block rd uuid_String i ttl =
     redis_call (\<lambda>now r. (Inr (), rd_Set rd (keyPrefix @ uuid_String i) ''1'' ttl now r))"

text \<open>The commands of a pipeline, each with its own reply; \<open>Exec\<close> returns the first error.\<close>

fun pipelined :: "(('w, 'e, unit) eff) list \<Rightarrow> ('w, 'e, unit) eff" where
  "pipelined [] = ret ()"
| "pipelined (c # cs) = attempt c (\<lambda>x. attempt (pipelined cs) (\<lambda>y.
     case x of Inl e \<Rightarrow> fail e | Inr _ \<Rightarrow> (case y of Inl e \<Rightarrow> fail e | Inr _ \<Rightarrow> ret ())))"

definition BlockBatch ::
  "'r redis \<Rightarrow> (uuid \<Rightarrow> string) \<Rightarrow> uuid list \<Rightarrow> int \<Rightarrow> (('r, 'x) cworld_scheme, redis_err, unit) eff" where
  "BlockBatch rd uuid_String ids ttl =
     (if ids = [] then ret ()
      else pipelined (map (\<lambda>i. redis_call (\<lambda>now r.
             (Inr (), rd_Set rd (keyPrefix @ uuid_String i) ''1'' ttl now r))) ids))"

definition IsBlocked ::
  "'r redis \<Rightarrow> (uuid \<Rightarrow> string) \<Rightarrow> uuid \<Rightarrow> (('r, 'x) cworld_scheme, redis_err, bool) eff" where
  "IsBlocked rd uuid_String i =
     bindE (redis_call (\<lambda>now r. (Inr (rd_Exists rd (keyPrefix @ uuid_String i) now r), r)))
       (\<lambda>n. ret (n > 0))"

section \<open>rate\_limiter.go\<close>

record RateLimiter =
  rl_prefix :: string
  rl_limit :: int64
  rl_window :: int

text \<open>The Lua script, which the server runs as one command.\<close>

definition incrExpireScript :: "'r redis \<Rightarrow> string \<Rightarrow> int \<Rightarrow> time \<Rightarrow> 'r \<Rightarrow> (redis_err + int64) \<times> 'r" where
  "incrExpireScript rd key windowSec now r =
     (case rd_Incr rd key now r of
        (None, r1) \<Rightarrow> (Inl RedisReply, r1)
      | (Some count, r1) \<Rightarrow>
          (Inr count, if count = 1 then rd_Expire rd key windowSec now r1 else r1))"

definition Allow :: "'r redis \<Rightarrow> RateLimiter \<Rightarrow> string \<Rightarrow> (('r, 'x) cworld_scheme, redis_err, bool) eff" where
  "Allow rd l key =
     (let fullKey = rl_prefix l @ key; windowSec = Duration_Seconds (rl_window l)
      in bindE (redis_call (incrExpireScript rd fullKey windowSec))
           (\<lambda>count. ret (count \<le>s rl_limit l)))"

section \<open>srp\_sessions.go\<close>

text \<open>\<open>auth.SRPSessEntry\<close> of \<open>internal/usecase/auth/srp_session.go\<close>.\<close>

record SRPSessEntry =
  en_UserID :: uuid
  en_Email :: string
  en_SRPSaltHex :: string
  en_AHex :: string
  en_Session :: ServerSession
  en_CryptoSalt :: bytes
  en_BcryptSalt :: string
  en_EncryptedPrivateKey :: bytes
  en_KEKEncryptedMaster :: bytes
  en_ExpiresAt :: time

record srpRecord =
  sr_UserID :: string
  sr_Email :: string
  sr_SRPSaltHex :: string
  sr_AHex :: string
  sr_VerifierHex :: string
  sr_BHex :: string
  sr_BPubHex :: string
  sr_CryptoSalt :: string
  sr_BcryptSalt :: string
  sr_EncryptedPrivateKey :: string
  sr_KEKEncryptedMaster :: string
  sr_ExpiresAt :: int

text \<open>The identifiers of \<open>google/uuid\<close> as text, and the JSON form of a record.\<close>

record codec =
  cd_String :: "uuid \<Rightarrow> string"
  cd_Parse :: "string \<Rightarrow> uuid option"
  cd_Marshal :: "srpRecord \<Rightarrow> string option"
  cd_Unmarshal :: "string \<Rightarrow> srpRecord option"

definition srpKeyPrefix :: string where
  "srpKeyPrefix = ''srp_session:''"

text \<open>\<open>Time.UnixMilli\<close> and \<open>time.UnixMilli\<close>.\<close>

definition UnixMilli :: "time \<Rightarrow> int" where
  "UnixMilli t = t div 1000000"

definition FromUnixMilli :: "int \<Rightarrow> time" where
  "FromUnixMilli ms = ms * 1000000"

definition record_of_entry :: "codec \<Rightarrow> SRPSessEntry \<Rightarrow> srpRecord" where
  "record_of_entry cd e =
     (case Snapshot (en_Session e) of (verifierHex, bHex, BHex) \<Rightarrow>
       \<lparr>sr_UserID = cd_String cd (en_UserID e), sr_Email = en_Email e,
        sr_SRPSaltHex = en_SRPSaltHex e, sr_AHex = en_AHex e, sr_VerifierHex = verifierHex,
        sr_BHex = bHex, sr_BPubHex = BHex,
        sr_CryptoSalt = StdEncoding_EncodeToString (en_CryptoSalt e),
        sr_BcryptSalt = en_BcryptSalt e,
        sr_EncryptedPrivateKey = StdEncoding_EncodeToString (en_EncryptedPrivateKey e),
        sr_KEKEncryptedMaster = StdEncoding_EncodeToString (en_KEKEncryptedMaster e),
        sr_ExpiresAt = UnixMilli (en_ExpiresAt e)\<rparr>)"

text \<open>Every failure is the result \<open>false\<close>.\<close>

definition Store_srp ::
  "'r redis \<Rightarrow> codec \<Rightarrow> uuid \<Rightarrow> SRPSessEntry \<Rightarrow> (('r, 'x) cworld_scheme, auth_err, bool) eff" where
  "Store_srp rd cd i e = (\<lambda>w.
     (case cd_Marshal cd (record_of_entry cd e) of
        None \<Rightarrow> ret False
      | Some data \<Rightarrow> (let ttl = en_ExpiresAt e - w_now w in
          if ttl \<le> 0 then ret False
          else attempt (redis_call (\<lambda>now r.
                 (Inr (), rd_Set rd (srpKeyPrefix @ cd_String cd i) data ttl now r)))
                 (\<lambda>x. ret (\<not> isl x)))) w)"

definition entry_of_record :: "codec \<Rightarrow> time \<Rightarrow> srpRecord \<Rightarrow> SRPSessEntry option" where
  "entry_of_record cd now rec =
     (if UnixMilli now > sr_ExpiresAt rec then None
      else (case cd_Parse cd (sr_UserID rec) of
        None \<Rightarrow> None
      | Some userID \<Rightarrow>
          (case NewServerSessionFromSnapshot (sr_VerifierHex rec) (sr_BHex rec) (sr_BPubHex rec) of
             Inl _ \<Rightarrow> None
           | Inr session \<Rightarrow> Some
               \<lparr>en_UserID = userID, en_Email = sr_Email rec, en_SRPSaltHex = sr_SRPSaltHex rec,
                en_AHex = sr_AHex rec, en_Session = session,
                en_CryptoSalt = fst (StdEncoding_DecodeString (sr_CryptoSalt rec)),
                en_BcryptSalt = sr_BcryptSalt rec,
                en_EncryptedPrivateKey = fst (StdEncoding_DecodeString (sr_EncryptedPrivateKey rec)),
                en_KEKEncryptedMaster = fst (StdEncoding_DecodeString (sr_KEKEncryptedMaster rec)),
                en_ExpiresAt = FromUnixMilli (sr_ExpiresAt rec)\<rparr>)))"

text \<open>\<open>GETDEL\<close> in a transaction; a missing key is the error \<open>redis.Nil\<close>.\<close>

definition Consume_srp ::
  "'r redis \<Rightarrow> codec \<Rightarrow> uuid \<Rightarrow> (('r, 'x) cworld_scheme, auth_err, SRPSessEntry option) eff" where
  "Consume_srp rd cd i =
     attempt (redis_call (\<lambda>now r. case rd_GetDel rd (srpKeyPrefix @ cd_String cd i) now r of
         (None, r1) \<Rightarrow> (Inl RedisReply, r1) | (Some data, r1) \<Rightarrow> (Inr data, r1)))
       (\<lambda>x w. (case x of
          Inl _ \<Rightarrow> ret None
        | Inr data \<Rightarrow> (case cd_Unmarshal cd data of
             None \<Rightarrow> ret None
           | Some rec \<Rightarrow> ret (entry_of_record cd (w_now w) rec))) w)"

end
