(* ===== verification/Cache_Properties.thy ===== *)
theory Cache_Properties
  imports Redis_Cache
begin

text \<open>
  What the Redis-backed components promise when the server does what its commands are documented to
  do: a pending login is handed out once and unchanged, a blocked session is blocked for the time
  asked, and the rate limiter admits exactly its limit in a window.
\<close>

section \<open>The server's contract\<close>

text \<open>
  \<open>view r t k\<close> is the string a key holds at instant \<open>t\<close>. A value set with a time to live is there
  for that time in whole milliseconds, the resolution of the client, and gone after it.
\<close>

definition set_contract :: "('r \<Rightarrow> time \<Rightarrow> string \<Rightarrow> string option) \<Rightarrow> 'r redis \<Rightarrow> bool" where
  "set_contract view rd \<longleftrightarrow> (\<forall>k v ttl now r t k'. 1000000 \<le> ttl \<longrightarrow> now \<le> t \<longrightarrow>
     (k' \<noteq> k \<longrightarrow> view (rd_Set rd k v ttl now r) t k' = view r t k')
     \<and> (t < now + 1000000 * (ttl div 1000000) \<longrightarrow> view (rd_Set rd k v ttl now r) t k = Some v)
     \<and> (now + ttl \<le> t \<longrightarrow> view (rd_Set rd k v ttl now r) t k = None))"

definition getdel_contract :: "('r \<Rightarrow> time \<Rightarrow> string \<Rightarrow> string option) \<Rightarrow> 'r redis \<Rightarrow> bool" where
  "getdel_contract view rd \<longleftrightarrow> (\<forall>k now r. fst (rd_GetDel rd k now r) = view r now k
     \<and> (\<forall>t k'. now \<le> t \<longrightarrow>
          view (snd (rd_GetDel rd k now r)) t k' = (if k' = k then None else view r t k')))"

definition exists_contract :: "('r \<Rightarrow> time \<Rightarrow> string \<Rightarrow> string option) \<Rightarrow> 'r redis \<Rightarrow> bool" where
  "exists_contract view rd \<longleftrightarrow> (\<forall>k now r. rd_Exists rd k now r > 0 \<longleftrightarrow> view r now k \<noteq> None)"

definition redis_contract :: "('r \<Rightarrow> time \<Rightarrow> string \<Rightarrow> string option) \<Rightarrow> 'r redis \<Rightarrow> bool" where
  "redis_contract view rd \<longleftrightarrow>
     set_contract view rd \<and> getdel_contract view rd \<and> exists_contract view rd"

text \<open>Counters: the number a key holds, and the instant it expires if it does.\<close>

definition live :: "('r \<Rightarrow> string \<Rightarrow> (int64 \<times> time option) option) \<Rightarrow> 'r \<Rightarrow> time \<Rightarrow> string \<Rightarrow> bool" where
  "live cell r now k = (case cell r k of None \<Rightarrow> False
     | Some (c, e) \<Rightarrow> (case e of None \<Rightarrow> True | Some t \<Rightarrow> now < t))"

definition incr_contract :: "('r \<Rightarrow> string \<Rightarrow> (int64 \<times> time option) option) \<Rightarrow> 'r redis \<Rightarrow> bool" where
  "incr_contract cell rd \<longleftrightarrow> (\<forall>k now r.
     (\<not> live cell r now k \<longrightarrow>
        (\<exists>r'. rd_Incr rd k now r = (Some 1, r') \<and> cell r' = (cell r)(k \<mapsto> (1, None))))
     \<and> (\<forall>c e. live cell r now k \<longrightarrow> cell r k = Some (c, e) \<longrightarrow> sint c < 2 ^ 63 - 1 \<longrightarrow>
          (\<exists>r'. rd_Incr rd k now r = (Some (c + 1), r') \<and> cell r' = (cell r)(k \<mapsto> (c + 1, e)))))"

definition expire_contract :: "('r \<Rightarrow> string \<Rightarrow> (int64 \<times> time option) option) \<Rightarrow> 'r redis \<Rightarrow> bool" where
  "expire_contract cell rd \<longleftrightarrow> (\<forall>k s now r c e. 0 < s \<longrightarrow> live cell r now k \<longrightarrow> cell r k = Some (c, e) \<longrightarrow>
     cell (rd_Expire rd k s now r) = (cell r)(k \<mapsto> (c, Some (now + s * 1000000000))))"

section \<open>Calls without faults\<close>

lemma redis_call_nil:
  "w_faults w = [] \<Longrightarrow>
     redis_call c w = (case c (w_now w) (w_redis w) of (x, r) \<Rightarrow> (x, w\<lparr>w_redis := r\<rparr>))"
  by (simp add: redis_call_def split: prod.splits)

text \<open>A call of the cache does not touch the database or the clock.\<close>

lemma redis_call_frame [simp]:
  "w_db (snd (redis_call c w)) = w_db w" "w_now (snd (redis_call c w)) = w_now w"
proof -
  obtain f w1 where p: "pop_fault w = (f, w1)" by (rule prod.exhaust)
  then have "w_db w1 = w_db w" "w_now w1 = w_now w" using pop_fault_frame [of w] by simp_all
  with p show "w_db (snd (redis_call c w)) = w_db w" "w_now (snd (redis_call c w)) = w_now w"
    by (simp_all add: redis_call_def split: prod.splits)
qed

lemma keeps_redis_call: "keeps (on_db I) (redis_call c)"
  by (rule keepsI) (simp add: on_db_def)

section \<open>Pending logins\<close>

definition json_safe :: "codec \<Rightarrow> srpRecord \<Rightarrow> bool" where
  "json_safe cd rec = (case cd_Marshal cd rec of None \<Rightarrow> False | Some data \<Rightarrow> cd_Unmarshal cd data = Some rec)"

definition uuid_text :: "codec \<Rightarrow> bool" where
  "uuid_text cd \<longleftrightarrow> (\<forall>u. cd_Parse cd (cd_String cd u) = Some u)"

lemma uuid_text_inj: "uuid_text cd \<Longrightarrow> cd_String cd u = cd_String cd v \<longleftrightarrow> u = v"
  by (metis option.inject uuid_text_def)

text \<open>Only the instant of expiry is rounded, to milliseconds.\<close>

definition rounded :: "SRPSessEntry \<Rightarrow> SRPSessEntry" where
  "rounded e = e\<lparr>en_ExpiresAt := FromUnixMilli (UnixMilli (en_ExpiresAt e))\<rparr>"

lemma snapshot_restored:
  "Snapshot s = (v, b, B) \<Longrightarrow> NewServerSessionFromSnapshot v b B = Inr s"
  by (auto simp: Snapshot_def NewServerSessionFromSnapshot_def hexToBigInt_def)

lemma entry_of_record_of_entry:
  assumes "uuid_text cd" and "now \<le> en_ExpiresAt e"
  shows "entry_of_record cd now (record_of_entry cd e) = Some (rounded e)"
proof -
  obtain v b B where s: "Snapshot (en_Session e) = (v, b, B)" by (rule prod_cases3)
  have "UnixMilli now \<le> UnixMilli (en_ExpiresAt e)"
    using assms(2) by (simp add: UnixMilli_def zdiv_mono1)
  then show ?thesis
    using assms(1) snapshot_restored [OF s]
    by (simp add: entry_of_record_def record_of_entry_def s uuid_text_def rounded_def)
qed

lemma Store_srp_ok:
  assumes c: "redis_contract view rd" and j: "json_safe cd (record_of_entry cd e)"
    and f: "w_faults w = []" and ttl: "1000000 \<le> en_ExpiresAt e - w_now w"
  obtains r data where "Store_srp rd cd i e w = (Inr True, w\<lparr>w_redis := r\<rparr>)"
    and "cd_Unmarshal cd data = Some (record_of_entry cd e)"
    and "\<And>t. w_now w \<le> t \<Longrightarrow> t < w_now w + 1000000 * ((en_ExpiresAt e - w_now w) div 1000000) \<Longrightarrow>
           view r t (srpKeyPrefix @ cd_String cd i) = Some data"
proof -
  obtain data where m: "cd_Marshal cd (record_of_entry cd e) = Some data"
    and u: "cd_Unmarshal cd data = Some (record_of_entry cd e)"
    using j by (auto simp: json_safe_def split: option.splits)
  let ?r = "rd_Set rd (srpKeyPrefix @ cd_String cd i) data (en_ExpiresAt e - w_now w) (w_now w) (w_redis w)"
  have "Store_srp rd cd i e w = (Inr True, w\<lparr>w_redis := ?r\<rparr>)"
    using ttl by (simp add: Store_srp_def m attempt_def redis_call_nil [OF f] ret_def)
  moreover have "view ?r t (srpKeyPrefix @ cd_String cd i) = Some data"
    if "w_now w \<le> t" "t < w_now w + 1000000 * ((en_ExpiresAt e - w_now w) div 1000000)" for t
    using c ttl that unfolding redis_contract_def set_contract_def by blast
  ultimately show thesis by (rule that [OF _ u])
qed

lemma Consume_srp_ok:
  assumes c: "redis_contract view rd" and f: "w_faults w = []"
  obtains r where "\<And>t k. w_now w \<le> t \<Longrightarrow>
      view r t k = (if k = srpKeyPrefix @ cd_String cd i then None else view (w_redis w) t k)"
    and "Consume_srp rd cd i w =
      (Inr (case view (w_redis w) (w_now w) (srpKeyPrefix @ cd_String cd i) of None \<Rightarrow> None
            | Some data \<Rightarrow> (case cd_Unmarshal cd data of None \<Rightarrow> None
                | Some rec \<Rightarrow> entry_of_record cd (w_now w) rec)), w\<lparr>w_redis := r\<rparr>)"
proof -
  let ?k = "srpKeyPrefix @ cd_String cd i"
  obtain x r where g: "rd_GetDel rd ?k (w_now w) (w_redis w) = (x, r)" by (rule prod.exhaust)
  have x: "x = view (w_redis w) (w_now w) ?k"
    and r: "\<And>t k. w_now w \<le> t \<Longrightarrow> view r t k = (if k = ?k then None else view (w_redis w) t k)"
    using c g unfolding redis_contract_def getdel_contract_def by (metis fst_conv, metis snd_conv)
  have "Consume_srp rd cd i w =
      (Inr (case x of None \<Rightarrow> None
            | Some data \<Rightarrow> (case cd_Unmarshal cd data of None \<Rightarrow> None
                | Some rec \<Rightarrow> entry_of_record cd (w_now w) rec)), w\<lparr>w_redis := r\<rparr>)"
    by (cases x) (simp_all add: Consume_srp_def attempt_def redis_call_nil [OF f] g ret_def split: option.splits)
  with r show thesis unfolding x by (rule that)
qed

text \<open>
  A pending login that was stored comes back from the first \<open>Consume\<close> before it expires with every
  field as it was stored (its expiry rounded to a millisecond), and from no second one.
\<close>

lemma srp_store_roundtrip:
  assumes "redis_contract view rd" and "uuid_text cd" and "json_safe cd (record_of_entry cd e)"
    and "w_faults w = []" and "1000000 \<le> en_ExpiresAt e - w_now w" and "w_now w \<le> t"
    and "t < w_now w + 1000000 * ((en_ExpiresAt e - w_now w) div 1000000)"
  shows "\<exists>w1 w2 w3. Store_srp rd cd i e w = (Inr True, w1)
    \<and> Consume_srp rd cd i (w1\<lparr>w_now := t\<rparr>) = (Inr (Some (rounded e)), w2)
    \<and> Consume_srp rd cd i w2 = (Inr None, w3)"
proof -
  obtain r data where st: "Store_srp rd cd i e w = (Inr True, w\<lparr>w_redis := r\<rparr>)"
    and u: "cd_Unmarshal cd data = Some (record_of_entry cd e)"
    and v: "view r t (srpKeyPrefix @ cd_String cd i) = Some data"
    using Store_srp_ok [OF assms(1,3,4,5)] assms(6,7) by metis
  have "1000000 * ((en_ExpiresAt e - w_now w) div 1000000) \<le> en_ExpiresAt e - w_now w" by simp
  with assms(7) have "t \<le> en_ExpiresAt e" by linarith
  then have en: "entry_of_record cd t (record_of_entry cd e) = Some (rounded e)"
    by (rule entry_of_record_of_entry [OF assms(2)])
  define w1 where "w1 = w\<lparr>w_redis := r, w_now := t\<rparr>"
  have w1: "w_faults w1 = []" "w_now w1 = t" "w_redis w1 = r" using assms(4) by (simp_all add: w1_def)
  obtain r2 where r2: "\<And>t' k. t \<le> t' \<Longrightarrow>
      view r2 t' k = (if k = srpKeyPrefix @ cd_String cd i then None else view r t' k)"
    and c2: "Consume_srp rd cd i w1 = (Inr (Some (rounded e)), w1\<lparr>w_redis := r2\<rparr>)"
    using Consume_srp_ok [OF assms(1) w1(1), of cd i] unfolding w1 v u option.case en by metis
  define w2 where "w2 = w1\<lparr>w_redis := r2\<rparr>"
  have w2: "w_faults w2 = []" "w_now w2 = t" "w_redis w2 = r2" using w1 by (simp_all add: w2_def)
  have "view r2 t (srpKeyPrefix @ cd_String cd i) = None" using r2 [of t] by simp
  then obtain w3 where "Consume_srp rd cd i w2 = (Inr None, w3)"
    using Consume_srp_ok [OF assms(1) w2(1), of cd i] unfolding w2 by (metis option.case(1))
  with st c2 show ?thesis unfolding w2_def w1_def by (intro exI conjI)
qed

section \<open>Blocked sessions\<close>

lemma IsBlocked_nil:
  assumes "redis_contract view rd" and "w_faults w = []"
  shows "fst (IsBlocked rd us i w) = Inr (view (w_redis w) (w_now w) (keyPrefix @ us i) \<noteq> None)"
  using assms(1) unfolding redis_contract_def exists_contract_def
  by (simp add: IsBlocked_def bindE_def redis_call_nil [OF assms(2)] ret_def)

lemma Block_nil:
  "w_faults w = [] \<Longrightarrow> Block rd us i ttl w
     = (Inr (), w\<lparr>w_redis := rd_Set rd (keyPrefix @ us i) ''1'' ttl (w_now w) (w_redis w)\<rparr>)"
  by (simp add: Block_def redis_call_nil)

lemma BlockBatch_nil:
  assumes "w_faults w = []"
  shows "BlockBatch rd us ids ttl w
     = (Inr (), w\<lparr>w_redis := fold (\<lambda>i. rd_Set rd (keyPrefix @ us i) ''1'' ttl (w_now w)) ids (w_redis w)\<rparr>)"
proof -
  have "pipelined (map (\<lambda>i. redis_call (\<lambda>now r. (Inr (), rd_Set rd (keyPrefix @ us i) ''1'' ttl now r))) ids) w
     = (Inr (), w\<lparr>w_redis := fold (\<lambda>i. rd_Set rd (keyPrefix @ us i) ''1'' ttl (w_now w)) ids (w_redis w)\<rparr>)"
    using assms
  proof (induction ids arbitrary: w)
    case Nil
    then show ?case by (simp add: ret_def)
  next
    case (Cons i ids)
    then show ?case by (simp add: attempt_def redis_call_nil ret_def)
  qed
  then show ?thesis by (auto simp: BlockBatch_def ret_def)
qed

lemma view_set_batch:
  assumes "redis_contract view rd" and "1000000 \<le> ttl" and "now \<le> t"
    and "t < now + 1000000 * (ttl div 1000000)"
    and "i \<in> set ids \<or> view r t (keyPrefix @ us i) = Some ''1''"
  shows "view (fold (\<lambda>i. rd_Set rd (keyPrefix @ us i) ''1'' ttl now) ids r) t (keyPrefix @ us i) = Some ''1''"
  using assms(5)
proof (induction ids arbitrary: r)
  case (Cons j ids)
  let ?r = "rd_Set rd (keyPrefix @ us j) ''1'' ttl now r"
  have "i \<in> set ids \<or> view ?r t (keyPrefix @ us i) = Some ''1''"
  proof (cases "keyPrefix @ us i = keyPrefix @ us j")
    case True
    then show ?thesis using assms(1-4) unfolding redis_contract_def set_contract_def by (metis (no_types))
  next
    case False
    then have "view ?r t (keyPrefix @ us i) = view r t (keyPrefix @ us i)"
      using assms(1-3) unfolding redis_contract_def set_contract_def by (metis (no_types))
    with False Cons.prems show ?thesis by auto
  qed
  with Cons.IH show ?case by simp
qed simp

text \<open>
  A blocked session is reported as blocked for the time asked (in whole milliseconds), no longer
  after it, and no other session is affected.
\<close>

lemma Block_IsBlocked:
  assumes "redis_contract view rd" and "uuid_text cd" and "w_faults w = []" and "1000000 \<le> ttl"
    and "w_now w \<le> t"
  shows "\<exists>w1. Block rd (cd_String cd) i ttl w = (Inr (), w1)
    \<and> (t < w_now w + 1000000 * (ttl div 1000000) \<longrightarrow>
         fst (IsBlocked rd (cd_String cd) i (w1\<lparr>w_now := t\<rparr>)) = Inr True)
    \<and> (w_now w + ttl \<le> t \<longrightarrow> fst (IsBlocked rd (cd_String cd) i (w1\<lparr>w_now := t\<rparr>)) = Inr False)
    \<and> (j \<noteq> i \<longrightarrow> fst (IsBlocked rd (cd_String cd) j (w1\<lparr>w_now := t\<rparr>))
                = fst (IsBlocked rd (cd_String cd) j (w\<lparr>w_now := t\<rparr>)))"
proof -
  let ?key = "\<lambda>k. keyPrefix @ cd_String cd k"
  let ?r = "rd_Set rd (?key i) ''1'' ttl (w_now w) (w_redis w)"
  have "Block rd (cd_String cd) i ttl w = (Inr (), w\<lparr>w_redis := ?r\<rparr>)"
    using assms(3) by (rule Block_nil)
  moreover have "view ?r t (?key i) = Some ''1''" if "t < w_now w + 1000000 * (ttl div 1000000)"
    using assms(1,4,5) that unfolding redis_contract_def set_contract_def by blast
  moreover have "view ?r t (?key i) = None" if "w_now w + ttl \<le> t"
    using assms(1,4,5) that unfolding redis_contract_def set_contract_def by blast
  moreover have "view ?r t (?key j) = view (w_redis w) t (?key j)" if "j \<noteq> i"
  proof -
    have "?key j \<noteq> ?key i" using that uuid_text_inj [OF assms(2)] by simp
    then show ?thesis using assms(1,4,5) unfolding redis_contract_def set_contract_def by blast
  qed
  ultimately show ?thesis using assms(3) by (simp add: IsBlocked_nil [OF assms(1)])
qed

section \<open>The rate limiter\<close>

text \<open>Requests for one key at given instants, and the answers.\<close>

fun allow_run ::
  "'r redis \<Rightarrow> RateLimiter \<Rightarrow> string \<Rightarrow> time list \<Rightarrow> 'r cworld \<Rightarrow> (redis_err + bool) list" where
  "allow_run rd l key [] w = []"
| "allow_run rd l key (t # ts) w =
     (case Allow rd l key (w\<lparr>w_now := t\<rparr>) of (x, w') \<Rightarrow> x # allow_run rd l key ts w')"

lemma Allow_nil:
  assumes "w_faults w = []" and "rd_Incr rd (rl_prefix l @ key) (w_now w) (w_redis w) = (Some c, r)"
  shows "Allow rd l key w = (Inr (c \<le>s rl_limit l),
    w\<lparr>w_redis := if c = 1 then rd_Expire rd (rl_prefix l @ key) (Duration_Seconds (rl_window l)) (w_now w) r
                 else r\<rparr>)"
  using assms
  by (simp add: Allow_def Let_def bindE_def redis_call_nil incrExpireScript_def ret_def)

lemma sint_succ: "sint (c :: int64) < 2 ^ 63 - 1 \<Longrightarrow> sint (c + 1) = sint c + 1"
  using sint_greater_eq [of c] by (simp add: sint_word_ariths signed_take_bit_int_eq_self)

text \<open>Inside a window the counter goes up by one with each request.\<close>

lemma allow_run_window:
  assumes "incr_contract cell rd" and "w_faults w = []"
    and "cell (w_redis w) (rl_prefix l @ key) = Some (c, Some dl)"
    and "\<And>t. t \<in> set ts \<Longrightarrow> t < dl" and "1 \<le> sint c" and "sint c + int (length ts) < 2 ^ 63"
  shows "allow_run rd l key ts w = map (\<lambda>i. Inr (sint c + 1 + int i \<le> sint (rl_limit l))) [0..<length ts]"
  using assms(2-)
proof (induction ts arbitrary: w c)
  case (Cons t ts)
  define v where "v = w\<lparr>w_now := t\<rparr>"
  have v: "w_faults v = []" "w_now v = t" "w_redis v = w_redis w" using Cons.prems(1) by (simp_all add: v_def)
  have lt: "sint c < 2 ^ 63 - 1" using Cons.prems(5) by simp
  have "live cell (w_redis w) t (rl_prefix l @ key)" using Cons.prems(2,3) by (simp add: live_def)
  then obtain r where r: "rd_Incr rd (rl_prefix l @ key) t (w_redis w) = (Some (c + 1), r)"
    "cell r = (cell (w_redis w))(rl_prefix l @ key \<mapsto> (c + 1, Some dl))"
    using assms(1) Cons.prems(2) lt unfolding incr_contract_def by blast
  have c1: "sint (c + 1) = sint c + 1" using lt by (rule sint_succ)
  then have "c + 1 \<noteq> 1" using Cons.prems(4) by (metis add.left_neutral add_right_cancel not_one_le_zero sint_0)
  then have al: "Allow rd l key v = (Inr (sint c + 1 \<le> sint (rl_limit l)), v\<lparr>w_redis := r\<rparr>)"
    using Allow_nil [of v rd l key "c + 1" r] v r(1) by (simp add: word_sle_eq c1)
  have "allow_run rd l key ts (v\<lparr>w_redis := r\<rparr>)
      = map (\<lambda>i. Inr (sint c + 1 + 1 + int i \<le> sint (rl_limit l))) [0..<length ts]"
    unfolding c1 [symmetric] using Cons.prems v r(2) c1 by (intro Cons.IH) simp_all
  then show ?case
    unfolding allow_run.simps v_def [symmetric] al
    by (simp add: map_upt_Suc algebra_simps del: upt_Suc)
qed simp

text \<open>
  C35. When Redis works, in the window that a first request for a key opens, request number \<open>n\<close> is admitted exactly when
  \<open>n\<close> does not exceed the limit, however the requests are spread over the window.
\<close>

theorem rate_limit_exact:
  assumes "incr_contract cell rd" and "expire_contract cell rd" and "w_faults w = []"
    and "\<not> live cell (w_redis w) t0 (rl_prefix l @ key)"
    and "0 < Duration_Seconds (rl_window l)"
    and "\<forall>t \<in> set ts. t < t0 + Duration_Seconds (rl_window l) * 1000000000"
    and "int (length ts) + 1 < 2 ^ 63"
  shows "allow_run rd l key (t0 # ts) w =
    map (\<lambda>n. Inr (int n \<le> sint (rl_limit l))) [1..<length ts + 2]"
proof -
  let ?k = "rl_prefix l @ key" and ?s = "Duration_Seconds (rl_window l)"
  define v where "v = w\<lparr>w_now := t0\<rparr>"
  have v: "w_faults v = []" "w_now v = t0" "w_redis v = w_redis w" using assms(3) by (simp_all add: v_def)
  obtain r where r: "rd_Incr rd ?k t0 (w_redis w) = (Some 1, r)" "cell r = (cell (w_redis w))(?k \<mapsto> (1, None))"
    using assms(1,4) unfolding incr_contract_def by blast
  define r' where "r' = rd_Expire rd ?k ?s t0 r"
  have "live cell r t0 ?k" and "cell r ?k = Some (1, None)" using r(2) by (simp_all add: live_def)
  with assms(2,5) have r': "cell r' = (cell r)(?k \<mapsto> (1, Some (t0 + ?s * 1000000000)))"
    unfolding expire_contract_def r'_def by blast
  have al: "Allow rd l key v = (Inr (1 \<le> sint (rl_limit l)), v\<lparr>w_redis := r'\<rparr>)"
    using Allow_nil [of v rd l key 1 r] v r(1) by (simp add: word_sle_eq r'_def)
  have "allow_run rd l key ts (v\<lparr>w_redis := r'\<rparr>)
      = map (\<lambda>i. Inr (sint (1 :: int64) + 1 + int i \<le> sint (rl_limit l))) [0..<length ts]"
    using assms(6,7) v r' by (intro allow_run_window [OF assms(1), where dl = "t0 + ?s * 1000000000"]) simp_all
  moreover have "[1..<length ts + 2] = 1 # map (\<lambda>i. i + 2) [0..<length ts]"
    using map_add_upt [of 2 "length ts"] by (simp add: upt_conv_Cons numeral_2_eq_2 del: upt_Suc)
  ultimately show ?thesis
    unfolding allow_run.simps v_def [symmetric] al by (simp add: algebra_simps)
qed

end
