(* ===== verification/Jwt.thy ===== *)
theory Jwt
  imports Cache_Properties
begin

text \<open>
  \<open>pkg/jwt/service.go\<close>: issuing and parsing access tokens. The functions of \<open>golang-jwt\<close> are a
  parameter; what the library documents of them is the contract below.
\<close>

datatype signing_method = SigningMethodHMAC | OtherMethod string

record accessClaims =
  ac_Subject :: string
  ac_IssuedAt :: time
  ac_ExpiresAt :: time
  ac_SessionID :: string

text \<open>
  \<open>jl_Sign\<close> is \<open>NewWithClaims(SigningMethodHS256, ..).SignedString\<close>, \<open>jl_Parse\<close> is \<open>ParseWithClaims\<close>
  with its key function, giving the claims and \<open>Valid\<close>; \<open>jl_Header\<close> is what a token says of its method
  and claims before any check, \<open>jl_Verify\<close> the check of its signature.
\<close>

record jwt_lib =
  jl_NumericDate :: "time \<Rightarrow> time"
  jl_Sign :: "bytes \<Rightarrow> accessClaims \<Rightarrow> string option"
  jl_Parse :: "(signing_method \<Rightarrow> bytes option) \<Rightarrow> time \<Rightarrow> string \<Rightarrow> (accessClaims \<times> bool) option"
  jl_Header :: "string \<Rightarrow> (signing_method \<times> accessClaims) option"
  jl_Verify :: "signing_method \<Rightarrow> bytes \<Rightarrow> string \<Rightarrow> bool"

record jwt_Service =
  js_secret :: bytes
  js_accessTTL :: int

definition NewService_jwt :: "bytes \<Rightarrow> int \<Rightarrow> jwt_Service" where
  "NewService_jwt secret accessTTL = \<lparr>js_secret = secret, js_accessTTL = accessTTL\<rparr>"

datatype jwt_err = ErrInvalidToken | EmptyUserID | SignError

definition IssueAccess ::
  "jwt_lib \<Rightarrow> codec \<Rightarrow> jwt_Service \<Rightarrow> uuid \<Rightarrow> uuid \<Rightarrow> time \<Rightarrow> jwt_err + string \<times> int" where
  "IssueAccess jl cd s userID deviceSessionID now =
     (if userID = uuid_Nil then Inl EmptyUserID
      else (case jl_Sign jl (js_secret s)
              \<lparr>ac_Subject = cd_String cd userID, ac_IssuedAt = jl_NumericDate jl now,
               ac_ExpiresAt = jl_NumericDate jl (now + js_accessTTL s),
               ac_SessionID = cd_String cd deviceSessionID\<rparr> of
              None \<Rightarrow> Inl SignError
            | Some raw \<Rightarrow> Inr (raw, Duration_Seconds (js_accessTTL s))))"

text \<open>The key function refuses every method but HMAC.\<close>

definition access_key :: "jwt_Service \<Rightarrow> signing_method \<Rightarrow> bytes option" where
  "access_key s m = (case m of SigningMethodHMAC \<Rightarrow> Some (js_secret s) | OtherMethod _ \<Rightarrow> None)"

text \<open>A session identifier that does not parse is \<open>uuid.Nil\<close>.\<close>

definition ParseAccessToken ::
  "jwt_lib \<Rightarrow> codec \<Rightarrow> jwt_Service \<Rightarrow> time \<Rightarrow> string \<Rightarrow> jwt_err + uuid \<times> uuid" where
  "ParseAccessToken jl cd s now token =
     (case jl_Parse jl (access_key s) now token of
        None \<Rightarrow> Inl ErrInvalidToken
      | Some (claims, valid) \<Rightarrow>
          if \<not> valid then Inl ErrInvalidToken
          else (case cd_Parse cd (ac_Subject claims) of
            None \<Rightarrow> Inl ErrInvalidToken
          | Some uid \<Rightarrow>
              if uid = uuid_Nil then Inl ErrInvalidToken
              else Inr (uid, case cd_Parse cd (ac_SessionID claims) of
                               None \<Rightarrow> uuid_Nil | Some sid \<Rightarrow> sid)))"

section \<open>The library's contract\<close>

text \<open>
  Parsing asks the key function with the method of the token's header, checks the signature with
  that key, and refuses an expired token; a signed token says what was signed and verifies with the
  key it was signed with; a numeric date is the instant cut to the second.
\<close>

definition parse_contract :: "jwt_lib \<Rightarrow> bool" where
  "parse_contract jl \<longleftrightarrow> (\<forall>kf now tok. jl_Parse jl kf now tok =
     (case jl_Header jl tok of None \<Rightarrow> None
      | Some (m, c) \<Rightarrow> (case kf m of None \<Rightarrow> None
          | Some k \<Rightarrow> if jl_Verify jl m k tok \<and> now < ac_ExpiresAt c then Some (c, True) else None)))"

definition sign_contract :: "jwt_lib \<Rightarrow> bool" where
  "sign_contract jl \<longleftrightarrow> (\<forall>k c tok. jl_Sign jl k c = Some tok \<longrightarrow>
     jl_Header jl tok = Some (SigningMethodHMAC, c) \<and> jl_Verify jl SigningMethodHMAC k tok)"

definition date_contract :: "jwt_lib \<Rightarrow> bool" where
  "date_contract jl \<longleftrightarrow> (\<forall>t. jl_NumericDate jl t = 1000000000 * (t div 1000000000))"

definition jwt_contract :: "jwt_lib \<Rightarrow> bool" where
  "jwt_contract jl \<longleftrightarrow> parse_contract jl \<and> sign_contract jl \<and> date_contract jl"

section \<open>Properties\<close>

lemma parse_issued:
  assumes "jwt_contract jl" and "uuid_text cd"
    and "IssueAccess jl cd s userID sid now = Inr (tok, expiresIn)"
  shows "ParseAccessToken jl cd s t tok =
    (if t < 1000000000 * ((now + js_accessTTL s) div 1000000000) then Inr (userID, sid) else Inl ErrInvalidToken)"
proof -
  define c where "c = \<lparr>ac_Subject = cd_String cd userID, ac_IssuedAt = jl_NumericDate jl now,
               ac_ExpiresAt = jl_NumericDate jl (now + js_accessTTL s),
               ac_SessionID = cd_String cd sid\<rparr>"
  have u: "userID \<noteq> uuid_Nil" and sg: "jl_Sign jl (js_secret s) c = Some tok"
    using assms(3) by (auto simp: IssueAccess_def c_def split: if_splits option.splits)
  have "jl_Header jl tok = Some (SigningMethodHMAC, c) \<and> jl_Verify jl SigningMethodHMAC (js_secret s) tok"
    using assms(1) sg unfolding jwt_contract_def sign_contract_def by blast
  then have p: "jl_Parse jl (access_key s) t tok = (if t < ac_ExpiresAt c then Some (c, True) else None)"
    using assms(1) unfolding jwt_contract_def parse_contract_def by (simp add: access_key_def)
  have "ac_ExpiresAt c = 1000000000 * ((now + js_accessTTL s) div 1000000000)"
    using assms(1) unfolding jwt_contract_def date_contract_def by (simp add: c_def)
  moreover have "cd_Parse cd (ac_Subject c) = Some userID" "cd_Parse cd (ac_SessionID c) = Some sid"
    using assms(2) by (simp_all add: c_def uuid_text_def)
  ultimately show ?thesis using u by (simp add: ParseAccessToken_def p)
qed

text \<open>
  A token that was issued is accepted, for the user and session it was issued for, until its time
  to live in whole seconds has passed, and refused after the time to live.
\<close>

lemma access_token_roundtrip:
  assumes "jwt_contract jl" and "uuid_text cd"
    and "IssueAccess jl cd s userID sid now = Inr (tok, expiresIn)"
  shows "(t < 1000000000 * ((now + js_accessTTL s) div 1000000000) \<longrightarrow>
            ParseAccessToken jl cd s t tok = Inr (userID, sid))
    \<and> (now + js_accessTTL s \<le> t \<longrightarrow> ParseAccessToken jl cd s t tok = Inl ErrInvalidToken)"
proof -
  have "1000000000 * ((now + js_accessTTL s) div 1000000000) \<le> now + js_accessTTL s" by simp
  then have "now + js_accessTTL s \<le> t \<Longrightarrow> \<not> t < 1000000000 * ((now + js_accessTTL s) div 1000000000)" by linarith
  then show ?thesis using parse_issued [OF assms, of t] by simp
qed

text \<open>
  Whatever string is presented, it is accepted only if its header names an HMAC method, its
  signature verifies with the service's secret, it has not expired and its subject is a user.
\<close>

lemma ParseAccessToken_sound:
  assumes "jwt_contract jl" and "ParseAccessToken jl cd s now tok = Inr (uid, sid)"
  shows "\<exists>c. jl_Header jl tok = Some (SigningMethodHMAC, c)
    \<and> jl_Verify jl SigningMethodHMAC (js_secret s) tok \<and> now < ac_ExpiresAt c
    \<and> cd_Parse cd (ac_Subject c) = Some uid \<and> uid \<noteq> uuid_Nil"
proof -
  obtain c where p: "jl_Parse jl (access_key s) now tok = Some (c, True)"
    and u: "cd_Parse cd (ac_Subject c) = Some uid" "uid \<noteq> uuid_Nil"
    using assms(2) by (auto simp: ParseAccessToken_def split: option.splits if_splits prod.splits)
  have "jl_Parse jl (access_key s) now tok =
     (case jl_Header jl tok of None \<Rightarrow> None
      | Some (m, c) \<Rightarrow> (case access_key s m of None \<Rightarrow> None
          | Some k \<Rightarrow> if jl_Verify jl m k tok \<and> now < ac_ExpiresAt c then Some (c, True) else None))"
    using assms(1) unfolding jwt_contract_def parse_contract_def by blast
  with p u show ?thesis
    by (auto simp: access_key_def split: option.splits if_splits prod.splits signing_method.splits)
qed

end
