(* ===== verification/Go_Strings.thy ===== *)
theory Go_Strings
  imports Prelude "HOL-Library.Sublist"
begin

text \<open>
  The string functions of Go's standard library that the code calls, on byte strings:
  \<open>strings.TrimSpace\<close>, \<open>strings.ToLower\<close>, \<open>strings.ReplaceAll\<close> of a one-byte string,
  \<open>strings.Contains\<close>, and \<open>filepath.Base\<close> (with Unix separators).
\<close>

section \<open>strings.TrimSpace\<close>

text \<open>The UTF-8 encodings of the runes for which \<open>unicode.IsSpace\<close> holds.\<close>

definition space_encodings :: "string list" where
  "space_encodings =
     [[CHR 0x09], [CHR 0x0A], [CHR 0x0B], [CHR 0x0C], [CHR 0x0D], [CHR 0x20],
      [CHR 0xC2, CHR 0x85], [CHR 0xC2, CHR 0xA0], [CHR 0xE1, CHR 0x9A, CHR 0x80],
      [CHR 0xE2, CHR 0x80, CHR 0x80], [CHR 0xE2, CHR 0x80, CHR 0x81],
      [CHR 0xE2, CHR 0x80, CHR 0x82], [CHR 0xE2, CHR 0x80, CHR 0x83],
      [CHR 0xE2, CHR 0x80, CHR 0x84], [CHR 0xE2, CHR 0x80, CHR 0x85],
      [CHR 0xE2, CHR 0x80, CHR 0x86], [CHR 0xE2, CHR 0x80, CHR 0x87],
      [CHR 0xE2, CHR 0x80, CHR 0x88], [CHR 0xE2, CHR 0x80, CHR 0x89],
      [CHR 0xE2, CHR 0x80, CHR 0x8A], [CHR 0xE2, CHR 0x80, CHR 0xA8],
      [CHR 0xE2, CHR 0x80, CHR 0xA9], [CHR 0xE2, CHR 0x80, CHR 0xAF],
      [CHR 0xE2, CHR 0x81, CHR 0x9F], [CHR 0xE3, CHR 0x80, CHR 0x80]]"

text \<open>Remove encodings from the front until none is a prefix.\<close>

function trim_left :: "string list \<Rightarrow> string \<Rightarrow> string" where
  "trim_left es s =
     (case find (\<lambda>e. e \<noteq> [] \<and> take (length e) s = e) es of
        None \<Rightarrow> s
      | Some e \<Rightarrow> trim_left es (drop (length e) s))"
  by pat_completeness auto
termination
proof (relation "measure (\<lambda>(es, s). length s)")
  fix es :: "string list" and s e
  assume "find (\<lambda>e. e \<noteq> [] \<and> take (length e) s = e) es = Some e"
  then have "e \<noteq> []" and "take (length e) s = e" by (auto dest: find_SomeD)
  then have "s \<noteq> []" by auto
  with \<open>e \<noteq> []\<close> show "((es, drop (length e) s), es, s) \<in> measure (\<lambda>(es, s). length s)"
    by (simp add: length_drop)
qed simp

declare trim_left.simps [simp del]

definition TrimSpace :: "string \<Rightarrow> string" where
  "TrimSpace s =
     rev (trim_left (map rev space_encodings) (rev (trim_left space_encodings s)))"

lemma trim_left_suffix: "\<exists>u. s = u @ trim_left es s"
proof (induction es s rule: trim_left.induct)
  case (1 es s)
  show ?case
  proof (cases "find (\<lambda>e. e \<noteq> [] \<and> take (length e) s = e) es")
    case None
    then show ?thesis by (simp add: trim_left.simps)
  next
    case (Some e)
    then obtain u where "drop (length e) s = u @ trim_left es (drop (length e) s)"
      using "1.IH" by blast
    then have "s = (take (length e) s @ u) @ trim_left es (drop (length e) s)"
      by (metis append.assoc append_take_drop_id)
    with Some show ?thesis by (subst trim_left.simps) (metis option.simps(5))
  qed
qed

lemma set_trim_left: "set (trim_left es s) \<subseteq> set s"
  using trim_left_suffix [of s es] by (metis set_append sup.cobounded2)

lemma TrimSpace_sublist: "\<exists>u v. s = u @ TrimSpace s @ v"
proof -
  obtain u where u: "s = u @ trim_left space_encodings s" using trim_left_suffix by blast
  define t where "t = trim_left space_encodings s"
  obtain v where "rev t = v @ trim_left (map rev space_encodings) (rev t)"
    using trim_left_suffix by blast
  then have "rev (rev t) = rev (trim_left (map rev space_encodings) (rev t)) @ rev v"
    by (metis rev_append)
  then have "t = TrimSpace s @ rev v"
    by (simp add: TrimSpace_def t_def)
  with u t_def show ?thesis by metis
qed

lemma set_TrimSpace: "set (TrimSpace s) \<subseteq> set s"
proof -
  obtain u v where "s = u @ TrimSpace s @ v" using TrimSpace_sublist by blast
  then have "set s = set u \<union> set (TrimSpace s) \<union> set v" by (metis set_append sup_assoc)
  then show ?thesis by blast
qed

text \<open>The result does not begin with a space.\<close>

lemma trim_left_no_prefix:
  assumes "e \<in> set es" and "e \<noteq> []"
  shows "take (length e) (trim_left es s) \<noteq> e"
  using assms
proof (induction es s rule: trim_left.induct)
  case (1 es s)
  show ?case
  proof (cases "find (\<lambda>e. e \<noteq> [] \<and> take (length e) s = e) es")
    case None
    with "1.prems" show ?thesis
      by (subst trim_left.simps) (auto dest: find_NoneD)
  next
    case (Some e')
    with "1.IH" [OF Some] "1.prems" show ?thesis
      by (subst trim_left.simps) simp
  qed
qed

section \<open>strings.ToLower\<close>

definition is_ascii :: "char \<Rightarrow> bool" where
  "is_ascii c = (of_char c < (128::nat))"

definition lower_ascii :: "char \<Rightarrow> char" where
  "lower_ascii c = (if 65 \<le> (of_char c :: nat) \<and> of_char c \<le> (90::nat) then char_of (of_char c + 32 :: nat) else c)"

text \<open>
  An ASCII string is lowered byte by byte. For other strings Go maps each rune by the Unicode
  tables: \<open>uni_lower\<close> stands for that.
\<close>

definition ToLower :: "(string \<Rightarrow> string) \<Rightarrow> string \<Rightarrow> string" where
  "ToLower uni_lower s = (if list_all is_ascii s then map lower_ascii s else uni_lower s)"

lemma lower_ascii_ascii: "is_ascii c \<Longrightarrow> is_ascii (lower_ascii c)"
  by (simp add: is_ascii_def lower_ascii_def)

lemma lower_ascii_idem [simp]: "lower_ascii (lower_ascii c) = lower_ascii c"
  by (simp add: lower_ascii_def)

lemma ToLower_idem:
  assumes "list_all is_ascii s"
  shows "ToLower ul (ToLower ul s) = ToLower ul s"
  using assms by (auto simp: ToLower_def list_all_iff lower_ascii_ascii)

section \<open>strings.ReplaceAll, strings.Contains\<close>

definition ReplaceAll1 :: "char \<Rightarrow> string \<Rightarrow> string \<Rightarrow> string" where
  "ReplaceAll1 old new s = concat (map (\<lambda>c. if c = old then new else [c]) s)"

lemma set_ReplaceAll1: "set (ReplaceAll1 old new s) \<subseteq> (set s - {old}) \<union> set new"
  by (auto simp: ReplaceAll1_def split: if_splits)

lemma ReplaceAll1_append [simp]:
  "ReplaceAll1 old new (s @ t) = ReplaceAll1 old new s @ ReplaceAll1 old new t"
  by (simp add: ReplaceAll1_def)

fun Contains :: "string \<Rightarrow> string \<Rightarrow> bool" where
  "Contains [] sub = (sub = [])"
| "Contains (c # s) sub = (take (length sub) (c # s) = sub \<or> Contains s sub)"

lemma Contains_sublist: "Contains s sub = sublist sub s"
proof (induction s sub rule: Contains.induct)
  case (1 sub)
  show ?case by simp
next
  case (2 c s sub)
  have "take (length sub) (c # s) = sub \<longleftrightarrow> prefix sub (c # s)"
    by (metis append_eq_conv_conj append_take_drop_id prefix_def)
  with 2 show ?case by (auto simp: sublist_Cons_right)
qed

section \<open>filepath.Base\<close>

definition slash :: char where
  "slash = CHR ''/''"

definition backslash :: char where
  "backslash = CHR 0x5C"

text \<open>Strip trailing separators, keep what follows the last one; only separators give \<open>"/"\<close>.\<close>

definition Base :: "string \<Rightarrow> string" where
  "Base path =
     (if path = [] then ''.''
      else (let p = rev (dropWhile (\<lambda>c. c = slash) (rev path));
                e = rev (takeWhile (\<lambda>c. c \<noteq> slash) (rev p))
            in if e = [] then [slash] else e))"

lemma Base_nonempty: "Base path \<noteq> []"
  by (simp add: Base_def Let_def)

lemma Base_slash: "slash \<in> set (Base path) \<longleftrightarrow> path \<noteq> [] \<and> set path \<subseteq> {slash}"
proof (cases "path = []")
  case True
  then show ?thesis by (simp add: Base_def slash_def)
next
  case False
  define q where "q = dropWhile (\<lambda>c. c = slash) (rev path)"
  have q: "q = [] \<longleftrightarrow> set path \<subseteq> {slash}" by (auto simp: q_def dropWhile_eq_Nil_conv)
  have "takeWhile (\<lambda>c. c \<noteq> slash) q = [] \<longleftrightarrow> q = []"
    unfolding q_def by (metis dropWhile_eq_self_iff dropWhile_idem hd_dropWhile list.collapse
        list.distinct(1) takeWhile.simps takeWhile_eq_Nil_iff)
  then have "Base path = (if q = [] then [slash] else rev (takeWhile (\<lambda>c. c \<noteq> slash) q))"
    using False by (simp add: Base_def q_def Let_def)
  with q False show ?thesis by (auto dest: set_takeWhileD)
qed

lemma Base_root:
  assumes "path \<noteq> []" and "set path \<subseteq> {slash}"
  shows "Base path = [slash]"
proof -
  have d: "dropWhile (\<lambda>c. c = slash) (rev path) = []" using assms(2) by (auto simp: dropWhile_eq_Nil_conv)
  show ?thesis unfolding Base_def Let_def d using assms(1) by simp
qed

lemma set_Base: "set (Base path) \<subseteq> set path \<union> {slash, CHR ''.''}"
  by (auto simp: Base_def Let_def dest!: set_takeWhileD set_dropWhileD)

section \<open>strconv.ParseInt and strconv.Atoi\<close>

definition digit_of :: "char \<Rightarrow> nat option" where
  "digit_of c = (let n = of_char c in if 48 \<le> n \<and> n \<le> 57 then Some (n - 48) else None)"

fun read_digits :: "nat \<Rightarrow> string \<Rightarrow> nat option" where
  "read_digits acc [] = Some acc"
| "read_digits acc (c # s) = (case digit_of c of None \<Rightarrow> None | Some k \<Rightarrow> read_digits (acc * 10 + k) s)"

text \<open>An optional sign; the flag says that it is a minus.\<close>

definition cut_sign :: "string \<Rightarrow> bool \<times> string" where
  "cut_sign s = (if take 1 s = ''-'' then (True, tl s) else if take 1 s = ''+'' then (False, tl s) else (False, s))"

text \<open>In base 10, to 64 bits: no digits, another character or a value out of range is an error.\<close>

definition ParseInt :: "string \<Rightarrow> int option" where
  "ParseInt s =
     (case cut_sign s of (neg, ds) \<Rightarrow>
        if ds = [] then None
        else (case read_digits 0 ds of None \<Rightarrow> None
              | Some n \<Rightarrow> if neg then (if n \<le> 2 ^ 63 then Some (- int n) else None)
                         else if n < 2 ^ 63 then Some (int n) else None))"

lemma ParseInt_range: "ParseInt s = Some n \<Longrightarrow> - (2 ^ 63) \<le> n \<and> n < 2 ^ 63"
  by (auto simp: ParseInt_def split: prod.splits option.splits if_splits)

text \<open>\<open>int\<close> has 64 bits.\<close>

definition Atoi :: "string \<Rightarrow> int option" where
  "Atoi s = ParseInt s"

end
