(* ===== verification/Audit_Log.thy ===== *)
theory Audit_Log
  imports Schema Go_Strings
begin

text \<open>
  \<open>internal/usecase/audit/service.go\<close> and \<open>internal/repo/persistent/postgres/audit.go\<close>: audit events
  go through a bounded queue to a worker, which inserts them with retries. Shown: in which order and how
  often events end up in the log, whatever fails and when nothing does, and what a page of the log holds.
\<close>

section \<open>The repository\<close>

text \<open>
  \<open>inet\<close> is PostgreSQL's type of addresses: the text an inserted address comes back as, \<open>None\<close> for
  a string it does not accept. An empty string is stored as null and scanned as an empty string.
\<close>

definition nullableString :: "string \<Rightarrow> string option" where
  "nullableString s = (if s = [] then None else Some s)"

definition audit_row ::
  "(string \<Rightarrow> string option) \<Rightarrow> uuid \<Rightarrow> time \<Rightarrow> AuditEvent \<Rightarrow> AuditEvent option" where
  "audit_row inet i now e =
     (case (case nullableString (au_IPAddress e) of None \<Rightarrow> Some [] | Some a \<Rightarrow> inet a) of
        None \<Rightarrow> None
      | Some addr \<Rightarrow> Some (e\<lparr>au_ID := i, au_CreatedAt := now, au_IPAddress := addr\<rparr>))"

text \<open>\<open>INSERT INTO audit_log\<close>: the address, the length of the event type, the key and the user.\<close>

definition insert_audit :: "(string \<Rightarrow> string option) \<Rightarrow> uuid \<Rightarrow> AuditEvent \<Rightarrow> time \<Rightarrow> unit stmt" where
  "insert_audit inet i e now d =
     (case audit_row inet i now e of
        None \<Rightarrow> Inl DbError
      | Some r \<Rightarrow>
          if char_length (au_EventType e) > 50 then Inl DbError
          else if i \<in> au_ID ` set (audit_log d) then Inl UniqueViolation
          else if \<not> user_exists (au_UserID e) d then Inl ForeignKeyViolation
          else Inr ((), d\<lparr>audit_log := audit_log d @ [r]\<rparr>))"

definition InsertAuditEvent_pg ::
  "(string \<Rightarrow> string option) \<Rightarrow> uuid \<Rightarrow> AuditEvent \<Rightarrow> ('x world_scheme, pg_err, unit) eff" where
  "InsertAuditEvent_pg inet i e = db_call (insert_audit inet i e)"

definition ListAuditEvents_pg ::
  "uuid \<Rightarrow> int \<Rightarrow> time \<Rightarrow> ('x world_scheme, pg_err, AuditEvent list) eff" where
  "ListAuditEvents_pg userID limit before =
     query (\<lambda>now d. take (nat limit) (rev (sort_key au_CreatedAt
       (filter (\<lambda>e. au_UserID e = userID \<and> au_CreatedAt e < before) (audit_log d)))))"

section \<open>The service\<close>

definition queueSize :: nat where
  "queueSize = 512"

text \<open>The channel is the list of queued events; a full queue drops the event.\<close>

definition LogAsync :: "AuditEvent \<Rightarrow> AuditEvent list \<Rightarrow> AuditEvent list" where
  "LogAsync e queue = (if length queue < queueSize then queue @ [e] else queue)"

text \<open>
  Three attempts, each with the identifier the database draws for it; the pauses between them are
  not modelled. The result is dropped.
\<close>

fun try_inserts ::
  "(string \<Rightarrow> string option) \<Rightarrow> uuid list \<Rightarrow> AuditEvent \<Rightarrow> ('x world_scheme, pg_err, unit) eff" where
  "try_inserts inet [] e = ret ()"
| "try_inserts inet (i # ids) e =
     attempt (InsertAuditEvent_pg inet i e)
       (\<lambda>x. case x of Inr _ \<Rightarrow> ret () | Inl _ \<Rightarrow> try_inserts inet ids e)"

definition insertWithRetry ::
  "(string \<Rightarrow> string option) \<Rightarrow> uuid \<times> uuid \<times> uuid \<Rightarrow> AuditEvent \<Rightarrow> ('x world_scheme, pg_err, unit) eff" where
  "insertWithRetry inet ids e = (case ids of (i1, i2, i3) \<Rightarrow> try_inserts inet [i1, i2, i3] e)"

text \<open>One turn of the worker takes the first event of the queue; draining takes them all.\<close>

definition worker_turn ::
  "(string \<Rightarrow> string option) \<Rightarrow> uuid \<times> uuid \<times> uuid \<Rightarrow> AuditEvent list \<times> 'x world_scheme
   \<Rightarrow> AuditEvent list \<times> 'x world_scheme" where
  "worker_turn inet ids qw = (case qw of ([], w) \<Rightarrow> ([], w)
     | (e # es, w) \<Rightarrow> (es, snd (insertWithRetry inet ids e w)))"

fun worker_drain ::
  "(string \<Rightarrow> string option) \<Rightarrow> (nat \<Rightarrow> uuid \<times> uuid \<times> uuid) \<Rightarrow> AuditEvent list \<Rightarrow> 'x world_scheme
   \<Rightarrow> 'x world_scheme" where
  "worker_drain inet ids [] w = w"
| "worker_drain inet ids (e # es) w =
     worker_drain inet ids es (snd (insertWithRetry inet (ids (length es)) e w))"

text \<open>A zero \<open>before\<close> is \<open>None\<close>.\<close>

definition ListEvents ::
  "uuid \<Rightarrow> int \<Rightarrow> time option \<Rightarrow> ('x world_scheme, pg_err, AuditEvent list) eff" where
  "ListEvents userID limit before = (\<lambda>w.
     (let limit' = (if limit \<le> 0 \<or> limit > 100 then 50 else limit);
          before' = (case before of None \<Rightarrow> w_now w | Some t \<Rightarrow> t)
      in ListAuditEvents_pg userID limit' before') w)"

section \<open>The queue and the log\<close>

text \<open>What an event says, apart from the identifier, time and form of address the database gives it.\<close>

definition content :: "AuditEvent \<Rightarrow> uuid \<times> string \<times> string \<times> uuid option \<times> string" where
  "content e = (au_UserID e, au_EventType e, au_UserAgent e, au_ResourceID e, au_ResourceName e)"

text \<open>An event the database accepts, with identifiers that are new.\<close>

definition insertable :: "(string \<Rightarrow> string option) \<Rightarrow> db \<Rightarrow> AuditEvent \<Rightarrow> bool" where
  "insertable inet d e \<longleftrightarrow> user_exists (au_UserID e) d \<and> char_length (au_EventType e) \<le> 50
     \<and> (au_IPAddress e = [] \<or> inet (au_IPAddress e) \<noteq> None)"

lemma audit_row_content: "audit_row inet i now e = Some r \<Longrightarrow> content r = content e"
  by (auto simp: audit_row_def content_def split: option.splits)

lemma audit_row_insertable: "insertable inet d e \<Longrightarrow> \<exists>r. audit_row inet i now e = Some r \<and> au_ID r = i"
  by (auto simp: insertable_def audit_row_def nullableString_def)

lemma insert_audit_ok:
  assumes "insertable inet d e" and "i \<notin> au_ID ` set (audit_log d)"
  obtains r where "insert_audit inet i e now d = Inr ((), d\<lparr>audit_log := audit_log d @ [r]\<rparr>)"
    and "content r = content e" and "au_ID r = i"
proof -
  obtain r where r: "audit_row inet i now e = Some r" "au_ID r = i"
    using audit_row_insertable [OF assms(1)] by blast
  have "insert_audit inet i e now d = Inr ((), d\<lparr>audit_log := audit_log d @ [r]\<rparr>)"
    using assms by (auto simp: insert_audit_def r insertable_def)
  then show thesis using audit_row_content [OF r(1)] r(2) by (rule that)
qed

text \<open>An attempt that the database answers is the last one.\<close>

lemma insertWithRetry_nil:
  assumes "w_faults w = []" and "insertable inet (w_db w) e"
    and "fst ids \<notin> au_ID ` set (audit_log (w_db w))"
  obtains r where "insertWithRetry inet ids e w
      = (Inr (), w\<lparr>w_db := (w_db w)\<lparr>audit_log := audit_log (w_db w) @ [r]\<rparr>\<rparr>)"
    and "content r = content e" and "au_ID r = fst ids"
proof -
  obtain i1 i2 i3 where ids: "ids = (i1, i2, i3)" by (rule prod_cases3)
  obtain r where "insert_audit inet i1 e (w_now w) (w_db w)
      = Inr ((), (w_db w)\<lparr>audit_log := audit_log (w_db w) @ [r]\<rparr>)"
    and r: "content r = content e" "au_ID r = i1"
    using assms(2,3) insert_audit_ok [of inet "w_db w" e i1] by (auto simp: ids)
  then have "insertWithRetry inet ids e w
      = (Inr (), w\<lparr>w_db := (w_db w)\<lparr>audit_log := audit_log (w_db w) @ [r]\<rparr>\<rparr>)"
    by (simp add: insertWithRetry_def ids attempt_def InsertAuditEvent_pg_def db_call_nil [OF assms(1)] ret_def)
  with r show thesis by (simp add: that ids)
qed

lemma disjoint_mono: "A \<subseteq> A' \<Longrightarrow> B \<subseteq> B' \<Longrightarrow> A' \<inter> B' = {} \<Longrightarrow> A \<inter> B = {}"
  by blast

text \<open>Handlers log events and the worker takes turns, in any order.\<close>

datatype audit_action = Log AuditEvent | Turn "uuid \<times> uuid \<times> uuid"

fun audit_act ::
  "(string \<Rightarrow> string option) \<Rightarrow> audit_action \<Rightarrow> AuditEvent list \<times> 'x world_scheme
   \<Rightarrow> AuditEvent list \<times> 'x world_scheme" where
  "audit_act inet (Log e) (q, w) = (LogAsync e q, w)"
| "audit_act inet (Turn ids) (q, w) = worker_turn inet ids (q, w)"

fun logged :: "audit_action list \<Rightarrow> AuditEvent list" where
  "logged [] = []"
| "logged (Log e # as) = e # logged as"
| "logged (Turn ids # as) = logged as"

fun turn_ids :: "audit_action list \<Rightarrow> uuid list" where
  "turn_ids [] = []"
| "turn_ids (Log e # as) = turn_ids as"
| "turn_ids (Turn ids # as) = fst ids # turn_ids as"

text \<open>The abstract log: what is stored, followed by what is queued.\<close>

definition audit_abs :: "AuditEvent list \<times> 'x world_scheme \<Rightarrow> (uuid \<times> string \<times> string \<times> uuid option \<times> string) list" where
  "audit_abs qw = map content (audit_log (w_db (snd qw))) @ map content (fst qw)"

text \<open>A state in which no fault is scheduled and every queued event can be inserted.\<close>

definition audit_ready :: "(string \<Rightarrow> string option) \<Rightarrow> AuditEvent list \<times> 'x world_scheme \<Rightarrow> bool" where
  "audit_ready inet qw \<longleftrightarrow> w_faults (snd qw) = [] \<and> (\<forall>e \<in> set (fst qw). insertable inet (w_db (snd qw)) e)"

lemma worker_turn_abs:
  assumes "audit_ready inet (q, w)" and "fst ids \<notin> au_ID ` set (audit_log (w_db w))"
  obtains q' w' where "worker_turn inet ids (q, w) = (q', w')" and "audit_ready inet (q', w')"
    and "audit_abs (q', w') = audit_abs (q, w)" and "users (w_db w') = users (w_db w)"
    and "au_ID ` set (audit_log (w_db w')) \<subseteq> insert (fst ids) (au_ID ` set (audit_log (w_db w)))"
    and "length q' \<le> length q"
proof (cases q)
  case Nil
  with assms(1) show thesis by (intro that [of "[]" w]) (auto simp: worker_turn_def)
next
  case (Cons e es)
  obtain r where r: "insertWithRetry inet ids e w
      = (Inr (), w\<lparr>w_db := (w_db w)\<lparr>audit_log := audit_log (w_db w) @ [r]\<rparr>\<rparr>)"
    and c: "content r = content e" "au_ID r = fst ids"
    using assms by (auto simp: audit_ready_def Cons elim: insertWithRetry_nil)
  show thesis
    by (rule that [of es "w\<lparr>w_db := (w_db w)\<lparr>audit_log := audit_log (w_db w) @ [r]\<rparr>\<rparr>"])
      (use assms(1) r c in \<open>auto simp: worker_turn_def Cons audit_ready_def audit_abs_def insertable_def user_exists_def\<close>)
qed

text \<open>The list with each element replaced by up to \<open>n\<close> copies of it, in the same order.\<close>

inductive copies :: "nat \<Rightarrow> 'a list \<Rightarrow> 'a list \<Rightarrow> bool" for n where
  none: "copies n [] []"
| more: "copies n xs ys \<Longrightarrow> k \<le> n \<Longrightarrow> copies n (x # xs) (replicate k x @ ys)"

lemma copies_same: "1 \<le> n \<Longrightarrow> copies n xs xs"
proof (induction xs)
  case (Cons x xs)
  from copies.more [OF Cons.IH, of 1 x] Cons.prems show ?case by simp
qed (rule copies.none)

lemma copies_dropped: "copies n (xs @ ys) zs \<Longrightarrow> copies n (xs @ y # ys) zs"
proof (induction xs arbitrary: zs)
  case Nil
  from copies.more [OF Nil [simplified], of 0 y] show ?case by simp
next
  case (Cons x xs)
  from Cons.prems obtain k zs' where "copies n (xs @ ys) zs'" "k \<le> n" "zs = replicate k x @ zs'"
    by (auto elim: copies.cases)
  with Cons.IH show ?case by (auto intro: copies.more)
qed

lemma insert_audit_adds:
  "insert_audit inet i e now d = Inr (u, d') \<Longrightarrow> \<exists>r. audit_log d' = audit_log d @ [r] \<and> content r = content e"
  by (auto simp: insert_audit_def dest: audit_row_content split: option.splits if_splits)

text \<open>Whatever fails, three attempts store an event at most three times.\<close>

lemma try_inserts_copies:
  obtains rs k where "audit_log (w_db (snd (try_inserts inet is e w))) = audit_log (w_db w) @ rs"
    and "map content rs = replicate k (content e)" and "k \<le> length is"
proof (induction "is" arbitrary: w thesis)
  case Nil
  show thesis by (rule Nil [of "[]" 0]) (simp_all add: ret_def)
next
  case (Cons i "is")
  obtain x w1 where c: "InsertAuditEvent_pg inet i e w = (x, w1)" by (rule prod.exhaust)
  have db: "w_db w1 = w_db w \<or> (\<exists>u. insert_audit inet i e (w_now w) (w_db w) = Inr (u, w_db w1))"
    using db_call_db [of "insert_audit inet i e" w] c by (simp add: InsertAuditEvent_pg_def)
  obtain rs0 k0 where 1: "audit_log (w_db w1) = audit_log (w_db w) @ rs0" "map content rs0 = replicate k0 (content e)" "k0 \<le> 1"
  proof (cases "w_db w1 = w_db w")
    case True
    then show thesis by (intro that [of "[]" 0]) simp_all
  next
    case False
    with db obtain r where "audit_log (w_db w1) = audit_log (w_db w) @ [r]" "content r = content e"
      using insert_audit_adds by blast
    then show thesis by (intro that [of "[r]" 1]) simp_all
  qed
  obtain rs k where 2: "audit_log (w_db (snd (try_inserts inet is e w1))) = audit_log (w_db w1) @ rs"
    "map content rs = replicate k (content e)" "k \<le> length is"
    by (rule Cons.IH)
  show thesis
  proof (cases x)
    case (Inl err)
    show thesis
      by (rule Cons.prems [of "rs0 @ rs" "k0 + k"])
        (use 1 2 Inl in \<open>simp_all add: attempt_def c replicate_add\<close>)
  next
    case (Inr y)
    show thesis
      by (rule Cons.prems [of rs0 k0]) (use 1 Inr in \<open>simp_all add: attempt_def c ret_def\<close>)
  qed
qed

lemma worker_turn_copies:
  assumes "worker_turn inet ids (q, w) = (q', w')"
  obtains "q = []" and "q' = []" and "w' = w"
  | e rs k where "q = e # q'" and "audit_log (w_db w') = audit_log (w_db w) @ rs" and "map content rs = replicate k (content e)" and "k \<le> 3"
proof (cases q)
  case Nil
  with assms that(1) show thesis by (simp add: worker_turn_def)
next
  case (Cons e es)
  obtain i1 i2 i3 where ids: "ids = (i1, i2, i3)" by (rule prod_cases3)
  obtain rs k where "audit_log (w_db (snd (try_inserts inet [i1, i2, i3] e w))) = audit_log (w_db w) @ rs"
    "map content rs = replicate k (content e)" "k \<le> length [i1, i2, i3]"
    by (rule try_inserts_copies)
  with assms that(2) [of e rs k] show thesis by (simp add: worker_turn_def Cons insertWithRetry_def ids)
qed

lemma audit_acts_copies:
  assumes "fold (audit_act inet) as (q, w) = (q', w')"
  shows "\<exists>zs. map content (audit_log (w_db w')) = map content (audit_log (w_db w)) @ zs
    \<and> copies 3 (map content (q @ logged as)) (zs @ map content q')"
  using assms
proof (induction as arbitrary: q w rule: logged.induct)
  case 1
  then show ?case by (auto intro: copies_same)
next
  case (2 e as)
  then obtain zs where zs: "map content (audit_log (w_db w')) = map content (audit_log (w_db w)) @ zs"
    and "copies 3 (map content (LogAsync e q @ logged as)) (zs @ map content q')"
    by fastforce
  moreover from this(2) have "copies 3 (map content (q @ logged (Log e # as))) (zs @ map content q')"
    by (auto simp: LogAsync_def split: if_splits dest: copies_dropped [where y = "content e"])
  ultimately show ?case by blast
next
  case (3 ids as)
  obtain q1 w1 where t: "worker_turn inet ids (q, w) = (q1, w1)" by (rule prod.exhaust)
  with "3.prems" have "fold (audit_act inet) as (q1, w1) = (q', w')" by simp
  from "3.IH" [OF this] obtain zs where zs: "map content (audit_log (w_db w')) = map content (audit_log (w_db w1)) @ zs"
    and c: "copies 3 (map content (q1 @ logged as)) (zs @ map content q')"
    by blast
  from t show ?case
  proof (cases rule: worker_turn_copies)
    case 1
    with zs c show ?thesis by auto
  next
    case (2 e rs k)
    from copies.more [OF c 2(4), of "content e"] zs show ?thesis
      by (intro exI [of _ "map content rs @ zs"]) (simp add: 2)
  qed
qed

text \<open>
  Without faults and while the queue has room, the queue and the table together are one append-only log:
  every logged event appears once, in the order of logging, and nothing else.
\<close>

lemma audit_acts_once:
  assumes "audit_ready inet (q, w)" and "length q + length (logged as) \<le> queueSize"
    and "\<forall>e \<in> set (logged as). insertable inet (w_db w) e"
    and "distinct (turn_ids as)" and "set (turn_ids as) \<inter> au_ID ` set (audit_log (w_db w)) = {}"
  shows "audit_abs (fold (audit_act inet) as (q, w)) = audit_abs (q, w) @ map content (logged as)"
  using assms
proof (induction as arbitrary: q w rule: logged.induct)
  case (2 e as)
  have q: "LogAsync e q = q @ [e]" using "2.prems"(2) by (simp add: LogAsync_def)
  have "audit_abs (fold (audit_act inet) as (q @ [e], w)) = audit_abs (q @ [e], w) @ map content (logged as)"
    using "2.prems" by (intro "2.IH") (auto simp: audit_ready_def)
  then show ?case by (simp add: q audit_abs_def)
next
  case (3 ids as)
  obtain q' w' where t: "worker_turn inet ids (q, w) = (q', w')" and "audit_ready inet (q', w')"
    and a: "audit_abs (q', w') = audit_abs (q, w)" and u: "users (w_db w') = users (w_db w)"
    and i: "au_ID ` set (audit_log (w_db w')) \<subseteq> insert (fst ids) (au_ID ` set (audit_log (w_db w)))"
    and "length q' \<le> length q"
    by (rule worker_turn_abs [OF "3.prems"(1), of ids]) (use "3.prems"(5) in \<open>simp\<close>)
  moreover have "insertable inet (w_db w') e \<longleftrightarrow> insertable inet (w_db w) e" for e
    by (simp add: insertable_def user_exists_def u)
  moreover have "set (turn_ids as) \<inter> au_ID ` set (audit_log (w_db w')) = {}"
  proof -
    have "fst ids \<notin> set (turn_ids as)" and "set (turn_ids as) \<inter> au_ID ` set (audit_log (w_db w)) = {}"
      using "3.prems"(4,5) by auto
    then have "set (turn_ids as) \<inter> insert (fst ids) (au_ID ` set (audit_log (w_db w))) = {}" by simp
    with order_refl i show ?thesis by (rule disjoint_mono)
  qed
  ultimately have "audit_abs (fold (audit_act inet) as (q', w')) = audit_abs (q', w') @ map content (logged as)"
    using "3.prems" by (intro "3.IH") auto
  then show ?case by (simp add: t a)
qed simp

text \<open>
  C36. The audit log. Handlers log events and the worker takes turns, in any order. Whatever fails and
  even when events are dropped, what is added to the table, followed by what is still queued, consists of
  the events that were queued before and the events logged, in this order, each left out or present up
  to three times (once per attempt). When no call fails, the queue has room, the database accepts the
  events and the identifiers it draws are new, each is there exactly once.
\<close>

theorem audit_log_fifo:
  assumes "fold (audit_act inet) as (q, w) = (q', w')"
  shows "(\<exists>zs. map content (audit_log (w_db w')) = map content (audit_log (w_db w)) @ zs
      \<and> copies 3 (map content (q @ logged as)) (zs @ map content q'))
    \<and> (audit_ready inet (q, w) \<longrightarrow> length q + length (logged as) \<le> queueSize
      \<longrightarrow> (\<forall>e \<in> set (logged as). insertable inet (w_db w) e)
      \<longrightarrow> distinct (turn_ids as) \<longrightarrow> set (turn_ids as) \<inter> au_ID ` set (audit_log (w_db w)) = {}
      \<longrightarrow> map content (audit_log (w_db w') @ q') = map content (audit_log (w_db w) @ q @ logged as))"
  using audit_acts_copies [OF assms] audit_acts_once [of inet q w as] assms by (simp add: audit_abs_def)

text \<open>
  A page of the log holds only events of the user from before the given instant, newest first,
  and never more than 100; a page size out of range is 50.
\<close>

lemma ListEvents_page:
  assumes "ListEvents userID limit (Some before) w = (Inr es, w')"
  shows "set es \<subseteq> {e \<in> set (audit_log (w_db w)). au_UserID e = userID \<and> au_CreatedAt e < before}
    \<and> sorted (rev (map au_CreatedAt es)) \<and> w_db w' = w_db w
    \<and> length es \<le> (if 1 \<le> limit \<and> limit \<le> 100 then nat limit else 50)
    \<and> (\<forall>e \<in> set (audit_log (w_db w)) - set es. au_UserID e = userID \<longrightarrow> au_CreatedAt e < before \<longrightarrow>
         (\<forall>e' \<in> set es. au_CreatedAt e \<le> au_CreatedAt e'))"
proof -
  define page where "page = rev (sort_key au_CreatedAt
    (filter (\<lambda>e. au_UserID e = userID \<and> au_CreatedAt e < before) (audit_log (w_db w))))"
  define n where "n = nat (if limit \<le> 0 \<or> limit > 100 then 50 else limit)"
  have q: "query (\<lambda>now d. take n (rev (sort_key au_CreatedAt
    (filter (\<lambda>e. au_UserID e = userID \<and> au_CreatedAt e < before) (audit_log d))))) w = (Inr es, w')"
    using assms by (simp add: ListEvents_def Let_def ListAuditEvents_pg_def n_def)
  have es: "es = take n page" and w': "w_db w' = w_db w"
    using query_ok [OF q] by (simp_all add: page_def)
  have set_page: "set page = {e \<in> set (audit_log (w_db w)). au_UserID e = userID \<and> au_CreatedAt e < before}"
    by (auto simp: page_def)
  have sorted_page: "sorted (rev (map au_CreatedAt page))"
    by (simp add: page_def rev_map)
  have split: "page = es @ drop n page" by (simp add: es)
  have all: "sorted (rev (map au_CreatedAt (drop n page)) @ rev (map au_CreatedAt es))"
    using sorted_page by (subst (asm) split) simp
  have "au_CreatedAt e \<le> au_CreatedAt e'" if "e \<in> set page - set es" "e' \<in> set es" for e e'
  proof -
    have "e \<in> set (drop n page)" using that(1) split by (metis Diff_iff Un_iff set_append)
    with that(2) all show ?thesis by (auto simp: sorted_append)
  qed
  moreover have "set es \<subseteq> set page" by (simp add: es set_take_subset)
  moreover have "sorted (rev (map au_CreatedAt es))" using all by (simp add: sorted_append)
  moreover have "length es \<le> (if 1 \<le> limit \<and> limit \<le> 100 then nat limit else 50)"
    by (auto simp: es n_def)
  ultimately show ?thesis using w' by (auto simp: set_page)
qed

end
