(* ===== verification/Session_Store.thy ===== *)
theory Session_Store
  imports Session_Repo
begin

text \<open>
  What the session tables promise. The invariant that the constraints of the schema and the code
  keep together; that revocations are never undone; and the tables as stores of single-use tokens:
  an interface, and its implementation by \<open>refresh_sessions\<close> with \<open>device_sessions\<close> and by
  \<open>password_reset_tokens\<close>.
\<close>

section \<open>The invariant\<close>

definition users_ok :: "db \<Rightarrow> bool" where
  "users_ok d \<longleftrightarrow> distinct (map us_id (users d)) \<and> distinct (map us_email (users d))"

definition devices_ok :: "db \<Rightarrow> bool" where
  "devices_ok d \<longleftrightarrow> distinct (map ds_ID (device_sessions d))
     \<and> distinct (map (\<lambda>r. (ds_UserID r, ds_device_id r))
         (filter (\<lambda>r. ds_device_id r \<noteq> [] \<and> ds_RevokedAt r = None) (device_sessions d)))
     \<and> (\<forall>r \<in> set (device_sessions d). user_exists (ds_UserID r) d)"

text \<open>A refresh session belongs to the user of its device session.\<close>

definition refresh_ok :: "db \<Rightarrow> bool" where
  "refresh_ok d \<longleftrightarrow> distinct (map rs_id (refresh_sessions d))
     \<and> distinct (map rs_refresh_token_hash (filter (\<lambda>q. rs_revoked_at q = None) (refresh_sessions d)))
     \<and> (\<forall>q \<in> set (refresh_sessions d). \<exists>r \<in> set (device_sessions d).
          ds_ID r = rs_device_session_id q \<and> ds_UserID r = rs_user_id q)"

definition resets_ok :: "db \<Rightarrow> bool" where
  "resets_ok d \<longleftrightarrow> distinct (map pt_ID (password_reset_tokens d))
     \<and> distinct (map pt_TokenHash (password_reset_tokens d))
     \<and> (\<forall>t \<in> set (password_reset_tokens d). user_exists (pt_UserID t) d)"

definition auth_ok :: "db \<Rightarrow> bool" where
  "auth_ok d \<longleftrightarrow> users_ok d \<and> devices_ok d \<and> refresh_ok d \<and> resets_ok d"

text \<open>
  No session or token disappears, changes its owner or its identity, or loses the instant at which
  it was revoked or used.
\<close>

definition device_history :: "db \<Rightarrow> db \<Rightarrow> bool" where
  "device_history d d' \<longleftrightarrow> (\<forall>r \<in> set (device_sessions d). \<exists>r' \<in> set (device_sessions d').
     ds_ID r' = ds_ID r \<and> ds_UserID r' = ds_UserID r
     \<and> (ds_RevokedAt r \<noteq> None \<longrightarrow> ds_RevokedAt r' = ds_RevokedAt r))"

definition refresh_history :: "db \<Rightarrow> db \<Rightarrow> bool" where
  "refresh_history d d' \<longleftrightarrow> (\<forall>q \<in> set (refresh_sessions d). \<exists>q' \<in> set (refresh_sessions d').
     rs_id q' = rs_id q \<and> rs_user_id q' = rs_user_id q
     \<and> rs_device_session_id q' = rs_device_session_id q
     \<and> rs_refresh_token_hash q' = rs_refresh_token_hash q \<and> rs_expires_at q' = rs_expires_at q
     \<and> (rs_revoked_at q \<noteq> None \<longrightarrow> rs_revoked_at q' = rs_revoked_at q))"

definition reset_history :: "db \<Rightarrow> db \<Rightarrow> bool" where
  "reset_history d d' \<longleftrightarrow> (\<forall>t \<in> set (password_reset_tokens d). \<exists>t' \<in> set (password_reset_tokens d').
     pt_ID t' = pt_ID t \<and> pt_UserID t' = pt_UserID t \<and> pt_TokenHash t' = pt_TokenHash t
     \<and> pt_ExpiresAt t' = pt_ExpiresAt t
     \<and> (pt_UsedAt t \<noteq> None \<longrightarrow> pt_UsedAt t' = pt_UsedAt t))"

definition history :: "db \<Rightarrow> db \<Rightarrow> bool" where
  "history d d' \<longleftrightarrow> device_history d d' \<and> refresh_history d d' \<and> reset_history d d'"

lemmas auth_defs = users_ok_def devices_ok_def refresh_ok_def resets_ok_def auth_ok_def user_exists_def

lemmas history_defs = device_history_def refresh_history_def reset_history_def history_def

lemma history_refl [simp]: "history d d"
  by (auto simp: history_defs)

lemma device_history_trans: "device_history a b \<Longrightarrow> device_history b c \<Longrightarrow> device_history a c"
  unfolding device_history_def by (metis (no_types, lifting))

lemma refresh_history_trans: "refresh_history a b \<Longrightarrow> refresh_history b c \<Longrightarrow> refresh_history a c"
  unfolding refresh_history_def by (metis (no_types, lifting))

lemma reset_history_trans: "reset_history a b \<Longrightarrow> reset_history b c \<Longrightarrow> reset_history a c"
  unfolding reset_history_def by (metis (no_types, lifting))

lemma history_trans: "history a b \<Longrightarrow> history b c \<Longrightarrow> history a c"
  unfolding history_def
  using device_history_trans refresh_history_trans reset_history_trans by blast

text \<open>Both together, from a given database on.\<close>

definition auth_from :: "db \<Rightarrow> time \<Rightarrow> db \<Rightarrow> bool" where
  "auth_from d0 now d \<longleftrightarrow> auth_ok d \<and> history d0 d"

lemma auth_fromI:
  "auth_from d0 now d \<Longrightarrow> (auth_ok d \<Longrightarrow> auth_ok d' \<and> history d d') \<Longrightarrow> auth_from d0 now' d'"
  by (auto simp: auth_from_def intro: history_trans)

section \<open>The statements keep it\<close>

text \<open>Updates of rows that keep the keys, row by row.\<close>

definition device_update :: "(device_session \<Rightarrow> device_session) \<Rightarrow> bool" where
  "device_update g \<longleftrightarrow> (\<forall>r. ds_ID (g r) = ds_ID r \<and> ds_UserID (g r) = ds_UserID r
     \<and> ds_device_id (g r) = ds_device_id r
     \<and> (ds_RevokedAt r \<noteq> None \<longrightarrow> ds_RevokedAt (g r) = ds_RevokedAt r))"

definition refresh_update :: "(refresh_session \<Rightarrow> refresh_session) \<Rightarrow> bool" where
  "refresh_update g \<longleftrightarrow> (\<forall>q. rs_id (g q) = rs_id q \<and> rs_user_id (g q) = rs_user_id q
     \<and> rs_device_session_id (g q) = rs_device_session_id q
     \<and> rs_refresh_token_hash (g q) = rs_refresh_token_hash q \<and> rs_expires_at (g q) = rs_expires_at q
     \<and> (rs_revoked_at q \<noteq> None \<longrightarrow> rs_revoked_at (g q) = rs_revoked_at q))"

definition reset_update :: "(PasswordResetToken \<Rightarrow> PasswordResetToken) \<Rightarrow> bool" where
  "reset_update g \<longleftrightarrow> (\<forall>t. pt_ID (g t) = pt_ID t \<and> pt_UserID (g t) = pt_UserID t
     \<and> pt_TokenHash (g t) = pt_TokenHash t \<and> pt_ExpiresAt (g t) = pt_ExpiresAt t
     \<and> (pt_UsedAt t \<noteq> None \<longrightarrow> pt_UsedAt (g t) = pt_UsedAt t))"

lemma update_devices_keeps:
  assumes "auth_ok d" and g: "device_update g"
  shows "auth_ok (d\<lparr>device_sessions := map g (device_sessions d)\<rparr>)
    \<and> history d (d\<lparr>device_sessions := map g (device_sessions d)\<rparr>)"
proof
  have k: "ds_ID (g r) = ds_ID r" "ds_UserID (g r) = ds_UserID r" "ds_device_id (g r) = ds_device_id r"
    "ds_RevokedAt r \<noteq> None \<Longrightarrow> ds_RevokedAt (g r) = ds_RevokedAt r" for r
    using g unfolding device_update_def by blast+
  have "distinct (map (\<lambda>r. (ds_UserID r, ds_device_id r))
      (filter (\<lambda>r. ds_device_id r \<noteq> [] \<and> ds_RevokedAt r = None) (map g (device_sessions d))))"
    using assms(1) by (intro distinct_partial_update) (auto simp: auth_defs k, metis k(4))
  moreover have "map ds_ID (map g (device_sessions d)) = map ds_ID (device_sessions d)"
    by (rule map_key_same) (rule k)
  ultimately show "auth_ok (d\<lparr>device_sessions := map g (device_sessions d)\<rparr>)"
    using assms(1) by (auto simp: auth_defs k simp del: map_map)
  show "history d (d\<lparr>device_sessions := map g (device_sessions d)\<rparr>)"
    by (auto simp: history_defs k)
qed

lemma update_refresh_keeps:
  assumes "auth_ok d" and g: "refresh_update g"
  shows "auth_ok (d\<lparr>refresh_sessions := map g (refresh_sessions d)\<rparr>)
    \<and> history d (d\<lparr>refresh_sessions := map g (refresh_sessions d)\<rparr>)"
proof
  have k: "rs_id (g q) = rs_id q" "rs_user_id (g q) = rs_user_id q"
    "rs_device_session_id (g q) = rs_device_session_id q"
    "rs_refresh_token_hash (g q) = rs_refresh_token_hash q" "rs_expires_at (g q) = rs_expires_at q"
    "rs_revoked_at q \<noteq> None \<Longrightarrow> rs_revoked_at (g q) = rs_revoked_at q" for q
    using g unfolding refresh_update_def by blast+
  have "distinct (map rs_refresh_token_hash
      (filter (\<lambda>q. rs_revoked_at q = None) (map g (refresh_sessions d))))"
    using assms(1) by (intro distinct_partial_update) (auto simp: auth_defs k, metis k(6))
  moreover have "map rs_id (map g (refresh_sessions d)) = map rs_id (refresh_sessions d)"
    by (rule map_key_same) (rule k)
  ultimately show "auth_ok (d\<lparr>refresh_sessions := map g (refresh_sessions d)\<rparr>)"
    using assms(1) by (auto simp: auth_defs k simp del: map_map)
  show "history d (d\<lparr>refresh_sessions := map g (refresh_sessions d)\<rparr>)"
    by (auto simp: history_defs k)
qed

lemma update_resets_keeps:
  assumes "auth_ok d" and g: "reset_update g"
  shows "auth_ok (d\<lparr>password_reset_tokens := map g (password_reset_tokens d)\<rparr>)
    \<and> history d (d\<lparr>password_reset_tokens := map g (password_reset_tokens d)\<rparr>)"
proof
  have k: "pt_ID (g t) = pt_ID t" "pt_UserID (g t) = pt_UserID t" "pt_TokenHash (g t) = pt_TokenHash t"
    "pt_ExpiresAt (g t) = pt_ExpiresAt t"
    "pt_UsedAt t \<noteq> None \<Longrightarrow> pt_UsedAt (g t) = pt_UsedAt t" for t
    using g unfolding reset_update_def by blast+
  have "map pt_ID (map g (password_reset_tokens d)) = map pt_ID (password_reset_tokens d)"
    and "map pt_TokenHash (map g (password_reset_tokens d)) = map pt_TokenHash (password_reset_tokens d)"
    by (rule map_key_same, rule k)+
  then show "auth_ok (d\<lparr>password_reset_tokens := map g (password_reset_tokens d)\<rparr>)"
    using assms(1) by (auto simp: auth_defs k simp del: map_map)
  show "history d (d\<lparr>password_reset_tokens := map g (password_reset_tokens d)\<rparr>)"
    by (auto simp: history_defs k)
qed

lemma revoke_devices_keeps:
  "auth_ok d \<Longrightarrow> auth_ok (revoke_devices now p d) \<and> history d (revoke_devices now p d)"
  unfolding revoke_devices_def by (rule update_devices_keeps) (auto simp: device_update_def)

lemma revoke_refresh_keeps:
  "auth_ok d \<Longrightarrow> auth_ok (revoke_refresh now p d) \<and> history d (revoke_refresh now p d)"
  unfolding revoke_refresh_def by (rule update_refresh_keeps) (auto simp: refresh_update_def)

lemma consume_refresh_keeps:
  "auth_ok d \<Longrightarrow> auth_ok (snd (consume_refresh now h d)) \<and> history d (snd (consume_refresh now h d))"
  unfolding consume_refresh_def snd_conv
  by (rule update_refresh_keeps) (auto simp: refresh_update_def refresh_usable_def)

lemma consume_reset_keeps:
  "auth_ok d \<Longrightarrow> auth_ok (snd (consume_reset now h d)) \<and> history d (snd (consume_reset now h d))"
  unfolding consume_reset_def snd_conv
  by (rule update_resets_keeps) (auto simp: reset_update_def token_usable_def)

lemma insert_user_keeps:
  assumes "insert_user u d = Inr (x, d')" and "auth_ok d"
  shows "auth_ok d' \<and> history d d'"
  using assms by (auto simp: insert_user_def auth_defs history_defs split: if_splits)

lemma insert_device_keeps:
  assumes ins: "insert_device_session r d = Inr (x, d')" and ok: "auth_ok d"
    and "ds_RevokedAt r = None"
  shows "auth_ok d' \<and> history d d'"
proof
  have d': "d' = d\<lparr>device_sessions := device_sessions d @ [r]\<rparr>"
    and new: "ds_ID r \<notin> ds_ID ` set (device_sessions d)"
    and free: "\<forall>r' \<in> set (device_sessions d). \<not> same_active_device (ds_UserID r) (ds_device_id r) r'"
    and user: "user_exists (ds_UserID r) d"
    using ins by (auto simp: insert_device_session_def split: if_splits)
  have "devices_ok d'"
    using ok new free user unfolding d'
    by (auto simp: auth_ok_def devices_ok_def user_exists_def same_active_device_def)
  moreover have "refresh_ok d'"
    using ok unfolding d' auth_ok_def refresh_ok_def by simp
  moreover have "users_ok d' \<and> resets_ok d'"
    using ok unfolding d' by (simp add: auth_defs)
  ultimately show "auth_ok d'" by (simp add: auth_ok_def)
  show "history d d'" unfolding d' by (auto simp: history_defs)
qed

lemma insert_refresh_keeps:
  assumes ins: "insert_refresh_session q d = Inr (x, d')" and ok: "auth_ok d"
    and "rs_revoked_at q = None"
    and owner: "\<And>r. r \<in> set (device_sessions d) \<Longrightarrow> ds_ID r = rs_device_session_id q \<Longrightarrow>
           ds_UserID r = rs_user_id q"
  shows "auth_ok d' \<and> history d d'"
proof
  have d': "d' = d\<lparr>refresh_sessions := refresh_sessions d @ [q]\<rparr>"
    and new: "rs_id q \<notin> rs_id ` set (refresh_sessions d)"
    and free: "\<forall>q' \<in> set (refresh_sessions d).
      rs_refresh_token_hash q' = rs_refresh_token_hash q \<longrightarrow> rs_revoked_at q' \<noteq> None"
    and dev: "rs_device_session_id q \<in> ds_ID ` set (device_sessions d)"
    using ins by (auto simp: insert_refresh_session_def split: if_splits)
  obtain r where "r \<in> set (device_sessions d)" and "ds_ID r = rs_device_session_id q"
    and "ds_UserID r = rs_user_id q"
    using dev owner by (metis imageE)
  then have "refresh_ok d'"
    using ok new free unfolding d' auth_ok_def refresh_ok_def by auto
  then show "auth_ok d'" using ok unfolding d' by (simp add: auth_defs)
  show "history d d'" unfolding d' by (auto simp: history_defs)
qed

lemma insert_reset_keeps:
  assumes "insert_reset_token t d = Inr (x, d')" and "auth_ok d"
  shows "auth_ok d' \<and> history d d'"
  using assms by (auto simp: insert_reset_token_def auth_defs history_defs split: if_splits)

end
