(* ===== verification/Token_Store.thy ===== *)
theory Token_Store
  imports Session_Store
begin

text \<open>
  Single-use tokens as an interface: what a caller may rely on when a token is redeemed or a group of
  tokens is revoked. \<open>refresh_sessions\<close> together with \<open>device_sessions\<close> implements it, and so does
  \<open>password_reset_tokens\<close>: the concrete statements refine operations on the map of usable tokens.
\<close>

section \<open>The interface\<close>

text \<open>Tokens presented one after the other, each at an instant.\<close>

fun redeem_all ::
  "(time \<Rightarrow> 'k \<Rightarrow> 's \<Rightarrow> 'v option \<times> 's) \<Rightarrow> (time \<times> 'k) list \<Rightarrow> 's \<Rightarrow> 'v option list" where
  "redeem_all consume [] s = []"
| "redeem_all consume ((t, k) # ps) s =
     (case consume t k s of (r, s') \<Rightarrow> r # redeem_all consume ps s')"

text \<open>How often a given token was accepted.\<close>

definition accepted :: "'k \<Rightarrow> (time \<times> 'k) list \<Rightarrow> 'v option list \<Rightarrow> nat" where
  "accepted k ps rs = length (filter (\<lambda>(p, r). snd p = k \<and> r \<noteq> None) (zip ps rs))"

locale token_store =
  fixes ok :: "'s \<Rightarrow> bool"
    and usable :: "time \<Rightarrow> 's \<Rightarrow> 'k \<Rightarrow> 'v option"
    and consume :: "time \<Rightarrow> 'k \<Rightarrow> 's \<Rightarrow> 'v option \<times> 's"
  assumes consume_ok: "ok s \<Longrightarrow> ok (snd (consume now k s))"
    and consume_result: "fst (consume now k s) = usable now s k"
    and consume_rest:
      "ok s \<Longrightarrow> now \<le> t \<Longrightarrow> usable t (snd (consume now k s)) = (usable t s)(k := None)"
    and usable_earlier: "ok s \<Longrightarrow> usable t' s k = Some v \<Longrightarrow> t \<le> t' \<Longrightarrow> usable t s k = Some v"
begin

lemma single_use:
  assumes "ok s" and "now \<le> t"
  shows "fst (consume t k (snd (consume now k s))) = None"
  using assms by (simp add: consume_result consume_rest)

lemma others_kept:
  assumes "ok s" and "now \<le> t" and "k' \<noteq> k"
  shows "fst (consume t k' (snd (consume now k s))) = fst (consume t k' s)"
  using assms by (simp add: consume_result consume_rest)

lemma unusable_stays:
  assumes "ok s" and "sorted (map fst ps)" and "\<And>t. t \<in> fst ` set ps \<Longrightarrow> usable t s k = None"
  shows "accepted k ps (redeem_all consume ps s) = 0"
  using assms
proof (induction ps arbitrary: s)
  case Nil
  show ?case by (simp add: accepted_def)
next
  case (Cons p ps)
  obtain t k' where p: "p = (t, k')" by (rule prod.exhaust)
  obtain r s' where c: "consume t k' s = (r, s')" by (rule prod.exhaust)
  have s': "s' = snd (consume t k' s)" by (simp add: c)
  have "usable t' s' k = None" if "t' \<in> fst ` set ps" for t'
  proof -
    have "t \<le> t'" using Cons.prems(2) that by (auto simp: p)
    then have "usable t' s' = (usable t' s)(k' := None)"
      using consume_rest [OF Cons.prems(1)] by (simp add: s')
    with Cons.prems(3) [of t'] that show ?thesis by simp
  qed
  then have "accepted k ps (redeem_all consume ps s') = 0"
    using Cons.prems consume_ok [of s t k'] by (intro Cons.IH) (simp_all add: p s')
  moreover have "k' = k \<longrightarrow> r = None"
    using Cons.prems(3) [of t] consume_result [of t k' s] by (auto simp: p c)
  ultimately show ?case by (auto simp: p c accepted_def)
qed

text \<open>However often and in whatever order tokens are presented, each is accepted at most once.\<close>

lemma accepted_at_most_once:
  assumes "ok s" and "sorted (map fst ps)"
  shows "accepted k ps (redeem_all consume ps s) \<le> 1"
  using assms
proof (induction ps arbitrary: s)
  case Nil
  show ?case by (simp add: accepted_def)
next
  case (Cons p ps)
  obtain t k' where p: "p = (t, k')" by (rule prod.exhaust)
  obtain r s' where c: "consume t k' s = (r, s')" by (rule prod.exhaust)
  have s': "s' = snd (consume t k' s)" by (simp add: c)
  have ok': "ok s'" and so: "sorted (map fst ps)"
    using Cons.prems consume_ok [of s t k'] by (simp_all add: s')
  show ?case
  proof (cases "k' = k")
    case True
    have "usable t' s' k = None" if "t' \<in> fst ` set ps" for t'
      using Cons.prems that consume_rest [of s t t' k'] by (auto simp: p s' True)
    then have "accepted k ps (redeem_all consume ps s') = 0"
      by (rule unusable_stays [OF ok' so])
    then show ?thesis by (auto simp: p c accepted_def)
  next
    case False
    with Cons.IH [OF ok' so] show ?thesis by (simp add: p c accepted_def)
  qed
qed

end

text \<open>A store in which all tokens that match a condition can be revoked.\<close>

locale revocable_store = token_store ok usable consume
  for ok :: "'s \<Rightarrow> bool"
    and usable :: "time \<Rightarrow> 's \<Rightarrow> 'k \<Rightarrow> 'v option"
    and consume :: "time \<Rightarrow> 'k \<Rightarrow> 's \<Rightarrow> 'v option \<times> 's" +
  fixes hit :: "'p \<Rightarrow> 'v \<Rightarrow> bool"
    and revoke :: "time \<Rightarrow> 'p \<Rightarrow> 's \<Rightarrow> 's"
  assumes revoke_ok: "ok s \<Longrightarrow> ok (revoke now p s)"
    and revoke_usable:
      "ok s \<Longrightarrow> now \<le> t \<Longrightarrow> usable t (revoke now p s) k = Some v \<longleftrightarrow> usable t s k = Some v \<and> \<not> hit p v"
begin

lemma revoked_refused:
  assumes "ok s" and "now \<le> t" and "usable t s k = Some v" and "hit p v"
  shows "fst (consume t k (revoke now p s)) = None"
proof (rule ccontr)
  assume "fst (consume t k (revoke now p s)) \<noteq> None"
  then obtain v' where v': "usable t (revoke now p s) k = Some v'"
    unfolding consume_result by (metis option.exhaust)
  then have "usable t s k = Some v' \<and> \<not> hit p v'" using revoke_usable [OF assms(1,2)] by blast
  with assms(3,4) show False by simp
qed

lemma not_revoked_kept:
  assumes "ok s" and "now \<le> t" and "usable t s k = Some v" and "\<not> hit p v"
  shows "fst (consume t k (revoke now p s)) = Some v"
  using revoke_usable [OF assms(1,2)] assms(3,4) by (simp add: consume_result)

end

section \<open>Refresh tokens\<close>

lemma filtered_map_eq:
  assumes "\<And>k v. f k = Some v \<longleftrightarrow> g k = Some v \<and> \<not> P v"
  shows "f = (\<lambda>k. case g k of None \<Rightarrow> None | Some v \<Rightarrow> if P v then None else Some v)"
proof
  fix k
  show "f k = (case g k of None \<Rightarrow> None | Some v \<Rightarrow> if P v then None else Some v)"
  proof (cases "g k")
    case None
    then have "f k \<noteq> Some v" for v using assms by simp
    then have "f k = None" by (cases "f k") blast+
    with None show ?thesis by simp
  next
    case (Some v)
    then have "f k = Some v' \<longleftrightarrow> v' = v \<and> \<not> P v" for v' using assms by auto
    with Some show ?thesis by (cases "f k") (auto split: if_splits)
  qed
qed

definition refresh_view :: "time \<Rightarrow> db \<Rightarrow> bytes \<Rightarrow> ConsumedSession option" where
  "refresh_view now d h = map_option consumed_of
     (find (\<lambda>q. rs_refresh_token_hash q = h \<and> refresh_usable now d q) (refresh_sessions d))"

lemma refresh_active_unique:
  assumes "auth_ok d" and "q \<in> set (refresh_sessions d)" and "q' \<in> set (refresh_sessions d)"
    and "rs_revoked_at q = None" and "rs_revoked_at q' = None"
    and "rs_refresh_token_hash q = rs_refresh_token_hash q'"
  shows "q = q'"
  using assms distinct_map_eqD [of rs_refresh_token_hash "filter (\<lambda>q. rs_revoked_at q = None) (refresh_sessions d)" q q']
  by (simp add: auth_ok_def refresh_ok_def)

lemma refresh_view_iff:
  assumes "auth_ok d"
  shows "refresh_view now d h = Some v \<longleftrightarrow>
    (\<exists>q \<in> set (refresh_sessions d). rs_refresh_token_hash q = h \<and> refresh_usable now d q
       \<and> consumed_of q = v)"
proof (cases "find (\<lambda>q. rs_refresh_token_hash q = h \<and> refresh_usable now d q) (refresh_sessions d)")
  case None
  then show ?thesis by (auto simp: refresh_view_def dest: find_NoneD)
next
  case (Some q)
  then have q: "q \<in> set (refresh_sessions d)" "rs_refresh_token_hash q = h" "refresh_usable now d q"
    by (auto dest: find_SomeD)
  have "q' = q" if "q' \<in> set (refresh_sessions d)" "rs_refresh_token_hash q' = h"
    "refresh_usable now d q'" for q'
    using that q unfolding refresh_usable_def by (intro refresh_active_unique [OF assms]) simp_all
  then have "(\<exists>q' \<in> set (refresh_sessions d). rs_refresh_token_hash q' = h \<and> refresh_usable now d q'
       \<and> consumed_of q' = v) \<longleftrightarrow> consumed_of q = v"
    using q by blast
  with Some show ?thesis by (simp add: refresh_view_def)
qed

lemma refresh_view_None:
  "refresh_view now d h = None \<longleftrightarrow>
    (\<forall>q \<in> set (refresh_sessions d). \<not> (rs_refresh_token_hash q = h \<and> refresh_usable now d q))"
  by (simp add: refresh_view_def find_None_iff) blast

lemma refresh_usable_earlier: "refresh_usable t' d q \<Longrightarrow> t \<le> t' \<Longrightarrow> refresh_usable t d q"
  by (auto simp: refresh_usable_def)

lemma consume_refresh_view:
  assumes "now \<le> t"
  shows "refresh_view t (snd (consume_refresh now h d)) = (refresh_view t d)(h := None)"
proof
  fix k
  let ?g = "\<lambda>q. if rs_refresh_token_hash q = h \<and> refresh_usable now d q
              then q\<lparr>rs_revoked_at := Some now\<rparr> else q"
  let ?d = "snd (consume_refresh now h d)"
  have d: "refresh_sessions ?d = map ?g (refresh_sessions d)"
    and u: "refresh_usable t ?d q = refresh_usable t d q" for q
    by (simp_all add: consume_refresh_def refresh_usable_def active_device_def)
  show "refresh_view t ?d k = ((refresh_view t d)(h := None)) k"
  proof (cases "k = h")
    case True
    have none: "\<not> (rs_refresh_token_hash (?g q) = h \<and> refresh_usable t d (?g q))" for q
      using refresh_usable_earlier [OF _ assms, of d q] by (auto simp: refresh_usable_def)
    have "refresh_view t ?d h = None"
      unfolding refresh_view_None d u set_map by (rule ballI, erule imageE, hypsubst, rule none)
    with True show ?thesis by simp
  next
    case False
    have "find (\<lambda>q. rs_refresh_token_hash q = k \<and> refresh_usable t d q) (map ?g (refresh_sessions d))
        = map_option ?g (find (\<lambda>q. rs_refresh_token_hash q = k \<and> refresh_usable t d q) (refresh_sessions d))"
      using False by (intro find_map_same) auto
    moreover have "consumed_of \<circ> ?g = consumed_of" by (auto simp: consumed_of_def)
    ultimately show ?thesis using False by (simp add: refresh_view_def d u option.map_comp)
  qed
qed

definition revoke_session_at :: "time \<Rightarrow> uuid \<times> uuid \<Rightarrow> db \<Rightarrow> db" where
  "revoke_session_at now p d =
     (case RevokeSession_tx (fst p) (snd p) now d of Inr (_, d') \<Rightarrow> d' | Inl _ \<Rightarrow> d)"

definition revoke_others_at :: "time \<Rightarrow> uuid \<times> uuid \<Rightarrow> db \<Rightarrow> db" where
  "revoke_others_at now p d =
     (case RevokeOtherSessions_tx (fst p) (snd p) now d of Inr (_, d') \<Rightarrow> d' | Inl _ \<Rightarrow> d)"

text \<open>Which rows are revoked by both updates of a transaction.\<close>

lemma active_revoke_devices:
  assumes "auth_ok d" and "r \<in> set (device_sessions d)" and "ds_ID r = i"
  shows "active_device (revoke_devices now p d) i \<longleftrightarrow> active_device d i \<and> \<not> p r"
proof -
  have "r' = r" if "r' \<in> set (device_sessions d)" "ds_ID r' = i" for r'
    using that assms distinct_map_eqD [of ds_ID "device_sessions d" r' r]
    by (simp add: auth_ok_def devices_ok_def)
  then have only: "(\<exists>r' \<in> set (device_sessions d). ds_ID r' = i \<and> P r') \<longleftrightarrow> P r" for P
    using assms(2,3) by blast
  have "active_device (revoke_devices now p d) i \<longleftrightarrow>
      (\<exists>r' \<in> set (device_sessions d). ds_ID r' = i \<and> (ds_RevokedAt r' = None \<and> \<not> p r'))"
    unfolding active_device_def revoke_devices_def by (simp add: Bex_def image_iff) (fastforce split: if_splits)
  then show ?thesis unfolding active_device_def only by simp
qed

lemma device_of_refresh:
  assumes "auth_ok d" and "q \<in> set (refresh_sessions d)"
  obtains r where "r \<in> set (device_sessions d)" and "ds_ID r = rs_device_session_id q"
    and "ds_UserID r = rs_user_id q"
  using assms unfolding auth_ok_def refresh_ok_def by blast

lemma revoke_both_view:
  assumes ok: "auth_ok d"
    and dev: "\<And>q r. q \<in> set (refresh_sessions d) \<Longrightarrow> r \<in> set (device_sessions d) \<Longrightarrow>
        ds_ID r = rs_device_session_id q \<Longrightarrow> ds_UserID r = rs_user_id q \<Longrightarrow>
        active_device d (ds_ID r) \<Longrightarrow> p r = b q"
    and "\<And>q. q \<in> set (refresh_sessions d) \<Longrightarrow> b q = hit (consumed_of q)"
  shows "refresh_view t (revoke_refresh now b (revoke_devices now p d)) k = Some v
    \<longleftrightarrow> refresh_view t d k = Some v \<and> \<not> hit v"
proof -
  let ?d1 = "revoke_devices now p d" and ?d2 = "revoke_refresh now b (revoke_devices now p d)"
  have ok2: "auth_ok ?d2" using ok revoke_devices_keeps revoke_refresh_keeps by blast
  have rs: "refresh_sessions ?d1 = refresh_sessions d" by (simp add: revoke_devices_def)
  have act: "active_device ?d2 i = active_device ?d1 i" for i
    by (simp add: active_device_def revoke_refresh_def)
  have row: "refresh_usable t ?d2 (if b q \<and> rs_revoked_at q = None then q\<lparr>rs_revoked_at := Some now\<rparr> else q)
      \<longleftrightarrow> refresh_usable t d q \<and> \<not> b q" if q: "q \<in> set (refresh_sessions d)" for q
  proof -
    obtain r where r: "r \<in> set (device_sessions d)" "ds_ID r = rs_device_session_id q"
      "ds_UserID r = rs_user_id q"
      using ok q by (rule device_of_refresh)
    have "active_device ?d1 (rs_device_session_id q) \<longleftrightarrow> active_device d (rs_device_session_id q) \<and> \<not> p r"
      using ok r(1,2) by (rule active_revoke_devices)
    with dev [OF q r] r(2) show ?thesis by (auto simp: refresh_usable_def act)
  qed
  let ?g = "\<lambda>q. if b q \<and> rs_revoked_at q = None then q\<lparr>rs_revoked_at := Some now\<rparr> else q"
  have g: "rs_refresh_token_hash (?g q) = rs_refresh_token_hash q" "consumed_of (?g q) = consumed_of q" for q
    by (simp_all add: consumed_of_def)
  have "set (refresh_sessions ?d2) = ?g ` set (refresh_sessions d)"
    by (simp add: revoke_refresh_def rs)
  then have "refresh_view t ?d2 k = Some v \<longleftrightarrow> (\<exists>q \<in> set (refresh_sessions d).
      rs_refresh_token_hash (?g q) = k \<and> refresh_usable t ?d2 (?g q) \<and> consumed_of (?g q) = v)"
    unfolding refresh_view_iff [OF ok2] by (simp only: bex_simps)
  also have "\<dots> \<longleftrightarrow> (\<exists>q \<in> set (refresh_sessions d).
      rs_refresh_token_hash q = k \<and> (refresh_usable t d q \<and> \<not> b q) \<and> consumed_of q = v)"
    unfolding g by (rule bex_cong [OF refl]) (simp only: row)
  also have "\<dots> \<longleftrightarrow> refresh_view t d k = Some v \<and> \<not> hit v"
    unfolding refresh_view_iff [OF ok] using assms(3) by blast
  finally show ?thesis .
qed

definition session_hit :: "uuid \<times> uuid \<Rightarrow> ConsumedSession \<Rightarrow> bool" where
  "session_hit p v = (cs_DeviceSessionID v = fst p \<and> cs_UserID v = snd p)"

definition others_hit :: "uuid \<times> uuid \<Rightarrow> ConsumedSession \<Rightarrow> bool" where
  "others_hit p v = (cs_UserID v = fst p \<and> cs_DeviceSessionID v \<noteq> snd p)"

lemma revoke_others_view:
  assumes "auth_ok d"
  shows "refresh_view t (revoke_others_at now p d) k = Some v
    \<longleftrightarrow> refresh_view t d k = Some v \<and> \<not> others_hit p v"
  unfolding revoke_others_at_def RevokeOtherSessions_tx_def sum.case prod.case
  by (rule revoke_both_view [OF assms]) (auto simp: others_hit_def consumed_of_def)

lemma refresh_owner:
  assumes "auth_ok d" and "q \<in> set (refresh_sessions d)" and "r \<in> set (device_sessions d)"
    and "ds_ID r = rs_device_session_id q"
  shows "ds_UserID r = rs_user_id q"
proof -
  obtain r' where "r' \<in> set (device_sessions d)" "ds_ID r' = rs_device_session_id q"
    "ds_UserID r' = rs_user_id q"
    using assms(1,2) by (rule device_of_refresh)
  moreover have "distinct (map ds_ID (device_sessions d))"
    using assms(1) by (simp add: auth_ok_def devices_ok_def)
  ultimately show ?thesis using assms(3,4) distinct_map_eqD [of ds_ID "device_sessions d" r r'] by simp
qed

lemma revoke_session_view:
  assumes ok: "auth_ok d"
  shows "refresh_view t (revoke_session_at now p d) k = Some v
    \<longleftrightarrow> refresh_view t d k = Some v \<and> \<not> session_hit p v"
proof (cases "\<exists>r \<in> set (device_sessions d). ds_ID r = fst p \<and> ds_UserID r = snd p \<and> ds_RevokedAt r = None")
  case True
  then obtain r0 where r0: "r0 \<in> set (device_sessions d)" "ds_ID r0 = fst p" "ds_UserID r0 = snd p"
    by blast
  have owner: "rs_user_id q = snd p" if "q \<in> set (refresh_sessions d)" "rs_device_session_id q = fst p" for q
    using refresh_owner [OF ok that(1) r0(1)] r0 that(2) by simp
  have "refresh_view t (revoke_refresh now (\<lambda>q. rs_device_session_id q = fst p)
      (revoke_devices now (\<lambda>r. ds_ID r = fst p \<and> ds_UserID r = snd p) d)) k = Some v
    \<longleftrightarrow> refresh_view t d k = Some v \<and> \<not> session_hit p v"
    by (rule revoke_both_view [OF ok]) (auto simp: session_hit_def consumed_of_def dest: owner)
  with True show ?thesis by (simp add: revoke_session_at_def RevokeSession_tx_def)
next
  case False
  have "\<not> session_hit p v" if view: "refresh_view t d k = Some v"
  proof
    assume hit: "session_hit p v"
    obtain q where q: "q \<in> set (refresh_sessions d)" "refresh_usable t d q" "consumed_of q = v"
      using view unfolding refresh_view_iff [OF ok] by blast
    then obtain r where r: "r \<in> set (device_sessions d)" "ds_ID r = rs_device_session_id q"
      "ds_RevokedAt r = None"
      unfolding refresh_usable_def active_device_def by blast
    have "ds_ID r = fst p \<and> ds_UserID r = snd p"
      using hit q(3) r(2) refresh_owner [OF ok q(1) r(1,2)] by (auto simp: session_hit_def consumed_of_def)
    with False r(1,3) show False by blast
  qed
  moreover have "revoke_session_at now p d = d"
    unfolding revoke_session_at_def RevokeSession_tx_def by (simp only: False if_False sum.case prod.case)
  ultimately show ?thesis by auto
qed

lemma revoke_session_ok: "auth_ok d \<Longrightarrow> auth_ok (revoke_session_at now p d)"
  using revoke_devices_keeps revoke_refresh_keeps
  by (simp add: revoke_session_at_def RevokeSession_tx_def)

lemma revoke_others_ok: "auth_ok d \<Longrightarrow> auth_ok (revoke_others_at now p d)"
  using revoke_devices_keeps revoke_refresh_keeps
  by (simp add: revoke_others_at_def RevokeOtherSessions_tx_def)

lemma refresh_view_earlier:
  assumes "auth_ok d" and "refresh_view t' d h = Some v" and "t \<le> t'"
  shows "refresh_view t d h = Some v"
  using assms(2,3) unfolding refresh_view_iff [OF assms(1)] by (blast intro: refresh_usable_earlier)

lemma refresh_token_store: "token_store auth_ok refresh_view consume_refresh"
proof
  fix d now k
  show "auth_ok d \<Longrightarrow> auth_ok (snd (consume_refresh now k d))"
    using consume_refresh_keeps by blast
  show "fst (consume_refresh now k d) = refresh_view now d k"
    by (simp add: consume_refresh_def refresh_view_def)
qed (erule (1) consume_refresh_view refresh_view_earlier | rule consume_refresh_view, assumption)+

interpretation refresh_session: revocable_store auth_ok refresh_view consume_refresh session_hit revoke_session_at
  by (intro revocable_store.intro refresh_token_store revocable_store_axioms.intro)
    (simp_all add: revoke_session_ok revoke_session_view)

interpretation refresh_others: revocable_store auth_ok refresh_view consume_refresh others_hit revoke_others_at
  by (intro revocable_store.intro refresh_token_store revocable_store_axioms.intro)
    (simp_all add: revoke_others_ok revoke_others_view)

section \<open>Password reset tokens\<close>

definition reset_view :: "time \<Rightarrow> db \<Rightarrow> bytes \<Rightarrow> uuid option" where
  "reset_view now d h = map_option pt_UserID (find (token_usable now h) (password_reset_tokens d))"

lemma reset_view_iff:
  assumes "auth_ok d"
  shows "reset_view now d h = Some u \<longleftrightarrow>
    (\<exists>t \<in> set (password_reset_tokens d). token_usable now h t \<and> pt_UserID t = u)"
proof (cases "find (token_usable now h) (password_reset_tokens d)")
  case None
  then show ?thesis by (auto simp: reset_view_def dest: find_NoneD)
next
  case (Some t)
  then have t: "t \<in> set (password_reset_tokens d)" "token_usable now h t" by (auto dest: find_SomeD)
  have "t' = t" if "t' \<in> set (password_reset_tokens d)" "token_usable now h t'" for t'
    using that t assms distinct_map_eqD [of pt_TokenHash "password_reset_tokens d" t' t]
    by (simp add: token_usable_def auth_ok_def resets_ok_def)
  then have "(\<exists>t' \<in> set (password_reset_tokens d). token_usable now h t' \<and> pt_UserID t' = u)
      \<longleftrightarrow> pt_UserID t = u"
    using t by blast
  with Some show ?thesis by (simp add: reset_view_def)
qed

lemma token_usable_earlier: "token_usable t' h q \<Longrightarrow> t \<le> t' \<Longrightarrow> token_usable t h q"
  by (auto simp: token_usable_def)

lemma consume_reset_view:
  assumes "now \<le> t"
  shows "reset_view t (snd (consume_reset now h d)) = (reset_view t d)(h := None)"
proof
  fix k
  let ?g = "\<lambda>q. if token_usable now h q then q\<lparr>pt_UsedAt := Some now\<rparr> else q"
  let ?d = "snd (consume_reset now h d)"
  have d: "password_reset_tokens ?d = map ?g (password_reset_tokens d)"
    by (simp add: consume_reset_def)
  show "reset_view t ?d k = ((reset_view t d)(h := None)) k"
  proof (cases "k = h")
    case True
    have none: "\<not> token_usable t h (?g q)" for q
      using token_usable_earlier [OF _ assms, of h q] by (auto simp: token_usable_def)
    have "find (token_usable t h) (map ?g (password_reset_tokens d)) = None"
      unfolding find_None_iff set_map using none by (metis (mono_tags, lifting) imageE)
    then have "reset_view t ?d h = None" by (simp only: reset_view_def d option.map)
    with True show ?thesis by simp
  next
    case False
    have "find (token_usable t k) (map ?g (password_reset_tokens d))
        = map_option ?g (find (token_usable t k) (password_reset_tokens d))"
      using False by (intro find_map_same) (auto simp: token_usable_def)
    with False show ?thesis
      by (simp add: reset_view_def d option.map_comp comp_def if_distrib cong: if_cong)
  qed
qed

definition invalidate_at :: "time \<Rightarrow> uuid \<Rightarrow> db \<Rightarrow> db" where
  "invalidate_at now u d = d\<lparr>password_reset_tokens :=
     map (\<lambda>t. if pt_UserID t = u \<and> pt_UsedAt t = None then t\<lparr>pt_UsedAt := Some now\<rparr> else t)
       (password_reset_tokens d)\<rparr>"

lemma invalidate_keeps: "auth_ok d \<Longrightarrow> auth_ok (invalidate_at now u d) \<and> history d (invalidate_at now u d)"
  unfolding invalidate_at_def by (rule update_resets_keeps) (auto simp: reset_update_def)

lemma invalidate_view:
  assumes ok: "auth_ok d"
  shows "reset_view t (invalidate_at now u d) k = Some v \<longleftrightarrow> reset_view t d k = Some v \<and> v \<noteq> u"
proof -
  let ?g = "\<lambda>q. if pt_UserID q = u \<and> pt_UsedAt q = None then q\<lparr>pt_UsedAt := Some now\<rparr> else q"
  have "set (password_reset_tokens (invalidate_at now u d)) = ?g ` set (password_reset_tokens d)"
    by (simp add: invalidate_at_def)
  moreover have "auth_ok (invalidate_at now u d)" using invalidate_keeps [OF ok] by blast
  ultimately have "reset_view t (invalidate_at now u d) k = Some v \<longleftrightarrow>
      (\<exists>q \<in> set (password_reset_tokens d). token_usable t k (?g q) \<and> pt_UserID (?g q) = v)"
    by (simp only: reset_view_iff bex_simps)
  also have "\<dots> \<longleftrightarrow> (\<exists>q \<in> set (password_reset_tokens d). (token_usable t k q \<and> pt_UserID q = v) \<and> v \<noteq> u)"
    by (rule bex_cong [OF refl]) (auto simp: token_usable_def)
  finally show ?thesis unfolding reset_view_iff [OF ok] by blast
qed

interpretation reset_tokens: revocable_store auth_ok reset_view consume_reset "\<lambda>u v. v = u" invalidate_at
proof
  fix d now k and t t' :: time and v u
  show "auth_ok d \<Longrightarrow> auth_ok (snd (consume_reset now k d))" using consume_reset_keeps by blast
  show "fst (consume_reset now k d) = reset_view now d k" by (simp add: consume_reset_def reset_view_def)
  show "auth_ok d \<Longrightarrow> reset_view t' d k = Some v \<Longrightarrow> t \<le> t' \<Longrightarrow> reset_view t d k = Some v"
    unfolding reset_view_iff by (blast intro: token_usable_earlier)
  show "auth_ok d \<Longrightarrow> auth_ok (invalidate_at now u d)" using invalidate_keeps by blast
qed (simp_all add: consume_reset_view invalidate_view)

section \<open>Properties\<close>

text \<open>
  However often, in whatever order and mixed with whatever other tokens a refresh token is
  presented, the table accepts it at most once; the same holds for a password reset token.
\<close>

lemma tokens_accepted_once:
  assumes "auth_ok d" and "sorted (map fst ps)"
  shows "accepted h ps (redeem_all consume_refresh ps d) \<le> 1
    \<and> accepted h ps (redeem_all consume_reset ps d) \<le> 1"
  using refresh_session.accepted_at_most_once [OF assms] reset_tokens.accepted_at_most_once [OF assms]
  by blast

text \<open>
  C17. The session tables refine a map from token hashes to sessions: redeeming removes one entry,
  revoking a device session removes the tokens of that device, and revoking the others leaves
  of the user's tokens only those of the device kept; all other tokens keep their value, at every
  later instant.
\<close>

theorem sessions_refine_token_map:
  assumes "auth_ok d" and "now \<le> t"
  shows "fst (consume_refresh now h d) = refresh_view now d h
    \<and> refresh_view t (snd (consume_refresh now h d)) = (refresh_view t d)(h := None)
    \<and> refresh_view t (revoke_session_at now (i, u) d) =
        (\<lambda>k. case refresh_view t d k of None \<Rightarrow> None
           | Some v \<Rightarrow> if cs_DeviceSessionID v = i \<and> cs_UserID v = u then None else Some v)
    \<and> refresh_view t (revoke_others_at now (u, i) d) =
        (\<lambda>k. case refresh_view t d k of None \<Rightarrow> None
           | Some v \<Rightarrow> if cs_UserID v = u \<and> cs_DeviceSessionID v \<noteq> i then None else Some v)"
proof -
  have "refresh_view t (revoke_session_at now (i, u) d) =
        (\<lambda>k. case refresh_view t d k of None \<Rightarrow> None
           | Some v \<Rightarrow> if cs_DeviceSessionID v = i \<and> cs_UserID v = u then None else Some v)"
    by (rule filtered_map_eq) (simp add: revoke_session_view [OF assms(1)] session_hit_def)
  moreover have "refresh_view t (revoke_others_at now (u, i) d) =
        (\<lambda>k. case refresh_view t d k of None \<Rightarrow> None
           | Some v \<Rightarrow> if cs_UserID v = u \<and> cs_DeviceSessionID v \<noteq> i then None else Some v)"
    by (rule filtered_map_eq) (simp add: revoke_others_view [OF assms(1)] others_hit_def)
  moreover have "fst (consume_refresh now h d) = refresh_view now d h"
    by (rule refresh_session.consume_result)
  moreover have "refresh_view t (snd (consume_refresh now h d)) = (refresh_view t d)(h := None)"
    using assms by (rule refresh_session.consume_rest)
  ultimately show ?thesis by (intro conjI)
qed

end
