(* ===== verification/Auth_Service.thy ===== *)
theory Auth_Service
  imports Jwt Audit_Log Token_Store
begin

text \<open>
  \<open>internal/usecase/auth/service.go\<close>: registration, the two steps of an SRP login, rotation of
  refresh tokens, logout, device sessions and password reset, over the PostgreSQL and Redis
  repositories. The identifiers of \<open>uuid.New\<close> and the bytes of \<open>rand.Read\<close> are arguments
  (\<open>None\<close>: no randomness). The instant of the world stands still during one operation. The pause at
  the end of \<open>RequestPasswordReset\<close> has no effect on the state and is not modelled; log messages are
  not either.
\<close>

section \<open>State\<close>

datatype mail = NewLoginMail string string string | PasswordResetMail string string

record 'r aworld = "'r cworld" +
  w_queue :: "AuditEvent list"
  w_mails :: "mail list"

record 'r AuthService =
  as_Redis :: "'r redis"
  as_Codec :: codec
  as_Jwt :: jwt_lib
  as_Tokens :: jwt_Service
  as_AccessTTL :: int
  as_RefreshTTL :: int
  as_Audit :: bool
  as_FrontendOrigin :: string
  as_UniLower :: "string \<Rightarrow> string"

record RegisterParams =
  rg_Email :: string
  rg_SRPSalt :: string
  rg_SRPVerifier :: string
  rg_BcryptSalt :: string
  rg_CryptoSalt :: bytes
  rg_PublicKey :: bytes
  rg_EncryptedPrivateKey :: bytes
  rg_KEKEncryptedMaster :: bytes
  rg_KEKEncryptedRecovery :: bytes
  rg_RecoverySalt :: bytes
  rg_Device :: DeviceInfo

record LoginFinalizeParams =
  lf_SessionID :: string
  lf_M1 :: string
  lf_Device :: DeviceInfo

record TokenPair =
  tp_AccessToken :: string
  tp_AccessExpiresIn :: int
  tp_RefreshToken :: string
  tp_RefreshExpiresIn :: int
  tp_DeviceSessionID :: uuid
  tp_ClientKey :: bytes
  tp_CryptoSalt :: bytes
  tp_KEKEncryptedMaster :: bytes
  tp_EncryptedPrivateKey :: bytes

record LoginInitResult =
  li_SessionID :: string
  li_SRPSalt :: string
  li_BcryptSalt :: string
  li_B :: string
  li_CryptoSalt :: bytes

record LoginFinalizeResult =
  lr_M2 :: string
  lr_Pair :: TokenPair
  lr_UserID :: uuid

text \<open>The random draws of \<open>issueTokenPairForDevice\<close>.\<close>

record draws =
  dr_Token :: "bytes option"
  dr_Key :: "bytes option"
  dr_SessID :: uuid

section \<open>Calls out of the service\<close>

text \<open>\<open>if s.Audit != nil { s.Audit.LogAsync(ctx, e) }\<close>\<close>

definition audit_event :: "uuid \<Rightarrow> string \<Rightarrow> DeviceInfo option \<Rightarrow> AuditEvent" where
  "audit_event userID ty device =
     \<lparr>au_ID = uuid_Nil, au_UserID = userID, au_EventType = ty,
      au_IPAddress = (case device of None \<Rightarrow> [] | Some v \<Rightarrow> di_IPAddress v),
      au_UserAgent = (case device of None \<Rightarrow> [] | Some v \<Rightarrow> di_UserAgent v),
      au_ResourceID = None, au_ResourceName = [], au_CreatedAt = 0\<rparr>"

definition log_async :: "'r AuthService \<Rightarrow> AuditEvent \<Rightarrow> ('r aworld, auth_err, unit) eff" where
  "log_async s e w = (Inr (), if as_Audit s then w\<lparr>w_queue := LogAsync e (w_queue w)\<rparr> else w)"

text \<open>A mail that is handed to the notifier, which may fail before or after sending it.\<close>

definition notify :: "mail \<Rightarrow> ('r aworld, auth_err, unit) eff" where
  "notify m w = (case pop_fault w of (f, w1) \<Rightarrow>
     (if f = FailBefore then (Inl NotifyError, w1)
      else ((if f = FailAfter then Inl NotifyError else Inr ()), w1\<lparr>w_mails := w_mails w1 @ [m]\<rparr>)))"

definition db_do :: "('r aworld, pg_err, 'a) eff \<Rightarrow> ('r aworld, auth_err, 'a) eff" where
  "db_do = map_err Database"

section \<open>Tokens\<close>

definition refreshTokenHash :: "string \<Rightarrow> bytes" where
  "refreshTokenHash raw = sha256 (string_bytes raw)"

definition newRefreshToken :: "bytes option \<Rightarrow> (string \<times> bytes) option" where
  "newRefreshToken rnd = (case rnd of None \<Rightarrow> None
     | Some b \<Rightarrow> (let raw = RawURLEncoding_EncodeToString b in Some (raw, sha256 (string_bytes raw))))"

definition issueTokenPairForDevice ::
  "'r AuthService \<Rightarrow> draws \<Rightarrow> uuid \<Rightarrow> uuid \<Rightarrow> bytes \<Rightarrow> ('r aworld, auth_err, TokenPair) eff" where
  "issueTokenPairForDevice s dr userID deviceSessionID clientKey = (\<lambda>w.
     (case IssueAccess (as_Jwt s) (as_Codec s) (as_Tokens s) userID deviceSessionID (w_now w) of
        Inl _ \<Rightarrow> fail TokenError
      | Inr (accessRaw, accessExp) \<Rightarrow>
          (case newRefreshToken (dr_Token dr) of
             None \<Rightarrow> fail RandomError
           | Some (refreshRaw, refreshHashBytes) \<Rightarrow>
               (case (if clientKey = [] then dr_Key dr else Some clientKey) of
                  None \<Rightarrow> fail RandomError
                | Some key \<Rightarrow>
                    bindE (db_do (CreateRefreshSession_pg
                        \<lparr>rf_SessionID = dr_SessID dr, rf_UserID = userID,
                         rf_DeviceSessionID = deviceSessionID, rf_TokenHash = refreshHashBytes,
                         rf_ClientKey = key, rf_ExpiresAt = w_now w + as_RefreshTTL s\<rparr>))
                      (\<lambda>_. ret
                        \<lparr>tp_AccessToken = accessRaw, tp_AccessExpiresIn = accessExp,
                         tp_RefreshToken = refreshRaw,
                         tp_RefreshExpiresIn = Duration_Seconds (as_RefreshTTL s),
                         tp_DeviceSessionID = deviceSessionID, tp_ClientKey = key,
                         tp_CryptoSalt = [], tp_KEKEncryptedMaster = [],
                         tp_EncryptedPrivateKey = []\<rparr>)))) w)"

definition issueTokenPair ::
  "'r AuthService \<Rightarrow> uuid \<Rightarrow> draws \<Rightarrow> uuid \<Rightarrow> DeviceInfo \<Rightarrow> ('r aworld, auth_err, TokenPair) eff" where
  "issueTokenPair s proposedID dr userID device =
     bindE (db_do (CreateDeviceSession_pg proposedID userID device))
       (\<lambda>sessionID. issueTokenPairForDevice s dr userID sessionID [])"

section \<open>Registration and login\<close>

definition normal_email :: "'r AuthService \<Rightarrow> string \<Rightarrow> string" where
  "normal_email s email = TrimSpace (ToLower (as_UniLower s) email)"

definition Register ::
  "'r AuthService \<Rightarrow> uuid \<Rightarrow> uuid \<Rightarrow> draws \<Rightarrow> RegisterParams \<Rightarrow> ('r aworld, auth_err, TokenPair) eff" where
  "Register s i proposedID dr p =
     bindE (CreateUser_pg
        \<lparr>nu_ID = i, nu_Email = normal_email s (rg_Email p), nu_SRPSalt = rg_SRPSalt p,
         nu_SRPVerifier = rg_SRPVerifier p, nu_BcryptSalt = rg_BcryptSalt p,
         nu_CryptoSalt = rg_CryptoSalt p, nu_PublicKey = rg_PublicKey p,
         nu_EncryptedPrivateKey = rg_EncryptedPrivateKey p,
         nu_KEKEncryptedMaster = rg_KEKEncryptedMaster p,
         nu_KEKEncryptedRecovery = rg_KEKEncryptedRecovery p,
         nu_RecoverySalt = rg_RecoverySalt p\<rparr>)
       (\<lambda>_. issueTokenPair s proposedID dr i (rg_Device p))"

definition SRPSessionTTL :: int where
  "SRPSessionTTL = 5 * 60 * 1000000000"

definition login_entry :: "User \<Rightarrow> string \<Rightarrow> string \<Rightarrow> ServerSession \<Rightarrow> time \<Rightarrow> SRPSessEntry" where
  "login_entry u email aHex sess now =
     \<lparr>en_UserID = u_ID u, en_Email = email, en_SRPSaltHex = u_SRPSalt u, en_AHex = aHex,
      en_Session = sess, en_CryptoSalt = u_CryptoSalt u, en_BcryptSalt = u_BcryptSalt u,
      en_EncryptedPrivateKey = u_EncryptedPrivateKey u,
      en_KEKEncryptedMaster = u_KEKEncryptedMaster u, en_ExpiresAt = now + SRPSessionTTL\<rparr>"

definition LoginInit ::
  "'r AuthService \<Rightarrow> bytes option \<Rightarrow> uuid \<Rightarrow> string \<Rightarrow> string
   \<Rightarrow> ('r aworld, auth_err, LoginInitResult) eff" where
  "LoginInit s rnd sessionID email0 aHex =
     (let email = normal_email s email0 in
      bindE (db_do (GetByEmail_pg email))
        (\<lambda>r. case r of None \<Rightarrow> fail ErrInvalidCredentials
         | Some u \<Rightarrow> (case NewServerSession rnd (u_SRPVerifier u) of
             Inl e \<Rightarrow> fail (SrpError e)
           | Inr sess \<Rightarrow> (\<lambda>w.
               bindE (Store_srp (as_Redis s) (as_Codec s) sessionID
                        (login_entry u email aHex sess (w_now w)))
                 (\<lambda>stored. if \<not> stored then fail SrpAtCapacity
                    else ret \<lparr>li_SessionID = cd_String (as_Codec s) sessionID,
                              li_SRPSalt = u_SRPSalt u, li_BcryptSalt = u_BcryptSalt u,
                              li_B = PublicEphemeralHex sess, li_CryptoSalt = u_CryptoSalt u\<rparr>) w))))"

definition LoginFinalize ::
  "'r AuthService \<Rightarrow> uuid \<Rightarrow> draws \<Rightarrow> LoginFinalizeParams
   \<Rightarrow> ('r aworld, auth_err, LoginFinalizeResult) eff" where
  "LoginFinalize s proposedID dr p =
     (case cd_Parse (as_Codec s) (lf_SessionID p) of
        None \<Rightarrow> fail ErrInvalidInput
      | Some sid \<Rightarrow>
          bindE (Consume_srp (as_Redis s) (as_Codec s) sid)
            (\<lambda>r. case r of None \<Rightarrow> fail ErrInvalidCredentials
             | Some entry \<Rightarrow>
                 (case VerifyClientProof (en_Session entry) (en_AHex entry) (lf_M1 p) (en_Email entry)
                         (en_SRPSaltHex entry) of
                    Inl _ \<Rightarrow> bindE (log_async s (audit_event (en_UserID entry) ''login_failed'' (Some (lf_Device p))))
                               (\<lambda>_. fail ErrInvalidCredentials)
                  | Inr m2Hex \<Rightarrow>
                      bindE (ignore (RevokeUserOrphanedSessions_pg (en_UserID entry)))
                        (\<lambda>_. bindE (issueTokenPair s proposedID dr (en_UserID entry) (lf_Device p))
                          (\<lambda>pair. bindE (ignore (notify (NewLoginMail (en_Email entry)
                                (di_DeviceName (lf_Device p)) (di_IPAddress (lf_Device p)))))
                            (\<lambda>_. ret \<lparr>lr_M2 = m2Hex,
                               lr_Pair = pair\<lparr>tp_CryptoSalt := en_CryptoSalt entry,
                                 tp_KEKEncryptedMaster := en_KEKEncryptedMaster entry,
                                 tp_EncryptedPrivateKey := en_EncryptedPrivateKey entry\<rparr>,
                               lr_UserID = en_UserID entry\<rparr>))))))"

section \<open>Refresh and logout\<close>

definition handleTokenReuse :: "'r AuthService \<Rightarrow> bytes \<Rightarrow> ('r aworld, auth_err, unit) eff" where
  "handleTokenReuse s tokenHash =
     attempt (FindRevokedSession_pg tokenHash)
       (\<lambda>r. case r of
          Inl _ \<Rightarrow> ret ()
        | Inr None \<Rightarrow> ret ()
        | Inr (Some session) \<Rightarrow>
            attempt (RevokeSession_pg (cs_DeviceSessionID session) (cs_UserID session))
              (\<lambda>x. case x of
                 Inl _ \<Rightarrow> ret ()
               | Inr _ \<Rightarrow>
                   bindE (ignore (Block (as_Redis s) (cd_String (as_Codec s)) (cs_DeviceSessionID session)
                            (as_AccessTTL s)))
                     (\<lambda>_. log_async s (audit_event (cs_UserID session) ''refresh_token_reuse_detected'' None))))"

definition Refresh :: "'r AuthService \<Rightarrow> draws \<Rightarrow> string \<Rightarrow> ('r aworld, auth_err, TokenPair) eff" where
  "Refresh s dr refreshToken0 =
     (let h = refreshTokenHash (TrimSpace refreshToken0) in
      bindE (db_do (ConsumeRefreshSession_pg h))
        (\<lambda>r. case r of
           None \<Rightarrow> bindE (handleTokenReuse s h) (\<lambda>_. fail ErrInvalidRefresh)
         | Some consumed \<Rightarrow>
             bindE (ignore (UpdateLastActive_pg (cs_DeviceSessionID consumed)))
               (\<lambda>_. bindE (issueTokenPairForDevice s dr (cs_UserID consumed) (cs_DeviceSessionID consumed)
                             (cs_ClientKey consumed))
                 (\<lambda>pair. bindE (db_do (GetCryptoSaltAndKEKByUserID_pg (cs_UserID consumed)))
                   (\<lambda>(salt, kek, encPrivKey). ret (pair\<lparr>tp_CryptoSalt := salt,
                      tp_KEKEncryptedMaster := kek, tp_EncryptedPrivateKey := encPrivKey\<rparr>))))))"

definition Logout :: "'r AuthService \<Rightarrow> string \<Rightarrow> DeviceInfo \<Rightarrow> ('r aworld, auth_err, unit) eff" where
  "Logout s refreshToken0 device =
     bindE (db_do (ConsumeRefreshSession_pg (refreshTokenHash (TrimSpace refreshToken0))))
       (\<lambda>r. case r of
          None \<Rightarrow> ret ()
        | Some consumed \<Rightarrow>
            bindE (RevokeSession_pg (cs_DeviceSessionID consumed) (cs_UserID consumed))
              (\<lambda>_. log_async s (audit_event (cs_UserID consumed) ''logout'' (Some device))))"

section \<open>Device sessions\<close>

definition ListDeviceSessions :: "uuid \<Rightarrow> ('r aworld, auth_err, DeviceSession list) eff" where
  "ListDeviceSessions userID = db_do (ListActiveSessions_pg userID)"

definition RevokeDeviceSession :: "'r AuthService \<Rightarrow> uuid \<Rightarrow> uuid \<Rightarrow> ('r aworld, auth_err, unit) eff" where
  "RevokeDeviceSession s userID sessionID =
     bindE (RevokeSession_pg sessionID userID)
       (\<lambda>_. ignore (Block (as_Redis s) (cd_String (as_Codec s)) sessionID (as_AccessTTL s)))"

definition RevokeOtherDeviceSessions ::
  "'r AuthService \<Rightarrow> uuid \<Rightarrow> uuid \<Rightarrow> ('r aworld, auth_err, unit) eff" where
  "RevokeOtherDeviceSessions s userID currentSessionID =
     bindE (db_do (RevokeOtherSessions_pg userID currentSessionID))
       (\<lambda>revokedIDs. if revokedIDs \<noteq> []
          then ignore (BlockBatch (as_Redis s) (cd_String (as_Codec s)) revokedIDs (as_AccessTTL s))
          else ret ())"

definition CleanOrphanedSessions :: "('r aworld, auth_err, unit) eff" where
  "CleanOrphanedSessions = db_do RevokeOrphanedSessions_pg"

section \<open>Password reset\<close>

definition TrimRight1 :: "char \<Rightarrow> string \<Rightarrow> string" where
  "TrimRight1 c s = rev (dropWhile (\<lambda>x. x = c) (rev s))"

definition RequestPasswordReset ::
  "'r AuthService \<Rightarrow> uuid \<Rightarrow> bytes option \<Rightarrow> string \<Rightarrow> ('r aworld, auth_err, unit) eff" where
  "RequestPasswordReset s tokenID rnd email0 =
     (let email = normal_email s email0 in
      bindE (db_do (GetByEmail_pg email))
        (\<lambda>r. case r of None \<Rightarrow> ret ()
         | Some u \<Rightarrow>
             if u_KEKEncryptedRecovery u = [] then ret ()
             else bindE (db_do (InvalidateUserTokens_pg (u_ID u)))
               (\<lambda>_. case newRefreshToken rnd of
                  None \<Rightarrow> fail RandomError
                | Some (raw, h) \<Rightarrow> (\<lambda>w.
                    bindE (db_do (CreateResetToken_pg tokenID (u_ID u) h (w_now w + 3600 * 1000000000)))
                      (\<lambda>_. notify (PasswordResetMail email
                         (TrimRight1 slash (as_FrontendOrigin s) @ ''/auth/reset-password?token='' @ raw))) w))))"

definition GetRecoveryData :: "string \<Rightarrow> ('r aworld, auth_err, RecoveryData option) eff" where
  "GetRecoveryData token =
     bindE (db_do (GetUserIDFromResetToken_pg (refreshTokenHash token)))
       (\<lambda>r. case r of None \<Rightarrow> ret None
        | Some userID \<Rightarrow> db_do (GetRecoveryDataByUserID_pg userID))"

definition ResetPassword ::
  "'r AuthService \<Rightarrow> string \<Rightarrow> ResetPasswordParams \<Rightarrow> ('r aworld, auth_err, unit) eff" where
  "ResetPassword s token p =
     bindE (db_do (ConsumeResetToken_pg (refreshTokenHash token)))
       (\<lambda>r. case r of None \<Rightarrow> fail ErrResetTokenInvalid
        | Some userID \<Rightarrow>
            bindE (db_do (UpdateCredentialsAndKEK_pg userID p))
              (\<lambda>_. bindE (attempt (RevokeOtherSessions_pg userID uuid_Nil)
                   (\<lambda>x. case x of
                      Inl _ \<Rightarrow> ret ()
                    | Inr revokedIDs \<Rightarrow>
                        if revokedIDs \<noteq> []
                        then ignore (BlockBatch (as_Redis s) (cd_String (as_Codec s)) revokedIDs (as_AccessTTL s))
                        else ret ()))
                (\<lambda>_. log_async s (audit_event userID ''password_reset'' None))))"

end
