(* ===== verification/Auth_Invariant.thy ===== *)
theory Auth_Invariant
  imports Auth_Service
begin

text \<open>
  Every operation of the authentication service keeps the invariant of the session tables and never
  undoes a revocation, whatever fails in between.
\<close>

section \<open>Calls that leave the database alone\<close>

lemma keeps_log_async [keeps_rules]: "keeps (on_db I) (log_async s e)"
  by (rule keepsI) (simp add: log_async_def on_db_def)

lemma keeps_notify [keeps_rules]: "keeps (on_db I) (notify m)"
proof (rule keepsI)
  fix w :: "'a aworld"
  assume "on_db I w"
  moreover obtain f w1 where p: "pop_fault w = (f, w1)" by (rule prod.exhaust)
  moreover have "w_db w1 = w_db w" "w_now w1 = w_now w" using pop_fault_frame [of w] p by simp_all
  ultimately show "on_db I (snd (notify m w))" by (simp add: notify_def on_db_def)
qed

lemma keeps_pipelined:
  "(\<And>c. c \<in> set cs \<Longrightarrow> keeps I c) \<Longrightarrow> keeps I (pipelined cs)"
  by (induction cs) (auto intro!: keeps_rules)

lemma keeps_Block [keeps_rules]: "keeps (on_db I) (Block rd us i ttl)"
  unfolding Block_def by (rule keeps_redis_call)

lemma keeps_BlockBatch [keeps_rules]: "keeps (on_db I) (BlockBatch rd us ids ttl)"
  unfolding BlockBatch_def by (auto intro!: keeps_rules keeps_pipelined keeps_redis_call)

lemma keeps_world: "(\<And>w. keeps I (m w)) \<Longrightarrow> keeps I (\<lambda>w. m w w)"
  by (rule keepsI) (blast intro: keeps_snd)

lemma keeps_Store_srp [keeps_rules]: "keeps (on_db I) (Store_srp rd cd i e)"
  unfolding Store_srp_def Let_def by (rule keeps_world) (intro keeps_rules keeps_redis_call)

lemma keeps_Consume_srp [keeps_rules]: "keeps (on_db I) (Consume_srp rd cd i)"
  unfolding Consume_srp_def
  by (rule keeps_attempt [OF keeps_redis_call], rule keeps_world) (intro keeps_rules)

lemma keeps_db_do [keeps_rules]: "keeps I m \<Longrightarrow> keeps I (db_do m)"
  unfolding db_do_def by (rule keeps_map_err)

section \<open>The statements of the repositories\<close>

text \<open>A device session of the user, which a new refresh session may refer to.\<close>

definition owned :: "uuid \<Rightarrow> uuid \<Rightarrow> db \<Rightarrow> bool" where
  "owned u i d \<longleftrightarrow> (\<exists>r \<in> set (device_sessions d). ds_ID r = i \<and> ds_UserID r = u)"

definition owned_from :: "db \<Rightarrow> uuid \<Rightarrow> uuid \<Rightarrow> time \<Rightarrow> db \<Rightarrow> bool" where
  "owned_from d0 u i now d \<longleftrightarrow> auth_from d0 now d \<and> owned u i d"

lemma owned_history: "owned u i d \<Longrightarrow> history d d' \<Longrightarrow> owned u i d'"
  unfolding owned_def history_def device_history_def by metis

lemma owned_fromI:
  "owned_from d0 u i now d \<Longrightarrow> (auth_ok d \<Longrightarrow> auth_ok d' \<and> history d d') \<Longrightarrow> owned_from d0 u i now' d'"
  unfolding owned_from_def auth_from_def by (meson history_trans owned_history)

text \<open>A statement that keeps the tables and their history.\<close>

definition keeps_tables :: "(time \<Rightarrow> 'a stmt) \<Rightarrow> bool" where
  "keeps_tables c \<longleftrightarrow> (\<forall>now d x d'. auth_ok d \<longrightarrow> c now d = Inr (x, d') \<longrightarrow> auth_ok d' \<and> history d d')"

lemma keeps_tablesD: "keeps_tables c \<Longrightarrow> c now d = Inr (x, d') \<Longrightarrow> auth_ok d \<Longrightarrow> auth_ok d' \<and> history d d'"
  unfolding keeps_tables_def by blast

lemma keeps_from:
  assumes "keeps_tables c"
  shows "keeps (on_db (auth_from d0)) (db_call c)"
  by (rule keeps_db_call) (erule auth_fromI, erule keeps_tablesD [OF assms])

lemma keeps_owned:
  assumes "keeps_tables c"
  shows "keeps (on_db (owned_from d0 u i)) (db_call c)"
  by (rule keeps_db_call) (erule owned_fromI, erule keeps_tablesD [OF assms])

lemma tables_insert_user: "keeps_tables (\<lambda>now. insert_user (f now))"
  unfolding keeps_tables_def using insert_user_keeps by blast

lemma tables_update_user:
  assumes "\<And>r. us_id (g r) = us_id r \<and> us_email (g r) = us_email r"
  shows "keeps_tables (\<lambda>now d. Inr ((), d\<lparr>users := map (\<lambda>r. if us_id r = u then g r else r) (users d)\<rparr>))"
proof -
  let ?g = "\<lambda>r. if us_id r = u then g r else r"
  have k: "map us_id (map ?g xs) = map us_id xs" "map us_email (map ?g xs) = map us_email xs" for xs
    using assms by (simp_all add: map_key_same)
  have "us_id ` set (map ?g xs) = us_id ` set xs" for xs
    unfolding list.set_map [symmetric] k ..
  then have e: "user_exists v (d\<lparr>users := map ?g (users d)\<rparr>) = user_exists v d" for v d
    by (simp add: user_exists_def del: list.set_map)
  have "auth_ok (d\<lparr>users := map ?g (users d)\<rparr>)" if "auth_ok d" for d
    using that unfolding auth_ok_def users_ok_def devices_ok_def refresh_ok_def resets_ok_def e
    by (simp add: k del: map_map)
  moreover have "history d (d\<lparr>users := map ?g (users d)\<rparr>)" for d
    by (auto simp: history_defs)
  ultimately show ?thesis unfolding keeps_tables_def by blast
qed

lemma tables_devices:
  "(\<And>now d. device_update (g now d)) \<Longrightarrow>
     keeps_tables (\<lambda>now d. Inr ((), d\<lparr>device_sessions := map (g now d) (device_sessions d)\<rparr>))"
  unfolding keeps_tables_def using update_devices_keeps by blast

lemma tables_revoke_devices: "keeps_tables (\<lambda>now d. Inr ((), revoke_devices now (p now d) d))"
  unfolding keeps_tables_def using revoke_devices_keeps by blast

lemma tables_RevokeSession: "keeps_tables (RevokeSession_tx i u)"
  unfolding keeps_tables_def RevokeSession_tx_def
  by (auto split: if_splits dest: revoke_devices_keeps revoke_refresh_keeps
      intro: history_trans [OF conjunct2 [OF revoke_devices_keeps] conjunct2 [OF revoke_refresh_keeps]])

lemma tables_RevokeOthers: "keeps_tables (RevokeOtherSessions_tx u i)"
  unfolding keeps_tables_def RevokeOtherSessions_tx_def
  by (auto dest: revoke_devices_keeps revoke_refresh_keeps
      intro: history_trans [OF conjunct2 [OF revoke_devices_keeps] conjunct2 [OF revoke_refresh_keeps]])

lemma tables_consume_refresh: "keeps_tables (\<lambda>now d. Inr (consume_refresh now h d))"
  unfolding keeps_tables_def using consume_refresh_keeps by (metis Inr_inject snd_conv)

lemma tables_consume_reset: "keeps_tables (\<lambda>now d. Inr (consume_reset now h d))"
  unfolding keeps_tables_def using consume_reset_keeps by (metis Inr_inject snd_conv)

lemma tables_insert_reset: "keeps_tables (\<lambda>now. insert_reset_token (f now))"
  unfolding keeps_tables_def using insert_reset_keeps by blast

lemma tables_invalidate: "keeps_tables (\<lambda>now d. Inr ((), invalidate_at now u d))"
  unfolding keeps_tables_def using invalidate_keeps by blast

section \<open>Device sessions and refresh sessions that are created\<close>

lemma insert_device_owned:
  assumes "insert_device_session (new_device_session now i u v) d = Inr (x, d')" and "auth_ok d"
  shows "(auth_ok d' \<and> history d d') \<and> owned u i d'"
proof
  show "auth_ok d' \<and> history d d'"
    using assms by (rule insert_device_keeps) (simp add: new_device_session_def)
  show "owned u i d'"
    using assms(1)
    by (auto simp: insert_device_session_def owned_def new_device_session_def split: if_splits)
qed

lemma CreateDeviceSession_owned:
  assumes c: "CreateDeviceSession_stmt i u v now d = Inr (j, d')" and ok: "auth_ok d"
  shows "(auth_ok d' \<and> history d d') \<and> owned u j d'"
proof (cases "di_DeviceID v = [] \<or> find (same_active_device u (di_DeviceID v)) (device_sessions d) = None")
  case True
  then have "insert_device_session (new_device_session now i u v) d = Inr ((), d')" and "j = i"
    using c by (auto simp: CreateDeviceSession_stmt_def elim!: stmt_bind_InrE split: if_splits)
  with insert_device_owned ok show ?thesis by blast
next
  case False
  then obtain r where r: "find (same_active_device u (di_DeviceID v)) (device_sessions d) = Some r" by auto
  let ?g = "\<lambda>r'. if ds_ID r' = ds_ID r then touch_device_session now v r' else r'"
  let ?d1 = "d\<lparr>device_sessions := map ?g (device_sessions d)\<rparr>"
  let ?p = "\<lambda>q. rs_device_session_id q = ds_ID r \<and> ds_ID r \<noteq> i"
  have j: "j = ds_ID r" and d': "d' = revoke_refresh now ?p ?d1"
    using c r False by (auto simp: CreateDeviceSession_stmt_def)
  have k1: "auth_ok ?d1 \<and> history d ?d1"
    using ok by (rule update_devices_keeps) (simp add: device_update_def touch_device_session_def)
  then have k2: "auth_ok d' \<and> history ?d1 d'" unfolding d' using revoke_refresh_keeps by blast
  have "r \<in> set (device_sessions d)" "ds_UserID r = u"
    using find_SomeD [OF r] by (auto simp: same_active_device_def)
  then have "owned u j d" using j by (auto simp: owned_def)
  moreover have "history d d'" using k1 k2 history_trans by blast
  ultimately show ?thesis using k2 owned_history by blast
qed

lemma triple_CreateDeviceSession:
  "triple (on_db (auth_from d0)) (CreateDeviceSession_pg i u v)
     (\<lambda>j. on_db (owned_from d0 u j)) (\<lambda>_. on_db (auth_from d0))"
  unfolding CreateDeviceSession_pg_def
proof (rule tripleI)
  fix w :: "'a world_scheme" and j w'
  assume I: "on_db (auth_from d0) w" and c: "db_call (CreateDeviceSession_stmt i u v) w = (Inr j, w')"
  then show "on_db (owned_from d0 u j) w'"
    using db_call_ok(1) [OF c] CreateDeviceSession_owned
    unfolding on_db_def owned_from_def auth_from_def by (meson history_trans)
next
  fix w :: "'a world_scheme" and e w'
  assume I: "on_db (auth_from d0) w" and c: "db_call (CreateDeviceSession_stmt i u v) w = (Inl e, w')"
  have "keeps_tables (CreateDeviceSession_stmt i u v)"
    unfolding keeps_tables_def using CreateDeviceSession_owned by blast
  then show "on_db (auth_from d0) w'" using I c by (rule triple_Inl [OF keeps_from])
qed

lemma triple_ConsumeRefresh:
  "triple (on_db (auth_from d0)) (ConsumeRefreshSession_pg h)
     (\<lambda>r. on_db (\<lambda>now d. auth_from d0 now d
        \<and> (\<forall>c. r = Some c \<longrightarrow> owned (cs_UserID c) (cs_DeviceSessionID c) d)))
     (\<lambda>_. on_db (auth_from d0))"
  unfolding ConsumeRefreshSession_pg_def
proof (rule tripleI)
  fix w :: "'a world_scheme" and r w'
  assume I: "on_db (auth_from d0) w" and c: "db_call (\<lambda>now d. Inr (consume_refresh now h d)) w = (Inr r, w')"
  have cr: "consume_refresh (w_now w) h (w_db w) = (r, w_db w')" using db_call_ok(1) [OF c] by simp
  have ok: "auth_ok (w_db w)" using I by (simp add: on_db_def auth_from_def)
  have "auth_ok (w_db w') \<and> history (w_db w) (w_db w')"
    using consume_refresh_keeps [OF ok, of "w_now w" h] cr by simp
  moreover have "owned (cs_UserID s) (cs_DeviceSessionID s) (w_db w')" if r: "r = Some s" for s
  proof -
    have "refresh_view (w_now w) (w_db w) h = Some s"
      using cr r refresh_session.consume_result [of "w_now w" h "w_db w"] by simp
    then obtain q where q: "q \<in> set (refresh_sessions (w_db w))" "consumed_of q = s"
      unfolding refresh_view_iff [OF ok] by blast
    have "owned (cs_UserID s) (cs_DeviceSessionID s) (w_db w)"
      by (rule device_of_refresh [OF ok q(1)]) (use q(2) in \<open>auto simp: owned_def consumed_of_def\<close>)
    then show ?thesis
      by (rule owned_history) (use consume_refresh_keeps [OF ok, of "w_now w" h] cr in simp)
  qed
  ultimately show "on_db (\<lambda>now d. auth_from d0 now d
        \<and> (\<forall>c. r = Some c \<longrightarrow> owned (cs_UserID c) (cs_DeviceSessionID c) d)) w'"
    using I unfolding on_db_def auth_from_def by (blast intro: history_trans)
next
  fix w :: "'a world_scheme" and e w'
  assume "on_db (auth_from d0) w" and "db_call (\<lambda>now d. Inr (consume_refresh now h d)) w = (Inl e, w')"
  then show "on_db (auth_from d0) w'" by (rule triple_Inl [OF keeps_from [OF tables_consume_refresh]])
qed

lemma owned_from_auth: "on_db (owned_from d0 u i) w \<Longrightarrow> on_db (auth_from d0) w"
  by (simp add: on_db_def owned_from_def)

lemma triple_CreateRefresh:
  assumes "rf_UserID p = u" and "rf_DeviceSessionID p = i"
  shows "triple (on_db (owned_from d0 u i)) (CreateRefreshSession_pg p)
    (\<lambda>_. on_db (auth_from d0)) (\<lambda>_. on_db (auth_from d0))"
  unfolding CreateRefreshSession_pg_def
proof (rule triple_db_call)
  fix now d x d'
  assume o: "owned_from d0 u i now d" and ins: "insert_refresh_session (refresh_row_of now p) d = Inr (x, d')"
  have a: "auth_from d0 now d" and ow: "owned u i d" using o by (simp_all add: owned_from_def)
  have dist: "distinct (map ds_ID (device_sessions d))"
    using a by (simp add: auth_from_def auth_ok_def devices_ok_def)
  have owner: "ds_UserID r = u" if "r \<in> set (device_sessions d)" "ds_ID r = i" for r
    using ow that distinct_map_eqD [OF dist, of r] unfolding owned_def by blast
  show "auth_from d0 now d'"
    using a by (rule auth_fromI)
      (rule insert_refresh_keeps [OF ins], use assms owner in \<open>simp_all add: refresh_row_of_def\<close>)
next
  fix now d
  assume "owned_from d0 u i now d"
  then show "auth_from d0 now d" by (simp add: owned_from_def)
qed

lemma triple_issueTokenPairForDevice:
  "triple (on_db (owned_from d0 u i)) (issueTokenPairForDevice s dr u i key)
     (\<lambda>_. on_db (auth_from d0)) (\<lambda>_. on_db (auth_from d0))"
proof -
  have out: "triple (on_db (owned_from d0 u i)) (fail e) (\<lambda>_. on_db (auth_from d0)) (\<lambda>_. on_db (auth_from d0))" for e
    by (rule triple_fail) (rule owned_from_auth)
  have ins: "triple (on_db (owned_from d0 u i)) (bindE (db_do (CreateRefreshSession_pg p)) k)
      (\<lambda>_. on_db (auth_from d0)) (\<lambda>_. on_db (auth_from d0))"
    if "rf_UserID p = u" "rf_DeviceSessionID p = i" "\<And>x. keeps (on_db (auth_from d0)) (k x)" for p k
    unfolding db_do_def
    by (rule triple_bindE [OF triple_map_err [OF triple_CreateRefresh [OF that(1,2)]]]) (rule that(3))
  have "on_db (auth_from d0) (snd (issueTokenPairForDevice s dr u i key w))"
    if "on_db (owned_from d0 u i) w" for w
    unfolding issueTokenPairForDevice_def
    by (split sum.split option.split prod.split)+
      (intro conjI allI impI keeps_like_snd [OF out that] keeps_like_snd [OF ins that] keeps_ret; simp)
  then show ?thesis by (rule triple_sndI)
qed

section \<open>The operations\<close>

lemma keeps_GetByEmail [keeps_rules]: "keeps (on_db I) (GetByEmail_pg e)"
  unfolding GetByEmail_pg_def by (rule keeps_query)

lemma keeps_UpdateLastActive: "keeps (on_db (owned_from d0 u i)) (UpdateLastActive_pg j)"
  unfolding UpdateLastActive_pg_def
  by (rule keeps_owned, rule tables_devices) (simp add: device_update_def)

lemma keeps_RevokeSession: "keeps (on_db (auth_from d0)) (RevokeSession_pg i u)"
  unfolding RevokeSession_pg_def by (intro keeps_rules keeps_from tables_RevokeSession)

lemma keeps_RevokeOthers: "keeps (on_db (auth_from d0)) (RevokeOtherSessions_pg u i)"
  unfolding RevokeOtherSessions_pg_def by (rule keeps_from [OF tables_RevokeOthers])

lemma keeps_issueTokenPair: "keeps (on_db (auth_from d0)) (issueTokenPair s i dr u v)"
  unfolding issueTokenPair_def db_do_def
  by (rule triple_bindE [OF triple_map_err [OF triple_CreateDeviceSession] triple_issueTokenPairForDevice])

lemma keeps_Register: "keeps (on_db (auth_from d0)) (Register s i j dr p)"
  unfolding Register_def CreateUser_pg_def
  by (intro keeps_rules keeps_from keeps_issueTokenPair tables_insert_user)

lemma keeps_LoginInit: "keeps (on_db I) (LoginInit s rnd i e a)"
  unfolding LoginInit_def Let_def
  by (rule keeps_bind, intro keeps_db_do keeps_GetByEmail, rule keeps_option, rule keeps_fail,
      rule keeps_sum, rule keeps_fail, rule keeps_world, intro keeps_rules)

lemma keeps_LoginFinalize: "keeps (on_db (auth_from d0)) (LoginFinalize s i dr p)"
  unfolding LoginFinalize_def RevokeUserOrphanedSessions_pg_def
  by (intro keeps_rules keeps_from tables_revoke_devices keeps_issueTokenPair)

lemma keeps_handleTokenReuse: "keeps (on_db (auth_from d0)) (handleTokenReuse s h)"
  unfolding handleTokenReuse_def FindRevokedSession_pg_def
  by (intro keeps_rules keeps_RevokeSession)

lemma keeps_Refresh: "keeps (on_db (auth_from d0)) (Refresh s dr tok)"
  unfolding Refresh_def Let_def db_do_def
proof (rule triple_bindE [OF triple_map_err [OF triple_ConsumeRefresh]])
  fix r
  show "triple (on_db (\<lambda>now d. auth_from d0 now d
        \<and> (\<forall>c. r = Some c \<longrightarrow> owned (cs_UserID c) (cs_DeviceSessionID c) d)))
     (case r of None \<Rightarrow> bindE (handleTokenReuse s (refreshTokenHash (TrimSpace tok))) (\<lambda>_. fail ErrInvalidRefresh)
         | Some consumed \<Rightarrow>
             bindE (ignore (UpdateLastActive_pg (cs_DeviceSessionID consumed)))
               (\<lambda>_. bindE (issueTokenPairForDevice s dr (cs_UserID consumed) (cs_DeviceSessionID consumed)
                             (cs_ClientKey consumed))
                 (\<lambda>pair. bindE (map_err Database (GetCryptoSaltAndKEKByUserID_pg (cs_UserID consumed)))
                   (\<lambda>(salt, kek, encPrivKey). ret (pair\<lparr>tp_CryptoSalt := salt,
                      tp_KEKEncryptedMaster := kek, tp_EncryptedPrivateKey := encPrivKey\<rparr>)))))
     (\<lambda>_. on_db (auth_from d0)) (\<lambda>_. on_db (auth_from d0))"
  proof (cases r)
    case None
    have "keeps (on_db (auth_from d0)) (bindE (handleTokenReuse s (refreshTokenHash (TrimSpace tok))) (\<lambda>_. fail ErrInvalidRefresh))"
      by (intro keeps_rules keeps_handleTokenReuse)
    with None show ?thesis by simp
  next
    case (Some c)
    have last: "triple (on_db (owned_from d0 (cs_UserID c) (cs_DeviceSessionID c)))
        (ignore (UpdateLastActive_pg (cs_DeviceSessionID c)))
        (\<lambda>_. on_db (owned_from d0 (cs_UserID c) (cs_DeviceSessionID c))) (\<lambda>_. on_db (auth_from d0))"
      by (rule triple_ignore) (rule keeps_UpdateLastActive)
    show ?thesis
      unfolding Some option.case GetCryptoSaltAndKEKByUserID_pg_def
      by (rule triple_pre [OF triple_bindE [OF last triple_bindE [OF triple_issueTokenPairForDevice]]])
        (intro keeps_rules, simp add: on_db_def owned_from_def)
  qed
qed

lemma keeps_Logout: "keeps (on_db (auth_from d0)) (Logout s tok v)"
  unfolding Logout_def ConsumeRefreshSession_pg_def
  by (intro keeps_rules keeps_from tables_consume_refresh keeps_RevokeSession)

lemma keeps_RevokeDeviceSession: "keeps (on_db (auth_from d0)) (RevokeDeviceSession s u i)"
  unfolding RevokeDeviceSession_def by (intro keeps_rules keeps_RevokeSession)

lemma keeps_RevokeOtherDeviceSessions: "keeps (on_db (auth_from d0)) (RevokeOtherDeviceSessions s u i)"
  unfolding RevokeOtherDeviceSessions_def by (intro keeps_rules keeps_RevokeOthers)

lemma keeps_CleanOrphanedSessions: "keeps (on_db (auth_from d0)) CleanOrphanedSessions"
  unfolding CleanOrphanedSessions_def RevokeOrphanedSessions_pg_def
  by (intro keeps_rules keeps_from tables_revoke_devices)

lemma keeps_RequestPasswordReset: "keeps (on_db (auth_from d0)) (RequestPasswordReset s i rnd e)"
  unfolding RequestPasswordReset_def Let_def InvalidateUserTokens_pg_def CreateResetToken_pg_def
    invalidate_at_def [symmetric]
  by (rule keeps_bind, intro keeps_db_do keeps_GetByEmail, rule keeps_option, rule keeps_ret,
      rule keeps_if, rule keeps_ret, rule keeps_bind, intro keeps_db_do keeps_from tables_invalidate,
      rule keeps_option, rule keeps_fail, rule keeps_prod, rule keeps_world,
      intro keeps_rules keeps_from tables_insert_reset)

lemma keeps_ResetPassword: "keeps (on_db (auth_from d0)) (ResetPassword s tok p)"
  unfolding ResetPassword_def ConsumeResetToken_pg_def UpdateCredentialsAndKEK_pg_def
  by (intro keeps_rules keeps_from tables_consume_reset keeps_RevokeOthers tables_update_user)
    (simp add: set_credentials_def)

section \<open>The state machine\<close>

datatype auth_op =
  OpRegister uuid uuid draws RegisterParams
| OpLoginInit "bytes option" uuid string string
| OpLoginFinalize uuid draws LoginFinalizeParams
| OpRefresh draws string
| OpLogout string DeviceInfo
| OpRevokeDevice uuid uuid
| OpRevokeOthers uuid uuid
| OpCleanOrphaned
| OpRequestReset uuid "bytes option" string
| OpResetPassword string ResetPasswordParams

fun run_auth :: "'r AuthService \<Rightarrow> auth_op \<Rightarrow> ('r aworld, auth_err, unit) eff" where
  "run_auth s (OpRegister i j dr p) = ignore (Register s i j dr p)"
| "run_auth s (OpLoginInit rnd i e a) = ignore (LoginInit s rnd i e a)"
| "run_auth s (OpLoginFinalize i dr p) = ignore (LoginFinalize s i dr p)"
| "run_auth s (OpRefresh dr t) = ignore (Refresh s dr t)"
| "run_auth s (OpLogout t v) = ignore (Logout s t v)"
| "run_auth s (OpRevokeDevice u i) = ignore (RevokeDeviceSession s u i)"
| "run_auth s (OpRevokeOthers u i) = ignore (RevokeOtherDeviceSessions s u i)"
| "run_auth s OpCleanOrphaned = ignore CleanOrphanedSessions"
| "run_auth s (OpRequestReset i rnd e) = ignore (RequestPasswordReset s i rnd e)"
| "run_auth s (OpResetPassword t p) = ignore (ResetPassword s t p)"

lemma run_auth_keeps: "keeps (on_db (auth_from d0)) (run_auth s x)"
  by (cases x) (auto intro!: keeps_ignore keeps_Register keeps_LoginInit keeps_LoginFinalize keeps_Refresh
      keeps_Logout keeps_RevokeDeviceSession keeps_RevokeOtherDeviceSessions keeps_CleanOrphanedSessions
      keeps_RequestPasswordReset keeps_ResetPassword)

text \<open>
  A step is an operation, the passing of time (with a new schedule of faults), or the audit worker
  and Redis doing something on their own.
\<close>

inductive auth_step :: "'r AuthService \<Rightarrow> 'r aworld \<Rightarrow> 'r aworld \<Rightarrow> bool" for s where
  op: "auth_step s w (snd (run_auth s x w))"
| tick: "w_now w \<le> t \<Longrightarrow> auth_step s w (w\<lparr>w_now := t, w_faults := fs\<rparr>)"
| other: "auth_step s w (w\<lparr>w_redis := r, w_queue := q, w_mails := m\<rparr>)"

inductive_cases auth_stepE: "auth_step s w w'"

lemma auth_step_from: "auth_step s w w' \<Longrightarrow> on_db (auth_from d0) w \<Longrightarrow> on_db (auth_from d0) w'"
proof (induction rule: auth_step.induct)
  case (op w x)
  then show ?case by (rule keeps_snd [OF run_auth_keeps])
qed (simp_all add: on_db_def auth_from_def)

lemma auth_steps_from: "(auth_step s)\<^sup>*\<^sup>* w w' \<Longrightarrow> on_db (auth_from d0) w \<Longrightarrow> on_db (auth_from d0) w'"
  by (induction rule: rtranclp_induct) (auto intro: auth_step_from)

text \<open>
  C13. From consistent tables on, whatever operations run in whatever order and with whatever faults,
  the session tables stay consistent (unique keys, one active session per device, one active row per
  refresh token, every refresh session owned by the user of its device session), and history is
  only added to: no session or reset token disappears or changes its owner, and none that was
  revoked or used ever becomes valid again.
\<close>

theorem auth_reachable_consistent:
  assumes "auth_ok (w_db w)" and "(auth_step s)\<^sup>*\<^sup>* w w'"
  shows "auth_ok (w_db w') \<and> history (w_db w) (w_db w')"
  using auth_steps_from [OF assms(2), of "w_db w"] assms(1) by (simp add: on_db_def auth_from_def)

end
