(* ===== verification/Auth_Frame.thy ===== *)
theory Auth_Frame
  imports Auth_Invariant
begin

text \<open>
  What authentication leaves alone. No operation of the authentication service touches files,
  folders, shares or favorites, or removes an account: a predicate on the tables that survives such
  changes survives every operation, whatever fails.
\<close>

section \<open>Statements\<close>

definition auth_frame :: "db \<Rightarrow> db \<Rightarrow> bool" where
  "auth_frame d d' \<longleftrightarrow> folders d' = folders d \<and> stored_blobs d' = stored_blobs d \<and> file_shares d' = file_shares d
     \<and> favorites d' = favorites d \<and> (\<forall>u. user_exists u d \<longrightarrow> user_exists u d')"

definition framed :: "(time \<Rightarrow> 'a stmt) \<Rightarrow> bool" where
  "framed c \<longleftrightarrow> (\<forall>now d x d'. c now d = Inr (x, d') \<longrightarrow> auth_frame d d')"

lemmas frame_defs = framed_def auth_frame_def user_exists_def

named_theorems framed_rules

lemma framed_user_insert [framed_rules]: "framed (\<lambda>now. insert_user (f now))"
  by (auto simp: frame_defs insert_user_def split: if_splits)

lemma framed_user_update [framed_rules]: "framed (\<lambda>now d. Inr ((), d\<lparr>users := map (\<lambda>r. if us_id r = u then set_credentials p r else r) (users d)\<rparr>))"
proof -
  have "map us_id (map (\<lambda>r. if us_id r = u then set_credentials p r else r) xs) = map us_id xs" for xs
    by (rule map_key_same) (simp add: set_credentials_def)
  then have "us_id ` set (map (\<lambda>r. if us_id r = u then set_credentials p r else r) xs) = us_id ` set xs" for xs
    unfolding list.set_map [symmetric] by simp
  then show ?thesis by (simp add: frame_defs del: list.set_map)
qed

lemma framed_device_insert [framed_rules]: "framed (CreateDeviceSession_stmt i u v)"
  by (auto simp: frame_defs CreateDeviceSession_stmt_def insert_device_session_def revoke_refresh_def
      elim!: stmt_bind_InrE split: if_splits option.splits)

lemma framed_device_update [framed_rules]:
  "framed (\<lambda>now d. Inr ((), d\<lparr>device_sessions := map (g now d) (device_sessions d)\<rparr>))"
  by (simp add: frame_defs)

lemma framed_revoke [framed_rules]:
  "framed (\<lambda>now d. Inr ((), revoke_devices now (p now d) d))" "framed (RevokeSession_tx i u)" "framed (RevokeOtherSessions_tx u i)"
  by (auto simp: frame_defs RevokeSession_tx_def RevokeOtherSessions_tx_def revoke_devices_def revoke_refresh_def split: if_splits)

lemma framed_refresh [framed_rules]:
  "framed (\<lambda>now. insert_refresh_session (f now))" "framed (\<lambda>now d. Inr (consume_refresh now h d))"
  by (auto simp: frame_defs insert_refresh_session_def consume_refresh_def Let_def split: if_splits option.splits)

lemma framed_resets [framed_rules]:
  "framed (\<lambda>now. insert_reset_token (f now))" "framed (\<lambda>now d. Inr (consume_reset now h d))"
  "framed (\<lambda>now d. Inr ((), invalidate_at now u d))"
  by (auto simp: frame_defs insert_reset_token_def consume_reset_def invalidate_at_def Let_def split: if_splits option.splits)

section \<open>Operations\<close>

locale auth_tables =
  fixes I :: "time \<Rightarrow> db \<Rightarrow> bool"
  assumes survives: "I now d \<Longrightarrow> auth_frame d d' \<Longrightarrow> I now d'"
begin

lemma call_keeps: "framed c \<Longrightarrow> keeps (on_db I) (db_call c)"
  unfolding framed_def by (rule keeps_db_call) (blast intro: survives)

lemma session_stmts_keep:
  "keeps (on_db I) (CreateDeviceSession_pg i u v)" "keeps (on_db I) (CreateRefreshSession_pg p)"
  "keeps (on_db I) (RevokeSession_pg i u)" "keeps (on_db I) (RevokeOtherSessions_pg u i)"
  "keeps (on_db I) (ConsumeRefreshSession_pg h)" "keeps (on_db I) (UpdateLastActive_pg i)"
  unfolding CreateDeviceSession_pg_def CreateRefreshSession_pg_def RevokeSession_pg_def RevokeOtherSessions_pg_def
    ConsumeRefreshSession_pg_def UpdateLastActive_pg_def
  by (intro keeps_rules call_keeps framed_rules)+

lemma issueTokenPair_keeps:
  "keeps (on_db I) (issueTokenPairForDevice s dr u j k)" "keeps (on_db I) (issueTokenPair s i dr u v)"
proof -
  show "keeps (on_db I) (issueTokenPairForDevice s dr u j k)" for j k
    unfolding issueTokenPairForDevice_def by (rule keeps_world) (intro keeps_rules session_stmts_keep)
  then show "keeps (on_db I) (issueTokenPair s i dr u v)"
    unfolding issueTokenPair_def by (intro keeps_rules session_stmts_keep)
qed

lemma Register_keeps: "keeps (on_db I) (Register s i j dr p)"
  unfolding Register_def CreateUser_pg_def by (intro keeps_rules call_keeps framed_rules issueTokenPair_keeps)

lemma LoginFinalize_keeps: "keeps (on_db I) (LoginFinalize s i dr p)"
  unfolding LoginFinalize_def RevokeUserOrphanedSessions_pg_def
  by (intro keeps_rules call_keeps framed_rules issueTokenPair_keeps)

lemma Refresh_keeps: "keeps (on_db I) (Refresh s dr tok)"
  unfolding Refresh_def Let_def handleTokenReuse_def FindRevokedSession_pg_def GetCryptoSaltAndKEKByUserID_pg_def
  by (intro keeps_rules session_stmts_keep issueTokenPair_keeps)

lemma Logout_keeps: "keeps (on_db I) (Logout s tok v)"
  unfolding Logout_def by (intro keeps_rules session_stmts_keep)

lemma revocations_keep:
  "keeps (on_db I) (RevokeDeviceSession s u i)" "keeps (on_db I) (RevokeOtherDeviceSessions s u i)"
  "keeps (on_db I) CleanOrphanedSessions"
  unfolding RevokeDeviceSession_def RevokeOtherDeviceSessions_def CleanOrphanedSessions_def RevokeOrphanedSessions_pg_def
  by (intro keeps_rules session_stmts_keep call_keeps framed_rules)+

lemma RequestPasswordReset_keeps: "keeps (on_db I) (RequestPasswordReset s i rnd e)"
  unfolding RequestPasswordReset_def Let_def InvalidateUserTokens_pg_def CreateResetToken_pg_def invalidate_at_def [symmetric]
  by (rule keeps_bind, intro keeps_db_do keeps_GetByEmail, rule keeps_option, rule keeps_ret,
      rule keeps_if, rule keeps_ret, rule keeps_bind, intro keeps_db_do call_keeps framed_rules,
      rule keeps_option, rule keeps_fail, rule keeps_prod, rule keeps_world,
      intro keeps_rules call_keeps framed_rules)

lemma ResetPassword_keeps: "keeps (on_db I) (ResetPassword s tok p)"
  unfolding ResetPassword_def ConsumeResetToken_pg_def UpdateCredentialsAndKEK_pg_def
  by (intro keeps_rules call_keeps framed_rules session_stmts_keep)

lemma operations_keep: "keeps (on_db I) (run_auth s x)"
  by (cases x) (auto intro!: keeps_ignore Register_keeps keeps_LoginInit LoginFinalize_keeps Refresh_keeps Logout_keeps
      revocations_keep RequestPasswordReset_keeps ResetPassword_keeps)

end

text \<open>Operations that only read.\<close>

lemma auth_reads_keep:
  "keeps (on_db I) (ListDeviceSessions u)" "keeps (on_db I) (GetRecoveryData tok)"
  unfolding ListDeviceSessions_def ListActiveSessions_pg_def GetRecoveryData_def GetUserIDFromResetToken_pg_def
    GetRecoveryDataByUserID_pg_def
  by (intro keeps_rules)+

lemma ListEvents_keeps: "keeps (on_db I) (ListEvents u n b)"
  unfolding ListEvents_def ListAuditEvents_pg_def Let_def by (rule keeps_world) (intro keeps_rules)

end
