(* ===== verification/Auth_Properties.thy ===== *)
theory Auth_Properties
  imports Auth_Invariant
begin

text \<open>
  What the operations of the authentication service achieve: rotation and reuse detection of refresh
  tokens, logout, revocation of sessions, password reset, and the SRP login from the first request to
  the issued tokens.
\<close>

section \<open>Calls that succeed\<close>

lemma db_do_nil:
  "w_faults w = [] \<Longrightarrow> c (w_now w) (w_db w) = Inr (x, d) \<Longrightarrow>
     db_do (db_call c) w = (Inr x, w\<lparr>w_db := d\<rparr>)"
  by (simp add: db_do_def map_err_def db_call_nil)

lemma db_do_query_nil:
  "w_faults w = [] \<Longrightarrow> db_do (query q) w = (Inr (q (w_now w) (w_db w)), w)"
  by (simp add: db_do_def map_err_def query_nil)

lemma db_do_InrE:
  assumes "db_do m w = (Inr x, w')"
  obtains "m w = (Inr x, w')"
  using assms unfolding db_do_def by (rule map_err_InrE)

lemma refreshTokenHash_new: "newRefreshToken (Some b) = Some (raw, h) \<Longrightarrow> h = refreshTokenHash raw"
  by (auto simp: newRefreshToken_def refreshTokenHash_def Let_def)

lemma ignore_cw: "ignore m w = (Inr (), snd (m w))"
  by (simp add: ignore_def)

section \<open>Rotation of refresh tokens\<close>

text \<open>The row a token pair leaves behind.\<close>

definition issued_row :: "'r AuthService \<Rightarrow> draws \<Rightarrow> uuid \<Rightarrow> uuid \<Rightarrow> TokenPair \<Rightarrow> time \<Rightarrow> refresh_session" where
  "issued_row s dr u i pair now =
     \<lparr>rs_id = dr_SessID dr, rs_user_id = u, rs_device_session_id = i,
      rs_refresh_token_hash = refreshTokenHash (tp_RefreshToken pair),
      rs_client_key = tp_ClientKey pair, rs_expires_at = now + as_RefreshTTL s, rs_created_at = now,
      rs_revoked_at = None\<rparr>"

lemma issueTokenPairForDevice_Inr:
  assumes "issueTokenPairForDevice s dr u i key w = (Inr pair, w')"
  shows "w_db w' = (w_db w)\<lparr>refresh_sessions := refresh_sessions (w_db w) @ [issued_row s dr u i pair (w_now w)]\<rparr>"
    and "w_now w' = w_now w" and "tp_DeviceSessionID pair = i" and "key \<noteq> [] \<Longrightarrow> tp_ClientKey pair = key"
    and "\<exists>b. dr_Token dr = Some b \<and> tp_RefreshToken pair = RawURLEncoding_EncodeToString b"
proof -
  obtain acc ex where ia: "IssueAccess (as_Jwt s) (as_Codec s) (as_Tokens s) u i (w_now w) = Inr (acc, ex)"
    using assms by (auto simp: issueTokenPairForDevice_def fail_def split: sum.splits)
  obtain raw h where nt: "newRefreshToken (dr_Token dr) = Some (raw, h)"
    using assms by (auto simp: issueTokenPairForDevice_def ia fail_def split: option.splits)
  then obtain b where b: "dr_Token dr = Some b" "raw = RawURLEncoding_EncodeToString b"
    "h = refreshTokenHash raw"
    by (auto simp: newRefreshToken_def refreshTokenHash_def Let_def split: option.splits)
  obtain k where k: "(if key = [] then dr_Key dr else Some key) = Some k"
    using assms by (auto simp: issueTokenPairForDevice_def ia nt fail_def split: option.splits)
  let ?p = "\<lparr>rf_SessionID = dr_SessID dr, rf_UserID = u, rf_DeviceSessionID = i, rf_TokenHash = h,
     rf_ClientKey = k, rf_ExpiresAt = w_now w + as_RefreshTTL s\<rparr>"
  obtain x w1 where c: "db_do (CreateRefreshSession_pg ?p) w = (Inr x, w1)"
    and r: "ret \<lparr>tp_AccessToken = acc, tp_AccessExpiresIn = ex, tp_RefreshToken = raw,
       tp_RefreshExpiresIn = Duration_Seconds (as_RefreshTTL s), tp_DeviceSessionID = i, tp_ClientKey = k,
       tp_CryptoSalt = [], tp_KEKEncryptedMaster = [], tp_EncryptedPrivateKey = []\<rparr> w1
       = (Inr pair :: auth_err + TokenPair, w')"
    using assms unfolding issueTokenPairForDevice_def ia nt k sum.case option.case prod.case
    by (rule bindE_InrE) (rule that)
  then have w': "w' = w1" and pair: "tp_RefreshToken pair = raw" "tp_ClientKey pair = k" "tp_DeviceSessionID pair = i"
    by (auto simp: ret_def)
  have "db_call (\<lambda>now. insert_refresh_session (refresh_row_of now ?p)) w = (Inr x, w1)"
    using c unfolding CreateRefreshSession_pg_def by (rule db_do_InrE)
  note ins = db_call_ok [OF this]
  show "w_db w' = (w_db w)\<lparr>refresh_sessions := refresh_sessions (w_db w) @ [issued_row s dr u i pair (w_now w)]\<rparr>"
    using ins(1) pair b
    by (auto simp: w' insert_refresh_session_def refresh_row_of_def issued_row_def split: if_splits)
  show "w_now w' = w_now w" using ins(2) by (simp add: w')
  show "tp_DeviceSessionID pair = i" by (rule pair)
  show "key \<noteq> [] \<Longrightarrow> tp_ClientKey pair = key" using k pair by simp
  show "\<exists>b. dr_Token dr = Some b \<and> tp_RefreshToken pair = RawURLEncoding_EncodeToString b"
    using b pair by simp
qed

lemma refresh_view_append:
  assumes ok: "auth_ok (d\<lparr>refresh_sessions := refresh_sessions d @ [q]\<rparr>)" and "auth_ok d"
    and "refresh_usable t d q"
  shows "refresh_view t (d\<lparr>refresh_sessions := refresh_sessions d @ [q]\<rparr>)
    = (refresh_view t d)(rs_refresh_token_hash q \<mapsto> consumed_of q)"
proof
  fix k
  let ?d = "d\<lparr>refresh_sessions := refresh_sessions d @ [q]\<rparr>"
  have u: "refresh_usable t ?d q' = refresh_usable t d q'" for q'
    by (simp add: refresh_usable_def active_device_def)
  show "refresh_view t ?d k = ((refresh_view t d)(rs_refresh_token_hash q \<mapsto> consumed_of q)) k"
  proof (cases "k = rs_refresh_token_hash q")
    case True
    have "refresh_view t ?d k = Some (consumed_of q)"
      unfolding refresh_view_iff [OF ok] u using True assms(3) by auto
    with True show ?thesis by simp
  next
    case False
    then show ?thesis by (simp add: refresh_view_def u find_append) (auto split: option.splits)
  qed
qed

lemma consume_refresh_active: "active_device (snd (consume_refresh now h d)) i = active_device d i"
  by (simp add: active_device_def consume_refresh_def)

lemma touched_active:
  "active_device (d\<lparr>device_sessions := map (\<lambda>r. if ds_ID r = i then r\<lparr>ds_LastActiveAt := now\<rparr> else r)
     (device_sessions d)\<rparr>) j = active_device d j"
proof -
  let ?g = "\<lambda>r. if ds_ID r = i then r\<lparr>ds_LastActiveAt := now\<rparr> else r"
  have "set (device_sessions (d\<lparr>device_sessions := map ?g (device_sessions d)\<rparr>)) = ?g ` set (device_sessions d)"
    by simp
  then have "active_device (d\<lparr>device_sessions := map ?g (device_sessions d)\<rparr>) j \<longleftrightarrow>
      (\<exists>r \<in> set (device_sessions d). ds_ID (?g r) = j \<and> ds_RevokedAt (?g r) = None)"
    unfolding active_device_def by (simp only: bex_simps)
  also have "\<dots> \<longleftrightarrow> active_device d j"
    unfolding active_device_def by (rule bex_cong [OF refl]) simp
  finally show ?thesis .
qed

lemma UpdateLastActive_active:
  "active_device (w_db (snd (UpdateLastActive_pg i w))) j = active_device (w_db w) j"
  using db_call_db [of "\<lambda>now d. Inr ((), d\<lparr>device_sessions := map (\<lambda>r. if ds_ID r = i
      then r\<lparr>ds_LastActiveAt := now\<rparr> else r) (device_sessions d)\<rparr>)" w]
  unfolding UpdateLastActive_pg_def by (auto simp: touched_active dest: sym)

lemma UpdateLastActive_view:
  "refresh_view t (w_db (snd (UpdateLastActive_pg i w))) = refresh_view t (w_db w)"
  "w_now (snd (UpdateLastActive_pg i w)) = w_now w"
proof -
  let ?d = "\<lambda>d now. d\<lparr>device_sessions := map (\<lambda>r. if ds_ID r = i then r\<lparr>ds_LastActiveAt := now\<rparr> else r) (device_sessions d)\<rparr>"
  have "refresh_view t (?d d now) = refresh_view t d" for d now
    by (intro ext) (simp add: refresh_view_def refresh_usable_def touched_active)
  then show "refresh_view t (w_db (snd (UpdateLastActive_pg i w))) = refresh_view t (w_db w)"
    using db_call_db [of "\<lambda>now d. Inr ((), ?d d now)" w] unfolding UpdateLastActive_pg_def by (auto dest: sym)
  show "w_now (snd (UpdateLastActive_pg i w)) = w_now w" by (simp add: UpdateLastActive_pg_def)
qed

text \<open>The steps of a refresh that returns a pair.\<close>

lemma Refresh_InrE:
  assumes "Refresh s dr tok w = (Inr pair, w')"
  obtains c w1 w2 pair0 w3 x where
    "ConsumeRefreshSession_pg (refreshTokenHash (TrimSpace tok)) w = (Inr (Some c), w1)"
    and "w2 = snd (UpdateLastActive_pg (cs_DeviceSessionID c) w1)"
    and "issueTokenPairForDevice s dr (cs_UserID c) (cs_DeviceSessionID c) (cs_ClientKey c) w2 = (Inr pair0, w3)"
    and "GetCryptoSaltAndKEKByUserID_pg (cs_UserID c) w3 = (Inr x, w')"
    and "pair = pair0\<lparr>tp_CryptoSalt := fst x, tp_KEKEncryptedMaster := fst (snd x),
           tp_EncryptedPrivateKey := snd (snd x)\<rparr>"
proof -
  obtain r w1 where r: "db_do (ConsumeRefreshSession_pg (refreshTokenHash (TrimSpace tok))) w = (Inr r, w1)"
    and k: "(case r of None \<Rightarrow> bindE (handleTokenReuse s (refreshTokenHash (TrimSpace tok))) (\<lambda>_. fail ErrInvalidRefresh)
         | Some consumed \<Rightarrow>
             bindE (ignore (UpdateLastActive_pg (cs_DeviceSessionID consumed)))
               (\<lambda>_. bindE (issueTokenPairForDevice s dr (cs_UserID consumed) (cs_DeviceSessionID consumed)
                             (cs_ClientKey consumed))
                 (\<lambda>pair. bindE (db_do (GetCryptoSaltAndKEKByUserID_pg (cs_UserID consumed)))
                   (\<lambda>(salt, kek, encPrivKey). ret (pair\<lparr>tp_CryptoSalt := salt,
                      tp_KEKEncryptedMaster := kek, tp_EncryptedPrivateKey := encPrivKey\<rparr>))))) w1 = (Inr pair, w')"
    using assms unfolding Refresh_def Let_def by (rule bindE_InrE) (rule that)
  show thesis
  proof (cases r)
    case None
    then show ?thesis using k by (auto simp: fail_def elim!: bindE_InrE)
  next
    case (Some c)
    obtain pair0 w3 where i: "issueTokenPairForDevice s dr (cs_UserID c) (cs_DeviceSessionID c) (cs_ClientKey c)
        (snd (UpdateLastActive_pg (cs_DeviceSessionID c) w1)) = (Inr pair0, w3)"
      and k2: "bindE (db_do (GetCryptoSaltAndKEKByUserID_pg (cs_UserID c)))
                   (\<lambda>(salt, kek, encPrivKey). ret (pair0\<lparr>tp_CryptoSalt := salt,
                      tp_KEKEncryptedMaster := kek, tp_EncryptedPrivateKey := encPrivKey\<rparr>)) w3 = (Inr pair, w')"
      using k unfolding Some option.case
      by (rule bindE_InrE) (auto simp: ignore_cw elim!: bindE_InrE [where m = "issueTokenPairForDevice _ _ _ _ _"] intro: that)
    obtain x w4 where "db_do (GetCryptoSaltAndKEKByUserID_pg (cs_UserID c)) w3 = (Inr x, w4)"
      and "(case x of (salt, kek, encPrivKey) \<Rightarrow> ret (pair0\<lparr>tp_CryptoSalt := salt,
                      tp_KEKEncryptedMaster := kek, tp_EncryptedPrivateKey := encPrivKey\<rparr>)) w4
             = (Inr pair :: auth_err + TokenPair, w')"
      using k2 by (rule bindE_InrE) (rule that)
    then have "GetCryptoSaltAndKEKByUserID_pg (cs_UserID c) w3 = (Inr x, w')"
      and "pair = pair0\<lparr>tp_CryptoSalt := fst x, tp_KEKEncryptedMaster := fst (snd x),
           tp_EncryptedPrivateKey := snd (snd x)\<rparr>"
      by (auto simp: ret_def split: prod.splits elim: db_do_InrE)
    with r i Some show ?thesis by (auto intro: that elim!: db_do_InrE)
  qed
qed

lemma view_active:
  assumes "auth_ok d" and "refresh_view now d h = Some c"
  shows "active_device d (cs_DeviceSessionID c)"
  using assms(2) unfolding refresh_view_iff [OF assms(1)] by (auto simp: refresh_usable_def consumed_of_def)

lemma issued_view:
  assumes "auth_ok (w_db w)" and "auth_ok (w_db w')" and iss: "issueTokenPairForDevice s dr u i ck w = (Inr pair, w')"
    and "active_device (w_db w) i" and "t < w_now w + as_RefreshTTL s"
  shows "refresh_view t (w_db w')
    = (refresh_view t (w_db w))(refreshTokenHash (tp_RefreshToken pair) \<mapsto> consumed_of (issued_row s dr u i pair (w_now w)))"
proof -
  have "refresh_usable t (w_db w) (issued_row s dr u i pair (w_now w))"
    using assms(4,5) by (simp add: refresh_usable_def issued_row_def)
  then show ?thesis
    using refresh_view_append [of "w_db w" "issued_row s dr u i pair (w_now w)" t]
      issueTokenPairForDevice_Inr(1) [OF iss] assms(1,2) by (simp add: issued_row_def)
qed

text \<open>
  C7. Rotation. A refresh that returns a pair was given a token that was usable, of an active device
  session; afterwards that token is not usable any more and the new one is, for the same user,
  device and client key, at every instant of its life; no other token has changed.
\<close>

theorem Refresh_rotates:
  assumes "auth_ok (w_db w)" and "Refresh s dr tok w = (Inr pair, w')"
    and "w_now w \<le> t" and "t < w_now w + as_RefreshTTL s"
  shows "\<exists>c. refresh_view (w_now w) (w_db w) (refreshTokenHash (TrimSpace tok)) = Some c
    \<and> active_device (w_db w) (cs_DeviceSessionID c)
    \<and> tp_DeviceSessionID pair = cs_DeviceSessionID c
    \<and> (cs_ClientKey c \<noteq> [] \<longrightarrow> tp_ClientKey pair = cs_ClientKey c)
    \<and> refresh_view t (w_db w') =
        (refresh_view t (w_db w))
          (refreshTokenHash (TrimSpace tok) := None,
           refreshTokenHash (tp_RefreshToken pair) \<mapsto>
             \<lparr>cs_SessionID = dr_SessID dr, cs_UserID = cs_UserID c,
              cs_DeviceSessionID = cs_DeviceSessionID c, cs_ClientKey = tp_ClientKey pair\<rparr>)"
proof -
  let ?h = "refreshTokenHash (TrimSpace tok)"
  obtain c w1 w2 pair0 w3 x where
    con: "ConsumeRefreshSession_pg ?h w = (Inr (Some c), w1)"
    and w2: "w2 = snd (UpdateLastActive_pg (cs_DeviceSessionID c) w1)"
    and iss: "issueTokenPairForDevice s dr (cs_UserID c) (cs_DeviceSessionID c) (cs_ClientKey c) w2 = (Inr pair0, w3)"
    and get: "GetCryptoSaltAndKEKByUserID_pg (cs_UserID c) w3 = (Inr x, w')"
    and pair: "pair = pair0\<lparr>tp_CryptoSalt := fst x, tp_KEKEncryptedMaster := fst (snd x),
           tp_EncryptedPrivateKey := snd (snd x)\<rparr>"
    using assms(2) by (rule Refresh_InrE) (rule that)
  have I: "on_db (auth_from (w_db w)) w" using assms(1) by (simp add: on_db_def auth_from_def)
  have o1: "on_db (owned_from (w_db w) (cs_UserID c) (cs_DeviceSessionID c)) w1"
    using triple_Inr [OF triple_ConsumeRefresh I con] by (simp add: on_db_def owned_from_def)
  have o2: "on_db (owned_from (w_db w) (cs_UserID c) (cs_DeviceSessionID c)) w2"
    unfolding w2 by (rule keeps_snd [OF keeps_UpdateLastActive o1])
  have o3: "on_db (auth_from (w_db w)) w3"
    by (rule triple_Inr [OF triple_issueTokenPairForDevice o2 iss])
  note cc = db_call_ok [OF con [unfolded ConsumeRefreshSession_pg_def]]
  have d1: "consume_refresh (w_now w) ?h (w_db w) = (Some c, w_db w1)" using cc(1) by simp
  have now2: "w_now w2 = w_now w" using cc(2) by (simp add: w2 UpdateLastActive_view)
  have v0: "refresh_view (w_now w) (w_db w) ?h = Some c"
    using refresh_session.consume_result [of "w_now w" ?h "w_db w"] d1 by simp
  have act: "active_device (w_db w) (cs_DeviceSessionID c)" by (rule view_active [OF assms(1) v0])
  have act2: "active_device (w_db w2) (cs_DeviceSessionID c)"
    using act d1 consume_refresh_active [of "w_now w" ?h "w_db w"] by (simp add: w2 UpdateLastActive_active)
  have "refresh_view t (w_db w2) = (refresh_view t (w_db w))(?h := None)"
    using consume_refresh_view [OF assms(3), of ?h "w_db w"] d1 by (simp add: w2 UpdateLastActive_view)
  moreover have "refresh_view t (w_db w3) = (refresh_view t (w_db w2))
      (refreshTokenHash (tp_RefreshToken pair0) \<mapsto> consumed_of (issued_row s dr (cs_UserID c) (cs_DeviceSessionID c) pair0 (w_now w)))"
    using issued_view [OF _ _ iss act2] o2 o3 assms(4) by (simp add: now2 on_db_def owned_from_def auth_from_def)
  moreover have "w_db w' = w_db w3"
    using query_ok(2) [OF get [unfolded GetCryptoSaltAndKEKByUserID_pg_def]] .
  ultimately have "refresh_view t (w_db w') = (refresh_view t (w_db w))
      (?h := None, refreshTokenHash (tp_RefreshToken pair) \<mapsto>
        \<lparr>cs_SessionID = dr_SessID dr, cs_UserID = cs_UserID c,
         cs_DeviceSessionID = cs_DeviceSessionID c, cs_ClientKey = tp_ClientKey pair\<rparr>)"
    by (simp add: pair issued_row_def consumed_of_def)
  then show ?thesis
    using v0 act issueTokenPairForDevice_Inr(3,4) [OF iss] by (intro exI [of _ c]) (simp add: pair)
qed

end
