(* ===== verification/Auth_Sessions.thy ===== *)
theory Auth_Sessions
  imports Auth_Properties
begin

text \<open>
  Ending sessions: reuse detection, logout, revocation of one or all other device sessions, and
  password reset. When nothing fails, the sessions concerned are revoked, their refresh tokens are
  refused from then on, and (except at logout) their access tokens are blocked.
\<close>

section \<open>Revocation\<close>

lemma inactive_unusable:
  assumes "auth_ok d" and "\<not> active_device d i" and "refresh_view t d k = Some c"
  shows "cs_DeviceSessionID c \<noteq> i"
  using assms(2,3) unfolding refresh_view_iff [OF assms(1)] by (auto simp: refresh_usable_def consumed_of_def)

lemma active_revoke_refresh [simp]: "active_device (revoke_refresh now p d) i = active_device d i"
  by (simp add: active_device_def revoke_refresh_def)

lemma revoke_session_inactive:
  assumes "auth_ok d" and "r \<in> set (device_sessions d)" and "ds_RevokedAt r = None"
  shows "\<not> active_device (revoke_session_at now (ds_ID r, ds_UserID r) d) (ds_ID r)"
proof -
  have "\<exists>r' \<in> set (device_sessions d). ds_ID r' = ds_ID r \<and> ds_UserID r' = ds_UserID r \<and> ds_RevokedAt r' = None"
    using assms(2,3) by blast
  then show ?thesis
    using active_revoke_devices [OF assms(1,2) refl]
    by (simp add: revoke_session_at_def RevokeSession_tx_def)
qed

lemma RevokeSession_nil:
  assumes "w_faults w = []" and "r \<in> set (device_sessions (w_db w))" and "ds_RevokedAt r = None"
  shows "RevokeSession_pg (ds_ID r) (ds_UserID r) w
    = (Inr (), w\<lparr>w_db := revoke_session_at (w_now w) (ds_ID r, ds_UserID r) (w_db w)\<rparr>)"
proof -
  have "\<exists>r' \<in> set (device_sessions (w_db w)). ds_ID r' = ds_ID r \<and> ds_UserID r' = ds_UserID r \<and> ds_RevokedAt r' = None"
    using assms(2,3) by blast
  then show ?thesis
    by (simp add: RevokeSession_pg_def bindE_def map_err_def db_call_nil [OF assms(1)] revoke_session_at_def
        RevokeSession_tx_def ret_def)
qed

text \<open>The device session of a token that was redeemed.\<close>

lemma view_device:
  assumes "auth_ok d" and "refresh_view now d h = Some c"
  obtains r where "r \<in> set (device_sessions d)" and "ds_ID r = cs_DeviceSessionID c"
    and "ds_UserID r = cs_UserID c" and "ds_RevokedAt r = None"
proof -
  obtain q where q: "q \<in> set (refresh_sessions d)" "refresh_usable now d q" "consumed_of q = c"
    using assms(2) unfolding refresh_view_iff [OF assms(1)] by blast
  then obtain r where r: "r \<in> set (device_sessions d)" "ds_ID r = rs_device_session_id q" "ds_RevokedAt r = None"
    unfolding refresh_usable_def active_device_def by blast
  with refresh_owner [OF assms(1) q(1) r(1,2)] q(3) show thesis
    by (intro that [of r]) (auto simp: consumed_of_def)
qed

section \<open>Reuse of a refresh token\<close>

lemma find_unique:
  assumes "x \<in> set xs" and "p x" and "\<And>y. y \<in> set xs \<Longrightarrow> p y \<Longrightarrow> y = x"
  shows "find p xs = Some x"
proof (cases "find p xs")
  case None
  with assms(1,2) show ?thesis by (blast dest: find_NoneD)
next
  case (Some y)
  then have "y = x" using find_SomeD [OF Some] assms(3) by blast
  with Some show ?thesis by simp
qed

lemma consume_refresh_unusable:
  assumes "w_faults w = []" and none: "refresh_view (w_now w) (w_db w) h = None"
  shows "db_do (ConsumeRefreshSession_pg h) w = (Inr None, w)"
proof -
  have "map (\<lambda>q. if rs_refresh_token_hash q = h \<and> refresh_usable (w_now w) (w_db w) q
      then q\<lparr>rs_revoked_at := Some (w_now w)\<rparr> else q) (refresh_sessions (w_db w)) = refresh_sessions (w_db w)"
    using none unfolding refresh_view_None by (intro map_idI) auto
  then have "snd (consume_refresh (w_now w) h (w_db w)) = w_db w" by (simp add: consume_refresh_def)
  then have "consume_refresh (w_now w) h (w_db w) = (None, w_db w)"
    using refresh_session.consume_result [of "w_now w" h "w_db w"] unfolding none by (simp add: prod_eq_iff)
  then show ?thesis
    unfolding ConsumeRefreshSession_pg_def
    using db_do_nil [OF assms(1), of "\<lambda>now d. Inr (consume_refresh now h d)" None "w_db w"] by simp
qed

lemma FindRevoked_unique:
  assumes "w_faults w = []" and "q \<in> set (refresh_sessions (w_db w))" and "rs_revoked_at q \<noteq> None"
    and "\<forall>q' \<in> set (refresh_sessions (w_db w)). rs_refresh_token_hash q' = rs_refresh_token_hash q \<longrightarrow> q' = q"
  shows "FindRevokedSession_pg (rs_refresh_token_hash q) w = (Inr (Some \<lparr>cs_SessionID = uuid_Nil, cs_UserID = rs_user_id q,
    cs_DeviceSessionID = rs_device_session_id q, cs_ClientKey = []\<rparr>), w)"
proof -
  have "find (\<lambda>q'. rs_refresh_token_hash q' = rs_refresh_token_hash q \<and> rs_revoked_at q' \<noteq> None)
      (refresh_sessions (w_db w)) = Some q"
    by (rule find_unique) (use assms(2-4) in \<open>blast+\<close>)
  then show ?thesis unfolding FindRevokedSession_pg_def by (simp add: query_nil [OF assms(1)] del: not_None_eq)
qed

text \<open>
  A refresh token that was rotated before, expired or not, ends the device session it belongs to.
\<close>

lemma reuse_handled:
  assumes "redis_contract view (as_Redis s)" and "auth_ok (w_db w)" and "w_faults w = []"
    and "q \<in> set (refresh_sessions (w_db w))" and "rs_revoked_at q \<noteq> None"
    and "rs_refresh_token_hash q = refreshTokenHash (TrimSpace tok)"
    and "\<forall>q' \<in> set (refresh_sessions (w_db w)). rs_refresh_token_hash q' = rs_refresh_token_hash q \<longrightarrow> q' = q"
    and "active_device (w_db w) (rs_device_session_id q)"
    and "1000000 \<le> as_AccessTTL s" and "w_now w \<le> t"
    and "t < w_now w + 1000000 * (as_AccessTTL s div 1000000)"
  shows "\<exists>w'. Refresh s dr tok w = (Inl ErrInvalidRefresh, w')
    \<and> \<not> active_device (w_db w') (rs_device_session_id q)
    \<and> (\<forall>k c. refresh_view t (w_db w') k = Some c \<longrightarrow> cs_DeviceSessionID c \<noteq> rs_device_session_id q)
    \<and> fst (IsBlocked (as_Redis s) (cd_String (as_Codec s)) (rs_device_session_id q) (w'\<lparr>w_now := t\<rparr>)) = Inr True
    \<and> w_queue w' = (if as_Audit s
        then LogAsync (audit_event (rs_user_id q) ''refresh_token_reuse_detected'' None) (w_queue w)
        else w_queue w)"
proof -
  let ?h = "refreshTokenHash (TrimSpace tok)" and ?i = "rs_device_session_id q" and ?d = "w_db w"
  obtain r where r: "r \<in> set (device_sessions ?d)" "ds_ID r = ?i" "ds_RevokedAt r = None"
    using assms(8) unfolding active_device_def by blast
  have u: "ds_UserID r = rs_user_id q" using refresh_owner [OF assms(2,4) r(1,2)] .
  have "refresh_view (w_now w) ?d ?h = None"
    unfolding refresh_view_None using assms(5-7) by (auto simp: refresh_usable_def)
  then have con: "db_do (ConsumeRefreshSession_pg ?h) w = (Inr None, w)" by (rule consume_refresh_unusable [OF assms(3)])
  have fnd: "FindRevokedSession_pg ?h w = (Inr (Some \<lparr>cs_SessionID = uuid_Nil, cs_UserID = ds_UserID r,
      cs_DeviceSessionID = ds_ID r, cs_ClientKey = []\<rparr>), w)"
    using FindRevoked_unique [OF assms(3,4,5,7)] by (simp add: assms(6) r u)
  define w1 where "w1 = w\<lparr>w_db := revoke_session_at (w_now w) (ds_ID r, ds_UserID r) ?d\<rparr>"
  have rev: "RevokeSession_pg (ds_ID r) (ds_UserID r) w = (Inr (), w1)"
    unfolding w1_def by (rule RevokeSession_nil [OF assms(3) r(1,3)])
  have w1: "w_faults w1 = []" "w_now w1 = w_now w" using assms(3) by (simp_all add: w1_def)
  define w2 where "w2 = w1\<lparr>w_redis := rd_Set (as_Redis s) (keyPrefix @ cd_String (as_Codec s) (ds_ID r)) ''1''
      (as_AccessTTL s) (w_now w1) (w_redis w1)\<rparr>"
  have blk: "Block (as_Redis s) (cd_String (as_Codec s)) (ds_ID r) (as_AccessTTL s) w1 = (Inr (), w2)"
    unfolding w2_def by (rule Block_nil [OF w1(1)])
  define w' where "w' = snd (log_async s (audit_event (ds_UserID r) ''refresh_token_reuse_detected'' None) w2)"
  have "Refresh s dr tok w = (Inl ErrInvalidRefresh, w')"
    unfolding Refresh_def Let_def
    by (simp add: con handleTokenReuse_def bindE_def attempt_def fnd rev ignore_cw blk w'_def
        log_async_def fail_def)
  moreover have w': "w_db w' = w_db w1" "w_redis w' = w_redis w2" "w_faults w' = []"
    using w1 by (simp_all add: w'_def log_async_def w2_def)
  moreover have "\<not> active_device (w_db w1) ?i"
    using revoke_session_inactive [OF assms(2) r(1,3)] r(2) by (simp add: w1_def)
  moreover from this have "\<forall>k c. refresh_view t (w_db w1) k = Some c \<longrightarrow> cs_DeviceSessionID c \<noteq> ?i"
    using inactive_unusable revoke_session_ok [OF assms(2)] by (simp add: w1_def) blast
  moreover have "view (w_redis w2) t (keyPrefix @ cd_String (as_Codec s) ?i) = Some ''1''"
    using view_set_batch [OF assms(1,9,10), of ?i "[?i]" "w_redis w1" "cd_String (as_Codec s)"] assms(11) r(2) w1(2)
    by (simp add: w2_def)
  moreover have "w_queue w' = (if as_Audit s
        then LogAsync (audit_event (rs_user_id q) ''refresh_token_reuse_detected'' None) (w_queue w) else w_queue w)"
    by (simp add: w'_def log_async_def w2_def w1_def u)
  ultimately show ?thesis
    by (intro exI [of _ w']) (simp add: IsBlocked_nil [OF assms(1)])
qed

text \<open>A token that was rotated is refused, whatever fails.\<close>

lemma rotated_refused:
  assumes "rs_revoked_at q \<noteq> None" and "rs_refresh_token_hash q = refreshTokenHash (TrimSpace tok)"
    and "\<forall>q' \<in> set (refresh_sessions (w_db w)). rs_refresh_token_hash q' = rs_refresh_token_hash q \<longrightarrow> q' = q"
  shows "\<exists>e. fst (Refresh s dr tok w) = Inl e"
proof (cases "fst (Refresh s dr tok w)")
  case (Inr pair)
  then obtain w' where "Refresh s dr tok w = (Inr pair, w')" by (metis prod.collapse)
  then obtain c w1 where "ConsumeRefreshSession_pg (refreshTokenHash (TrimSpace tok)) w = (Inr (Some c), w1)"
    by (rule Refresh_InrE)
  then have "fst (consume_refresh (w_now w) (refreshTokenHash (TrimSpace tok)) (w_db w)) = Some c"
    unfolding ConsumeRefreshSession_pg_def by (auto dest: db_call_ok(1))
  then obtain q' where "find (\<lambda>q. rs_refresh_token_hash q = refreshTokenHash (TrimSpace tok) \<and> refresh_usable (w_now w) (w_db w) q)
      (refresh_sessions (w_db w)) = Some q'"
    by (auto simp: consume_refresh_def)
  from find_SomeD [OF this] assms show ?thesis by (auto simp: refresh_usable_def)
qed simp

text \<open>
  C5. Reuse detection. When a refresh token that was rotated before and has not expired is presented
  again, the refresh is refused, whatever fails. When no call fails, the device session it belongs to
  is revoked, no refresh token of that device is usable any more, its access tokens are blocked for
  their time to live, and the event is logged. The device session is active before, and no other refresh
  token has the same hash.
\<close>

theorem refresh_reuse_detected:
  assumes "redis_contract view (as_Redis s)" and "auth_ok (w_db w)"
    and "q \<in> set (refresh_sessions (w_db w))" and "rs_revoked_at q \<noteq> None" and "w_now w < rs_expires_at q"
    and "rs_refresh_token_hash q = refreshTokenHash (TrimSpace tok)"
    and "\<forall>q' \<in> set (refresh_sessions (w_db w)). rs_refresh_token_hash q' = rs_refresh_token_hash q \<longrightarrow> q' = q"
    and "active_device (w_db w) (rs_device_session_id q)"
    and "1000000 \<le> as_AccessTTL s" and "w_now w \<le> t"
    and "t < w_now w + 1000000 * (as_AccessTTL s div 1000000)"
  shows "(\<exists>e. fst (Refresh s dr tok w) = Inl e)
    \<and> (w_faults w = [] \<longrightarrow> (\<exists>w'. Refresh s dr tok w = (Inl ErrInvalidRefresh, w')
      \<and> \<not> active_device (w_db w') (rs_device_session_id q)
      \<and> (\<forall>k c. refresh_view t (w_db w') k = Some c \<longrightarrow> cs_DeviceSessionID c \<noteq> rs_device_session_id q)
      \<and> fst (IsBlocked (as_Redis s) (cd_String (as_Codec s)) (rs_device_session_id q) (w'\<lparr>w_now := t\<rparr>)) = Inr True
      \<and> w_queue w' = (if as_Audit s
          then LogAsync (audit_event (rs_user_id q) ''refresh_token_reuse_detected'' None) (w_queue w)
          else w_queue w)))"
  using rotated_refused [OF assms(4,6,7)] reuse_handled [OF assms(1,2) _ assms(3,4,6-11)] by blast

section \<open>Logout\<close>

lemma consume_refresh_nil:
  assumes "w_faults w = []" and "refresh_view (w_now w) (w_db w) h = v"
  shows "db_do (ConsumeRefreshSession_pg h) w = (Inr v, w\<lparr>w_db := snd (consume_refresh (w_now w) h (w_db w))\<rparr>)"
proof -
  have "consume_refresh (w_now w) h (w_db w) = (v, snd (consume_refresh (w_now w) h (w_db w)))"
    using refresh_session.consume_result [of "w_now w" h "w_db w"] assms(2) by (simp add: prod_eq_iff)
  then show ?thesis
    unfolding ConsumeRefreshSession_pg_def
    using db_do_nil [OF assms(1), of "\<lambda>now d. Inr (consume_refresh now h d)"] by simp
qed

lemma logout_spares:
  assumes "auth_ok d" and "now \<le> t" and "refresh_view now d h = Some c"
    and k: "refresh_view t d k = Some c'" and ne: "cs_DeviceSessionID c' \<noteq> cs_DeviceSessionID c"
  shows "refresh_view t (revoke_session_at now (cs_DeviceSessionID c, u) (snd (consume_refresh now h d))) k = Some c'"
proof -
  have ok: "auth_ok (snd (consume_refresh now h d))" using consume_refresh_keeps [OF assms(1)] by blast
  have "k \<noteq> h" using refresh_view_earlier [OF assms(1) k assms(2)] assms(3) ne by auto
  then have "refresh_view t (snd (consume_refresh now h d)) k = Some c'"
    using k by (simp add: consume_refresh_view [OF assms(2)])
  then show ?thesis using ne by (simp add: revoke_session_view [OF ok] session_hit_def)
qed

text \<open>
  C32. When no call fails, logout with a usable refresh token ends its device session: none of the device's refresh
  tokens is usable afterwards, the tokens of every other device are untouched, and the event is
  logged. Redis is not changed: the blocklist does not learn of the session.
\<close>

theorem Logout_ends_session:
  assumes "auth_ok (w_db w)" and "w_faults w = []" and "w_now w \<le> t"
    and "refresh_view (w_now w) (w_db w) (refreshTokenHash (TrimSpace tok)) = Some c"
  shows "\<exists>w'. Logout s tok device w = (Inr (), w')
    \<and> \<not> active_device (w_db w') (cs_DeviceSessionID c)
    \<and> (\<forall>k c'. refresh_view t (w_db w') k = Some c' \<longrightarrow> cs_DeviceSessionID c' \<noteq> cs_DeviceSessionID c)
    \<and> (\<forall>k c'. refresh_view t (w_db w) k = Some c' \<longrightarrow> cs_DeviceSessionID c' \<noteq> cs_DeviceSessionID c \<longrightarrow>
         refresh_view t (w_db w') k = Some c')
    \<and> w_redis w' = w_redis w
    \<and> w_queue w' = (if as_Audit s then LogAsync (audit_event (cs_UserID c) ''logout'' (Some device)) (w_queue w)
                    else w_queue w)"
proof -
  let ?h = "refreshTokenHash (TrimSpace tok)"
  define d1 where "d1 = snd (consume_refresh (w_now w) ?h (w_db w))"
  define w1 where "w1 = w\<lparr>w_db := d1\<rparr>"
  have con: "db_do (ConsumeRefreshSession_pg ?h) w = (Inr (Some c), w1)"
    unfolding w1_def d1_def by (rule consume_refresh_nil [OF assms(2,4)])
  have ok1: "auth_ok d1" unfolding d1_def using consume_refresh_keeps [OF assms(1)] by blast
  obtain r where r: "r \<in> set (device_sessions (w_db w))" "ds_ID r = cs_DeviceSessionID c"
    "ds_UserID r = cs_UserID c" "ds_RevokedAt r = None"
    using assms(1,4) by (rule view_device)
  have r1: "r \<in> set (device_sessions (w_db w1))" using r(1) by (simp add: w1_def d1_def consume_refresh_def)
  define d2 where "d2 = revoke_session_at (w_now w) (ds_ID r, ds_UserID r) d1"
  define w2 where "w2 = w\<lparr>w_db := d2\<rparr>"
  have rev: "RevokeSession_pg (ds_ID r) (ds_UserID r) w1 = (Inr (), w2)"
    using RevokeSession_nil [OF _ r1 r(4)] assms(2) by (simp add: w1_def w2_def d2_def)
  define w' where "w' = snd (log_async s (audit_event (cs_UserID c) ''logout'' (Some device)) w2)"
  have "Logout s tok device w = (Inr (), w')"
    unfolding Logout_def
    using rev r(2,3) by (simp add: bindE_def con w'_def log_async_def)
  moreover have w': "w_db w' = d2" "w_redis w' = w_redis w"
    "w_queue w' = (if as_Audit s then LogAsync (audit_event (cs_UserID c) ''logout'' (Some device)) (w_queue w)
                   else w_queue w)"
    by (simp_all add: w'_def log_async_def w2_def)
  moreover have na: "\<not> active_device d2 (cs_DeviceSessionID c)"
    using revoke_session_inactive [OF ok1, of r "w_now w"] r1 r(2,4) by (simp add: d2_def w1_def)
  moreover have "\<forall>k c'. refresh_view t d2 k = Some c' \<longrightarrow> cs_DeviceSessionID c' \<noteq> cs_DeviceSessionID c"
    using inactive_unusable [OF _ na] revoke_session_ok [OF ok1] unfolding d2_def by blast
  moreover have "\<forall>k c'. refresh_view t (w_db w) k = Some c' \<longrightarrow> cs_DeviceSessionID c' \<noteq> cs_DeviceSessionID c
      \<longrightarrow> refresh_view t d2 k = Some c'"
    using logout_spares [OF assms(1,3,4)] by (simp add: d2_def d1_def r)
  ultimately show ?thesis unfolding w'(1) [symmetric] by blast
qed

section \<open>Other device sessions, password reset\<close>

lemma revoke_others_devices:
  assumes "r \<in> set (device_sessions (revoke_others_at now (u, i) d))" and "ds_UserID r = u" and "ds_ID r \<noteq> i"
  shows "ds_RevokedAt r \<noteq> None"
proof -
  let ?g = "\<lambda>r. if (ds_UserID r = u \<and> ds_ID r \<noteq> i) \<and> ds_RevokedAt r = None then r\<lparr>ds_RevokedAt := Some now\<rparr> else r"
  have "device_sessions (revoke_others_at now (u, i) d) = map ?g (device_sessions d)"
    by (simp add: revoke_others_at_def RevokeOtherSessions_tx_def revoke_refresh_def revoke_devices_def)
  then have "r \<in> ?g ` set (device_sessions d)" using assms(1) by (simp only: set_map)
  then obtain r0 where "r = ?g r0" by (rule imageE)
  with assms(2,3) show ?thesis by (simp split: if_splits)
qed

lemma revoke_others_unusable:
  assumes "auth_ok d" and "refresh_view t (revoke_others_at now (u, i) d) k = Some c"
  shows "cs_UserID c \<noteq> u \<or> cs_DeviceSessionID c = i"
  using assms(2) unfolding revoke_others_view [OF assms(1)] others_hit_def by auto

definition revoked_ids :: "uuid \<Rightarrow> uuid \<Rightarrow> db \<Rightarrow> uuid list" where
  "revoked_ids u i d = map ds_ID (filter (\<lambda>r. ds_UserID r = u \<and> ds_ID r \<noteq> i \<and> ds_RevokedAt r = None) (device_sessions d))"

lemma RevokeOthers_nil:
  "w_faults w = [] \<Longrightarrow> RevokeOtherSessions_pg u i w
     = (Inr (revoked_ids u i (w_db w)), w\<lparr>w_db := revoke_others_at (w_now w) (u, i) (w_db w)\<rparr>)"
  by (simp add: RevokeOtherSessions_pg_def db_call_nil RevokeOtherSessions_tx_def revoke_others_at_def revoked_ids_def)

text \<open>The blocklist after a batch that may be empty.\<close>

lemma block_all_nil:
  assumes "w_faults w = []"
  shows "(if ids \<noteq> [] then ignore (BlockBatch rd us ids ttl) else ret ()) w
    = (Inr (), w\<lparr>w_redis := fold (\<lambda>i. rd_Set rd (keyPrefix @ us i) ''1'' ttl (w_now w)) ids (w_redis w)\<rparr>)"
  by (simp add: ignore_cw BlockBatch_nil [OF assms] ret_def)

text \<open>
  Revoking the other sessions revokes every session of the user but the current one, makes
  their refresh tokens unusable, blocks their access tokens, and leaves the tokens of the
  current session and of every other user as they were.
\<close>

lemma RevokeOtherDeviceSessions_complete:
  assumes "redis_contract view (as_Redis s)" and "auth_ok (w_db w)" and "w_faults w = []"
    and "1000000 \<le> as_AccessTTL s" and "w_now w \<le> t"
    and "t < w_now w + 1000000 * (as_AccessTTL s div 1000000)"
  shows "\<exists>w'. RevokeOtherDeviceSessions s u cur w = (Inr (), w')
    \<and> (\<forall>r \<in> set (device_sessions (w_db w')). ds_UserID r = u \<longrightarrow> ds_ID r \<noteq> cur \<longrightarrow> ds_RevokedAt r \<noteq> None)
    \<and> (\<forall>k c. refresh_view t (w_db w') k = Some c \<longleftrightarrow>
         refresh_view t (w_db w) k = Some c \<and> (cs_UserID c \<noteq> u \<or> cs_DeviceSessionID c = cur))
    \<and> (\<forall>r \<in> set (device_sessions (w_db w)). ds_UserID r = u \<longrightarrow> ds_ID r \<noteq> cur \<longrightarrow> ds_RevokedAt r = None \<longrightarrow>
         fst (IsBlocked (as_Redis s) (cd_String (as_Codec s)) (ds_ID r) (w'\<lparr>w_now := t\<rparr>)) = Inr True)"
proof -
  let ?us = "cd_String (as_Codec s)"
  define ids where "ids = revoked_ids u cur (w_db w)"
  define w1 where "w1 = w\<lparr>w_db := revoke_others_at (w_now w) (u, cur) (w_db w)\<rparr>"
  have w1: "w_faults w1 = []" "w_now w1 = w_now w" "w_redis w1 = w_redis w" using assms(3) by (simp_all add: w1_def)
  have rev: "db_do (RevokeOtherSessions_pg u cur) w = (Inr ids, w1)"
    by (simp add: db_do_def map_err_def RevokeOthers_nil [OF assms(3)] ids_def w1_def)
  define w' where "w' = w1\<lparr>w_redis := fold (\<lambda>i. rd_Set (as_Redis s) (keyPrefix @ ?us i) ''1'' (as_AccessTTL s) (w_now w)) ids (w_redis w)\<rparr>"
  have "RevokeOtherDeviceSessions s u cur w = (Inr (), w')"
    unfolding RevokeOtherDeviceSessions_def bindE_def rev prod.case sum.case block_all_nil [OF w1(1)] by (simp add: w'_def w1)
  moreover have "fst (IsBlocked (as_Redis s) ?us (ds_ID r) (w'\<lparr>w_now := t\<rparr>)) = Inr True"
    if "r \<in> set (device_sessions (w_db w))" "ds_UserID r = u" "ds_ID r \<noteq> cur" "ds_RevokedAt r = None" for r
  proof -
    have "ds_ID r \<in> set ids" using that by (auto simp: ids_def revoked_ids_def)
    then have "view (w_redis w') t (keyPrefix @ ?us (ds_ID r)) = Some ''1''"
      using view_set_batch [OF assms(1,4,5,6), of "ds_ID r" ids "w_redis w" ?us] by (simp add: w'_def)
    then show ?thesis using w1(1) by (simp add: IsBlocked_nil [OF assms(1)] w'_def)
  qed
  moreover have "w_db w' = revoke_others_at (w_now w) (u, cur) (w_db w)" by (simp add: w'_def w1_def)
  ultimately show ?thesis
    using revoke_others_devices revoke_others_view [OF assms(2)]
    by (intro exI [of _ w']) (simp add: others_hit_def)
qed

lemma consume_reset_nil:
  assumes "w_faults w = []" and "reset_view (w_now w) (w_db w) h = v"
  shows "db_do (ConsumeResetToken_pg h) w = (Inr v, w\<lparr>w_db := snd (consume_reset (w_now w) h (w_db w))\<rparr>)"
proof -
  have "consume_reset (w_now w) h (w_db w) = (v, snd (consume_reset (w_now w) h (w_db w)))"
    using reset_tokens.consume_result [of "w_now w" h "w_db w"] assms(2) by (simp add: prod_eq_iff)
  then show ?thesis
    unfolding ConsumeResetToken_pg_def
    using db_do_nil [OF assms(1), of "\<lambda>now d. Inr (consume_reset now h d)"] by simp
qed

lemma consume_reset_frame [simp]:
  "users (snd (consume_reset now h d)) = users d"
  "device_sessions (snd (consume_reset now h d)) = device_sessions d"
  "refresh_sessions (snd (consume_reset now h d)) = refresh_sessions d"
  by (simp_all add: consume_reset_def)

lemma reset_view_others [simp]: "reset_view t (revoke_others_at now p d) = reset_view t d"
  by (intro ext) (simp add: reset_view_def revoke_others_at_def RevokeOtherSessions_tx_def revoke_refresh_def revoke_devices_def)

lemma revoked_ids_frame: "device_sessions d = device_sessions d' \<Longrightarrow> revoked_ids u i d = revoked_ids u i d'"
  by (simp add: revoked_ids_def)

text \<open>The calls of a reset that nothing disturbs, and the database they leave.\<close>

lemma ResetPassword_run:
  assumes "w_faults w = []" and "reset_view (w_now w) (w_db w) (refreshTokenHash token) = Some u"
  defines "d1 \<equiv> snd (consume_reset (w_now w) (refreshTokenHash token) (w_db w))"
  shows "\<exists>w'. ResetPassword s token p w = (Inr (), w') \<and> w_faults w' = []
    \<and> w_db w' = revoke_others_at (w_now w) (u, uuid_Nil)
        (d1\<lparr>users := map (\<lambda>r. if us_id r = u then set_credentials p r else r) (users d1)\<rparr>)
    \<and> w_redis w' = fold (\<lambda>i. rd_Set (as_Redis s) (keyPrefix @ cd_String (as_Codec s) i) ''1'' (as_AccessTTL s) (w_now w))
        (revoked_ids u uuid_Nil (w_db w)) (w_redis w)"
proof -
  let ?us = "cd_String (as_Codec s)"
  define d2 where "d2 = d1\<lparr>users := map (\<lambda>r. if us_id r = u then set_credentials p r else r) (users d1)\<rparr>"
  define d3 where "d3 = revoke_others_at (w_now w) (u, uuid_Nil) d2"
  define ids where "ids = revoked_ids u uuid_Nil (w_db w)"
  have con: "db_do (ConsumeResetToken_pg (refreshTokenHash token)) w = (Inr (Some u), w\<lparr>w_db := d1\<rparr>)"
    unfolding d1_def by (rule consume_reset_nil [OF assms(1,2)])
  have upd: "db_do (UpdateCredentialsAndKEK_pg u p) (w\<lparr>w_db := d1\<rparr>) = (Inr (), w\<lparr>w_db := d2\<rparr>)"
    using assms(1) by (simp add: UpdateCredentialsAndKEK_pg_def db_do_def map_err_def db_call_nil d2_def)
  have "revoked_ids u uuid_Nil d2 = ids"
    unfolding ids_def by (rule revoked_ids_frame) (simp add: d2_def d1_def)
  then have rev: "RevokeOtherSessions_pg u uuid_Nil (w\<lparr>w_db := d2\<rparr>) = (Inr ids, w\<lparr>w_db := d3\<rparr>)"
    using assms(1) by (simp add: RevokeOthers_nil d3_def)
  define w3 where "w3 = w\<lparr>w_db := d3,
    w_redis := fold (\<lambda>i. rd_Set (as_Redis s) (keyPrefix @ ?us i) ''1'' (as_AccessTTL s) (w_now w)) ids (w_redis w)\<rparr>"
  have blk: "(if ids \<noteq> [] then ignore (BlockBatch (as_Redis s) ?us ids (as_AccessTTL s)) else ret ()) (w\<lparr>w_db := d3\<rparr>) = (Inr (), w3)"
    using block_all_nil [of "w\<lparr>w_db := d3\<rparr>" ids "as_Redis s" ?us "as_AccessTTL s"] assms(1) by (simp add: w3_def)
  have "ResetPassword s token p w = (Inr (), snd (log_async s (audit_event u ''password_reset'' None) w3))"
    unfolding ResetPassword_def bindE_def con prod.case sum.case option.case upd attempt_def rev blk
    by (simp add: log_async_def)
  then show ?thesis
    using assms(1) by (simp add: log_async_def w3_def d3_def d2_def ids_def)
qed

text \<open>
  C16. When no call fails, a password reset with a usable token stores the new credentials of its owner and of nobody else,
  uses the token up, revokes every session of the owner, makes all the owner's refresh tokens
  unusable and blocks the access tokens of the sessions that were active.
\<close>

theorem ResetPassword_complete:
  assumes "redis_contract view (as_Redis s)" and "auth_ok (w_db w)" and "w_faults w = []"
    and "reset_view (w_now w) (w_db w) (refreshTokenHash token) = Some u"
    and "uuid_Nil \<notin> ds_ID ` set (device_sessions (w_db w))"
    and "1000000 \<le> as_AccessTTL s" and "w_now w \<le> t"
    and "t < w_now w + 1000000 * (as_AccessTTL s div 1000000)"
  shows "\<exists>w'. ResetPassword s token p w = (Inr (), w')
    \<and> users (w_db w') = map (\<lambda>r. if us_id r = u then set_credentials p r else r) (users (w_db w))
    \<and> reset_view t (w_db w') (refreshTokenHash token) = None
    \<and> (\<forall>r \<in> set (device_sessions (w_db w')). ds_UserID r = u \<longrightarrow> ds_ID r \<noteq> uuid_Nil \<longrightarrow> ds_RevokedAt r \<noteq> None)
    \<and> (\<forall>k c. refresh_view t (w_db w') k = Some c \<longleftrightarrow> refresh_view t (w_db w) k = Some c \<and> cs_UserID c \<noteq> u)
    \<and> (\<forall>r \<in> set (device_sessions (w_db w)). ds_UserID r = u \<longrightarrow> ds_RevokedAt r = None \<longrightarrow>
         fst (IsBlocked (as_Redis s) (cd_String (as_Codec s)) (ds_ID r) (w'\<lparr>w_now := t\<rparr>)) = Inr True)"
proof -
  let ?h = "refreshTokenHash token" and ?us = "cd_String (as_Codec s)"
  let ?g = "\<lambda>r. if us_id r = u then set_credentials p r else r"
  define d1 where "d1 = snd (consume_reset (w_now w) ?h (w_db w))"
  define d2 where "d2 = d1\<lparr>users := map ?g (users d1)\<rparr>"
  define d3 where "d3 = revoke_others_at (w_now w) (u, uuid_Nil) d2"
  define ids where "ids = revoked_ids u uuid_Nil (w_db w)"
  obtain w' where "ResetPassword s token p w = (Inr (), w')" and w': "w_db w' = d3" "w_faults w' = []"
    "w_redis w' = fold (\<lambda>i. rd_Set (as_Redis s) (keyPrefix @ ?us i) ''1'' (as_AccessTTL s) (w_now w)) ids (w_redis w)"
    using ResetPassword_run [OF assms(3,4), of s p] unfolding d1_def d2_def d3_def ids_def by blast
  have ok1: "auth_ok d1" unfolding d1_def using consume_reset_keeps [OF assms(2)] by blast
  have "keeps_tables (\<lambda>now d. Inr ((), d\<lparr>users := map ?g (users d)\<rparr>))"
    by (rule tables_update_user) (simp add: set_credentials_def)
  then have ok2: "auth_ok d2" unfolding d2_def keeps_tables_def using ok1 by blast
  have rv: "refresh_view t d2 = refresh_view t (w_db w)"
    by (intro ext) (simp add: refresh_view_def refresh_usable_def active_device_def d2_def d1_def)
  note \<open>ResetPassword s token p w = (Inr (), w')\<close>
  moreover have "refresh_view t d3 k = Some c \<longleftrightarrow> refresh_view t (w_db w) k = Some c \<and> cs_UserID c \<noteq> u" for k c
  proof -
    have "cs_DeviceSessionID c \<noteq> uuid_Nil" if "refresh_view t (w_db w) k = Some c"
      by (rule view_device [OF assms(2) that]) (use assms(5) in force)
    then show ?thesis unfolding d3_def revoke_others_view [OF ok2] rv others_hit_def by auto
  qed
  moreover have "reset_view t d3 ?h = None"
  proof -
    have "reset_view t d2 = reset_view t d1" by (intro ext) (simp add: reset_view_def d2_def)
    then show ?thesis
      using consume_reset_view [OF assms(7), of ?h "w_db w"] by (simp add: d3_def d1_def)
  qed
  moreover have "users d3 = map ?g (users (w_db w))"
    by (simp add: d3_def d2_def d1_def revoke_others_at_def RevokeOtherSessions_tx_def revoke_refresh_def revoke_devices_def)
  moreover have "\<forall>r \<in> set (device_sessions d3). ds_UserID r = u \<longrightarrow> ds_ID r \<noteq> uuid_Nil \<longrightarrow> ds_RevokedAt r \<noteq> None"
    unfolding d3_def using revoke_others_devices by blast
  moreover have "fst (IsBlocked (as_Redis s) ?us (ds_ID r) (w'\<lparr>w_now := t\<rparr>)) = Inr True"
    if "r \<in> set (device_sessions (w_db w))" "ds_UserID r = u" "ds_RevokedAt r = None" for r
  proof -
    have "ds_ID r \<in> set ids" using that assms(5) by (auto simp: ids_def revoked_ids_def)
    then have "view (w_redis w') t (keyPrefix @ ?us (ds_ID r)) = Some ''1''"
      using view_set_batch [OF assms(1,6,7,8), of "ds_ID r" ids "w_redis w" ?us] w' by simp
    then show ?thesis using w'(2) by (simp add: IsBlocked_nil [OF assms(1)])
  qed
  ultimately show ?thesis unfolding w'(1) [symmetric] by blast
qed

text \<open>
  A reset with a token that is unknown, used or expired is refused, and nothing is changed.
\<close>

lemma ResetPassword_invalid_token:
  assumes "w_faults w = []" and "reset_view (w_now w) (w_db w) (refreshTokenHash token) = None"
  shows "ResetPassword s token p w = (Inl ErrResetTokenInvalid, w)"
proof -
  let ?h = "refreshTokenHash token"
  have none: "\<And>t. t \<in> set (password_reset_tokens (w_db w)) \<Longrightarrow> \<not> token_usable (w_now w) ?h t"
    using assms(2) by (auto simp: reset_view_def find_None_iff)
  have "map (\<lambda>t. if token_usable (w_now w) ?h t then t\<lparr>pt_UsedAt := Some (w_now w)\<rparr> else t)
      (password_reset_tokens (w_db w)) = password_reset_tokens (w_db w)"
    by (rule map_idI) (simp add: none)
  then have "snd (consume_reset (w_now w) ?h (w_db w)) = w_db w" by (simp add: consume_reset_def)
  then have "db_do (ConsumeResetToken_pg ?h) w = (Inr None, w)"
    using consume_reset_nil [OF assms] by simp
  then show ?thesis by (simp add: ResetPassword_def bindE_def fail_def)
qed

end
