(* ===== verification/Auth_Login.thy ===== *)
theory Auth_Login
  imports Auth_Sessions
begin

text \<open>
  The SRP login across the service: a client that knows the password key completes it and gets usable
  tokens.
\<close>

section \<open>A login that succeeds\<close>

lemma CreateDeviceSession_total:
  assumes "user_exists u d" and "i \<notin> ds_ID ` set (device_sessions d)"
  obtains j d' where "CreateDeviceSession_stmt i u v now d = Inr (j, d')" and "active_device d' j"
    and "users d' = users d" and "rs_id ` set (refresh_sessions d') = rs_id ` set (refresh_sessions d)"
    and "rs_refresh_token_hash ` set (refresh_sessions d') = rs_refresh_token_hash ` set (refresh_sessions d)"
proof (cases "di_DeviceID v = [] \<or> find (same_active_device u (di_DeviceID v)) (device_sessions d) = None")
  case True
  let ?d = "d\<lparr>device_sessions := device_sessions d @ [new_device_session now i u v]\<rparr>"
  have "insert_device_session (new_device_session now i u v) d = Inr ((), ?d)"
    using True assms by (auto simp: insert_device_session_def new_device_session_def same_active_device_def find_None_iff)
  then have "CreateDeviceSession_stmt i u v now d = Inr (i, ?d)"
    using True by (auto simp: CreateDeviceSession_stmt_def stmt_bind_def)
  moreover have "active_device ?d i" by (simp add: active_device_def new_device_session_def)
  ultimately show thesis by (rule that) simp_all
next
  case False
  then obtain r where r: "find (same_active_device u (di_DeviceID v)) (device_sessions d) = Some r" by auto
  let ?d = "revoke_refresh now (\<lambda>q. rs_device_session_id q = ds_ID r \<and> ds_ID r \<noteq> i)
       (d\<lparr>device_sessions := map (\<lambda>r'. if ds_ID r' = ds_ID r then touch_device_session now v r' else r') (device_sessions d)\<rparr>)"
  have "CreateDeviceSession_stmt i u v now d = Inr (ds_ID r, ?d)"
    using False r by (simp add: CreateDeviceSession_stmt_def)
  moreover have "active_device ?d (ds_ID r)"
  proof -
    have "r \<in> set (device_sessions d)" "ds_RevokedAt r = None"
      using find_SomeD [OF r] by (auto simp: same_active_device_def)
    then have "touch_device_session now v r \<in> set (device_sessions ?d)" by (simp add: revoke_refresh_def)
    moreover have "ds_ID (touch_device_session now v r) = ds_ID r \<and> ds_RevokedAt (touch_device_session now v r) = None"
      using \<open>ds_RevokedAt r = None\<close> by (simp add: touch_device_session_def)
    ultimately show ?thesis unfolding active_device_def by blast
  qed
  moreover have "map rs_id (refresh_sessions ?d) = map rs_id (refresh_sessions d)"
    and "map rs_refresh_token_hash (refresh_sessions ?d) = map rs_refresh_token_hash (refresh_sessions d)"
    by (simp_all add: revoke_refresh_def)
  then have "rs_id ` set (refresh_sessions ?d) = rs_id ` set (refresh_sessions d)"
    and "rs_refresh_token_hash ` set (refresh_sessions ?d) = rs_refresh_token_hash ` set (refresh_sessions d)"
    unfolding list.set_map [symmetric] by simp_all
  moreover have "users ?d = users d" by (simp add: revoke_refresh_def)
  ultimately show thesis by (intro that)
qed

text \<open>The draws and identifiers are new, and the access token can be signed.\<close>

definition issuable :: "'r AuthService \<Rightarrow> draws \<Rightarrow> db \<Rightarrow> uuid \<Rightarrow> bool" where
  "issuable s dr d u \<longleftrightarrow> user_exists u d \<and> u \<noteq> uuid_Nil
     \<and> (\<forall>c. jl_Sign (as_Jwt s) (js_secret (as_Tokens s)) c \<noteq> None) \<and> dr_Key dr \<noteq> None
     \<and> dr_SessID dr \<notin> rs_id ` set (refresh_sessions d)
     \<and> (\<exists>b. dr_Token dr = Some b
          \<and> refreshTokenHash (RawURLEncoding_EncodeToString b) \<notin> rs_refresh_token_hash ` set (refresh_sessions d))"

lemma issueForDevice_total:
  assumes "w_faults w = []" and "issuable s dr (w_db w) u" and "active_device (w_db w) i"
  obtains pair w' where "issueTokenPairForDevice s dr u i [] w = (Inr pair, w')"
proof -
  obtain b k where b: "dr_Token dr = Some b" "dr_Key dr = Some k"
    "refreshTokenHash (RawURLEncoding_EncodeToString b) \<notin> rs_refresh_token_hash ` set (refresh_sessions (w_db w))"
    using assms(2) by (auto simp: issuable_def)
  obtain acc ex where ia: "IssueAccess (as_Jwt s) (as_Codec s) (as_Tokens s) u i (w_now w) = Inr (acc, ex)"
  proof -
    let ?c = "\<lparr>ac_Subject = cd_String (as_Codec s) u, ac_IssuedAt = jl_NumericDate (as_Jwt s) (w_now w),
          ac_ExpiresAt = jl_NumericDate (as_Jwt s) (w_now w + js_accessTTL (as_Tokens s)),
          ac_SessionID = cd_String (as_Codec s) i\<rparr>"
    have "u \<noteq> uuid_Nil" and "jl_Sign (as_Jwt s) (js_secret (as_Tokens s)) ?c \<noteq> None"
      using assms(2) unfolding issuable_def by blast+
    then obtain raw where "jl_Sign (as_Jwt s) (js_secret (as_Tokens s)) ?c = Some raw" by blast
    with \<open>u \<noteq> uuid_Nil\<close> show ?thesis by (intro that) (simp add: IssueAccess_def)
  qed
  have dev: "i \<in> ds_ID ` set (device_sessions (w_db w))" using assms(3) by (auto simp: active_device_def)
  have "\<exists>d. insert_refresh_session (refresh_row_of (w_now w) \<lparr>rf_SessionID = dr_SessID dr, rf_UserID = u,
      rf_DeviceSessionID = i, rf_TokenHash = refreshTokenHash (RawURLEncoding_EncodeToString b), rf_ClientKey = k,
      rf_ExpiresAt = w_now w + as_RefreshTTL s\<rparr>) (w_db w) = Inr ((), d)"
  proof -
    have "\<not> (\<exists>q' \<in> set (refresh_sessions (w_db w)). rs_refresh_token_hash q' = refreshTokenHash (RawURLEncoding_EncodeToString b)
        \<and> rs_revoked_at q' = None)"
      using b(3) by (metis imageI)
    then show ?thesis
      using assms(2) dev unfolding issuable_def by (simp add: insert_refresh_session_def refresh_row_of_def)
  qed
  then obtain d where "db_do (CreateRefreshSession_pg \<lparr>rf_SessionID = dr_SessID dr, rf_UserID = u,
      rf_DeviceSessionID = i, rf_TokenHash = refreshTokenHash (RawURLEncoding_EncodeToString b), rf_ClientKey = k,
      rf_ExpiresAt = w_now w + as_RefreshTTL s\<rparr>) w = (Inr (), w\<lparr>w_db := d\<rparr>)"
    unfolding CreateRefreshSession_pg_def
    using db_do_nil [OF assms(1), of "\<lambda>now. insert_refresh_session (refresh_row_of now _)"] by blast
  then show thesis
    by (intro that) (simp add: issueTokenPairForDevice_def ia b newRefreshToken_def Let_def bindE_def ret_def
        flip: refreshTokenHash_def)
qed

text \<open>Tokens for a user and device: they are issued, and the refresh token is usable.\<close>

lemma issueTokenPair_total:
  assumes f: "w_faults w = []" and ok: "auth_ok (w_db w)" and iss: "issuable s dr (w_db w) u"
    and new: "i \<notin> ds_ID ` set (device_sessions (w_db w))" and ttl: "0 < as_RefreshTTL s"
  obtains pair w' where "issueTokenPair s i dr u v w = (Inr pair, w')"
    and "refresh_view (w_now w) (w_db w') (refreshTokenHash (tp_RefreshToken pair)) =
      Some \<lparr>cs_SessionID = dr_SessID dr, cs_UserID = u, cs_DeviceSessionID = tp_DeviceSessionID pair,
            cs_ClientKey = tp_ClientKey pair\<rparr>"
proof -
  have u: "user_exists u (w_db w)" using iss by (simp add: issuable_def)
  obtain j d' where c: "CreateDeviceSession_stmt i u v (w_now w) (w_db w) = Inr (j, d')"
    and act: "active_device d' j" and us: "users d' = users (w_db w)"
    and ids: "rs_id ` set (refresh_sessions d') = rs_id ` set (refresh_sessions (w_db w))"
    and hs: "rs_refresh_token_hash ` set (refresh_sessions d') = rs_refresh_token_hash ` set (refresh_sessions (w_db w))"
    using u new by (rule CreateDeviceSession_total)
  have o: "auth_ok d'" "owned u j d'" using CreateDeviceSession_owned [OF c ok] by blast+
  define w1 where "w1 = w\<lparr>w_db := d'\<rparr>"
  have cd: "db_do (CreateDeviceSession_pg i u v) w = (Inr j, w1)"
    unfolding CreateDeviceSession_pg_def w1_def using f c by (rule db_do_nil)
  have "issuable s dr (w_db w1) u"
    using iss ids hs us by (simp add: issuable_def user_exists_def w1_def)
  then obtain pair w' where p: "issueTokenPairForDevice s dr u j [] w1 = (Inr pair, w')"
    using issueForDevice_total [of w1 s dr u j] f act by (auto simp: w1_def)
  note post = issueTokenPairForDevice_Inr [OF p]
  have own: "on_db (owned_from d' u j) w1" using o by (simp add: on_db_def owned_from_def auth_from_def w1_def)
  have "auth_ok (w_db w')"
    using triple_Inr [OF triple_issueTokenPairForDevice own p] by (simp add: on_db_def auth_from_def)
  then have "refresh_view (w_now w) (w_db w') (refreshTokenHash (tp_RefreshToken pair))
      = Some (consumed_of (issued_row s dr u j pair (w_now w)))"
    using post(1) refresh_view_append [of d' "issued_row s dr u j pair (w_now w)" "w_now w"] o(1) act ttl
    by (simp add: w1_def refresh_usable_def issued_row_def)
  moreover have "issueTokenPair s i dr u v w = (Inr pair, w')"
    by (simp add: issueTokenPair_def bindE_def cd p)
  moreover have "tp_DeviceSessionID pair = j" by (rule post(3))
  ultimately show thesis
    by (intro that [of pair w']) (auto simp: consumed_of_def issued_row_def)
qed

text \<open>What is stored for a pending login.\<close>

lemma GetByEmail_nil:
  assumes "auth_ok (w_db w)" and "w_faults w = []" and "r \<in> set (users (w_db w))" and "us_email r = email"
  shows "db_do (GetByEmail_pg email) w = (Inr (Some (user_of_row r)), w)"
proof -
  have "find (\<lambda>r. us_email r = email) (users (w_db w)) = Some r"
    using assms by (intro find_key_unique [of us_email]) (auto simp: auth_ok_def users_ok_def)
  then show ?thesis by (simp add: GetByEmail_pg_def db_do_query_nil [OF assms(2)])
qed

text \<open>The first half of a login: the attempt is stored and can be read until it expires.\<close>

lemma LoginInit_stores:
  assumes "redis_contract view (as_Redis s)" and "w_faults w = []"
    and "auth_ok (w_db w)" and "r \<in> set (users (w_db w))" and "us_email r = normal_email s email"
    and "NewServerSession (Some rnd) (us_srp_verifier r) = Inr sess"
    and "e = login_entry (user_of_row r) (us_email r) aHex sess (w_now w)"
    and "json_safe (as_Codec s) (record_of_entry (as_Codec s) e)" and "w_now w \<le> t" and "t < w_now w + SRPSessionTTL"
  obtains rr data where
    "LoginInit s (Some rnd) sid email aHex w = (Inr \<lparr>li_SessionID = cd_String (as_Codec s) sid, li_SRPSalt = us_srp_salt r,
       li_BcryptSalt = us_bcrypt_salt r, li_B = PublicEphemeralHex sess, li_CryptoSalt = us_crypto_salt r\<rparr>, w\<lparr>w_redis := rr\<rparr>)"
    and "cd_Unmarshal (as_Codec s) data = Some (record_of_entry (as_Codec s) e)"
    and "view rr t (srpKeyPrefix @ cd_String (as_Codec s) sid) = Some data"
proof -
  have e: "en_ExpiresAt e - w_now w = SRPSessionTTL" by (simp add: assms(7) login_entry_def)
  have ttl: "1000000 \<le> en_ExpiresAt e - w_now w"
    "1000000 * ((en_ExpiresAt e - w_now w) div 1000000) = SRPSessionTTL"
    unfolding e by (simp_all add: SRPSessionTTL_def)
  obtain rr data where st: "Store_srp (as_Redis s) (as_Codec s) sid e w = (Inr True, w\<lparr>w_redis := rr\<rparr>)"
    and un: "cd_Unmarshal (as_Codec s) data = Some (record_of_entry (as_Codec s) e)"
    and vw: "view rr t (srpKeyPrefix @ cd_String (as_Codec s) sid) = Some data"
    using Store_srp_ok [OF assms(1,8,2) ttl(1), where i = sid] assms(9,10) unfolding ttl(2) by metis
  have "LoginInit s (Some rnd) sid email aHex w = (Inr \<lparr>li_SessionID = cd_String (as_Codec s) sid, li_SRPSalt = us_srp_salt r,
       li_BcryptSalt = us_bcrypt_salt r, li_B = PublicEphemeralHex sess, li_CryptoSalt = us_crypto_salt r\<rparr>, w\<lparr>w_redis := rr\<rparr>)"
    unfolding LoginInit_def Let_def bindE_def GetByEmail_nil [OF assms(3,2,4,5)]
    using st assms(6) by (simp add: assms(5,7) ret_def)
  then show thesis using un vw by (rule that)
qed

text \<open>The second half: with a proof that verifies, the attempt becomes a session with usable tokens.\<close>

lemma LoginFinalize_issues:
  assumes "uuid_text (as_Codec s)" and "w_faults w = []" and "auth_ok (w_db w)"
    and con: "Consume_srp (as_Redis s) (as_Codec s) sid w = (Inr (Some e), w\<lparr>w_redis := rr\<rparr>)"
    and ver: "VerifyClientProof (en_Session e) (en_AHex e) m1 (en_Email e) (en_SRPSaltHex e) = Inr m2"
    and "issuable s dr (w_db w) (en_UserID e)" and "i \<notin> ds_ID ` set (device_sessions (w_db w))"
    and "0 < as_RefreshTTL s"
  obtains res w' where
    "LoginFinalize s i dr \<lparr>lf_SessionID = cd_String (as_Codec s) sid, lf_M1 = m1, lf_Device = device\<rparr> w = (Inr res, w')"
    and "lr_M2 res = m2" and "lr_UserID res = en_UserID e"
    and "refresh_view (w_now w) (w_db w') (refreshTokenHash (tp_RefreshToken (lr_Pair res))) \<noteq> None"
proof -
  let ?u = "en_UserID e"
  define w3 where "w3 = snd (RevokeUserOrphanedSessions_pg ?u (w\<lparr>w_redis := rr\<rparr>))"
  have w3: "w3 = w\<lparr>w_redis := rr, w_db := revoke_devices (w_now w) (\<lambda>q. ds_UserID q = ?u \<and> revokeOrphanedCond (w_now w) (w_db w) q) (w_db w)\<rparr>"
    using assms(2) by (simp add: w3_def RevokeUserOrphanedSessions_pg_def db_call_nil)
  have ok3: "auth_ok (w_db w3)" using revoke_devices_keeps [OF assms(3)] by (simp add: w3)
  have f3: "w_faults w3 = []" and n3: "w_now w3 = w_now w" using assms(2) by (simp_all add: w3)
  have a: "issuable s dr (w_db w3) ?u" "i \<notin> ds_ID ` set (device_sessions (w_db w3))"
    using assms(6,7) by (auto simp: w3 issuable_def revoke_devices_def user_exists_def)
  obtain pair w4 where iss: "issueTokenPair s i dr ?u device w3 = (Inr pair, w4)"
    and use: "refresh_view (w_now w) (w_db w4) (refreshTokenHash (tp_RefreshToken pair)) \<noteq> None"
    by (rule issueTokenPair_total [OF f3 ok3 a assms(8), of device]) (rule that, assumption, simp add: n3)
  define w5 where "w5 = snd (notify (NewLoginMail (en_Email e) (di_DeviceName device) (di_IPAddress device)) w4)"
  have db5: "w_db w5 = w_db w4"
    unfolding w5_def using keeps_snd [OF keeps_notify [of "\<lambda>_ d. d = w_db w4"], of w4] by (simp add: on_db_def)
  define res where "res = \<lparr>lr_M2 = m2, lr_Pair = pair\<lparr>tp_CryptoSalt := en_CryptoSalt e,
     tp_KEKEncryptedMaster := en_KEKEncryptedMaster e, tp_EncryptedPrivateKey := en_EncryptedPrivateKey e\<rparr>, lr_UserID = ?u\<rparr>"
  have "cd_Parse (as_Codec s) (cd_String (as_Codec s) sid) = Some sid" using assms(1) by (simp add: uuid_text_def)
  then have "LoginFinalize s i dr \<lparr>lf_SessionID = cd_String (as_Codec s) sid, lf_M1 = m1, lf_Device = device\<rparr> w = (Inr res, w5)"
    using ver iss
    by (simp add: LoginFinalize_def bindE_def con ignore_cw w3_def [symmetric] w5_def [symmetric] res_def ret_def)
  then show thesis by (rule that) (use use in \<open>simp_all add: res_def db5\<close>)
qed

text \<open>
  C10. The login works end to end. A client that knows the password key \<open>x\<close> behind the stored verifier
  starts a login, computes its proof from the server's answer, and finishes within five minutes: when no
  call fails and the identifiers drawn are new, it gets
  the server's proof it expects, the identity of the account, and a refresh token that is usable.
\<close>

theorem login_completes:
  fixes a x :: nat and s :: "'r AuthService"
  assumes "redis_contract view (as_Redis s)" and "uuid_text (as_Codec s)" and "w_faults w = []"
    and "auth_ok (w_db w)" and "r \<in> set (users (w_db w))" and "us_email r = normal_email s email"
    and "us_srp_verifier r = hex_EncodeToString (Bytes (Exp bigG x bigN))"
    and "us_srp_salt r = hex_EncodeToString salt"
    and "\<forall>e. en_Email e = us_email r \<longrightarrow> en_BcryptSalt e = us_bcrypt_salt r \<longrightarrow>
           json_safe (as_Codec s) (record_of_entry (as_Codec s) e)"
    and "issuable s dr (w_db w) (us_id r)" and "i \<notin> ds_ID ` set (device_sessions (w_db w))"
    and "0 < as_RefreshTTL s" and "w_now w \<le> t" and "t < w_now w + SRPSessionTTL"
  shows "\<exists>li B w1 res w2.
    LoginInit s (Some rnd) sid email (hex_EncodeToString (pad (Exp bigG a bigN))) w = (Inr li, w1)
    \<and> hexToBigInt (li_B li) = Some B \<and> li_SRPSalt li = us_srp_salt r
    \<and> (let A = Exp bigG a bigN; K = clientSessionKey a A x B;
           M1 = srpComputeM1 A B K (us_email r) salt
       in LoginFinalize s i dr \<lparr>lf_SessionID = li_SessionID li, lf_M1 = hex_EncodeToString M1, lf_Device = device\<rparr>
            (w1\<lparr>w_now := t\<rparr>) = (Inr res, w2)
          \<and> lr_M2 res = hex_EncodeToString (srpComputeM2 A M1 K) \<and> lr_UserID res = us_id r
          \<and> refresh_view t (w_db w2) (refreshTokenHash (tp_RefreshToken (lr_Pair res))) \<noteq> None)"
proof -
  let ?aHex = "hex_EncodeToString (pad (Exp bigG a bigN))"
  obtain sess where sess: "NewServerSession (Some rnd) (us_srp_verifier r) = Inr sess"
    using verifier_session [of rnd x] assms(7) by auto
  define e where "e = login_entry (user_of_row r) (us_email r) ?aHex sess (w_now w)"
  have e: "en_ExpiresAt e - w_now w = SRPSessionTTL" "en_Email e = us_email r" "en_BcryptSalt e = us_bcrypt_salt r"
    "en_UserID e = us_id r" "en_SRPSaltHex e = hex_EncodeToString salt" "en_AHex e = ?aHex" "en_Session e = sess"
    using assms(8) by (simp_all add: e_def login_entry_def user_of_row_def)
  have js: "json_safe (as_Codec s) (record_of_entry (as_Codec s) e)" using assms(9) e(2,3) by blast
  define li where "li = \<lparr>li_SessionID = cd_String (as_Codec s) sid, li_SRPSalt = us_srp_salt r,
    li_BcryptSalt = us_bcrypt_salt r, li_B = PublicEphemeralHex sess, li_CryptoSalt = us_crypto_salt r\<rparr>"
  obtain rr data where init: "LoginInit s (Some rnd) sid email ?aHex w = (Inr li, w\<lparr>w_redis := rr\<rparr>)"
    and un: "cd_Unmarshal (as_Codec s) data = Some (record_of_entry (as_Codec s) e)"
    and vw: "view rr t (srpKeyPrefix @ cd_String (as_Codec s) sid) = Some data"
    unfolding li_def by (rule LoginInit_stores [OF assms(1,3,4,5,6) sess e_def js assms(13,14)])
  define wt where "wt = w\<lparr>w_redis := rr, w_now := t\<rparr>"
  have wt: "w_faults wt = []" "w_now wt = t" "w_redis wt = rr" "w_db wt = w_db w" using assms(3) by (simp_all add: wt_def)
  have "t \<le> en_ExpiresAt e" using assms(14) e(1) by simp
  then have "entry_of_record (as_Codec s) t (record_of_entry (as_Codec s) e) = Some (rounded e)"
    by (rule entry_of_record_of_entry [OF assms(2)])
  then obtain r2 where con: "Consume_srp (as_Redis s) (as_Codec s) sid wt = (Inr (Some (rounded e)), wt\<lparr>w_redis := r2\<rparr>)"
    using Consume_srp_ok [OF assms(1) wt(1), of "as_Codec s" sid] unfolding wt vw un option.case by metis
  define B where "B = ss_B sess"
  define M1 where "M1 = srpComputeM1 (Exp bigG a bigN) B (clientSessionKey a (Exp bigG a bigN) x B) (us_email r) salt"
  define m2 where "m2 = hex_EncodeToString (srpComputeM2 (Exp bigG a bigN) M1 (clientSessionKey a (Exp bigG a bigN) x B))"
  have ver: "VerifyClientProof (en_Session (rounded e)) (en_AHex (rounded e)) (hex_EncodeToString M1)
      (en_Email (rounded e)) (en_SRPSaltHex (rounded e)) = Inr m2"
    using handshake [of rnd x sess a "us_email r" salt] sess assms(7) by (simp add: M1_def m2_def B_def rounded_def e)
  obtain res w2 where "LoginFinalize s i dr \<lparr>lf_SessionID = cd_String (as_Codec s) sid, lf_M1 = hex_EncodeToString M1,
      lf_Device = device\<rparr> wt = (Inr res, w2)" and "lr_M2 res = m2" and "lr_UserID res = us_id r"
    and "refresh_view t (w_db w2) (refreshTokenHash (tp_RefreshToken (lr_Pair res))) \<noteq> None"
    by (rule LoginFinalize_issues [OF assms(2) wt(1) _ con ver, of dr i device])
      (use assms(4,10-12) wt e(4) that in \<open>simp_all add: rounded_def\<close>)
  moreover have "hexToBigInt (li_B li) = Some B" by (simp add: li_def PublicEphemeralHex_def hexToBigInt_def B_def)
  ultimately show ?thesis
    using init unfolding Let_def wt_def M1_def [symmetric]
    by (intro exI [of _ li] exI [of _ B] exI [of _ "w\<lparr>w_redis := rr\<rparr>"] exI [of _ res] exI [of _ w2])
      (simp add: M1_def [symmetric] m2_def li_def)
qed

end
