(* ===== verification/Http.thy ===== *)
theory Http
  imports Auth_Login
begin

text \<open>
  \<open>internal/controller/restapi\<close> and the helpers of its package \<open>v1\<close>: requests and responses, the
  authentication and rate limit middleware, cookies, the client address, and
  \<open>pkg/useragent/useragent.go\<close>. Decoding the JSON of a body and checking the \<open>validate\<close> tags are the
  work of libraries: a handler gets the decoded body (\<open>None\<close>: not decodable) and the verdict (\<open>None\<close>: valid).
\<close>

section \<open>useragent.go\<close>

definition has :: "string \<Rightarrow> string \<Rightarrow> bool" where
  "has s sub = Contains s sub"

definition parseOS :: "string \<Rightarrow> string" where
  "parseOS ua =
     (if has ua ''iPhone'' then ''iPhone''
      else if has ua ''iPad'' then ''iPad''
      else if has ua ''Android'' then ''Android''
      else if has ua ''Windows NT'' then ''Windows''
      else if has ua ''Macintosh'' \<or> has ua ''Mac OS X'' then ''macOS''
      else if has ua ''Linux'' then ''Linux''
      else [])"

definition parseBrowser :: "string \<Rightarrow> string" where
  "parseBrowser ua =
     (if has ua ''Edg/'' \<or> has ua ''Edge/'' then ''Edge''
      else if has ua ''OPR/'' \<or> has ua ''Opera/'' then ''Opera''
      else if has ua ''Chrome/'' \<and> \<not> has ua ''Chromium/'' then ''Chrome''
      else if has ua ''Chromium/'' then ''Chromium''
      else if has ua ''Firefox/'' then ''Firefox''
      else if has ua ''Safari/'' \<and> has ua ''Version/'' then ''Safari''
      else [])"

definition useragent_Parse :: "string \<Rightarrow> string" where
  "useragent_Parse ua =
     (if ua = [] then ''Unknown device''
      else (let os = parseOS ua; browser = parseBrowser ua in
        if browser \<noteq> [] \<and> os \<noteq> [] then browser @ '' on '' @ os
        else if browser \<noteq> [] then browser
        else if os \<noteq> [] then ''Browser on '' @ os
        else ''Unknown device''))"

text \<open>Every session has a label, whatever the header says, and a short one.\<close>

lemma useragent_Parse_label: "useragent_Parse ua \<noteq> [] \<and> length (useragent_Parse ua) \<le> 19"
proof -
  have "length (parseOS ua) \<le> 7" by (simp add: parseOS_def)
  moreover have "length (parseBrowser ua) \<le> 8" by (simp add: parseBrowser_def)
  ultimately show ?thesis by (simp add: useragent_Parse_def Let_def)
qed

section \<open>Requests and responses\<close>

text \<open>
  \<open>Header.Get\<close>, \<open>r.Cookie\<close>, \<open>chi.URLParam\<close>, \<open>URL.Query().Get\<close>, the bytes of the body, and the
  identities a middleware adds.
\<close>

record request =
  rq_Header :: "string \<Rightarrow> string"
  rq_Cookie :: "string \<Rightarrow> string option"
  rq_RemoteAddr :: string
  rq_Param :: "string \<Rightarrow> string"
  rq_Query :: "string \<Rightarrow> string"
  rq_Body :: string
  rq_ctxUserID :: "uuid option"
  rq_ctxSessionID :: "uuid option"

datatype SameSite = SameSiteDefault | SameSiteLax | SameSiteStrict | SameSiteNone

record Cookie =
  ck_Name :: string
  ck_Value :: string
  ck_Path :: string
  ck_Domain :: string
  ck_HttpOnly :: bool
  ck_Secure :: bool
  ck_SameSite :: SameSite
  ck_MaxAge :: int

text \<open>The body of an error has its message, the body of a validation error also the fields that failed.\<close>

record fieldError =
  fe_Field :: string
  fe_Tag :: string
  fe_Value :: string

datatype 'b body = NoBody | ErrorBody string | ValidationBody string "fieldError list" | Json 'b

record 'b response =
  rp_Status :: nat
  rp_Cookies :: "Cookie list"
  rp_Body :: "'b body"

type_synonym ('w, 'b) handler = "'w \<Rightarrow> 'b response \<times> 'w"

definition reply :: "nat \<Rightarrow> 'b body \<Rightarrow> ('w, 'b) handler" where
  "reply status b w = (\<lparr>rp_Status = status, rp_Cookies = [], rp_Body = b\<rparr>, w)"

text \<open>\<open>WriteError\<close> and \<open>WriteInternalError\<close>.\<close>

definition WriteError :: "nat \<Rightarrow> string \<Rightarrow> ('w, 'b) handler" where
  "WriteError status msg = reply status (ErrorBody msg)"

definition WriteInternalError :: "('w, 'b) handler" where
  "WriteInternalError = WriteError 500 ''internal error''"

text \<open>
  \<open>validate.go\<close>: the library returns the failed fields (names, tags and printed values), or another
  error.
\<close>

datatype validate_err = ValidationErrors "fieldError list" | OtherValidateErr

definition WriteValidationError :: "validate_err \<Rightarrow> ('w, 'b) handler" where
  "WriteValidationError e =
     (case e of ValidationErrors verrs \<Rightarrow> reply 400 (ValidationBody ''validation failed'' verrs)
      | OtherValidateErr \<Rightarrow> WriteError 400 ''bad request'')"

definition set_cookie :: "Cookie \<Rightarrow> ('w, 'b) handler \<Rightarrow> ('w, 'b) handler" where
  "set_cookie c h w = (case h w of (r, w') \<Rightarrow> (r\<lparr>rp_Cookies := c # rp_Cookies r\<rparr>, w'))"

text \<open>\<open>x, err := m()\<close>, with the error handled by \<open>e\<close>.\<close>

definition call :: "('w, 'e, 'a) eff \<Rightarrow> ('e \<Rightarrow> ('w, 'b) handler) \<Rightarrow> ('a \<Rightarrow> ('w, 'b) handler) \<Rightarrow> ('w, 'b) handler" where
  "call m e k w = (case m w of (Inl x, w') \<Rightarrow> e x w' | (Inr x, w') \<Rightarrow> k x w')"

text \<open>
  \<open>DecodeJSON\<close> reads at most 4 MiB of the body; decoding it is the library's. \<open>decoded\<close> is the start of
  a handler: \<open>DecodeJSON\<close>, then \<open>ValidateStruct\<close>.
\<close>

definition maxJSONBodyBytes :: nat where
  "maxJSONBodyBytes = 4194304"

definition DecodeJSON :: "(string \<Rightarrow> 'i option) \<Rightarrow> request \<Rightarrow> 'i option" where
  "DecodeJSON decode rq = decode (take maxJSONBodyBytes (rq_Body rq))"

definition decoded ::
  "'i option \<Rightarrow> ('i \<Rightarrow> validate_err option) \<Rightarrow> ('i \<Rightarrow> ('w, 'b) handler) \<Rightarrow> ('w, 'b) handler" where
  "decoded body validate k = (case body of None \<Rightarrow> WriteError 400 ''bad request''
     | Some input \<Rightarrow> (case validate input of Some e \<Rightarrow> WriteValidationError e | None \<Rightarrow> k input))"

definition mustDecodeB64 :: "string \<Rightarrow> string \<Rightarrow> nat \<Rightarrow> nat \<Rightarrow> (bytes \<Rightarrow> ('w, 'b) handler) \<Rightarrow> ('w, 'b) handler" where
  "mustDecodeB64 b64 field minLen maxLen k = (case StdEncoding_DecodeString b64 of (raw, ok) \<Rightarrow>
     if \<not> ok \<or> minLen > 0 \<and> length raw < minLen \<or> maxLen > 0 \<and> length raw > maxLen
     then WriteError 400 (''invalid '' @ field) else k raw)"

section \<open>middleware.go\<close>

definition MustUserID :: "request \<Rightarrow> (uuid \<Rightarrow> ('w, 'b) handler) \<Rightarrow> ('w, 'b) handler" where
  "MustUserID rq k = (case rq_ctxUserID rq of None \<Rightarrow> WriteError 401 ''unauthorized''
     | Some i \<Rightarrow> if i = uuid_Nil then WriteError 401 ''unauthorized'' else k i)"

definition SessionIDFromContext :: "request \<Rightarrow> uuid" where
  "SessionIDFromContext rq = (case rq_ctxSessionID rq of None \<Rightarrow> uuid_Nil | Some i \<Rightarrow> i)"

definition RateLimitMiddleware ::
  "'r redis \<Rightarrow> RateLimiter \<Rightarrow> (request \<Rightarrow> string) \<Rightarrow> (request \<Rightarrow> (('r, 'x) cworld_scheme, 'b) handler)
   \<Rightarrow> request \<Rightarrow> (('r, 'x) cworld_scheme, 'b) handler" where
  "RateLimitMiddleware rd l keyFn nxt rq =
     call (Allow rd l (keyFn rq)) (\<lambda>_. WriteError 503 ''service unavailable'')
       (\<lambda>allowed. if \<not> allowed then WriteError 429 ''rate limit exceeded'' else nxt rq)"

text \<open>\<open>strings.Cut(s, " ")\<close>: what is before and after the first blank, if there is one.\<close>

definition Cut_blank :: "string \<Rightarrow> string \<times> string \<times> bool" where
  "Cut_blank s = (let a = takeWhile (\<lambda>c. c \<noteq> CHR '' '') s in
     if a = s then (s, [], False) else (a, drop (Suc (length a)) s, True))"

text \<open>
  \<open>strings.EqualFold(scheme, "Bearer")\<close>: none of its letters has a case variant outside ASCII.
\<close>

definition is_bearer :: "string \<Rightarrow> bool" where
  "is_bearer scheme = (map lower_ascii scheme = ''bearer'')"

definition bearer_token :: "request \<Rightarrow> string option" where
  "bearer_token rq =
     (case Cut_blank (TrimSpace (rq_Header rq ''Authorization'')) of (scheme, rest, ok) \<Rightarrow>
        (let token = TrimSpace rest in
         if \<not> ok \<or> \<not> is_bearer scheme \<or> token = [] then None else Some token))"

definition AuthMiddleware ::
  "jwt_lib \<Rightarrow> codec \<Rightarrow> jwt_Service \<Rightarrow> 'r redis \<Rightarrow> (request \<Rightarrow> (('r, 'x) cworld_scheme, 'b) handler)
   \<Rightarrow> request \<Rightarrow> (('r, 'x) cworld_scheme, 'b) handler" where
  "AuthMiddleware jl cd js rd nxt rq =
     (case bearer_token rq of
        None \<Rightarrow> WriteError 401 ''unauthorized''
      | Some token \<Rightarrow> (\<lambda>w. (case ParseAccessToken jl cd js (w_now w) token of
            Inl _ \<Rightarrow> WriteError 401 ''unauthorized''
          | Inr (userID, sessionID) \<Rightarrow>
              (let pass = nxt (rq\<lparr>rq_ctxUserID := Some userID, rq_ctxSessionID := Some sessionID\<rparr>) in
               if sessionID \<noteq> uuid_Nil
               then call (IsBlocked rd (cd_String cd) sessionID)
                 (\<lambda>_. WriteError 503 ''service unavailable'')
                 (\<lambda>blocked. if blocked then WriteError 401 ''unauthorized'' else pass)
               else pass)) w))"

section \<open>cookie.go, device.go and the address of router.go\<close>

record RefreshCookieConfig =
  rc_Name :: string
  rc_Path :: string
  rc_Domain :: string
  rc_Secure :: bool
  rc_SameSite :: SameSite

definition deviceCookieName :: "RefreshCookieConfig \<Rightarrow> string" where
  "deviceCookieName cfg = (if prefix ''__Host-'' (rc_Name cfg) then ''__Host-device_id'' else ''device_id'')"

definition cookie_value :: "request \<Rightarrow> string \<Rightarrow> string" where
  "cookie_value rq name = (case rq_Cookie rq name of None \<Rightarrow> [] | Some v \<Rightarrow> v)"

definition readDeviceCookie :: "request \<Rightarrow> RefreshCookieConfig \<Rightarrow> string" where
  "readDeviceCookie rq cfg = cookie_value rq (deviceCookieName cfg)"

definition deviceCookieMaxAge :: int where
  "deviceCookieMaxAge = 90 * 24 * 60 * 60"

definition setDeviceCookie :: "RefreshCookieConfig \<Rightarrow> string \<Rightarrow> ('w, 'b) handler \<Rightarrow> ('w, 'b) handler" where
  "setDeviceCookie cfg deviceID = set_cookie
     \<lparr>ck_Name = deviceCookieName cfg, ck_Value = deviceID, ck_Path = rc_Path cfg, ck_Domain = rc_Domain cfg,
      ck_HttpOnly = True, ck_Secure = rc_Secure cfg, ck_SameSite = rc_SameSite cfg, ck_MaxAge = deviceCookieMaxAge\<rparr>"

definition readRefreshToken :: "request \<Rightarrow> string \<Rightarrow> string" where
  "readRefreshToken rq name = cookie_value rq name"

definition baseRefreshCookie :: "RefreshCookieConfig \<Rightarrow> Cookie" where
  "baseRefreshCookie cfg =
     \<lparr>ck_Name = rc_Name cfg, ck_Value = [], ck_Path = rc_Path cfg, ck_Domain = rc_Domain cfg,
      ck_HttpOnly = True, ck_Secure = rc_Secure cfg, ck_SameSite = rc_SameSite cfg, ck_MaxAge = 0\<rparr>"

definition setRefreshTokenCookie :: "RefreshCookieConfig \<Rightarrow> string \<Rightarrow> int \<Rightarrow> ('w, 'b) handler \<Rightarrow> ('w, 'b) handler" where
  "setRefreshTokenCookie cfg token maxAgeSec =
     set_cookie ((baseRefreshCookie cfg)\<lparr>ck_Value := token, ck_MaxAge := maxAgeSec\<rparr>)"

definition clearRefreshTokenCookie :: "RefreshCookieConfig \<Rightarrow> ('w, 'b) handler \<Rightarrow> ('w, 'b) handler" where
  "clearRefreshTokenCookie cfg = set_cookie ((baseRefreshCookie cfg)\<lparr>ck_Value := [], ck_MaxAge := -1\<rparr>)"

text \<open>\<open>net.SplitHostPort\<close>, the host only; \<open>None\<close> is an error.\<close>

definition colon :: char where
  "colon = CHR 0x3A"

definition last_colon :: "string \<Rightarrow> nat option" where
  "last_colon s = (if colon \<in> set s then Some (length s - Suc (length (takeWhile (\<lambda>c. c \<noteq> colon) (rev s)))) else None)"

definition SplitHostPort :: "string \<Rightarrow> string option" where
  "SplitHostPort s = (case last_colon s of None \<Rightarrow> None
     | Some i \<Rightarrow>
         if take 1 s = ''[''
         then (let upto = length (takeWhile (\<lambda>c. c \<noteq> CHR '']'') s) in
           if CHR '']'' \<notin> set s \<or> Suc upto \<noteq> i then None
           else if CHR ''['' \<in> set (drop 1 s) \<or> CHR '']'' \<in> set (drop (Suc upto) s) then None
           else Some (take (upto - 1) (drop 1 s)))
         else if colon \<in> set (take i s) \<or> CHR ''['' \<in> set s \<or> CHR '']'' \<in> set s then None
         else Some (take i s))"

definition realIP :: "request \<Rightarrow> string" where
  "realIP rq = (let ip = rq_Header rq ''X-Real-IP'' in
     if ip \<noteq> [] then ip
     else (let addr = takeWhile (\<lambda>c. c \<noteq> CHR ''/'') (rq_RemoteAddr rq) in
       (case SplitHostPort addr of None \<Rightarrow> addr | Some host \<Rightarrow> host)))"

definition userIDKey :: "(uuid \<Rightarrow> string) \<Rightarrow> request \<Rightarrow> string" where
  "userIDKey uuid_String rq = uuid_String (case rq_ctxUserID rq of None \<Rightarrow> uuid_Nil | Some i \<Rightarrow> i)"

definition ensureDeviceID :: "codec \<Rightarrow> uuid \<Rightarrow> request \<Rightarrow> RefreshCookieConfig \<Rightarrow> string" where
  "ensureDeviceID cd newID rq cfg =
     (let i = readDeviceCookie rq cfg in if i \<noteq> [] then i else cd_String cd newID)"

definition maxUserAgentLen :: nat where
  "maxUserAgentLen = 512"

definition parseDeviceInfo :: "request \<Rightarrow> string \<Rightarrow> DeviceInfo" where
  "parseDeviceInfo rq deviceID =
     (let ua = take maxUserAgentLen (rq_Header rq ''User-Agent'') in
      \<lparr>di_UserAgent = ua, di_IPAddress = realIP rq, di_DeviceName = useragent_Parse ua, di_DeviceID = deviceID\<rparr>)"

section \<open>What the middleware lets through\<close>

lemma reply_simps [simp]: "WriteError st msg w = (\<lparr>rp_Status = st, rp_Cookies = [], rp_Body = ErrorBody msg\<rparr>, w)"
  by (simp add: WriteError_def reply_def)

text \<open>
  The branches of the authentication middleware: no usable header or an invalid token is 401, a
  blocklist that cannot be asked is 503, a blocked session is 401, and everything else is passed on
  with the identities of the token.
\<close>

lemma AuthMiddleware_cases:
  fixes w :: "('r, 'x) cworld_scheme"
  obtains (refused) w' st msg where "AuthMiddleware jl cd js rd nxt rq w = WriteError st msg w'" "st = 401 \<or> st = 503"
      "w_db w' = w_db w" "w_redis w' = w_redis w"
  | (passed) token uid sid w' where "bearer_token rq = Some token" "ParseAccessToken jl cd js (w_now w) token = Inr (uid, sid)"
      "sid \<noteq> uuid_Nil \<Longrightarrow> IsBlocked rd (cd_String cd) sid w = (Inr False, w')" "sid = uuid_Nil \<Longrightarrow> w' = w"
      "AuthMiddleware jl cd js rd nxt rq w = nxt (rq\<lparr>rq_ctxUserID := Some uid, rq_ctxSessionID := Some sid\<rparr>) w'"
proof (cases "bearer_token rq")
  case None
  then show thesis by (intro refused [of 401 "''unauthorized''" w]) (simp_all add: AuthMiddleware_def)
next
  case (Some token)
  show thesis
  proof (cases "ParseAccessToken jl cd js (w_now w) token")
    case (Inl e)
    then show thesis by (intro refused [of 401 "''unauthorized''" w]) (simp_all add: AuthMiddleware_def Some)
  next
    case (Inr p)
    obtain uid sid where p: "p = (uid, sid)" by (cases p)
    obtain r w' where b: "IsBlocked rd (cd_String cd) sid w = (r, w')" by (cases "IsBlocked rd (cd_String cd) sid w")
    have fr: "w_db w' = w_db w" "w_redis w' = w_redis w"
    proof -
      have "w_db (snd (IsBlocked rd (cd_String cd) sid w)) = w_db w \<and> w_redis (snd (IsBlocked rd (cd_String cd) sid w)) = w_redis w"
        by (simp add: IsBlocked_def bindE_def redis_call_def pop_fault_def ret_def split: list.split)
      then show "w_db w' = w_db w" "w_redis w' = w_redis w" by (simp_all add: b)
    qed
    show thesis
    proof (cases "sid = uuid_Nil")
      case True
      then show thesis using Inr Some by (intro passed [of token uid sid w]) (simp_all add: AuthMiddleware_def p Let_def)
    next
      case False
      show thesis
      proof (cases r)
        case (Inl e)
        with False Inr Some b fr show thesis
          by (intro refused [of 503 "''service unavailable''" w']) (simp_all add: AuthMiddleware_def p Let_def call_def)
      next
        case (Inr blocked)
        show thesis
        proof (cases blocked)
          case True
          with False Inr Some b fr \<open>ParseAccessToken jl cd js (w_now w) token = Inr p\<close> show thesis
            by (intro refused [of 401 "''unauthorized''" w']) (simp_all add: AuthMiddleware_def p Let_def call_def)
        next
          case nb: False
          with False Inr Some b \<open>ParseAccessToken jl cd js (w_now w) token = Inr p\<close> show thesis
            by (intro passed [of token uid sid w']) (simp_all add: AuthMiddleware_def p Let_def call_def)
        qed
      qed
    qed
  qed
qed

end
