(* ===== verification/Auth_Handlers.thy ===== *)
theory Auth_Handlers
  imports Http
begin

text \<open>
  The handlers of \<open>internal/controller/restapi/v1\<close> for authentication, device sessions and the audit
  log, with the requests and responses of \<open>dto\<close>. The identifiers and random bytes that a handler's
  service call draws are arguments, as in the service.
\<close>

section \<open>Requests and responses\<close>

record RegisterRequest =
  qr_Email :: string
  qr_SRPSalt :: string
  qr_SRPVerifier :: string
  qr_BcryptSalt :: string
  qr_CryptoSalt :: string
  qr_PublicKey :: string
  qr_EncryptedPrivateKey :: string
  qr_KEKEncryptedMaster :: string
  qr_KEKEncryptedRecovery :: string
  qr_RecoverySalt :: string

record LoginInitRequest =
  qi_Email :: string
  qi_A :: string

record LoginInitResponse =
  ri_SessionID :: string
  ri_SRPSalt :: string
  ri_BcryptSalt :: string
  ri_B :: string
  ri_CryptoSalt :: string

record LoginFinalizeRequest =
  qf_SessionID :: string
  qf_M1 :: string

record BaseTokenResponse =
  bt_AccessToken :: string
  bt_ExpiresIn :: int
  bt_RefreshExpiresIn :: int
  bt_TokenType :: string
  bt_ClientKey :: string

record RefreshResponse = BaseTokenResponse +
  rr_CryptoSalt :: string
  rr_KEKEncryptedMaster :: string
  rr_EncryptedPrivateKey :: string

record LoginFinalizeResponse = BaseTokenResponse +
  rf_M2 :: string
  rf_CryptoSalt :: string
  rf_KEKEncryptedMaster :: string
  rf_EncryptedPrivateKey :: string

record RecoveryDataResponse =
  rv_KEKEncryptedRecovery :: string
  rv_RecoverySalt :: string

record ResetPasswordConfirmRequest =
  qc_Token :: string
  qc_SRPSalt :: string
  qc_SRPVerifier :: string
  qc_BcryptSalt :: string
  qc_CryptoSalt :: string
  qc_KEKEncryptedMaster :: string
  qc_KEKEncryptedRecovery :: string
  qc_RecoverySalt :: string

text \<open>\<open>dto.DeviceSession\<close> and \<open>dto.AuditEventItem\<close>.\<close>

record SessionItem =
  sn_ID :: uuid
  sn_DeviceName :: string
  sn_IPAddress :: string
  sn_UserAgent :: string
  sn_CreatedAt :: time
  sn_LastActiveAt :: time
  sn_IsCurrent :: bool

record AuditEventItem =
  ae_ID :: uuid
  ae_EventType :: string
  ae_IPAddress :: string
  ae_DeviceName :: string
  ae_ResourceID :: "uuid option"
  ae_ResourceName :: string
  ae_CreatedAt :: time

text \<open>The dependencies that concern authentication; the router extends them.\<close>

record 'r AuthDeps =
  dp_Auth :: "'r AuthService"
  dp_LoginRateLimiter :: RateLimiter
  dp_PublicKeyRateLimiter :: RateLimiter
  dp_RefreshCookie :: RefreshCookieConfig

text \<open>\<open>d.Audit.LogAsync(..)\<close> with \<open>auditEvent\<close> of \<open>helpers.go\<close>.\<close>

definition auditEvent :: "uuid \<Rightarrow> string \<Rightarrow> string \<Rightarrow> string \<Rightarrow> uuid option \<Rightarrow> string \<Rightarrow> AuditEvent" where
  "auditEvent userID eventType ip ua resourceID resourceName =
     \<lparr>au_ID = uuid_Nil, au_UserID = userID, au_EventType = eventType, au_IPAddress = ip, au_UserAgent = ua,
      au_ResourceID = resourceID, au_ResourceName = resourceName, au_CreatedAt = 0\<rparr>"

definition logged_async :: "AuditEvent \<Rightarrow> (('r, 'x) aworld_scheme, 'b) handler \<Rightarrow> (('r, 'x) aworld_scheme, 'b) handler" where
  "logged_async e h w = h (w\<lparr>w_queue := LogAsync e (w_queue w)\<rparr>)"

section \<open>auth.go\<close>

text \<open>The length of a P-256 public key in SPKI form.\<close>

definition ecSpkiLen :: nat where
  "ecSpkiLen = 91"

definition writeAuthErr :: "auth_err \<Rightarrow> ('w, 'b) handler" where
  "writeAuthErr e =
     (case e of
        ErrInvalidInput \<Rightarrow> WriteError 400 ''bad request''
      | ErrUserExists \<Rightarrow> WriteError 409 ''user already exists''
      | ErrInvalidCredentials \<Rightarrow> WriteError 401 ''invalid credentials''
      | ErrInvalidRefresh \<Rightarrow> WriteError 401 ''invalid refresh token''
      | _ \<Rightarrow> WriteError 500 ''internal error'')"

definition baseTokenResponse :: "TokenPair \<Rightarrow> BaseTokenResponse" where
  "baseTokenResponse pair =
     \<lparr>bt_AccessToken = tp_AccessToken pair, bt_ExpiresIn = tp_AccessExpiresIn pair,
      bt_RefreshExpiresIn = tp_RefreshExpiresIn pair, bt_TokenType = ''Bearer'',
      bt_ClientKey = StdEncoding_EncodeToString (tp_ClientKey pair)\<rparr>"

definition setAuthCookie :: "RefreshCookieConfig \<Rightarrow> TokenPair \<Rightarrow> ('w, 'b) handler \<Rightarrow> ('w, 'b) handler" where
  "setAuthCookie cfg pair =
     (let maxAge = tp_RefreshExpiresIn pair in
      setRefreshTokenCookie cfg (tp_RefreshToken pair) (if maxAge < 0 then 0 else maxAge))"

definition writeRegisterResponse :: "RefreshCookieConfig \<Rightarrow> TokenPair \<Rightarrow> ('w, BaseTokenResponse) handler" where
  "writeRegisterResponse cfg pair = setAuthCookie cfg pair (reply 201 (Json (baseTokenResponse pair)))"

definition writeLoginFinalizeResponse ::
  "RefreshCookieConfig \<Rightarrow> LoginFinalizeResult \<Rightarrow> ('w, LoginFinalizeResponse) handler" where
  "writeLoginFinalizeResponse cfg result =
     (let pair = lr_Pair result; b = baseTokenResponse pair in
      setAuthCookie cfg pair (reply 200 (Json
        \<lparr>bt_AccessToken = bt_AccessToken b, bt_ExpiresIn = bt_ExpiresIn b, bt_RefreshExpiresIn = bt_RefreshExpiresIn b,
         bt_TokenType = bt_TokenType b, bt_ClientKey = bt_ClientKey b,
         rf_M2 = lr_M2 result, rf_CryptoSalt = StdEncoding_EncodeToString (tp_CryptoSalt pair),
         rf_KEKEncryptedMaster = StdEncoding_EncodeToString (tp_KEKEncryptedMaster pair),
         rf_EncryptedPrivateKey = StdEncoding_EncodeToString (tp_EncryptedPrivateKey pair)\<rparr>)))"

definition writeRefreshResponse :: "RefreshCookieConfig \<Rightarrow> TokenPair \<Rightarrow> ('w, RefreshResponse) handler" where
  "writeRefreshResponse cfg pair =
     (let b = baseTokenResponse pair in
      setAuthCookie cfg pair (reply 200 (Json
        \<lparr>bt_AccessToken = bt_AccessToken b, bt_ExpiresIn = bt_ExpiresIn b, bt_RefreshExpiresIn = bt_RefreshExpiresIn b,
         bt_TokenType = bt_TokenType b, bt_ClientKey = bt_ClientKey b,
         rr_CryptoSalt = StdEncoding_EncodeToString (tp_CryptoSalt pair),
         rr_KEKEncryptedMaster = StdEncoding_EncodeToString (tp_KEKEncryptedMaster pair),
         rr_EncryptedPrivateKey = StdEncoding_EncodeToString (tp_EncryptedPrivateKey pair)\<rparr>)))"

definition register ::
  "('r, 'x) AuthDeps_scheme \<Rightarrow> (RegisterRequest \<Rightarrow> validate_err option) \<Rightarrow> uuid \<Rightarrow> uuid \<Rightarrow> uuid \<Rightarrow> draws \<Rightarrow> request \<Rightarrow> RegisterRequest option
   \<Rightarrow> ('r aworld, BaseTokenResponse) handler" where
  "register d validate newDevice i proposedID dr rq body =
     decoded body validate (\<lambda>q.
       mustDecodeB64 (qr_CryptoSalt q) ''crypto_salt'' 1 0 (\<lambda>cryptoSalt.
       mustDecodeB64 (qr_PublicKey q) ''public_key'' ecSpkiLen ecSpkiLen (\<lambda>publicKey.
       mustDecodeB64 (qr_EncryptedPrivateKey q) ''encrypted_private_key'' 69 0 (\<lambda>encPrivKey.
       mustDecodeB64 (qr_KEKEncryptedMaster q) ''kek_encrypted_master'' 40 40 (\<lambda>kekMaster.
       mustDecodeB64 (qr_KEKEncryptedRecovery q) ''kek_encrypted_recovery'' 40 40 (\<lambda>kekRecovery.
       mustDecodeB64 (qr_RecoverySalt q) ''recovery_salt'' 1 0 (\<lambda>recSalt.
         let deviceID = ensureDeviceID (as_Codec (dp_Auth d)) newDevice rq (dp_RefreshCookie d) in
         call (Register (dp_Auth d) i proposedID dr
             \<lparr>rg_Email = qr_Email q, rg_SRPSalt = qr_SRPSalt q, rg_SRPVerifier = qr_SRPVerifier q,
              rg_BcryptSalt = qr_BcryptSalt q, rg_CryptoSalt = cryptoSalt, rg_PublicKey = publicKey,
              rg_EncryptedPrivateKey = encPrivKey, rg_KEKEncryptedMaster = kekMaster,
              rg_KEKEncryptedRecovery = kekRecovery, rg_RecoverySalt = recSalt,
              rg_Device = parseDeviceInfo rq deviceID\<rparr>)
           writeAuthErr
           (\<lambda>pair. setDeviceCookie (dp_RefreshCookie d) deviceID
                     (writeRegisterResponse (dp_RefreshCookie d) pair)))))))))"

definition loginInit ::
  "('r, 'x) AuthDeps_scheme \<Rightarrow> (LoginInitRequest \<Rightarrow> validate_err option) \<Rightarrow> bytes option \<Rightarrow> uuid \<Rightarrow> LoginInitRequest option
   \<Rightarrow> ('r aworld, LoginInitResponse) handler" where
  "loginInit d validate rnd sessionID body =
     decoded body validate (\<lambda>q.
       call (LoginInit (dp_Auth d) rnd sessionID (qi_Email q) (qi_A q)) writeAuthErr
         (\<lambda>result. reply 200 (Json \<lparr>ri_SessionID = li_SessionID result, ri_SRPSalt = li_SRPSalt result,
            ri_BcryptSalt = li_BcryptSalt result, ri_B = li_B result,
            ri_CryptoSalt = StdEncoding_EncodeToString (li_CryptoSalt result)\<rparr>)))"

definition loginFinalize ::
  "('r, 'x) AuthDeps_scheme \<Rightarrow> (LoginFinalizeRequest \<Rightarrow> validate_err option) \<Rightarrow> uuid \<Rightarrow> uuid \<Rightarrow> draws \<Rightarrow> request \<Rightarrow> LoginFinalizeRequest option
   \<Rightarrow> ('r aworld, LoginFinalizeResponse) handler" where
  "loginFinalize d validate newDevice proposedID dr rq body =
     decoded body validate (\<lambda>q.
       let deviceID = ensureDeviceID (as_Codec (dp_Auth d)) newDevice rq (dp_RefreshCookie d);
           device = parseDeviceInfo rq deviceID in
       call (LoginFinalize (dp_Auth d) proposedID dr
               \<lparr>lf_SessionID = qf_SessionID q, lf_M1 = qf_M1 q, lf_Device = device\<rparr>) writeAuthErr
         (\<lambda>result. logged_async (auditEvent (lr_UserID result) ''login_success'' (di_IPAddress device)
                                   (di_UserAgent device) None [])
            (setDeviceCookie (dp_RefreshCookie d) deviceID
               (writeLoginFinalizeResponse (dp_RefreshCookie d) result))))"

definition refresh :: "('r, 'x) AuthDeps_scheme \<Rightarrow> draws \<Rightarrow> request \<Rightarrow> ('r aworld, RefreshResponse) handler" where
  "refresh d dr rq =
     (let rt = readRefreshToken rq (rc_Name (dp_RefreshCookie d)) in
      if rt = [] then WriteError 401 ''invalid refresh token''
      else call (Refresh (dp_Auth d) dr rt)
        (\<lambda>e. (if e = ErrInvalidRefresh then clearRefreshTokenCookie (dp_RefreshCookie d) else id) (writeAuthErr e))
        (\<lambda>pair. let i = readDeviceCookie rq (dp_RefreshCookie d) in
           (if i \<noteq> [] then setDeviceCookie (dp_RefreshCookie d) i else id)
             (writeRefreshResponse (dp_RefreshCookie d) pair)))"

definition logout :: "('r, 'x) AuthDeps_scheme \<Rightarrow> request \<Rightarrow> ('r aworld, unit) handler" where
  "logout d rq =
     (let rt = readRefreshToken rq (rc_Name (dp_RefreshCookie d)) in
      call (Logout (dp_Auth d) rt (parseDeviceInfo rq []))
        (\<lambda>_. clearRefreshTokenCookie (dp_RefreshCookie d) (reply 204 NoBody))
        (\<lambda>_. clearRefreshTokenCookie (dp_RefreshCookie d) (reply 204 NoBody)))"

text \<open>\<open>dto.ResetPasswordRequestRequest\<close> and \<open>dto.RecoveryDataRequest\<close> have one field each.\<close>

definition requestPasswordReset ::
  "('r, 'x) AuthDeps_scheme \<Rightarrow> (string \<Rightarrow> validate_err option) \<Rightarrow> uuid \<Rightarrow> bytes option \<Rightarrow> string option \<Rightarrow> ('r aworld, unit) handler" where
  "requestPasswordReset d validate tokenID rnd body =
     decoded body validate (\<lambda>email.
       call (RequestPasswordReset (dp_Auth d) tokenID rnd email)
         (\<lambda>_. WriteError 500 ''internal error'') (\<lambda>_. reply 204 NoBody))"

definition getRecoveryData ::
  "(string \<Rightarrow> validate_err option) \<Rightarrow> string option \<Rightarrow> ('r aworld, RecoveryDataResponse) handler" where
  "getRecoveryData validate body =
     decoded body validate (\<lambda>token.
       call (GetRecoveryData token) (\<lambda>_. WriteError 500 ''internal error'')
         (\<lambda>r. case r of None \<Rightarrow> WriteError 404 ''not found''
          | Some data \<Rightarrow>
              if rd_KEKEncryptedRecovery data = [] \<or> rd_RecoverySalt data = [] then WriteError 404 ''not found''
              else reply 200 (Json
                \<lparr>rv_KEKEncryptedRecovery = StdEncoding_EncodeToString (rd_KEKEncryptedRecovery data),
                 rv_RecoverySalt = StdEncoding_EncodeToString (rd_RecoverySalt data)\<rparr>)))"

definition resetPasswordConfirm ::
  "('r, 'x) AuthDeps_scheme \<Rightarrow> (ResetPasswordConfirmRequest \<Rightarrow> validate_err option) \<Rightarrow> ResetPasswordConfirmRequest option \<Rightarrow> ('r aworld, unit) handler" where
  "resetPasswordConfirm d validate body =
     decoded body validate (\<lambda>q.
       mustDecodeB64 (qc_CryptoSalt q) ''crypto_salt'' 1 0 (\<lambda>cryptoSalt.
       mustDecodeB64 (qc_KEKEncryptedMaster q) ''kek_encrypted_master'' 40 40 (\<lambda>kekEncMaster.
       mustDecodeB64 (qc_KEKEncryptedRecovery q) ''kek_encrypted_recovery'' 40 40 (\<lambda>kekEncRecovery.
       mustDecodeB64 (qc_RecoverySalt q) ''recovery_salt'' 1 0 (\<lambda>recSalt.
         call (ResetPassword (dp_Auth d) (qc_Token q)
             \<lparr>rp_SRPSalt = qc_SRPSalt q, rp_SRPVerifier = qc_SRPVerifier q, rp_BcryptSalt = qc_BcryptSalt q,
              rp_CryptoSalt = cryptoSalt, rp_KEKEncryptedMaster = kekEncMaster,
              rp_KEKEncryptedRecovery = kekEncRecovery, rp_RecoverySalt = recSalt\<rparr>)
           (\<lambda>e. if e = ErrResetTokenInvalid then WriteError 422 ''invalid or expired reset token''
                 else WriteError 500 ''internal error'')
           (\<lambda>_. reply 204 NoBody))))))"

section \<open>sessions.go and audit.go\<close>

definition sessionToDTO :: "DeviceSession \<Rightarrow> uuid \<Rightarrow> SessionItem" where
  "sessionToDTO s currentID =
     \<lparr>sn_ID = dv_ID s, sn_DeviceName = dv_DeviceName s, sn_IPAddress = dv_IPAddress s,
      sn_UserAgent = dv_UserAgent s, sn_CreatedAt = dv_CreatedAt s, sn_LastActiveAt = dv_LastActiveAt s,
      sn_IsCurrent = (dv_ID s = currentID)\<rparr>"

definition listSessions :: "request \<Rightarrow> ('r aworld, SessionItem list) handler" where
  "listSessions rq =
     MustUserID rq (\<lambda>userID.
       call (ListDeviceSessions userID) (\<lambda>_. WriteInternalError)
         (\<lambda>sessions. reply 200 (Json (map (\<lambda>s. sessionToDTO s (SessionIDFromContext rq)) sessions))))"

definition revokeSession :: "('r, 'x) AuthDeps_scheme \<Rightarrow> request \<Rightarrow> ('r aworld, unit) handler" where
  "revokeSession d rq =
     MustUserID rq (\<lambda>userID.
       case cd_Parse (as_Codec (dp_Auth d)) (rq_Param rq ''id'') of
         None \<Rightarrow> WriteError 400 ''invalid session id''
       | Some sessionID \<Rightarrow>
           call (RevokeDeviceSession (dp_Auth d) userID sessionID)
             (\<lambda>e. if e = ErrSessionNotFound then WriteError 404 ''session not found'' else WriteInternalError)
             (\<lambda>_. logged_async (auditEvent userID ''session_revoked'' (realIP rq) (rq_Header rq ''User-Agent'')
                                 (Some sessionID) []) (reply 204 NoBody)))"

definition revokeOtherSessions :: "('r, 'x) AuthDeps_scheme \<Rightarrow> request \<Rightarrow> ('r aworld, unit) handler" where
  "revokeOtherSessions d rq =
     MustUserID rq (\<lambda>userID.
       call (RevokeOtherDeviceSessions (dp_Auth d) userID (SessionIDFromContext rq))
         (\<lambda>_. WriteInternalError)
         (\<lambda>_. logged_async (auditEvent userID ''sessions_revoked_other'' (realIP rq) (rq_Header rq ''User-Agent'')
                             None []) (reply 204 NoBody)))"

text \<open>
  \<open>time.Parse(time.RFC3339Nano, ..)\<close> is an argument; an instant that does not parse is the zero time.
\<close>

definition listAuditEvents ::
  "(string \<Rightarrow> time option) \<Rightarrow> request \<Rightarrow> ('r aworld, AuditEventItem list) handler" where
  "listAuditEvents parse_time rq =
     MustUserID rq (\<lambda>userID.
       let limit = (case Atoi (rq_Query rq ''limit'') of None \<Rightarrow> 50
                    | Some n \<Rightarrow> if rq_Query rq ''limit'' \<noteq> [] \<and> n > 0 \<and> n \<le> 100 then n else 50);
           before = (if rq_Query rq ''before'' \<noteq> [] then parse_time (rq_Query rq ''before'') else None)
       in call (ListEvents userID limit before) (\<lambda>_. WriteInternalError)
         (\<lambda>events. reply 200 (Json (map (\<lambda>e.
            \<lparr>ae_ID = au_ID e, ae_EventType = au_EventType e, ae_IPAddress = au_IPAddress e,
             ae_DeviceName = useragent_Parse (au_UserAgent e), ae_ResourceID = au_ResourceID e,
             ae_ResourceName = au_ResourceName e, ae_CreatedAt = au_CreatedAt e\<rparr>) events))))"

end
