(* ===== verification/Folder_Tree.thy ===== *)
theory Folder_Tree
  imports Schema
begin

text \<open>
  The recursive queries of \<open>folders.go\<close>: \<open>WITH RECURSIVE subtree\<close> walks the folder table from a
  folder to its children, round by round, and keeps duplicates (\<open>UNION ALL\<close>). Shown here: which
  folders a walk finds, that it ends on a forest within as many rounds as there are folders, and
  that it never ends when it does not end within those.
\<close>

section \<open>One round and the whole walk\<close>

text \<open>\<open>SELECT f.id FROM folders f JOIN subtree s ON f.parent_id = s.id WHERE p f\<close>\<close>

definition children :: "(Folder \<Rightarrow> bool) \<Rightarrow> Folder list \<Rightarrow> uuid list \<Rightarrow> uuid list" where
  "children p t ws = concat (map (\<lambda>s. map fo_ID (filter (\<lambda>f. fo_ParentID f = Some s \<and> p f) t)) ws)"

text \<open>
  The rounds of the walk, at most \<open>fuel\<close> of them: \<open>None\<close> when there are rows left to expand after
  that. \<open>subtree_walk\<close> gives one round more than there are folders, which is enough exactly when
  the walk ends at all (\<open>subtree_walk_None\<close>).
\<close>

fun walk :: "(Folder \<Rightarrow> bool) \<Rightarrow> Folder list \<Rightarrow> nat \<Rightarrow> uuid list \<Rightarrow> uuid list option" where
  "walk p t fuel [] = Some []"
| "walk p t 0 (w # ws) = None"
| "walk p t (Suc fuel) (w # ws) =
     map_option (\<lambda>r. (w # ws) @ r) (walk p t fuel (children p t (w # ws)))"

definition subtree_walk :: "(Folder \<Rightarrow> bool) \<Rightarrow> Folder list \<Rightarrow> uuid list \<Rightarrow> uuid list option" where
  "subtree_walk p t ws = walk p t (Suc (length t)) ws"

text \<open>The bounded walk of \<open>IsDescendantOf\<close>: \<open>WHERE s.depth < n\<close>, so rounds 0 to \<open>n\<close>.\<close>

fun walk_depth :: "(Folder \<Rightarrow> bool) \<Rightarrow> Folder list \<Rightarrow> nat \<Rightarrow> uuid list \<Rightarrow> uuid list" where
  "walk_depth p t 0 ws = ws"
| "walk_depth p t (Suc n) ws = ws @ walk_depth p t n (children p t ws)"

section \<open>The parent relation\<close>

definition child_rel :: "(Folder \<Rightarrow> bool) \<Rightarrow> Folder list \<Rightarrow> (uuid \<times> uuid) set" where
  "child_rel p t = {(x, y). \<exists>f \<in> set t. fo_ID f = y \<and> fo_ParentID f = Some x \<and> p f}"

definition acyclic_folders :: "Folder list \<Rightarrow> bool" where
  "acyclic_folders t = acyclic (child_rel (\<lambda>_. True) t)"

definition folder_ids_distinct :: "Folder list \<Rightarrow> bool" where
  "folder_ids_distinct t = distinct (map fo_ID t)"

lemma child_relI: "f \<in> set t \<Longrightarrow> fo_ParentID f = Some x \<Longrightarrow> p f \<Longrightarrow> (x, fo_ID f) \<in> child_rel p t"
  by (auto simp: child_rel_def)

lemma child_rel_mono: "(\<And>f. f \<in> set t \<Longrightarrow> p f \<Longrightarrow> q f) \<Longrightarrow> child_rel p t \<subseteq> child_rel q t"
  by (auto simp: child_rel_def)

lemma set_children: "set (children p t ws) = child_rel p t `` set ws"
  by (auto simp: children_def child_rel_def)

lemma child_rel_finite: "finite (child_rel p t)"
proof -
  have "child_rel p t \<subseteq> (\<lambda>f. (the (fo_ParentID f), fo_ID f)) ` set t"
    by (force simp: child_rel_def)
  then show ?thesis by (rule finite_subset) simp
qed

lemma child_rel_target: "(x, y) \<in> child_rel p t \<Longrightarrow> y \<in> set (map fo_ID t)"
  by (auto simp: child_rel_def)

text \<open>With distinct ids a folder has one parent.\<close>

lemma child_rel_unique_parent:
  assumes "folder_ids_distinct t" and "(x, z) \<in> child_rel p t" and "(y, z) \<in> child_rel q t"
  shows "x = y"
proof -
  from assms obtain f g where "f \<in> set t" "fo_ID f = z" "fo_ParentID f = Some x"
    and "g \<in> set t" "fo_ID g = z" "fo_ParentID g = Some y"
    by (auto simp: child_rel_def)
  with assms(1) have "f = g"
    unfolding folder_ids_distinct_def by (metis distinct_map_eqD)
  with \<open>fo_ParentID f = Some x\<close> \<open>fo_ParentID g = Some y\<close> show ?thesis by simp
qed

section \<open>What a walk finds\<close>

lemma walk_sound: "walk p t n ws = Some r \<Longrightarrow> set r \<subseteq> (child_rel p t)\<^sup>* `` set ws"
proof (induction p t n ws arbitrary: r rule: walk.induct)
  case (3 p t n w ws)
  let ?R = "child_rel p t"
  from "3.prems" obtain r' where r': "walk p t n (children p t (w # ws)) = Some r'"
    and r: "r = (w # ws) @ r'" by auto
  have "set r' \<subseteq> ?R\<^sup>* `` (?R `` set (w # ws))"
    using "3.IH" [OF r'] by (simp only: set_children)
  also have "\<dots> \<subseteq> ?R\<^sup>* `` set (w # ws)"
    by (blast intro: converse_rtrancl_into_rtrancl)
  finally show ?case using r by auto
qed auto

lemma walk_complete:
  "walk p t n ws = Some r \<Longrightarrow> set ws \<subseteq> set r \<and> child_rel p t `` set r \<subseteq> set r"
proof (induction p t n ws arbitrary: r rule: walk.induct)
  case (3 p t n w ws)
  from "3.prems" obtain r' where r': "walk p t n (children p t (w # ws)) = Some r'"
    and r: "r = (w # ws) @ r'" by auto
  have IH: "child_rel p t `` set (w # ws) \<subseteq> set r'" "child_rel p t `` set r' \<subseteq> set r'"
    using "3.IH" [OF r'] by (simp_all only: set_children)
  have "child_rel p t `` set r = child_rel p t `` set (w # ws) \<union> child_rel p t `` set r'"
    unfolding r set_append by blast
  with IH show ?case unfolding r by auto
qed auto

lemma walk_set:
  assumes "walk p t n ws = Some r"
  shows "set r = (child_rel p t)\<^sup>* `` set ws"
proof
  show "set r \<subseteq> (child_rel p t)\<^sup>* `` set ws" by (rule walk_sound [OF assms])
next
  note closed = walk_complete [OF assms]
  have "y \<in> set r" if "(x, y) \<in> (child_rel p t)\<^sup>*" "x \<in> set ws" for x y
    using that by (induction rule: rtrancl_induct) (use closed in blast)+
  then show "(child_rel p t)\<^sup>* `` set ws \<subseteq> set r" by blast
qed

lemma walk_depth_set:
  "set (walk_depth p t n ws) = {y. \<exists>x \<in> set ws. \<exists>k \<le> n. (x, y) \<in> child_rel p t ^^ k}"
proof (induction n arbitrary: ws)
  case 0
  then show ?case by auto
next
  case (Suc n)
  let ?R = "child_rel p t"
  have step: "(\<exists>x \<in> ?R `` set ws. (x, y) \<in> ?R ^^ k) \<longleftrightarrow> (\<exists>x \<in> set ws. (x, y) \<in> ?R ^^ Suc k)" for y k
    by (blast intro: relpow_Suc_I2 dest: relpow_Suc_D2)
  have le_Suc: "(\<exists>k \<le> Suc n. P k) \<longleftrightarrow> P 0 \<or> (\<exists>k \<le> n. P (Suc k))" for P
    by (metis Suc_le_mono le0 not0_implies_Suc)
  have "set (walk_depth p t (Suc n) ws)
      = set ws \<union> {y. \<exists>k \<le> n. \<exists>x \<in> ?R `` set ws. (x, y) \<in> ?R ^^ k}"
    unfolding walk_depth.simps set_append Suc.IH set_children by blast
  also have "\<dots> = {y. \<exists>k \<le> Suc n. \<exists>x \<in> set ws. (x, y) \<in> ?R ^^ k}"
    unfolding step le_Suc by auto
  also have "\<dots> = {y. \<exists>x \<in> set ws. \<exists>k \<le> Suc n. (x, y) \<in> ?R ^^ k}"
    by blast
  finally show ?case .
qed

section \<open>When a walk ends\<close>

text \<open>The rows of round \<open>k\<close> are the folders \<open>k\<close> steps below the start.\<close>

lemma walk_None_path:
  assumes "walk p t n ws = None"
  shows "\<exists>x \<in> set ws. \<exists>y. (x, y) \<in> child_rel p t ^^ n"
  using assms
proof (induction p t n ws rule: walk.induct)
  case (3 p t n w ws)
  then have "\<exists>x \<in> set (children p t (w # ws)). \<exists>y. (x, y) \<in> child_rel p t ^^ n" by simp
  then show ?case
    unfolding set_children by (blast intro: relpow_Suc_I2)
qed auto

lemma walk_path_None:
  assumes "x \<in> set ws" and "(x, y) \<in> child_rel p t ^^ n"
  shows "walk p t n ws = None"
  using assms
proof (induction p t n ws arbitrary: x rule: walk.induct)
  case (3 p t n w ws)
  from "3.prems"(2) obtain z where "(x, z) \<in> child_rel p t" and zy: "(z, y) \<in> child_rel p t ^^ n"
    by (blast dest: relpow_Suc_D2)
  with "3.prems"(1) have "z \<in> set (children p t (w # ws))"
    by (auto simp: set_children simp del: set_simps)
  with zy "3.IH" show ?case by simp
qed auto

text \<open>A path longer than the table goes round a cycle, so paths of every length exist.\<close>

lemma long_path_repeats:
  assumes "(x, y) \<in> child_rel p t ^^ Suc (length t)"
  shows "\<exists>z. (z, z) \<in> (child_rel p t)\<^sup>+ \<and> (x, z) \<in> (child_rel p t)\<^sup>*"
proof -
  let ?R = "child_rel p t" and ?n = "Suc (length t)"
  from assms obtain f where f0: "f 0 = x" and fs: "\<And>i. i < ?n \<Longrightarrow> (f i, f (Suc i)) \<in> ?R"
    by (auto simp: relpow_fun_conv simp del: relpow.simps)
  have "f ` {1..?n} \<subseteq> set (map fo_ID t)"
  proof
    fix v assume "v \<in> f ` {1..?n}"
    then obtain i where "i < ?n" "v = f (Suc i)"
      by (auto simp: image_iff) (metis Suc_le_D Suc_le_lessD le_SucI less_Suc_eq_le)
    with fs [of i] show "v \<in> set (map fo_ID t)" by (blast dest: child_rel_target)
  qed
  then have "card (f ` {1..?n}) \<le> length t"
    using card_mono [of "set (map fo_ID t)"] card_length [of "map fo_ID t"]
    by (metis List.finite_set le_trans length_map)
  then have "\<not> inj_on f {1..?n}" by (metis Suc_n_not_le_n card_atLeastAtMost card_image diff_Suc_1)
  then obtain i j where ij: "i < j" "j \<le> ?n" "f i = f j"
    by (auto simp: inj_on_def) (metis linorder_neqE_nat)
  have path: "b \<le> ?n \<Longrightarrow> a \<le> b \<Longrightarrow> (f a, f b) \<in> ?R ^^ (b - a)" for a b
  proof -
    assume "b \<le> ?n" "a \<le> b"
    then show "(f a, f b) \<in> ?R ^^ (b - a)"
      unfolding relpow_fun_conv using fs by (intro exI [of _ "\<lambda>k. f (a + k)"]) auto
  qed
  have "(f i, f j) \<in> ?R ^^ (j - i)" by (rule path) (use ij in auto)
  then have "(f i, f i) \<in> ?R\<^sup>+"
    using ij unfolding trancl_power by (intro exI [of _ "j - i"]) simp
  moreover have "(x, f i) \<in> ?R\<^sup>*"
    using path [of i 0] ij f0 by (auto simp: rtrancl_power)
  ultimately show ?thesis by blast
qed

lemma cycle_paths:
  assumes "(z, z) \<in> R\<^sup>+"
  shows "\<exists>y. (z, y) \<in> R ^^ n"
proof (induction n)
  case 0
  show ?case by auto
next
  case (Suc n)
  from assms obtain u where zu: "(z, u) \<in> R" and uz: "(u, z) \<in> R\<^sup>*"
    by (meson tranclD)
  have "\<exists>y. (u, y) \<in> R ^^ n" for n
    using uz
  proof (induction n arbitrary: u rule: less_induct)
    case (less n)
    show ?case
    proof (cases n)
      case 0
      then show ?thesis by auto
    next
      case (Suc m)
      from less.prems assms have "(u, z) \<in> R\<^sup>+"
        by (meson rtrancl_trancl_trancl)
      then obtain v where "(u, v) \<in> R" "(v, z) \<in> R\<^sup>*" by (meson tranclD)
      with less.IH [of m v] Suc show ?thesis by (blast intro: relpow_Suc_I2)
    qed
  qed
  with zu show ?case by (blast intro: relpow_Suc_I2)
qed

text \<open>The fuel is exact: a walk that needs more rounds than \<open>subtree_walk\<close> has needs endlessly many.\<close>

lemma subtree_walk_None: "subtree_walk p t ws = None \<longleftrightarrow> (\<forall>n. walk p t n ws = None)"
proof
  assume "\<forall>n. walk p t n ws = None"
  then show "subtree_walk p t ws = None" by (simp add: subtree_walk_def)
next
  let ?R = "child_rel p t"
  assume "subtree_walk p t ws = None"
  then obtain x y where x: "x \<in> set ws" and "(x, y) \<in> ?R ^^ Suc (length t)"
    unfolding subtree_walk_def by (blast dest: walk_None_path)
  then obtain z where z: "(z, z) \<in> ?R\<^sup>+" and "(x, z) \<in> ?R\<^sup>*"
    using long_path_repeats by blast
  then obtain k where k: "(x, z) \<in> ?R ^^ k" by (auto simp: rtrancl_power)
  have "\<exists>y. (x, y) \<in> ?R ^^ n" for n
  proof (cases "n \<le> k")
    case True
    then have "?R ^^ k = ?R ^^ n O ?R ^^ (k - n)" by (simp flip: relpow_add)
    with k show ?thesis by blast
  next
    case False
    then have "?R ^^ n = ?R ^^ k O ?R ^^ (n - k)" by (simp flip: relpow_add)
    with k cycle_paths [OF z, of "n - k"] show ?thesis by blast
  qed
  with x show "\<forall>n. walk p t n ws = None" by (blast intro: walk_path_None)
qed

lemma acyclic_child_rel: "acyclic_folders t \<Longrightarrow> acyclic (child_rel p t)"
  unfolding acyclic_folders_def by (rule acyclic_subset) (auto simp: child_rel_def)

lemma subtree_walk_acyclic:
  assumes "acyclic_folders t"
  shows "\<exists>r. subtree_walk p t ws = Some r"
proof (rule ccontr)
  assume "\<nexists>r. subtree_walk p t ws = Some r"
  then have "walk p t (Suc (length t)) ws = None" by (simp add: subtree_walk_def)
  then obtain x y where "(x, y) \<in> child_rel p t ^^ Suc (length t)"
    by (blast dest: walk_None_path)
  then obtain z where "(z, z) \<in> (child_rel p t)\<^sup>+" using long_path_repeats by blast
  with acyclic_child_rel [OF assms, of p] show False by (auto simp: acyclic_def)
qed

lemma subtree_walk_set: "subtree_walk p t ws = Some r \<Longrightarrow> set r = (child_rel p t)\<^sup>* `` set ws"
  unfolding subtree_walk_def by (rule walk_set)

end
