(* ===== verification/Blob_Repo.thy ===== *)
theory Blob_Repo
  imports Schema Go_Strings
begin

text \<open>
  \<open>internal/repo/persistent/postgres/blobs.go\<close>: the statements on \<open>stored_blobs\<close>, each as a
  database call on the schema. A Go result \<open>(x, ok, err)\<close> is an option in the effect. The suffix
  \<open>_pg\<close> tells a repository method from the service method of the same name.
\<close>

section \<open>Parameters and results\<close>

record RegisterBlobParams =
  rb_ID :: uuid
  rb_UserID :: uuid
  rb_FileName :: string
  rb_ContentType :: string
  rb_ObjectKey :: string
  rb_FileSize :: int64
  rb_FileSizePlain :: int64
  rb_ChunkSize :: int32
  rb_EncryptedFileKey :: bytes
  rb_FolderID :: "uuid option"
  rb_UploadID :: string

record BlobMeta =
  bm_ObjectKey :: string
  bm_ContentType :: string
  bm_EncryptedFileKey :: bytes
  bm_FileName :: string
  bm_FileSize :: int64
  bm_FileSizePlain :: int64
  bm_ChunkSize :: int32

record PendingBlobMeta =
  pm_ObjectKey :: string
  pm_DeclaredSize :: int64
  pm_FileName :: string
  pm_FolderID :: "uuid option"
  pm_UploadID :: string

record OrphanedBlob =
  ob_ObjectKey :: string
  ob_UploadID :: string

record EmptiedBlob =
  eb_ID :: uuid
  eb_FileName :: string
  eb_ObjectKey :: string

record MoveBlobInfo =
  mi_FileName :: string
  mi_SrcFolderName :: string
  mi_DstFolderName :: string

record SearchBlobRecord =
  sr_Blob :: Blob
  sr_FolderName :: "string option"

section \<open>Upload and quota\<close>

text \<open>
  \<open>SELECT COALESCE(SUM(file_size), 0)\<close> is an exact sum; scanning it into an \<open>int64\<close> fails when it
  does not fit.
\<close>

definition storage_used :: "uuid \<Rightarrow> db \<Rightarrow> int" where
  "storage_used userID d =
     sum_list (map (\<lambda>b. sint (bl_FileSize b)) (filter (\<lambda>b. bl_UserID b = userID) (stored_blobs d)))"

definition GetUserStorageUsed_pg :: "uuid \<Rightarrow> ('x world_scheme, pg_err, int64) eff" where
  "GetUserStorageUsed_pg userID =
     db_call (\<lambda>_ d.
       let total = storage_used userID d in
       if - (2 ^ 63) \<le> total \<and> total < 2 ^ 63 then Inr (word_of_int total, d) else Inl DbError)"

definition new_blob_row :: "time \<Rightarrow> RegisterBlobParams \<Rightarrow> Blob" where
  "new_blob_row now p =
     \<lparr>bl_ID = rb_ID p, bl_UserID = rb_UserID p, bl_FolderID = rb_FolderID p,
      bl_FileName = rb_FileName p, bl_ContentType = rb_ContentType p,
      bl_ObjectKey = rb_ObjectKey p, bl_FileSize = rb_FileSize p,
      bl_FileSizePlain = rb_FileSizePlain p, bl_ChunkSize = rb_ChunkSize p,
      bl_CreatedAt = now, bl_UploadedAt = None,
      bl_EncryptedFileKey = rb_EncryptedFileKey p, bl_UploadID = rb_UploadID p,
      bl_DeletedAt = None\<rparr>"

definition RegisterBlob_pg :: "RegisterBlobParams \<Rightarrow> ('x world_scheme, pg_err, unit) eff" where
  "RegisterBlob_pg p = db_call (\<lambda>now. insert_blob (new_blob_row now p))"

definition is_pending :: "Blob \<Rightarrow> bool" where
  "is_pending b = (bl_UploadedAt b = None \<and> bl_DeletedAt b = None)"

definition is_visible :: "Blob \<Rightarrow> bool" where
  "is_visible b = (bl_DeletedAt b = None \<and> bl_UploadedAt b \<noteq> None)"

definition blob_is :: "uuid \<Rightarrow> uuid \<Rightarrow> Blob \<Rightarrow> bool" where
  "blob_is blobID userID b = (bl_ID b = blobID \<and> bl_UserID b = userID)"

definition GetPendingBlobMeta_pg ::
  "uuid \<Rightarrow> uuid \<Rightarrow> ('x world_scheme, pg_err, PendingBlobMeta option) eff" where
  "GetPendingBlobMeta_pg blobID userID =
     query (\<lambda>_ d. map_option
       (\<lambda>b. \<lparr>pm_ObjectKey = bl_ObjectKey b, pm_DeclaredSize = bl_FileSize b,
             pm_FileName = bl_FileName b, pm_FolderID = bl_FolderID b,
             pm_UploadID = bl_UploadID b\<rparr>)
       (find (\<lambda>b. blob_is blobID userID b \<and> is_pending b) (stored_blobs d)))"

definition ConfirmBlobUpload_pg ::
  "uuid \<Rightarrow> uuid \<Rightarrow> int64 \<Rightarrow> ('x world_scheme, pg_err, bool) eff" where
  "ConfirmBlobUpload_pg blobID userID actualSize =
     bindE (db_call (\<lambda>now. update_blobs (\<lambda>b. blob_is blobID userID b \<and> is_pending b)
              (\<lambda>b. b\<lparr>bl_UploadedAt := Some now, bl_FileSize := actualSize\<rparr>)))
       (\<lambda>n. ret (0 < n))"

definition AbortPendingBlob_pg ::
  "uuid \<Rightarrow> uuid \<Rightarrow> ('x world_scheme, pg_err, (string \<times> string) option) eff" where
  "AbortPendingBlob_pg blobID userID =
     bindE (db_call (\<lambda>_. delete_blobs (\<lambda>b. blob_is blobID userID b \<and> is_pending b)))
       (\<lambda>gone. ret (case gone of [] \<Rightarrow> None | b # _ \<Rightarrow> Some (bl_ObjectKey b, bl_UploadID b)))"

definition PurgeOrphanedBlobs_pg ::
  "time \<Rightarrow> ('x world_scheme, pg_err, OrphanedBlob list) eff" where
  "PurgeOrphanedBlobs_pg before =
     bindE (db_call (\<lambda>_. delete_blobs (\<lambda>b. is_pending b \<and> bl_CreatedAt b < before)))
       (\<lambda>gone. ret (map (\<lambda>b. \<lparr>ob_ObjectKey = bl_ObjectKey b, ob_UploadID = bl_UploadID b\<rparr>) gone))"

section \<open>Reading\<close>

definition GetBlobMeta_pg :: "uuid \<Rightarrow> uuid \<Rightarrow> ('x world_scheme, pg_err, BlobMeta option) eff" where
  "GetBlobMeta_pg blobID userID =
     query (\<lambda>_ d. map_option
       (\<lambda>b. \<lparr>bm_ObjectKey = bl_ObjectKey b, bm_ContentType = bl_ContentType b,
             bm_EncryptedFileKey = bl_EncryptedFileKey b, bm_FileName = bl_FileName b,
             bm_FileSize = bl_FileSize b, bm_FileSizePlain = bl_FileSizePlain b,
             bm_ChunkSize = bl_ChunkSize b\<rparr>)
       (find (\<lambda>b. blob_is blobID userID b \<and> is_visible b) (stored_blobs d)))"

text \<open>\<open>scanBlobs\<close> reads ten columns; the others keep their zero values.\<close>

definition scanBlob :: "uuid \<Rightarrow> Blob \<Rightarrow> Blob" where
  "scanBlob userID b = b\<lparr>bl_UserID := userID, bl_UploadedAt := None, bl_UploadID := [], bl_DeletedAt := None\<rparr>"

definition ListBlobs_pg :: "uuid \<Rightarrow> ('x world_scheme, pg_err, Blob list) eff" where
  "ListBlobs_pg userID =
     query (\<lambda>_ d. map (scanBlob userID)
       (sort_key (\<lambda>b. - bl_CreatedAt b)
         (filter (\<lambda>b. bl_UserID b = userID \<and> is_visible b) (stored_blobs d))))"

definition ListBlobsInFolder_pg ::
  "uuid \<Rightarrow> uuid option \<Rightarrow> ('x world_scheme, pg_err, Blob list) eff" where
  "ListBlobsInFolder_pg userID folderID =
     query (\<lambda>_ d. map (scanBlob userID)
       (sort_key (\<lambda>b. - bl_CreatedAt b)
         (filter (\<lambda>b. bl_UserID b = userID \<and> bl_FolderID b = folderID \<and> is_visible b)
           (stored_blobs d))))"

section \<open>Moving, renaming, trash\<close>

definition RemoveBlob_pg :: "uuid \<Rightarrow> uuid \<Rightarrow> ('x world_scheme, pg_err, string option) eff" where
  "RemoveBlob_pg blobID userID =
     bindE (db_call (\<lambda>_. delete_blobs (blob_is blobID userID)))
       (\<lambda>gone. ret (case gone of [] \<Rightarrow> None | b # _ \<Rightarrow> Some (bl_ObjectKey b)))"

text \<open>\<open>LEFT JOIN folders f ON f.id = sb.folder_id AND f.deleted_at IS NULL\<close>, \<open>COALESCE(f.name, '')\<close>.\<close>

definition active_folder_name :: "uuid option \<Rightarrow> db \<Rightarrow> string option" where
  "active_folder_name r d =
     (case r of None \<Rightarrow> None
      | Some i \<Rightarrow> map_option fo_Name (find (\<lambda>f. fo_ID f = i \<and> fo_DeletedAt f = None) (folders d)))"

definition MoveBlob_pg ::
  "uuid \<Rightarrow> uuid \<Rightarrow> uuid option \<Rightarrow> ('x world_scheme, pg_err, MoveBlobInfo option) eff" where
  "MoveBlob_pg blobID userID folderID =
     bindE (query (\<lambda>_ d. map_option
              (\<lambda>b. (bl_FileName b, case active_folder_name (bl_FolderID b) d of None \<Rightarrow> [] | Some n \<Rightarrow> n))
              (find (\<lambda>b. blob_is blobID userID b \<and> bl_DeletedAt b = None) (stored_blobs d))))
       (\<lambda>r. case r of
          None \<Rightarrow> ret None
        | Some (name, src) \<Rightarrow>
            bindE (db_call (\<lambda>_. update_blobs (\<lambda>b. blob_is blobID userID b \<and> bl_DeletedAt b = None)
                     (\<lambda>b. b\<lparr>bl_FolderID := folderID\<rparr>)))
              (\<lambda>n. if n = 0 then ret None
                   else ret (Some \<lparr>mi_FileName = name, mi_SrcFolderName = src, mi_DstFolderName = []\<rparr>)))"

definition RenameBlob_pg :: "uuid \<Rightarrow> uuid \<Rightarrow> string \<Rightarrow> ('x world_scheme, pg_err, bool) eff" where
  "RenameBlob_pg blobID userID name =
     bindE (db_call (\<lambda>_. update_blobs (\<lambda>b. blob_is blobID userID b \<and> bl_DeletedAt b = None)
              (\<lambda>b. b\<lparr>bl_FileName := name\<rparr>)))
       (\<lambda>n. ret (0 < n))"

text \<open>\<open>UPDATE .. RETURNING file_name\<close> scanned by \<open>QueryRow\<close>: the first updated row.\<close>

definition update_blob_returning ::
  "(Blob \<Rightarrow> bool) \<Rightarrow> (Blob \<Rightarrow> Blob) \<Rightarrow> (Blob \<Rightarrow> 'a) \<Rightarrow> 'a option stmt" where
  "update_blob_returning p f g d =
     (case update_blobs p f d of
        Inl e \<Rightarrow> Inl e
      | Inr (_, d') \<Rightarrow> Inr (map_option (\<lambda>b. g (f b)) (find p (stored_blobs d)), d'))"

definition TrashBlob_pg :: "uuid \<Rightarrow> uuid \<Rightarrow> ('x world_scheme, pg_err, string option) eff" where
  "TrashBlob_pg blobID userID =
     db_call (\<lambda>now. update_blob_returning (\<lambda>b. blob_is blobID userID b \<and> bl_DeletedAt b = None)
       (\<lambda>b. b\<lparr>bl_DeletedAt := Some now\<rparr>) bl_FileName)"

definition restored_folder :: "db \<Rightarrow> uuid option \<Rightarrow> uuid option" where
  "restored_folder d r =
     (case r of None \<Rightarrow> None
      | Some i \<Rightarrow> if \<exists>f \<in> set (folders d). fo_ID f = i \<and> fo_DeletedAt f = None then Some i else None)"

definition RestoreBlob_pg :: "uuid \<Rightarrow> uuid \<Rightarrow> ('x world_scheme, pg_err, string option) eff" where
  "RestoreBlob_pg blobID userID =
     db_call (\<lambda>_ d. update_blob_returning (\<lambda>b. blob_is blobID userID b \<and> bl_DeletedAt b \<noteq> None)
       (\<lambda>b. b\<lparr>bl_DeletedAt := None, bl_FolderID := restored_folder d (bl_FolderID b)\<rparr>)
       bl_FileName d)"

definition PeekTrashedBlob_pg ::
  "uuid \<Rightarrow> uuid \<Rightarrow> ('x world_scheme, pg_err, (string \<times> string) option) eff" where
  "PeekTrashedBlob_pg blobID userID =
     query (\<lambda>_ d. map_option (\<lambda>b. (bl_ObjectKey b, bl_FileName b))
       (find (\<lambda>b. blob_is blobID userID b \<and> bl_DeletedAt b \<noteq> None) (stored_blobs d)))"

definition HardDeleteBlob_pg ::
  "uuid \<Rightarrow> uuid \<Rightarrow> ('x world_scheme, pg_err, (string \<times> string) option) eff" where
  "HardDeleteBlob_pg blobID userID =
     bindE (db_call (\<lambda>_. delete_blobs (\<lambda>b. blob_is blobID userID b \<and> bl_DeletedAt b \<noteq> None)))
       (\<lambda>gone. ret (case gone of [] \<Rightarrow> None | b # _ \<Rightarrow> Some (bl_ObjectKey b, bl_FileName b)))"

definition trashed_folder :: "uuid option \<Rightarrow> db \<Rightarrow> bool" where
  "trashed_folder r d =
     (case r of None \<Rightarrow> False
      | Some i \<Rightarrow> \<exists>f \<in> set (folders d). fo_ID f = i \<and> fo_DeletedAt f \<noteq> None)"

definition ListTrashedBlobs_pg :: "uuid \<Rightarrow> ('x world_scheme, pg_err, Blob list) eff" where
  "ListTrashedBlobs_pg userID =
     query (\<lambda>_ d. map (scanBlob userID)
       (sort_key (\<lambda>b. - the (bl_DeletedAt b))
         (filter (\<lambda>b. bl_UserID b = userID \<and> bl_DeletedAt b \<noteq> None \<and> \<not> trashed_folder (bl_FolderID b) d)
           (stored_blobs d))))"

definition EmptyTrashedBlobs_pg :: "uuid \<Rightarrow> ('x world_scheme, pg_err, EmptiedBlob list) eff" where
  "EmptyTrashedBlobs_pg userID =
     bindE (db_call (\<lambda>_. delete_blobs (\<lambda>b. bl_UserID b = userID \<and> bl_DeletedAt b \<noteq> None)))
       (\<lambda>gone. ret (map (\<lambda>b. \<lparr>eb_ID = bl_ID b, eb_FileName = bl_FileName b,
                               eb_ObjectKey = bl_ObjectKey b\<rparr>) gone))"

definition expired :: "time \<Rightarrow> time option \<Rightarrow> bool" where
  "expired before t = (case t of None \<Rightarrow> False | Some x \<Rightarrow> x < before)"

definition PurgeExpiredBlobs_pg :: "time \<Rightarrow> ('x world_scheme, pg_err, string list) eff" where
  "PurgeExpiredBlobs_pg before =
     bindE (db_call (\<lambda>_. delete_blobs (\<lambda>b. expired before (bl_DeletedAt b))))
       (\<lambda>gone. ret (map bl_ObjectKey gone))"

section \<open>Search\<close>

text \<open>
  \<open>ILIKE\<close> folds both sides by the database locale (the parameter \<open>lower\<close>) and matches with \<open>%\<close> for
  any text, \<open>_\<close> for one character and the escape character.
\<close>

fun like :: "string \<Rightarrow> string \<Rightarrow> bool" where
  "like [] s = (s = [])"
| "like (c # p) s =
     (if c = backslash then (case p of [] \<Rightarrow> False | x # q \<Rightarrow> s \<noteq> [] \<and> hd s = x \<and> like q (tl s))
      else if c = CHR ''%'' then (\<exists>k \<in> set [0..<Suc (length s)]. like p (drop k s))
      else if c = CHR ''_'' then
        s \<noteq> [] \<and> like p (dropWhile (\<lambda>x. of_char x div 64 = (2::nat)) (tl s))
      else s \<noteq> [] \<and> hd s = c \<and> like p (tl s))"

definition ilike :: "(string \<Rightarrow> string) \<Rightarrow> string \<Rightarrow> string \<Rightarrow> bool" where
  "ilike lower s pat = like (lower pat) (lower s)"

definition escapeLike :: "string \<Rightarrow> string" where
  "escapeLike s =
     ReplaceAll1 (CHR ''_'') [backslash, CHR ''_'']
       (ReplaceAll1 (CHR ''%'') [backslash, CHR ''%'']
         (ReplaceAll1 backslash [backslash, backslash] s))"

definition like_pattern :: "string \<Rightarrow> string" where
  "like_pattern q = CHR ''%'' # escapeLike q @ [CHR ''%'']"

definition SearchBlobs_pg ::
  "(string \<Rightarrow> string) \<Rightarrow> uuid \<Rightarrow> string \<Rightarrow> ('x world_scheme, pg_err, SearchBlobRecord list) eff" where
  "SearchBlobs_pg lower userID q =
     query (\<lambda>_ d. take 200 (map
       (\<lambda>b. \<lparr>sr_Blob = scanBlob userID b,
             sr_FolderName = (case bl_FolderID b of None \<Rightarrow> None
               | Some i \<Rightarrow> map_option fo_Name (find (\<lambda>f. fo_ID f = i) (folders d)))\<rparr>)
       (sort_key (\<lambda>b. - bl_CreatedAt b)
         (filter (\<lambda>b. bl_UserID b = userID \<and> ilike lower (bl_FileName b) (like_pattern q) \<and> is_visible b)
           (stored_blobs d)))))"

end
