(* ===== verification/Object_Store.thy ===== *)
theory Object_Store
  imports Go_Strings
begin

text \<open>
  \<open>internal/repo/storage/minio/store.go\<close>: the object store as the services see it, over a MinIO
  client. The client library is not part of the program: \<open>client\<close> is the record of the library
  functions the store calls, on a state \<open>'o\<close> of the server. What a server does with those calls is
  stated by the predicate \<open>s3_contract\<close>.
\<close>

section \<open>The client library\<close>

text \<open>\<open>minio.ErrorResponse\<close> has a code and an HTTP status; any other error value is \<open>OtherError\<close>.\<close>

datatype minio_err = ErrorResponse string nat | OtherError

record UploadedPart =
  up_PartNumber :: int
  up_ETag :: string

record CompletePart =
  cp_PartNumber :: int
  cp_ETag :: string

record 'o client =
  cl_BucketExists :: "string \<Rightarrow> ('o, minio_err, bool) eff"
  cl_MakeBucket :: "string \<Rightarrow> ('o, minio_err, unit) eff"
  cl_PresignedGetObject :: "string \<Rightarrow> string \<Rightarrow> int \<Rightarrow> ('o, minio_err, string) eff"
  cl_Presign ::
    "string \<Rightarrow> string \<Rightarrow> string \<Rightarrow> int \<Rightarrow> (string \<times> string) list \<Rightarrow> ('o, minio_err, string) eff"
  cl_StatObject :: "string \<Rightarrow> string \<Rightarrow> ('o, minio_err, int64) eff"
  cl_RemoveObject :: "string \<Rightarrow> string \<Rightarrow> ('o, minio_err, unit) eff"
  cl_NewMultipartUpload :: "string \<Rightarrow> string \<Rightarrow> ('o, minio_err, string) eff"
  cl_CompleteMultipartUpload ::
    "string \<Rightarrow> string \<Rightarrow> string \<Rightarrow> CompletePart list \<Rightarrow> ('o, minio_err, unit) eff"
  cl_AbortMultipartUpload :: "string \<Rightarrow> string \<Rightarrow> string \<Rightarrow> ('o, minio_err, unit) eff"

section \<open>The store\<close>

record 'o Store =
  st_client :: "'o client"
  st_presignClient :: "'o client"
  st_bucket :: string

record StoreConfig =
  sc_Endpoint :: string
  sc_PublicEndpoint :: string
  sc_AccessKey :: string
  sc_SecretKey :: string
  sc_Bucket :: string
  sc_UseSSL :: bool
  sc_Region :: string

datatype store_err =
  EmptyEndpoint | ClientErr | PublicEndpointParse | PublicEndpointIncomplete | PresignClientErr

text \<open>
  \<open>minio_New endpoint accessKey secretKey secure region\<close> and \<open>url_Parse\<close> (scheme and host) are
  library functions.
\<close>

definition NewStore ::
  "(string \<Rightarrow> string \<Rightarrow> string \<Rightarrow> bool \<Rightarrow> string \<Rightarrow> 'o client option)
   \<Rightarrow> (string \<Rightarrow> (string \<times> string) option) \<Rightarrow> StoreConfig \<Rightarrow> store_err + 'o Store" where
  "NewStore minio_New url_Parse cfg =
     (if sc_Endpoint cfg = [] then Inl EmptyEndpoint
      else (case minio_New (sc_Endpoint cfg) (sc_AccessKey cfg) (sc_SecretKey cfg) (sc_UseSSL cfg)
                   (sc_Region cfg) of
          None \<Rightarrow> Inl ClientErr
        | Some cli \<Rightarrow>
            if sc_PublicEndpoint cfg = [] then
              Inr \<lparr>st_client = cli, st_presignClient = cli, st_bucket = sc_Bucket cfg\<rparr>
            else (case url_Parse (sc_PublicEndpoint cfg) of
                None \<Rightarrow> Inl PublicEndpointParse
              | Some (scheme, host) \<Rightarrow>
                  if scheme = [] \<or> host = [] then Inl PublicEndpointIncomplete
                  else (case minio_New host (sc_AccessKey cfg) (sc_SecretKey cfg)
                               (scheme = ''https'') (sc_Region cfg) of
                      None \<Rightarrow> Inl PresignClientErr
                    | Some pc \<Rightarrow>
                        Inr \<lparr>st_client = cli, st_presignClient = pc, st_bucket = sc_Bucket cfg\<rparr>))))"

definition EnsureBucket :: "'o Store \<Rightarrow> ('o, minio_err, unit) eff" where
  "EnsureBucket s =
     bindE (cl_BucketExists (st_client s) (st_bucket s))
       (\<lambda>ex. if ex then ret () else cl_MakeBucket (st_client s) (st_bucket s))"

definition PresignedGetObject :: "'o Store \<Rightarrow> string \<Rightarrow> int \<Rightarrow> ('o, minio_err, string) eff" where
  "PresignedGetObject s objectKey expiry =
     cl_PresignedGetObject (st_presignClient s) (st_bucket s) objectKey expiry"

definition StatObject :: "'o Store \<Rightarrow> string \<Rightarrow> ('o, minio_err, int64) eff" where
  "StatObject s objectKey = cl_StatObject (st_client s) (st_bucket s) objectKey"

definition not_found_err :: "minio_err \<Rightarrow> bool" where
  "not_found_err e = (case e of ErrorResponse code status \<Rightarrow> code = ''NoSuchKey'' \<or> status = 404
                      | OtherError \<Rightarrow> False)"

definition RemoveObject :: "'o Store \<Rightarrow> string \<Rightarrow> ('o, minio_err, unit) eff" where
  "RemoveObject s objectKey =
     attempt (cl_RemoveObject (st_client s) (st_bucket s) objectKey)
       (\<lambda>r. case r of
          Inr _ \<Rightarrow> ret ()
        | Inl e \<Rightarrow> if not_found_err e then ret () else fail e)"

definition NewMultipartUpload :: "'o Store \<Rightarrow> string \<Rightarrow> ('o, minio_err, string) eff" where
  "NewMultipartUpload s objectKey = cl_NewMultipartUpload (st_client s) (st_bucket s) objectKey"

text \<open>\<open>strconv.Itoa\<close>\<close>

fun digits :: "nat \<Rightarrow> string" where
  "digits n = (if n < 10 then [char_of (48 + n)] else digits (n div 10) @ [char_of (48 + n mod 10)])"

declare digits.simps [simp del]

definition Itoa :: "int \<Rightarrow> string" where
  "Itoa i = (if i < 0 then CHR ''-'' # digits (nat (- i)) else digits (nat i))"

definition PresignUploadPart ::
  "'o Store \<Rightarrow> string \<Rightarrow> string \<Rightarrow> int \<Rightarrow> int \<Rightarrow> ('o, minio_err, string) eff" where
  "PresignUploadPart s objectKey uploadID partNumber expiry =
     cl_Presign (st_presignClient s) ''PUT'' (st_bucket s) objectKey expiry
       [(''uploadId'', uploadID), (''partNumber'', Itoa partNumber)]"

definition CompleteMultipartUpload_store ::
  "'o Store \<Rightarrow> string \<Rightarrow> string \<Rightarrow> UploadedPart list \<Rightarrow> ('o, minio_err, unit) eff" where
  "CompleteMultipartUpload_store s objectKey uploadID parts =
     cl_CompleteMultipartUpload (st_client s) (st_bucket s) objectKey uploadID
       (map (\<lambda>p. \<lparr>cp_PartNumber = up_PartNumber p, cp_ETag = up_ETag p\<rparr>) parts)"

definition AbortMultipartUpload :: "'o Store \<Rightarrow> string \<Rightarrow> string \<Rightarrow> ('o, minio_err, unit) eff" where
  "AbortMultipartUpload s objectKey uploadID =
     cl_AbortMultipartUpload (st_client s) (st_bucket s) objectKey uploadID"

section \<open>What the server promises\<close>

text \<open>
  The part of the S3 protocol the services rely on, over a view \<open>stored\<close> of the object keys a server
  state holds: a delete that reports success, or that reports the key missing, leaves no object
  under that key; whatever it reports, the other keys keep what they have.
\<close>

definition s3_contract :: "('o \<Rightarrow> string set) \<Rightarrow> 'o Store \<Rightarrow> bool" where
  "s3_contract stored s \<longleftrightarrow>
     (\<forall>key o1 r o2. cl_RemoveObject (st_client s) (st_bucket s) key o1 = (r, o2) \<longrightarrow>
        (case r of Inr _ \<Rightarrow> key \<notin> stored o2 | Inl e \<Rightarrow> not_found_err e \<longrightarrow> key \<notin> stored o2)
        \<and> stored o2 - {key} = stored o1 - {key} \<and> stored o2 \<subseteq> stored o1)"

lemma RemoveObject_stored:
  assumes "s3_contract stored s"
  shows "stored (snd (RemoveObject s key o1)) \<subseteq> stored o1"
    and "stored (snd (RemoveObject s key o1)) - {key} = stored o1 - {key}"
    and "fst (RemoveObject s key o1) = Inr () \<Longrightarrow> key \<notin> stored (snd (RemoveObject s key o1))"
proof -
  obtain r o2 where r: "cl_RemoveObject (st_client s) (st_bucket s) key o1 = (r, o2)"
    by (cases "cl_RemoveObject (st_client s) (st_bucket s) key o1")
  with assms have c: "case r of Inr _ \<Rightarrow> key \<notin> stored o2 | Inl e \<Rightarrow> not_found_err e \<longrightarrow> key \<notin> stored o2"
    "stored o2 - {key} = stored o1 - {key}" "stored o2 \<subseteq> stored o1"
    unfolding s3_contract_def by blast+
  have "snd (RemoveObject s key o1) = o2"
    using r by (simp add: RemoveObject_def eff_defs split: sum.splits)
  then show "stored (snd (RemoveObject s key o1)) \<subseteq> stored o1"
    and "stored (snd (RemoveObject s key o1)) - {key} = stored o1 - {key}"
    using c by simp_all
  show "key \<notin> stored (snd (RemoveObject s key o1))" if "fst (RemoveObject s key o1) = Inr ()"
    using that r c(1) by (auto simp: RemoveObject_def eff_defs split: sum.splits if_splits)
qed

text \<open>No other call of the store removes an object; completing an upload may add one.\<close>

definition s3_grows :: "('o \<Rightarrow> string set) \<Rightarrow> ('o, minio_err, 'a) eff \<Rightarrow> bool" where
  "s3_grows stored m \<longleftrightarrow> (\<forall>o1. stored o1 \<subseteq> stored (snd (m o1)))"

definition s3_safe :: "('o \<Rightarrow> string set) \<Rightarrow> 'o Store \<Rightarrow> bool" where
  "s3_safe stored s \<longleftrightarrow>
     s3_contract stored s
     \<and> (\<forall>k. s3_grows stored (StatObject s k) \<and> s3_grows stored (NewMultipartUpload s k))
     \<and> (\<forall>k u ps. s3_grows stored (CompleteMultipartUpload_store s k u ps))
     \<and> (\<forall>k u. s3_grows stored (AbortMultipartUpload s k u))
     \<and> (\<forall>k u i t. s3_grows stored (PresignUploadPart s k u i t))
     \<and> (\<forall>k t. s3_grows stored (PresignedGetObject s k t))"

text \<open>A public endpoint without a scheme or a host is refused, and an empty one reuses the client.\<close>

lemma NewStore_presign:
  assumes "NewStore minio_New url_Parse cfg = Inr s" and "sc_PublicEndpoint cfg = []"
  shows "st_presignClient s = st_client s"
  using assms by (auto simp: NewStore_def split: if_splits option.splits)

end
