(* ===== verification/Folder_Repo.thy ===== *)
theory Folder_Repo
  imports Folder_Tree Blob_Repo Object_Store "HOL-Library.List_Lexorder" "HOL-Library.Char_ord"
begin

text \<open>
  \<open>internal/repo/persistent/postgres/folders.go\<close>: the statements on \<open>folders\<close>. A method that opens
  a transaction is one database call of the composed statements (suffix \<open>_tx\<close>), so an error inside
  it leaves the database as it was. The errors of \<open>internal/usecase/storage/errors.go\<close> are here
  because the repository returns some of them itself; \<open>GoPanic\<close> is a run-time panic.
\<close>

datatype storage_err =
  ErrNotFound
| ErrFolderNotFound
| ErrFolderNotEmpty
| ErrFolderCycle
| ErrFolderConflict
| ErrFileTooLarge
| ErrQuotaExceeded
| Db pg_err
| Obj minio_err
| GoPanic

record CreateFolderParams =
  cf_UserID :: uuid
  cf_ParentID :: "uuid option"
  cf_Name :: string

record MoveFolderParams =
  mf_FolderID :: uuid
  mf_UserID :: uuid
  mf_NewParentID :: "uuid option"

record EmptiedFolder =
  ef_ID :: uuid
  ef_Name :: string

definition folder_is :: "uuid \<Rightarrow> uuid \<Rightarrow> Folder \<Rightarrow> bool" where
  "folder_is folderID userID f = (fo_ID f = folderID \<and> fo_UserID f = userID)"

definition is_active :: "Folder \<Rightarrow> bool" where
  "is_active f = (fo_DeletedAt f = None)"

text \<open>\<open>pgerrcode.UniqueViolation\<close> becomes \<open>ErrFolderConflict\<close>, other errors pass.\<close>

definition folder_err :: "pg_err \<Rightarrow> storage_err" where
  "folder_err e = (if e = UniqueViolation then ErrFolderConflict else Db e)"

section \<open>Single statements\<close>

definition new_folder_row :: "uuid \<Rightarrow> time \<Rightarrow> CreateFolderParams \<Rightarrow> Folder" where
  "new_folder_row newID now p =
     \<lparr>fo_ID = newID, fo_UserID = cf_UserID p, fo_ParentID = cf_ParentID p, fo_Name = cf_Name p,
      fo_CreatedAt = now, fo_DeletedAt = None\<rparr>"

text \<open>\<open>newID\<close> is what the column default \<open>gen_random_uuid()\<close> gives.\<close>

definition CreateFolder_pg ::
  "uuid \<Rightarrow> CreateFolderParams \<Rightarrow> ('x world_scheme, storage_err, Folder) eff" where
  "CreateFolder_pg newID p =
     map_err folder_err
       (db_call (\<lambda>now. stmt_bind (insert_folder (new_folder_row newID now p))
          (\<lambda>_. stmt_ret (new_folder_row newID now p))))"

definition GetFolder_pg :: "uuid \<Rightarrow> uuid \<Rightarrow> ('x world_scheme, pg_err, Folder option) eff" where
  "GetFolder_pg folderID userID =
     query (\<lambda>_ d. find (\<lambda>f. folder_is folderID userID f \<and> is_active f) (folders d))"

text \<open>\<open>scanFolders\<close> leaves \<open>DeletedAt\<close> nil. \<open>collate\<close> is the sort key of the database's collation.\<close>

definition scanFolder :: "Folder \<Rightarrow> Folder" where
  "scanFolder f = f\<lparr>fo_DeletedAt := None\<rparr>"

definition ListFolders_pg ::
  "(string \<Rightarrow> string) \<Rightarrow> uuid \<Rightarrow> uuid option \<Rightarrow> ('x world_scheme, pg_err, Folder list) eff" where
  "ListFolders_pg collate userID parentID =
     query (\<lambda>_ d. map scanFolder (sort_key (\<lambda>f. collate (fo_Name f))
       (filter (\<lambda>f. fo_UserID f = userID \<and> fo_ParentID f = parentID \<and> is_active f) (folders d))))"

definition RenameFolder_pg ::
  "uuid \<Rightarrow> uuid \<Rightarrow> string \<Rightarrow> ('x world_scheme, storage_err, Folder) eff" where
  "RenameFolder_pg folderID userID name =
     bindE (map_err folder_err
       (db_call (\<lambda>_. stmt_bind
          (stmt_read (\<lambda>d. find (\<lambda>f. folder_is folderID userID f \<and> is_active f) (folders d)))
          (\<lambda>old. stmt_bind (update_folders (\<lambda>f. folder_is folderID userID f \<and> is_active f)
                    (\<lambda>f. f\<lparr>fo_Name := name\<rparr>))
             (\<lambda>_. stmt_ret (map_option (\<lambda>f. f\<lparr>fo_Name := name\<rparr>) old))))))
       (\<lambda>r. case r of None \<Rightarrow> fail ErrFolderNotFound | Some f \<Rightarrow> ret f)"

definition MoveFolder_pg :: "MoveFolderParams \<Rightarrow> ('x world_scheme, storage_err, unit) eff" where
  "MoveFolder_pg p =
     bindE (map_err folder_err
       (db_call (\<lambda>_. update_folders (\<lambda>f. folder_is (mf_FolderID p) (mf_UserID p) f \<and> is_active f)
          (\<lambda>f. f\<lparr>fo_ParentID := mf_NewParentID p\<rparr>))))
       (\<lambda>n. if n = 0 then fail ErrFolderNotFound else ret ())"

definition SearchFolders_pg ::
  "(string \<Rightarrow> string) \<Rightarrow> (string \<Rightarrow> string) \<Rightarrow> uuid \<Rightarrow> string
   \<Rightarrow> ('x world_scheme, pg_err, Folder list) eff" where
  "SearchFolders_pg lower collate userID q =
     query (\<lambda>_ d. take 50 (map scanFolder (sort_key (\<lambda>f. collate (fo_Name f))
       (filter (\<lambda>f. fo_UserID f = userID \<and> ilike lower (fo_Name f) (like_pattern q) \<and> is_active f)
         (folders d)))))"

definition IsDescendantOf_pg :: "uuid \<Rightarrow> uuid \<Rightarrow> ('x world_scheme, pg_err, bool) eff" where
  "IsDescendantOf_pg ancestorID candidateID =
     query (\<lambda>_ d. candidateID \<in> set (walk_depth is_active (folders d) 100
       (map fo_ID (filter (\<lambda>f. fo_ID f = ancestorID) (folders d)))))"

section \<open>Transactions\<close>

text \<open>
  A \<open>WITH RECURSIVE\<close> query that does not end runs until the context's deadline and fails; by
  \<open>subtree_walk_None\<close> these are exactly the walks that \<open>subtree_walk\<close> gives up on.
\<close>

definition subtree_ids :: "(Folder \<Rightarrow> bool) \<Rightarrow> (db \<Rightarrow> uuid list) \<Rightarrow> uuid list stmt" where
  "subtree_ids p start d =
     (case subtree_walk p (folders d) (start d) of None \<Rightarrow> Inl DbError | Some ids \<Rightarrow> Inr (ids, d))"

text \<open>\<open>id = ANY(ids)\<close> and \<open>folder_id = ANY(ids)\<close>\<close>

definition id_in :: "uuid list \<Rightarrow> Folder \<Rightarrow> bool" where
  "id_in ids f = (fo_ID f \<in> set ids)"

definition in_folders :: "uuid list \<Rightarrow> Blob \<Rightarrow> bool" where
  "in_folders ids b = (case bl_FolderID b of None \<Rightarrow> False | Some i \<Rightarrow> i \<in> set ids)"

definition TrashFolder_tx :: "uuid \<Rightarrow> uuid \<Rightarrow> time \<Rightarrow> bool stmt" where
  "TrashFolder_tx folderID userID now =
     stmt_bind (subtree_ids is_active
         (\<lambda>d. map fo_ID (filter (\<lambda>f. folder_is folderID userID f \<and> is_active f) (folders d))))
       (\<lambda>ids. if ids = [] then stmt_ret False
          else stmt_bind (update_folders (id_in ids) (\<lambda>f. f\<lparr>fo_DeletedAt := Some now\<rparr>))
            (\<lambda>_. stmt_bind (update_blobs (\<lambda>b. in_folders ids b \<and> bl_DeletedAt b = None)
                    (\<lambda>b. b\<lparr>bl_DeletedAt := Some now\<rparr>))
               (\<lambda>_. stmt_ret True)))"

definition TrashFolder_pg :: "uuid \<Rightarrow> uuid \<Rightarrow> ('x world_scheme, pg_err, bool) eff" where
  "TrashFolder_pg folderID userID = db_call (TrashFolder_tx folderID userID)"

definition RestoreFolder_tx :: "uuid \<Rightarrow> uuid \<Rightarrow> string option stmt" where
  "RestoreFolder_tx folderID userID =
     stmt_bind (stmt_read (\<lambda>d. find (\<lambda>f. folder_is folderID userID f \<and> fo_DeletedAt f \<noteq> None) (folders d)))
       (\<lambda>r. case r of
          None \<Rightarrow> stmt_ret None
        | Some f0 \<Rightarrow>
            stmt_bind (subtree_ids (\<lambda>_. True) (\<lambda>_. [folderID]))
              (\<lambda>ids. stmt_bind (stmt_read (\<lambda>d. restored_folder d (fo_ParentID f0)))
                (\<lambda>restoredParentID.
                   stmt_bind (update_folders (id_in ids)
                       (\<lambda>f. f\<lparr>fo_DeletedAt := None,
                             fo_ParentID := (if fo_ID f = folderID then restoredParentID
                                             else fo_ParentID f)\<rparr>))
                     (\<lambda>_. stmt_bind (update_blobs (\<lambda>b. in_folders ids b \<and> bl_DeletedAt b \<noteq> None)
                             (\<lambda>b. b\<lparr>bl_DeletedAt := None\<rparr>))
                        (\<lambda>_. stmt_ret (Some (fo_Name f0)))))))"

definition RestoreFolder_pg :: "uuid \<Rightarrow> uuid \<Rightarrow> ('x world_scheme, pg_err, string option) eff" where
  "RestoreFolder_pg folderID userID = db_call (\<lambda>_. RestoreFolder_tx folderID userID)"

text \<open>
  The blobs in a set of folders are deleted, then the parent references inside the set are cleared,
  then the folders are deleted; \<open>HardDeleteFolder\<close>, \<open>EmptyTrashedFolders\<close> and \<open>PurgeExpiredFolders\<close>
  run these three statements with their own conditions.
\<close>

definition remove_folders_tx :: "(db \<Rightarrow> Blob \<Rightarrow> bool) \<Rightarrow> (Folder \<Rightarrow> bool) \<Rightarrow> (Blob list \<times> Folder list) stmt" where
  "remove_folders_tx pb pf =
     stmt_bind (\<lambda>d. delete_blobs (pb d) d)
       (\<lambda>blobs. stmt_bind (update_folders pf (\<lambda>f. f\<lparr>fo_ParentID := None\<rparr>))
          (\<lambda>_. stmt_bind (delete_folders pf) (\<lambda>fs. stmt_ret (blobs, fs))))"

definition HardDeleteFolder_tx :: "uuid \<Rightarrow> uuid \<Rightarrow> (string list \<times> string) option stmt" where
  "HardDeleteFolder_tx folderID userID =
     stmt_bind (stmt_read (\<lambda>d. find (\<lambda>f. folder_is folderID userID f \<and> fo_DeletedAt f \<noteq> None) (folders d)))
       (\<lambda>r. case r of
          None \<Rightarrow> stmt_ret None
        | Some f0 \<Rightarrow>
            stmt_bind (subtree_ids (\<lambda>_. True) (\<lambda>_. [folderID]))
              (\<lambda>ids. stmt_bind (remove_folders_tx (\<lambda>_. in_folders ids) (id_in ids))
                 (\<lambda>(blobs, _). stmt_ret (Some (map bl_ObjectKey blobs, fo_Name f0)))))"

definition HardDeleteFolder_pg ::
  "uuid \<Rightarrow> uuid \<Rightarrow> ('x world_scheme, pg_err, (string list \<times> string) option) eff" where
  "HardDeleteFolder_pg folderID userID = db_call (\<lambda>_. HardDeleteFolder_tx folderID userID)"

definition ListTrashedFolders_pg ::
  "(string \<Rightarrow> string) \<Rightarrow> uuid \<Rightarrow> ('x world_scheme, pg_err, Folder list) eff" where
  "ListTrashedFolders_pg collate userID =
     query (\<lambda>_ d. map scanFolder (sort_key (\<lambda>f. collate (fo_Name f))
       (filter (\<lambda>f. fo_UserID f = userID \<and> fo_DeletedAt f \<noteq> None \<and> \<not> trashed_folder (fo_ParentID f) d)
         (folders d))))"

definition EmptyTrashedFolders_tx :: "uuid \<Rightarrow> (EmptiedFolder list \<times> string list) stmt" where
  "EmptyTrashedFolders_tx userID =
     stmt_bind (remove_folders_tx
         (\<lambda>d b. bl_UserID b = userID \<and>
            in_folders (map fo_ID (filter (\<lambda>f. fo_UserID f = userID \<and> fo_DeletedAt f \<noteq> None) (folders d))) b)
         (\<lambda>f. fo_UserID f = userID \<and> fo_DeletedAt f \<noteq> None))
       (\<lambda>(blobs, fs). stmt_ret (map (\<lambda>f. \<lparr>ef_ID = fo_ID f, ef_Name = fo_Name f\<rparr>) fs,
                               map bl_ObjectKey blobs))"

definition EmptyTrashedFolders_pg ::
  "uuid \<Rightarrow> ('x world_scheme, pg_err, EmptiedFolder list \<times> string list) eff" where
  "EmptyTrashedFolders_pg userID = db_call (\<lambda>_. EmptyTrashedFolders_tx userID)"

definition PurgeExpiredFolders_tx :: "time \<Rightarrow> string list stmt" where
  "PurgeExpiredFolders_tx before =
     stmt_bind (remove_folders_tx
         (\<lambda>d. in_folders (map fo_ID (filter (\<lambda>f. expired before (fo_DeletedAt f)) (folders d))))
         (\<lambda>f. expired before (fo_DeletedAt f)))
       (\<lambda>(blobs, _). stmt_ret (map bl_ObjectKey blobs))"

definition PurgeExpiredFolders_pg :: "time \<Rightarrow> ('x world_scheme, pg_err, string list) eff" where
  "PurgeExpiredFolders_pg before = db_call (\<lambda>_. PurgeExpiredFolders_tx before)"

section \<open>The fuel of the recursive queries\<close>

text \<open>
  The bound on the rounds of the recursive queries hides no result: a subtree query fails for want of
  rounds only when no number of rounds would end it.
\<close>

lemma subtree_ids_fuel_exact:
  "subtree_ids p start d = Inl DbError \<longleftrightarrow> (\<forall>n. walk p (folders d) n (start d) = None)"
  unfolding subtree_walk_None [symmetric] by (simp add: subtree_ids_def split: option.splits)

end
