(* ===== verification/Storage_Service.thy ===== *)
theory Storage_Service
  imports Folder_Repo
begin

text \<open>
  \<open>internal/usecase/storage/service.go\<close>: the operations on files, folders and the trash, over the
  PostgreSQL repositories and the object store. \<open>fmt.Errorf\<close> with \<open>%w\<close> keeps the wrapped error, so it
  is not written. Each \<open>context.WithTimeout\<close> can end a call with an error, which is a fault of the
  world's schedule. Shown here: what file names survive \<open>sanitizeFileName\<close>, the quota check, and the
  order in which the object store and the database are changed.
\<close>

section \<open>State and parameters\<close>

record 'o sworld = world +
  w_obj :: 'o

record 'o Service =
  sv_Objects :: "'o Store"
  sv_PresignTTL :: int
  sv_MaxUploadBytes :: int64
  sv_QuotaBytes :: int64

record StorageUsage =
  su_UsedBytes :: int64
  su_QuotaBytes :: int64

record PresignGetResult =
  pg_BlobID :: uuid
  pg_ObjectKey :: string
  pg_DownloadURL :: string
  pg_ExpiresIn :: int
  pg_HTTPMethod :: string
  pg_ContentType :: string
  pg_EncryptedFileKey :: bytes
  pg_FileName :: string
  pg_FileSize :: int64
  pg_FileSizePlain :: int64
  pg_ChunkSize :: int32

record FolderMoveInfo =
  fm_FolderName :: string
  fm_SrcFolderName :: string
  fm_DstFolderName :: string

record TrashResult =
  tr_Blobs :: "Blob list"
  tr_Folders :: "Folder list"

record SearchParams =
  sp_UserID :: uuid
  sp_Query :: string

record SearchResult =
  se_Blobs :: "SearchBlobRecord list"
  se_Folders :: "Folder list"

record InitiateMultipartParams =
  im_UserID :: uuid
  im_FileName :: string
  im_ContentType :: string
  im_FileSize :: int64
  im_FileSizePlain :: int64
  im_ChunkSize :: int32
  im_PartCount :: int
  im_EncryptedFileKey :: bytes
  im_FolderID :: "uuid option"

record PartURL =
  pu_PartNumber :: int
  pu_URL :: string

record InitiateMultipartResult =
  ir_BlobID :: uuid
  ir_UploadID :: string
  ir_PartURLs :: "PartURL list"

record CompleteMultipartParams =
  cm_BlobID :: uuid
  cm_UserID :: uuid
  cm_Parts :: "UploadedPart list"

text \<open>A call of the object store inside the service's world.\<close>

definition obj_call :: "('o, minio_err, 'a) eff \<Rightarrow> ('o sworld, storage_err, 'a) eff" where
  "obj_call m w = (case m (w_obj w) of
     (Inl e, s) \<Rightarrow> (Inl (Obj e), w\<lparr>w_obj := s\<rparr>) | (Inr x, s) \<Rightarrow> (Inr x, w\<lparr>w_obj := s\<rparr>))"

text \<open>\<open>x, ok, err := m(); if err != nil { return err }; if !ok { return e }\<close>\<close>

definition found :: "storage_err \<Rightarrow> ('w, pg_err, 'a option) eff \<Rightarrow> ('w, storage_err, 'a) eff" where
  "found e m = bindE (map_err Db m) (\<lambda>r. case r of None \<Rightarrow> fail e | Some x \<Rightarrow> ret x)"

text \<open>
  Two goroutines of an \<open>errgroup\<close>, each one call: \<open>second\<close> tells which one reaches the database
  first; \<open>g.Wait\<close> returns the first error.
\<close>

definition errgroup2 ::
  "bool \<Rightarrow> ('w, 'e, 'a) eff \<Rightarrow> ('w, 'e, 'b) eff \<Rightarrow> ('w, 'e, 'a \<times> 'b) eff" where
  "errgroup2 second m n =
     (if second
      then attempt n (\<lambda>r2. attempt m (\<lambda>r1. case (r2, r1) of
             (Inl e, _) \<Rightarrow> fail e | (Inr _, Inl e) \<Rightarrow> fail e | (Inr y, Inr x) \<Rightarrow> ret (x, y)))
      else attempt m (\<lambda>r1. attempt n (\<lambda>r2. case (r1, r2) of
             (Inl e, _) \<Rightarrow> fail e | (Inr _, Inl e) \<Rightarrow> fail e | (Inr x, Inr y) \<Rightarrow> ret (x, y))))"

section \<open>Files\<close>

definition GetStorageUsage :: "'o Service \<Rightarrow> uuid \<Rightarrow> ('o sworld, storage_err, StorageUsage) eff" where
  "GetStorageUsage s userID =
     bindE (map_err Db (GetUserStorageUsed_pg userID))
       (\<lambda>used. ret \<lparr>su_UsedBytes = used, su_QuotaBytes = sv_QuotaBytes s\<rparr>)"

definition PresignGet :: "'o Service \<Rightarrow> uuid \<Rightarrow> uuid \<Rightarrow> ('o sworld, storage_err, PresignGetResult) eff" where
  "PresignGet s userID blobID =
     bindE (found ErrNotFound (GetBlobMeta_pg blobID userID))
       (\<lambda>meta. bindE (obj_call (PresignedGetObject (sv_Objects s) (bm_ObjectKey meta) (sv_PresignTTL s)))
         (\<lambda>u. ret \<lparr>pg_BlobID = blobID, pg_ObjectKey = bm_ObjectKey meta, pg_DownloadURL = u,
                   pg_ExpiresIn = Duration_Seconds (sv_PresignTTL s), pg_HTTPMethod = ''GET'',
                   pg_ContentType = bm_ContentType meta,
                   pg_EncryptedFileKey = bm_EncryptedFileKey meta, pg_FileName = bm_FileName meta,
                   pg_FileSize = bm_FileSize meta, pg_FileSizePlain = bm_FileSizePlain meta,
                   pg_ChunkSize = bm_ChunkSize meta\<rparr>))"

definition DeleteBlob :: "uuid \<Rightarrow> uuid \<Rightarrow> ('o sworld, storage_err, string) eff" where
  "DeleteBlob userID blobID = found ErrNotFound (TrashBlob_pg blobID userID)"

definition RestoreBlob :: "uuid \<Rightarrow> uuid \<Rightarrow> ('o sworld, storage_err, string) eff" where
  "RestoreBlob userID blobID = found ErrNotFound (RestoreBlob_pg blobID userID)"

definition HardDeleteBlob :: "'o Service \<Rightarrow> uuid \<Rightarrow> uuid \<Rightarrow> ('o sworld, storage_err, string) eff" where
  "HardDeleteBlob s userID blobID =
     bindE (found ErrNotFound (PeekTrashedBlob_pg blobID userID))
       (\<lambda>(objectKey, fileName).
          bindE (obj_call (RemoveObject (sv_Objects s) objectKey))
            (\<lambda>_. bindE (map_err Db (HardDeleteBlob_pg blobID userID)) (\<lambda>_. ret fileName)))"

definition ListBlobs :: "uuid \<Rightarrow> ('o sworld, storage_err, Blob list) eff" where
  "ListBlobs userID = map_err Db (ListBlobs_pg userID)"

definition requireFolder :: "uuid \<Rightarrow> uuid \<Rightarrow> ('o sworld, storage_err, unit) eff" where
  "requireFolder folderID userID =
     bindE (found ErrFolderNotFound (GetFolder_pg folderID userID)) (\<lambda>_. ret ())"

definition ListBlobsInFolder :: "uuid \<Rightarrow> uuid option \<Rightarrow> ('o sworld, storage_err, Blob list) eff" where
  "ListBlobsInFolder userID folderID =
     bindE (case folderID of None \<Rightarrow> ret () | Some f \<Rightarrow> requireFolder f userID)
       (\<lambda>_. map_err Db (ListBlobsInFolder_pg userID folderID))"

text \<open>The name of a folder of the user, empty for the root.\<close>

definition folder_name_of :: "uuid option \<Rightarrow> uuid \<Rightarrow> ('o sworld, storage_err, string) eff" where
  "folder_name_of r userID =
     (case r of None \<Rightarrow> ret []
      | Some f \<Rightarrow> bindE (found ErrFolderNotFound (GetFolder_pg f userID)) (\<lambda>x. ret (fo_Name x)))"

definition MoveBlob :: "uuid \<Rightarrow> uuid \<Rightarrow> uuid option \<Rightarrow> ('o sworld, storage_err, MoveBlobInfo) eff" where
  "MoveBlob userID blobID folderID =
     bindE (folder_name_of folderID userID)
       (\<lambda>dstFolderName. bindE (found ErrNotFound (MoveBlob_pg blobID userID folderID))
          (\<lambda>info. ret (info\<lparr>mi_DstFolderName := dstFolderName\<rparr>)))"

definition sanitizeFileName :: "string \<Rightarrow> string" where
  "sanitizeFileName name0 =
     (let name1 = TrimSpace name0 in
      if name1 = [] then ''file.bin''
      else let name2 = Base (ReplaceAll1 backslash [slash] name1)
           in if name2 = ''.'' \<or> name2 = ''..'' then ''file.bin'' else name2)"

definition RenameBlob :: "uuid \<Rightarrow> uuid \<Rightarrow> string \<Rightarrow> ('o sworld, storage_err, unit) eff" where
  "RenameBlob userID blobID name =
     bindE (map_err Db (RenameBlob_pg blobID userID (sanitizeFileName name)))
       (\<lambda>ok. if \<not> ok then fail ErrNotFound else ret ())"

section \<open>Folders\<close>

definition CreateFolder ::
  "uuid \<Rightarrow> CreateFolderParams \<Rightarrow> ('o sworld, storage_err, Folder \<times> string) eff" where
  "CreateFolder newID p =
     bindE (folder_name_of (cf_ParentID p) (cf_UserID p))
       (\<lambda>parentFolderName. bindE (CreateFolder_pg newID p) (\<lambda>f. ret (f, parentFolderName)))"

definition GetFolder :: "uuid \<Rightarrow> uuid \<Rightarrow> ('o sworld, storage_err, Folder) eff" where
  "GetFolder userID folderID = found ErrFolderNotFound (GetFolder_pg folderID userID)"

definition ListFolders ::
  "(string \<Rightarrow> string) \<Rightarrow> uuid \<Rightarrow> uuid option \<Rightarrow> ('o sworld, storage_err, Folder list) eff" where
  "ListFolders collate userID parentID =
     bindE (case parentID of None \<Rightarrow> ret () | Some f \<Rightarrow> requireFolder f userID)
       (\<lambda>_. map_err Db (ListFolders_pg collate userID parentID))"

definition RenameFolder :: "uuid \<Rightarrow> uuid \<Rightarrow> string \<Rightarrow> ('o sworld, storage_err, Folder) eff" where
  "RenameFolder userID folderID name = RenameFolder_pg folderID userID name"

text \<open>The checks of \<open>MoveFolder\<close> on the new parent; the result is its name.\<close>

definition move_target :: "MoveFolderParams \<Rightarrow> ('o sworld, storage_err, string) eff" where
  "move_target p =
     (case mf_NewParentID p of
        None \<Rightarrow> ret []
      | Some newParent \<Rightarrow>
          if newParent = mf_FolderID p then fail ErrFolderCycle
          else bindE (found ErrFolderNotFound (GetFolder_pg newParent (mf_UserID p)))
            (\<lambda>dstFolder. bindE (map_err Db (IsDescendantOf_pg (mf_FolderID p) newParent))
               (\<lambda>isDesc. if isDesc then fail ErrFolderCycle else ret (fo_Name dstFolder))))"

text \<open>The source folder's name; an error of the query leaves it empty.\<close>

definition source_name :: "uuid option \<Rightarrow> uuid \<Rightarrow> ('o sworld, storage_err, string) eff" where
  "source_name r userID =
     (case r of None \<Rightarrow> ret []
      | Some pid \<Rightarrow> attempt (GetFolder_pg pid userID)
          (\<lambda>q. case q of Inr (Some f) \<Rightarrow> ret (fo_Name f) | _ \<Rightarrow> ret []))"

definition MoveFolder :: "MoveFolderParams \<Rightarrow> ('o sworld, storage_err, FolderMoveInfo) eff" where
  "MoveFolder p =
     bindE (found ErrFolderNotFound (GetFolder_pg (mf_FolderID p) (mf_UserID p)))
       (\<lambda>folder. bindE (source_name (fo_ParentID folder) (mf_UserID p))
          (\<lambda>srcFolderName. bindE (move_target p)
             (\<lambda>dstFolderName. bindE (MoveFolder_pg p)
                (\<lambda>_. ret \<lparr>fm_FolderName = fo_Name folder, fm_SrcFolderName = srcFolderName,
                          fm_DstFolderName = dstFolderName\<rparr>))))"

definition DeleteFolder :: "uuid \<Rightarrow> uuid \<Rightarrow> ('o sworld, storage_err, string) eff" where
  "DeleteFolder userID folderID =
     bindE (found ErrFolderNotFound (GetFolder_pg folderID userID))
       (\<lambda>folder. bindE (map_err Db (TrashFolder_pg folderID userID))
          (\<lambda>trashed. if \<not> trashed then fail ErrFolderNotFound else ret (fo_Name folder)))"

definition RestoreFolder :: "uuid \<Rightarrow> uuid \<Rightarrow> ('o sworld, storage_err, string) eff" where
  "RestoreFolder userID folderID = found ErrFolderNotFound (RestoreFolder_pg folderID userID)"

text \<open>\<open>for _, key := range keys { _ = s.Objects.RemoveObject(ctx, key) }\<close>\<close>

definition remove_objects :: "'o Service \<Rightarrow> string list \<Rightarrow> ('o sworld, storage_err, unit) eff" where
  "remove_objects s = for_ignore (\<lambda>key. obj_call (RemoveObject (sv_Objects s) key))"

definition HardDeleteFolder :: "'o Service \<Rightarrow> uuid \<Rightarrow> uuid \<Rightarrow> ('o sworld, storage_err, string) eff" where
  "HardDeleteFolder s userID folderID =
     bindE (found ErrFolderNotFound (HardDeleteFolder_pg folderID userID))
       (\<lambda>(objectKeys, name). bindE (remove_objects s objectKeys) (\<lambda>_. ret name))"

section \<open>Trash and search\<close>

definition ListTrash ::
  "bool \<Rightarrow> (string \<Rightarrow> string) \<Rightarrow> uuid \<Rightarrow> ('o sworld, storage_err, TrashResult) eff" where
  "ListTrash second collate userID =
     bindE (errgroup2 second (map_err Db (ListTrashedBlobs_pg userID))
              (map_err Db (ListTrashedFolders_pg collate userID)))
       (\<lambda>(blobs, fs). ret \<lparr>tr_Blobs = blobs, tr_Folders = fs\<rparr>)"

definition EmptyTrash ::
  "'o Service \<Rightarrow> uuid \<Rightarrow> ('o sworld, storage_err, EmptiedBlob list \<times> EmptiedFolder list) eff" where
  "EmptyTrash s userID =
     bindE (map_err Db (EmptyTrashedBlobs_pg userID))
       (\<lambda>blobs. bindE (map_err Db (EmptyTrashedFolders_pg userID))
          (\<lambda>(fs, folderBlobKeys).
             bindE (remove_objects s (map eb_ObjectKey blobs))
               (\<lambda>_. bindE (remove_objects s folderBlobKeys) (\<lambda>_. ret (blobs, fs)))))"

definition Search ::
  "bool \<Rightarrow> (string \<Rightarrow> string) \<Rightarrow> (string \<Rightarrow> string) \<Rightarrow> SearchParams
   \<Rightarrow> ('o sworld, storage_err, SearchResult) eff" where
  "Search second lower collate p =
     bindE (errgroup2 second (map_err Db (SearchBlobs_pg lower (sp_UserID p) (sp_Query p)))
              (map_err Db (SearchFolders_pg lower collate (sp_UserID p) (sp_Query p))))
       (\<lambda>(blobs, fs). ret \<lparr>se_Blobs = blobs, se_Folders = fs\<rparr>)"

section \<open>Uploads and clean-up\<close>

text \<open>What frees the store's space for a pending blob: the multipart upload or the object.\<close>

definition release_upload :: "'o Service \<Rightarrow> string \<Rightarrow> string \<Rightarrow> ('o sworld, storage_err, unit) eff" where
  "release_upload s objectKey uploadID =
     (if uploadID \<noteq> [] then obj_call (AbortMultipartUpload (sv_Objects s) objectKey uploadID)
      else obj_call (RemoveObject (sv_Objects s) objectKey))"

definition AbortUpload :: "'o Service \<Rightarrow> uuid \<Rightarrow> uuid \<Rightarrow> ('o sworld, storage_err, unit) eff" where
  "AbortUpload s userID blobID =
     bindE (found ErrNotFound (GetPendingBlobMeta_pg blobID userID))
       (\<lambda>pending. bindE (release_upload s (pm_ObjectKey pending) (pm_UploadID pending))
          (\<lambda>_. bindE (map_err Db (AbortPendingBlob_pg blobID userID)) (\<lambda>_. ret ())))"

text \<open>\<open>time.Now()\<close> is the world's clock.\<close>

definition now_minus :: "int \<Rightarrow> ('x world_scheme, 'e, time) eff" where
  "now_minus ttl w = (Inr (w_now w - ttl), w)"

definition CleanOrphanedBlobs :: "'o Service \<Rightarrow> int \<Rightarrow> ('o sworld, storage_err, unit) eff" where
  "CleanOrphanedBlobs s ttl =
     bindE (now_minus ttl)
       (\<lambda>before. bindE (map_err Db (PurgeOrphanedBlobs_pg before))
          (\<lambda>blobs. for_ignore (\<lambda>b. release_upload s (ob_ObjectKey b) (ob_UploadID b)) blobs))"

definition CleanExpiredTrash :: "'o Service \<Rightarrow> int \<Rightarrow> ('o sworld, storage_err, unit) eff" where
  "CleanExpiredTrash s ttl =
     bindE (now_minus ttl)
       (\<lambda>before. bindE (map_err Db (PurgeExpiredBlobs_pg before))
          (\<lambda>blobKeys. bindE (map_err Db (PurgeExpiredFolders_pg before))
             (\<lambda>folderBlobKeys. remove_objects s (blobKeys @ folderBlobKeys))))"

text \<open>\<open>fmt.Sprintf("%s/%s", p.UserID, blobID)\<close>; \<open>uuid_String\<close> is the library's \<open>UUID.String\<close>.\<close>

definition object_key :: "(uuid \<Rightarrow> string) \<Rightarrow> uuid \<Rightarrow> uuid \<Rightarrow> string" where
  "object_key uuid_String userID blobID = uuid_String userID @ ''/'' @ uuid_String blobID"

definition quota_check :: "'o Service \<Rightarrow> InitiateMultipartParams \<Rightarrow> ('o sworld, storage_err, unit) eff" where
  "quota_check s p =
     (if sint (sv_QuotaBytes s) > 0 then
        bindE (map_err Db (GetUserStorageUsed_pg (im_UserID p)))
          (\<lambda>used. if sint (used + im_FileSize p) > sint (sv_QuotaBytes s) then fail ErrQuotaExceeded
                  else ret ())
      else ret ())"

fun presign_parts ::
  "'o Service \<Rightarrow> string \<Rightarrow> string \<Rightarrow> int list \<Rightarrow> ('o sworld, storage_err, PartURL list) eff" where
  "presign_parts s objectKey uploadID [] = ret []"
| "presign_parts s objectKey uploadID (i # is) =
     attempt (obj_call (PresignUploadPart (sv_Objects s) objectKey uploadID i (sv_PresignTTL s)))
       (\<lambda>r. case r of
          Inl e \<Rightarrow> bindE (ignore (obj_call (AbortMultipartUpload (sv_Objects s) objectKey uploadID)))
                    (\<lambda>_. fail e)
        | Inr u \<Rightarrow> bindE (presign_parts s objectKey uploadID is)
                    (\<lambda>rest. ret (\<lparr>pu_PartNumber = i, pu_URL = u\<rparr> # rest)))"

text \<open>\<open>blobID\<close> is the result of \<open>uuid.New()\<close>; \<open>make\<close> with a negative length panics.\<close>

definition InitiateMultipartUpload ::
  "'o Service \<Rightarrow> (uuid \<Rightarrow> string) \<Rightarrow> uuid \<Rightarrow> InitiateMultipartParams
   \<Rightarrow> ('o sworld, storage_err, InitiateMultipartResult) eff" where
  "InitiateMultipartUpload s uuid_String blobID p =
     (let cleanName = sanitizeFileName (im_FileName p);
          objectKey = object_key uuid_String (im_UserID p) blobID
      in if sint (sv_MaxUploadBytes s) > 0 \<and> sint (im_FileSize p) > sint (sv_MaxUploadBytes s)
         then fail ErrFileTooLarge
         else bindE (quota_check s p)
           (\<lambda>_. bindE (case im_FolderID p of None \<Rightarrow> ret () | Some f \<Rightarrow> requireFolder f (im_UserID p))
           (\<lambda>_. bindE (obj_call (NewMultipartUpload (sv_Objects s) objectKey))
           (\<lambda>uploadID. bindE
              (attempt (RegisterBlob_pg
                 \<lparr>rb_ID = blobID, rb_UserID = im_UserID p, rb_FileName = cleanName,
                  rb_ContentType = TrimSpace (im_ContentType p), rb_ObjectKey = objectKey,
                  rb_FileSize = im_FileSize p, rb_FileSizePlain = im_FileSizePlain p,
                  rb_ChunkSize = im_ChunkSize p, rb_EncryptedFileKey = im_EncryptedFileKey p,
                  rb_FolderID = im_FolderID p, rb_UploadID = uploadID\<rparr>)
                 (\<lambda>r. case r of
                    Inl e \<Rightarrow> bindE (ignore (obj_call (AbortMultipartUpload (sv_Objects s) objectKey uploadID)))
                              (\<lambda>_. fail (Db e))
                  | Inr _ \<Rightarrow> ret ()))
           (\<lambda>_. if im_PartCount p < 0 then fail GoPanic
                else bindE (presign_parts s objectKey uploadID [1..im_PartCount p])
           (\<lambda>partURLs. ret \<lparr>ir_BlobID = blobID, ir_UploadID = uploadID, ir_PartURLs = partURLs\<rparr>))))))"

definition CompleteMultipartUpload ::
  "'o Service \<Rightarrow> CompleteMultipartParams \<Rightarrow> ('o sworld, storage_err, unit) eff" where
  "CompleteMultipartUpload s p =
     bindE (found ErrNotFound (GetPendingBlobMeta_pg (cm_BlobID p) (cm_UserID p)))
       (\<lambda>meta. if pm_UploadID meta = [] then fail ErrNotFound
          else bindE (obj_call (CompleteMultipartUpload_store (sv_Objects s) (pm_ObjectKey meta)
                       (pm_UploadID meta) (cm_Parts p)))
            (\<lambda>_. bindE (obj_call (StatObject (sv_Objects s) (pm_ObjectKey meta)))
               (\<lambda>actualSize. bindE (map_err Db
                      (ConfirmBlobUpload_pg (cm_BlobID p) (cm_UserID p) actualSize))
                  (\<lambda>confirmed. if \<not> confirmed then fail ErrNotFound else ret ()))))"

end
