(* ===== verification/Storage_Invariant.thy ===== *)
theory Storage_Invariant
  imports Storage_Service
begin

text \<open>
  What the operations of the storage service keep true of the folder and blob tables. Beyond the
  constraints the database enforces, the code maintains that references stay inside one account,
  that whatever lies in a trashed folder is itself in the trash, since no later than the folder,
  and that no row was trashed in the future. The purges rely on it: they never hit a
  foreign key (\<open>PurgeExpiredFolders_total\<close>, \<open>EmptyTrashedFolders_total\<close>, \<open>HardDeleteFolder_total\<close>).
\<close>

section \<open>The invariant\<close>

text \<open>Something trashed at \<open>c\<close> may lie in a folder trashed at \<open>p\<close>.\<close>

definition trash_le :: "time option \<Rightarrow> time option \<Rightarrow> bool" where
  "trash_le c p = (case p of None \<Rightarrow> True | Some tp \<Rightarrow> (case c of None \<Rightarrow> False | Some tc \<Rightarrow> tc \<le> tp))"

definition past :: "time \<Rightarrow> time option \<Rightarrow> bool" where
  "past now t = (case t of None \<Rightarrow> True | Some x \<Rightarrow> x \<le> now)"

text \<open>A reference of a row of \<open>owner\<close>, trashed at \<open>del\<close>, into the folder table \<open>t\<close>.\<close>

definition ref_ok :: "Folder list \<Rightarrow> uuid option \<Rightarrow> uuid \<Rightarrow> time option \<Rightarrow> bool" where
  "ref_ok t r owner del =
     (case r of None \<Rightarrow> True
      | Some i \<Rightarrow> \<exists>p \<in> set t. fo_ID p = i \<and> fo_UserID p = owner \<and> trash_le del (fo_DeletedAt p))"

definition folder_ok :: "time \<Rightarrow> Folder list \<Rightarrow> Folder \<Rightarrow> bool" where
  "folder_ok now t f =
     (ref_ok t (fo_ParentID f) (fo_UserID f) (fo_DeletedAt f) \<and> past now (fo_DeletedAt f)
      \<and> folder_name_ok (fo_Name f))"

definition blob_ok :: "time \<Rightarrow> Folder list \<Rightarrow> Blob \<Rightarrow> bool" where
  "blob_ok now t b = (ref_ok t (bl_FolderID b) (bl_UserID b) (bl_DeletedAt b) \<and> past now (bl_DeletedAt b))"

definition wf_db :: "time \<Rightarrow> db \<Rightarrow> bool" where
  "wf_db now d =
     (folder_ids_distinct (folders d) \<and> folder_names_unique (folders d)
      \<and> distinct (map bl_ID (stored_blobs d)) \<and> distinct (map bl_ObjectKey (stored_blobs d))
      \<and> (\<forall>f \<in> set (folders d). folder_ok now (folders d) f)
      \<and> (\<forall>b \<in> set (stored_blobs d). blob_ok now (folders d) b))"

lemmas ok_defs = folder_ok_def blob_ok_def ref_ok_def

lemma trash_le_simps [simp]:
  "trash_le c None" "trash_le (Some x) (Some t) = (x \<le> t)"
  by (simp_all add: trash_le_def)

lemma past_simps [simp]: "past now None" "past now (Some x) = (x \<le> now)"
  by (simp_all add: past_def)

lemma trash_le_now: "past now c \<Longrightarrow> c \<noteq> None \<Longrightarrow> trash_le c (Some now)"
  by (cases c) auto

lemma trash_le_None [simp]: "trash_le None p = (p = None)"
  by (cases p) (simp_all add: trash_le_def)

lemma trash_le_active: "trash_le None p \<Longrightarrow> p = None"
  by simp

lemma past_mono: "past now c \<Longrightarrow> now \<le> now' \<Longrightarrow> past now' c"
  by (cases c) auto

lemma wf_dbD:
  assumes "wf_db now d"
  shows "folder_ids_distinct (folders d)" "folder_names_unique (folders d)"
    "distinct (map bl_ID (stored_blobs d))" "distinct (map bl_ObjectKey (stored_blobs d))"
    "\<And>f. f \<in> set (folders d) \<Longrightarrow> folder_ok now (folders d) f"
    "\<And>b. b \<in> set (stored_blobs d) \<Longrightarrow> blob_ok now (folders d) b"
  using assms by (auto simp: wf_db_def)

text \<open>The invariant survives the passing of time.\<close>

lemma wf_db_mono: "wf_db now d \<Longrightarrow> now \<le> now' \<Longrightarrow> wf_db now' d"
  by (auto simp: wf_db_def folder_ok_def blob_ok_def intro: past_mono)

lemma ref_okE:
  assumes "ref_ok t (Some i) owner del"
  obtains p where "p \<in> set t" "fo_ID p = i" "fo_UserID p = owner" "trash_le del (fo_DeletedAt p)"
  using assms by (auto simp: ref_ok_def)

text \<open>Where an active row may point, a trashed one may too.\<close>

lemma ref_ok_trash: "ref_ok t r owner None \<Longrightarrow> ref_ok t r owner del"
  by (fastforce simp: ref_ok_def split: option.splits)

lemma folder_unique:
  "folder_ids_distinct t \<Longrightarrow> f \<in> set t \<Longrightarrow> g \<in> set t \<Longrightarrow> fo_ID f = fo_ID g \<Longrightarrow> f = g"
  unfolding folder_ids_distinct_def by (rule distinct_map_eqD)

text \<open>In a consistent table the parent of an active folder is active.\<close>

lemma parent_active:
  assumes "wf_db now d" and "f \<in> set (folders d)" and "is_active f"
    and "p \<in> set (folders d)" and "fo_ParentID f = Some (fo_ID p)"
  shows "is_active p"
proof -
  have "ref_ok (folders d) (Some (fo_ID p)) (fo_UserID f) None"
    using wf_dbD(5) [OF assms(1,2)] assms(3,5) by (simp add: folder_ok_def is_active_def)
  then obtain q where "q \<in> set (folders d)" "fo_ID q = fo_ID p" "trash_le None (fo_DeletedAt q)"
    by (elim ref_okE)
  with folder_unique [OF wf_dbD(1) [OF assms(1)]] assms(4) show ?thesis
    by (metis is_active_def trash_le_active)
qed

section \<open>Rewriting and deleting rows\<close>

text \<open>
  Every statement that updates or deletes keeps some rows (\<open>kf\<close>, \<open>kb\<close>) and rewrites them (\<open>u\<close>, \<open>v\<close>).
  The invariant is kept when keys and owners stay and each kept reference points to a kept folder
  that allows it.
\<close>

lemma distinct_map_rewrite:
  "distinct (map f xs) \<Longrightarrow> (\<And>x. x \<in> set xs \<Longrightarrow> f (u x) = f x) \<Longrightarrow> distinct (map f (map u (filter k xs)))"
  by (simp add: distinct_map inj_on_def comp_def)

lemma wf_rewrite:
  assumes wf: "wf_db now d"
    and fs: "folders d' = map u (filter kf (folders d))"
    and bs: "stored_blobs d' = map v (filter kb (stored_blobs d))"
    and u: "\<And>f. f \<in> set (folders d) \<Longrightarrow> fo_ID (u f) = fo_ID f"
    and uo: "\<And>f. f \<in> set (folders d) \<Longrightarrow> fo_UserID (u f) = fo_UserID f"
    and ut: "\<And>f. f \<in> set (folders d) \<Longrightarrow> kf f \<Longrightarrow> past now (fo_DeletedAt (u f))"
    and un: "\<And>f. f \<in> set (folders d) \<Longrightarrow> kf f \<Longrightarrow> folder_name_ok (fo_Name (u f))"
    and ur: "\<And>f i. f \<in> set (folders d) \<Longrightarrow> kf f \<Longrightarrow> fo_ParentID (u f) = Some i \<Longrightarrow>
      \<exists>p \<in> set (folders d). kf p \<and> fo_ID p = i \<and> fo_UserID p = fo_UserID f
         \<and> trash_le (fo_DeletedAt (u f)) (fo_DeletedAt (u p))"
    and v: "\<And>b. b \<in> set (stored_blobs d) \<Longrightarrow>
      bl_ID (v b) = bl_ID b \<and> bl_ObjectKey (v b) = bl_ObjectKey b \<and> bl_UserID (v b) = bl_UserID b"
    and vt: "\<And>b. b \<in> set (stored_blobs d) \<Longrightarrow> kb b \<Longrightarrow> past now (bl_DeletedAt (v b))"
    and vr: "\<And>b i. b \<in> set (stored_blobs d) \<Longrightarrow> kb b \<Longrightarrow> bl_FolderID (v b) = Some i \<Longrightarrow>
      \<exists>p \<in> set (folders d). kf p \<and> fo_ID p = i \<and> fo_UserID p = bl_UserID b
         \<and> trash_le (bl_DeletedAt (v b)) (fo_DeletedAt (u p))"
    and names: "folder_names_unique (folders d')"
  shows "wf_db now d'"
  unfolding wf_db_def
proof (intro conjI ballI names)
  show "folder_ids_distinct (folders d')"
    using distinct_map_rewrite [of fo_ID "folders d" u kf] wf_dbD(1) [OF wf] u
    by (simp add: folder_ids_distinct_def fs)
  show "distinct (map bl_ID (stored_blobs d'))"
    using distinct_map_rewrite [of bl_ID "stored_blobs d" v kb] wf_dbD(3) [OF wf] v by (simp add: bs)
  show "distinct (map bl_ObjectKey (stored_blobs d'))"
    using distinct_map_rewrite [of bl_ObjectKey "stored_blobs d" v kb] wf_dbD(4) [OF wf] v
    by (simp add: bs)
  have ref: "ref_ok (folders d') (Some i) o' del"
    if "\<exists>p \<in> set (folders d). kf p \<and> fo_ID p = i \<and> fo_UserID p = o' \<and> trash_le del (fo_DeletedAt (u p))"
    for i o' del
    using that u uo by (auto simp: ref_ok_def fs)
  show "folder_ok now (folders d') f'" if "f' \<in> set (folders d')" for f'
  proof -
    from that obtain f where f: "f \<in> set (folders d)" "kf f" "f' = u f" by (auto simp: fs)
    with ut [of f] un [of f] ur [of f] uo [of f] ref show ?thesis
      by (cases "fo_ParentID (u f)") (simp_all add: folder_ok_def ref_ok_def [of _ None])
  qed
  show "blob_ok now (folders d') b'" if "b' \<in> set (stored_blobs d')" for b'
  proof -
    from that obtain b where b: "b \<in> set (stored_blobs d)" "kb b" "b' = v b" by (auto simp: bs)
    with vt [of b] vr [of b] v [of b] ref show ?thesis
      by (cases "bl_FolderID (v b)") (simp_all add: blob_ok_def ref_ok_def [of _ None])
  qed
qed

lemma names_unique_filter:
  assumes "folder_names_unique t"
  shows "folder_names_unique (filter k t)"
proof -
  have "filter (\<lambda>f. fo_DeletedAt f = None) (filter k t) = filter k (filter (\<lambda>f. fo_DeletedAt f = None) t)"
    by (simp add: conj_commute)
  then show ?thesis
    using assms by (simp only: folder_names_unique_def active_folder_keys_def distinct_map_filter)
qed

text \<open>Updates of blobs alone, and deletions: instances of \<open>wf_rewrite\<close>.\<close>

lemma blob_refD:
  assumes "wf_db now d" and "b \<in> set (stored_blobs d)" and "bl_FolderID b = Some i"
  shows "\<exists>p \<in> set (folders d). fo_ID p = i \<and> fo_UserID p = bl_UserID b
           \<and> trash_le (bl_DeletedAt b) (fo_DeletedAt p)"
  using wf_dbD(6) [OF assms(1,2)] assms(3) by (simp add: blob_ok_def ref_ok_def)

lemma folder_refD:
  assumes "wf_db now d" and "f \<in> set (folders d)" and "fo_ParentID f = Some i"
  shows "\<exists>p \<in> set (folders d). fo_ID p = i \<and> fo_UserID p = fo_UserID f
           \<and> trash_le (fo_DeletedAt f) (fo_DeletedAt p)"
  using wf_dbD(5) [OF assms(1,2)] assms(3) by (simp add: folder_ok_def ref_ok_def)

lemma folder_pastD: "wf_db now d \<Longrightarrow> f \<in> set (folders d) \<Longrightarrow> past now (fo_DeletedAt f)"
  by (simp add: wf_db_def folder_ok_def)

lemma folder_nameD: "wf_db now d \<Longrightarrow> f \<in> set (folders d) \<Longrightarrow> folder_name_ok (fo_Name f)"
  by (simp add: wf_db_def folder_ok_def)

lemma blob_pastD: "wf_db now d \<Longrightarrow> b \<in> set (stored_blobs d) \<Longrightarrow> past now (bl_DeletedAt b)"
  by (simp add: wf_db_def blob_ok_def)

lemma wf_blob_rewrite:
  assumes wf: "wf_db now d" and fs: "folders d' = folders d"
    and bs: "stored_blobs d' = map v (filter kb (stored_blobs d))"
    and v: "\<And>b. b \<in> set (stored_blobs d) \<Longrightarrow>
      bl_ID (v b) = bl_ID b \<and> bl_ObjectKey (v b) = bl_ObjectKey b \<and> bl_UserID (v b) = bl_UserID b"
    and vt: "\<And>b. b \<in> set (stored_blobs d) \<Longrightarrow> kb b \<Longrightarrow> past now (bl_DeletedAt (v b))"
    and vr: "\<And>b i. b \<in> set (stored_blobs d) \<Longrightarrow> kb b \<Longrightarrow> bl_FolderID (v b) = Some i \<Longrightarrow>
      \<exists>p \<in> set (folders d). fo_ID p = i \<and> fo_UserID p = bl_UserID b
         \<and> trash_le (bl_DeletedAt (v b)) (fo_DeletedAt p)"
  shows "wf_db now d'"
proof (rule wf_rewrite [OF wf, where u = "\<lambda>f. f" and kf = "\<lambda>_. True", OF _ bs])
  show "folders d' = map (\<lambda>f. f) (filter (\<lambda>_. True) (folders d))" by (simp add: fs)
  show "folder_names_unique (folders d')" by (simp add: fs wf_dbD(2) [OF wf])
qed (use v vt vr folder_pastD [OF wf] folder_nameD [OF wf] folder_refD [OF wf] in auto)

section \<open>The statements of the blob repository\<close>

lemma update_blobsD:
  "update_blobs p g d = Inr (n, d') \<Longrightarrow>
     d' = d\<lparr>stored_blobs := map (\<lambda>b. if p b then g b else b) (stored_blobs d)\<rparr>
     \<and> n = length (filter p (stored_blobs d))"
  by (simp add: update_blobs_def split: if_splits)

lemma update_blob_returningD:
  "update_blob_returning p g h d = Inr (r, d') \<Longrightarrow>
     d' = d\<lparr>stored_blobs := map (\<lambda>b. if p b then g b else b) (stored_blobs d)\<rparr>
     \<and> r = map_option (\<lambda>b. h (g b)) (find p (stored_blobs d))"
  by (auto simp: update_blob_returning_def dest!: update_blobsD split: sum.splits prod.splits)

lemma delete_blobsD:
  assumes "delete_blobs p d = Inr (gone, d')"
  shows "gone = filter p (stored_blobs d)" "stored_blobs d' = filter (\<lambda>b. \<not> p b) (stored_blobs d)"
    "folders d' = folders d" "users d' = users d"
  using assms by (auto simp: delete_blobs_def Let_def)

text \<open>An update of the blobs that satisfy \<open>p\<close>, each allowed by the invariant.\<close>

lemma wf_update_blobs:
  assumes wf: "wf_db now d"
    and bs: "d' = d\<lparr>stored_blobs := map (\<lambda>b. if p b then g b else b) (stored_blobs d)\<rparr>"
    and keys: "\<And>b. bl_ID (g b) = bl_ID b \<and> bl_ObjectKey (g b) = bl_ObjectKey b \<and> bl_UserID (g b) = bl_UserID b"
    and ok: "\<And>b. b \<in> set (stored_blobs d) \<Longrightarrow> p b \<Longrightarrow> blob_ok now (folders d) b \<Longrightarrow> blob_ok now (folders d) (g b)"
  shows "wf_db now d'"
proof (rule wf_blob_rewrite [OF wf, where v = "\<lambda>b. if p b then g b else b" and kb = "\<lambda>_. True"])
  have ok': "blob_ok now (folders d) (if p b then g b else b)" if "b \<in> set (stored_blobs d)" for b
    using that ok wf_dbD(6) [OF wf that] by simp
  show "past now (bl_DeletedAt (if p b then g b else b))" if "b \<in> set (stored_blobs d)" for b
    using ok' [OF that] by (simp only: blob_ok_def)
  show "\<exists>q \<in> set (folders d). fo_ID q = i \<and> fo_UserID q = bl_UserID b
          \<and> trash_le (bl_DeletedAt (if p b then g b else b)) (fo_DeletedAt q)"
    if "b \<in> set (stored_blobs d)" "bl_FolderID (if p b then g b else b) = Some i" for b i
    using ok' [OF that(1)] that(2) keys [of b]
    by (auto simp: blob_ok_def ref_ok_def split: if_splits)
qed (use bs keys in auto)

lemma wf_delete_blobs:
  assumes "wf_db now d" and "delete_blobs p d = Inr (gone, d')"
  shows "wf_db now d'"
  by (rule wf_blob_rewrite [OF assms(1), where v = "\<lambda>b. b" and kb = "\<lambda>b. \<not> p b"])
    (use delete_blobsD [OF assms(2)] blob_pastD [OF assms(1)] blob_refD [OF assms(1)] in auto)

lemma wf_insert_blob:
  assumes "wf_db now d" and "insert_blob b d = Inr (x, d')" and "blob_ok now (folders d) b"
  shows "wf_db now d'"
  using assms by (auto simp: insert_blob_def wf_db_def split: if_splits)

lemma restored_folder_active:
  "restored_folder d r = Some i \<Longrightarrow> r = Some i \<and> (\<exists>f \<in> set (folders d). fo_ID f = i \<and> is_active f)"
  by (auto simp: restored_folder_def is_active_def split: option.splits if_splits)

text \<open>A reference into one account that ends at an active folder suits an active row.\<close>

lemma ref_ok_restored:
  assumes "folder_ids_distinct (folders d)" and "ref_ok (folders d) r owner del"
  shows "ref_ok (folders d) (restored_folder d r) owner None"
proof (cases "restored_folder d r")
  case None
  then show ?thesis by (simp add: ref_ok_def)
next
  case (Some i)
  then obtain f where r: "r = Some i" and f: "f \<in> set (folders d)" "fo_ID f = i" "is_active f"
    by (auto dest: restored_folder_active)
  from assms(2) r obtain p where "p \<in> set (folders d)" "fo_ID p = i" "fo_UserID p = owner"
    by (auto elim: ref_okE)
  with f folder_unique [OF assms(1)] have "fo_UserID f = owner" by metis
  with f Some show ?thesis by (auto simp: ref_ok_def is_active_def)
qed

section \<open>The statements of the folder repository\<close>

lemma update_foldersD:
  assumes "update_folders p g d = Inr (n, d')"
  shows "d' = d\<lparr>folders := map (\<lambda>f. if p f then g f else f) (folders d)\<rparr>"
    "n = length (filter p (folders d))" "folder_names_unique (folders d')"
  using assms by (auto simp: update_folders_def Let_def split: if_splits)

lemma update_folders_conj:
  "update_folders p g d = Inr (n, d') \<Longrightarrow>
     d' = d\<lparr>folders := map (\<lambda>f. if p f then g f else f) (folders d)\<rparr>
     \<and> n = length (filter p (folders d))
     \<and> folder_names_unique (map (\<lambda>f. if p f then g f else f) (folders d))
     \<and> (\<forall>f \<in> set (folders d). p f \<longrightarrow> folder_name_ok (fo_Name (g f)))"
  by (auto simp: update_folders_def Let_def split: if_splits)

lemma wf_insert_folder:
  assumes "wf_db now d" and "insert_folder f d = Inr (x, d')"
    and "ref_ok (folders d) (fo_ParentID f) (fo_UserID f) (fo_DeletedAt f)" and "past now (fo_DeletedAt f)"
  shows "wf_db now d'"
proof -
  have d': "d' = d\<lparr>folders := folders d @ [f]\<rparr>" and fresh: "fo_ID f \<notin> fo_ID ` set (folders d)"
    and names: "folder_names_unique (folders d @ [f])" and "folder_name_ok (fo_Name f)"
    using assms(2) by (auto simp: insert_folder_def split: if_splits)
  have more: "ref_ok t r o' del \<Longrightarrow> ref_ok (t @ [f]) r o' del" for t r o' del
    by (auto simp: ref_ok_def split: option.splits)
  show ?thesis
    using assms(1,3,4) fresh names \<open>folder_name_ok (fo_Name f)\<close> more
    by (auto simp: wf_db_def d' folder_ids_distinct_def folder_ok_def blob_ok_def)
qed

text \<open>An update of folders that leaves ids, owners and the trash alone.\<close>

lemma wf_update_folders:
  assumes wf: "wf_db now d" and up: "update_folders p g d = Inr (n, d')"
    and keys: "\<And>f. fo_ID (g f) = fo_ID f \<and> fo_UserID (g f) = fo_UserID f \<and> fo_DeletedAt (g f) = fo_DeletedAt f"
    and ok: "\<And>f. f \<in> set (folders d) \<Longrightarrow> p f \<Longrightarrow>
      ref_ok (folders d) (fo_ParentID (g f)) (fo_UserID f) (fo_DeletedAt f)"
  shows "wf_db now d'"
proof -
  let ?u = "\<lambda>f. if p f then g f else f"
  have del: "fo_DeletedAt (?u f) = fo_DeletedAt f" for f using keys by simp
  show ?thesis
  proof (rule wf_rewrite [OF wf, where kf = "\<lambda>_. True" and kb = "\<lambda>_. True" and v = "\<lambda>b. b" and u = ?u])
    fix f i assume f: "f \<in> set (folders d)" and i: "fo_ParentID (?u f) = Some i"
    have "ref_ok (folders d) (fo_ParentID (?u f)) (fo_UserID f) (fo_DeletedAt f)"
      using ok [OF f] wf_dbD(5) [OF wf f] by (simp add: folder_ok_def)
    with i show "\<exists>q \<in> set (folders d). True \<and> fo_ID q = i \<and> fo_UserID q = fo_UserID f
        \<and> trash_le (fo_DeletedAt (?u f)) (fo_DeletedAt (?u q))"
      unfolding del by (simp add: ref_ok_def)
  next
    fix b i assume "b \<in> set (stored_blobs d)" and "bl_FolderID b = Some i"
    then show "\<exists>q \<in> set (folders d). True \<and> fo_ID q = i \<and> fo_UserID q = bl_UserID b
        \<and> trash_le (bl_DeletedAt b) (fo_DeletedAt (?u q))"
      unfolding del using blob_refD [OF wf] by simp
  qed (use update_foldersD [OF up] update_folders_conj [OF up] keys folder_pastD [OF wf]
      folder_nameD [OF wf] blob_pastD [OF wf] in auto)
qed

text \<open>A folder may be moved into the root or an active folder of its owner.\<close>

definition active_target :: "uuid option \<Rightarrow> uuid \<Rightarrow> db \<Rightarrow> bool" where
  "active_target r userID d = ref_ok (folders d) r userID None"

section \<open>Trashing and restoring a folder\<close>

text \<open>The folders below \<open>x\<close> (with \<open>x\<close>) that a walk through folders in \<open>p\<close> reaches.\<close>

abbreviation below :: "(Folder \<Rightarrow> bool) \<Rightarrow> db \<Rightarrow> uuid set \<Rightarrow> uuid set" where
  "below p d xs \<equiv> (child_rel p (folders d))\<^sup>* `` xs"

lemma subtree_idsD:
  "subtree_ids p start d = Inr (ids, d') \<Longrightarrow> set ids = below p d (set (start d)) \<and> d' = d"
  by (auto simp: subtree_ids_def subtree_walk_set split: option.splits)

lemma below_child:
  assumes "i \<in> below p d xs" and "f \<in> set (folders d)" and "fo_ParentID f = Some i" and "p f"
  shows "fo_ID f \<in> below p d xs"
  using assms by (blast intro: rtrancl_into_rtrancl child_relI)

lemma below_cases:
  assumes "y \<in> below p d xs"
  obtains "y \<in> xs" | x f where "x \<in> below p d xs" "f \<in> set (folders d)" "fo_ID f = y"
    "fo_ParentID f = Some x" "p f"
proof -
  from assms obtain x0 where x0: "x0 \<in> xs" "(x0, y) \<in> (child_rel p (folders d))\<^sup>*" by auto
  from this(2) show thesis
  proof (cases rule: rtranclE)
    case base
    then show ?thesis using that(1) x0 by simp
  next
    case (step z)
    then show ?thesis using that(2) x0(1) by (auto simp: child_rel_def)
  qed
qed

definition trash_rows :: "uuid list \<Rightarrow> time \<Rightarrow> db \<Rightarrow> db" where
  "trash_rows ids now d =
     d\<lparr>folders := map (\<lambda>f. if id_in ids f then f\<lparr>fo_DeletedAt := Some now\<rparr> else f) (folders d),
       stored_blobs := map (\<lambda>b. if in_folders ids b \<and> bl_DeletedAt b = None
                              then b\<lparr>bl_DeletedAt := Some now\<rparr> else b) (stored_blobs d)\<rparr>"

lemma TrashFolder_txD:
  assumes "TrashFolder_tx x u now d = Inr (r, d')"
  obtains ids where "set ids = below is_active d (fo_ID ` {f \<in> set (folders d). folder_is x u f \<and> is_active f})"
    and "d' = trash_rows ids now d" and "folder_names_unique (folders d) \<Longrightarrow> folder_names_unique (folders d')"
    and "r \<longleftrightarrow> ids \<noteq> []"
proof -
  from assms obtain ids where ids: "set ids = below is_active d
      (set (map fo_ID (filter (\<lambda>f. folder_is x u f \<and> is_active f) (folders d))))"
    and rest: "(if ids = [] then stmt_ret False
          else stmt_bind (update_folders (id_in ids) (\<lambda>f. f\<lparr>fo_DeletedAt := Some now\<rparr>))
            (\<lambda>_. stmt_bind (update_blobs (\<lambda>b. in_folders ids b \<and> bl_DeletedAt b = None)
                    (\<lambda>b. b\<lparr>bl_DeletedAt := Some now\<rparr>))
               (\<lambda>_. stmt_ret True))) d = Inr (r, d')"
    unfolding TrashFolder_tx_def by (elim stmt_bind_InrE) (auto dest: subtree_idsD)
  have d': "d' = trash_rows ids now d \<and> (r \<longleftrightarrow> ids \<noteq> [])
      \<and> (folder_names_unique (folders d) \<longrightarrow> folder_names_unique (folders d'))"
  proof (cases "ids = []")
    case True
    have "in_folders [] b = False" for b by (simp add: in_folders_def split: option.splits)
    with True rest show ?thesis by (simp add: trash_rows_def id_in_def)
  next
    case False
    with rest show ?thesis
      by (auto elim!: stmt_bind_InrE dest!: update_folders_conj update_blobsD simp: trash_rows_def)
  qed
  show thesis by (rule that [of ids]) (use ids d' in auto)
qed

lemma wf_TrashFolder:
  assumes wf: "wf_db now d" and tx: "TrashFolder_tx x u now d = Inr (r, d')"
  shows "wf_db now d'"
  using tx
proof (rule TrashFolder_txD)
  fix ids
  assume ids: "set ids = below is_active d (fo_ID ` {f \<in> set (folders d). folder_is x u f \<and> is_active f})"
    and d': "d' = trash_rows ids now d"
    and names: "folder_names_unique (folders d) \<Longrightarrow> folder_names_unique (folders d')"
  let ?u = "\<lambda>f. if id_in ids f then f\<lparr>fo_DeletedAt := Some now\<rparr> else f"
  let ?v = "\<lambda>b. if in_folders ids b \<and> bl_DeletedAt b = None then b\<lparr>bl_DeletedAt := Some now\<rparr> else b"
  have act: "is_active f" if "f \<in> set (folders d)" "id_in ids f" for f
  proof -
    from that have "fo_ID f \<in> below is_active d
        (fo_ID ` {f \<in> set (folders d). folder_is x u f \<and> is_active f})" by (simp add: id_in_def ids)
    then obtain g where "g \<in> set (folders d)" "fo_ID g = fo_ID f" "is_active g"
      by (cases rule: below_cases) auto
    with folder_unique [OF wf_dbD(1) [OF wf]] that show ?thesis by metis
  qed
  have down: "id_in ids f \<or> fo_DeletedAt f \<noteq> None"
    if "f \<in> set (folders d)" "fo_ParentID f = Some i" "i \<in> set ids" for f i
    using below_child [of i is_active d _ f] that ids by (auto simp: id_in_def is_active_def)
  show ?thesis
  proof (rule wf_rewrite [OF wf, where kf = "\<lambda>_. True" and kb = "\<lambda>_. True" and v = ?v and u = ?u])
    fix f i assume f: "f \<in> set (folders d)" and i: "fo_ParentID (?u f) = Some i"
    then have i': "fo_ParentID f = Some i" by (simp split: if_splits)
    from folder_refD [OF wf f i'] obtain p where p: "p \<in> set (folders d)" "fo_ID p = i"
      "fo_UserID p = fo_UserID f" "trash_le (fo_DeletedAt f) (fo_DeletedAt p)" by blast
    have "trash_le (fo_DeletedAt (?u f)) (fo_DeletedAt (?u p))"
    proof (cases "id_in ids p")
      case True
      with down [OF f i'] p(2) have "id_in ids f \<or> fo_DeletedAt f \<noteq> None" by (simp add: id_in_def)
      with True trash_le_now [OF folder_pastD [OF wf f]] show ?thesis by auto
    next
      case False
      have "is_active p" if "id_in ids f"
        using parent_active [OF wf f act [OF f that] p(1)] i' p(2) by simp
      with False p(4) show ?thesis by (auto simp: is_active_def)
    qed
    with p show "\<exists>q \<in> set (folders d). True \<and> fo_ID q = i \<and> fo_UserID q = fo_UserID f
        \<and> trash_le (fo_DeletedAt (?u f)) (fo_DeletedAt (?u q))" by blast
  next
    fix b i assume b: "b \<in> set (stored_blobs d)" and i: "bl_FolderID (?v b) = Some i"
    then have i': "bl_FolderID b = Some i" by (simp split: if_splits)
    from blob_refD [OF wf b i'] obtain p where p: "p \<in> set (folders d)" "fo_ID p = i"
      "fo_UserID p = bl_UserID b" "trash_le (bl_DeletedAt b) (fo_DeletedAt p)" by blast
    have "trash_le (bl_DeletedAt (?v b)) (fo_DeletedAt (?u p))"
      using p(2,4) i' trash_le_now [OF blob_pastD [OF wf b]]
      by (auto simp: in_folders_def id_in_def)
    with p show "\<exists>q \<in> set (folders d). True \<and> fo_ID q = i \<and> fo_UserID q = bl_UserID b
        \<and> trash_le (bl_DeletedAt (?v b)) (fo_DeletedAt (?u q))" by blast
  qed (use names wf_dbD(2) [OF wf] folder_pastD [OF wf] folder_nameD [OF wf]
      blob_pastD [OF wf] in \<open>auto simp: d' trash_rows_def\<close>)
qed

definition restore_rows :: "uuid list \<Rightarrow> uuid \<Rightarrow> uuid option \<Rightarrow> db \<Rightarrow> db" where
  "restore_rows ids x rp d =
     d\<lparr>folders := map (\<lambda>f. if id_in ids f
          then f\<lparr>fo_DeletedAt := None, fo_ParentID := (if fo_ID f = x then rp else fo_ParentID f)\<rparr>
          else f) (folders d),
       stored_blobs := map (\<lambda>b. if in_folders ids b \<and> bl_DeletedAt b \<noteq> None
                              then b\<lparr>bl_DeletedAt := None\<rparr> else b) (stored_blobs d)\<rparr>"

lemma RestoreFolder_txD:
  assumes "RestoreFolder_tx x u d = Inr (r, d')"
  obtains "r = None" and "d' = d"
    and "\<And>f. f \<in> set (folders d) \<Longrightarrow> folder_is x u f \<Longrightarrow> is_active f"
  | f0 ids where "f0 \<in> set (folders d)" and "folder_is x u f0" and "\<not> is_active f0"
    and "set ids = below (\<lambda>_. True) d {x}" and "r = Some (fo_Name f0)"
    and "d' = restore_rows ids x (restored_folder d (fo_ParentID f0)) d"
    and "folder_names_unique (folders d')"
proof -
  let ?find = "find (\<lambda>f. folder_is x u f \<and> fo_DeletedAt f \<noteq> None) (folders d)"
  show thesis
  proof (cases ?find)
    case None
    with assms have "r = None" "d' = d" by (auto simp: RestoreFolder_tx_def simp del: not_None_eq)
    with None show ?thesis
      by (intro that(1)) (auto simp: is_active_def dest: find_NoneD)
  next
    case (Some f0)
    from find_SomeD [OF Some] have f0: "f0 \<in> set (folders d)" "folder_is x u f0" "\<not> is_active f0"
      by (auto simp: is_active_def)
    let ?rp = "restored_folder d (fo_ParentID f0)"
    from assms obtain ids d1 where "subtree_ids (\<lambda>_. True) (\<lambda>_. [x]) d = Inr (ids, d1)"
      and st: "stmt_bind (update_folders (id_in ids)
             (\<lambda>f. f\<lparr>fo_DeletedAt := None, fo_ParentID := (if fo_ID f = x
                then restored_folder d1 (fo_ParentID f0) else fo_ParentID f)\<rparr>))
           (\<lambda>_. stmt_bind (update_blobs (\<lambda>b. in_folders ids b \<and> bl_DeletedAt b \<noteq> None)
                   (\<lambda>b. b\<lparr>bl_DeletedAt := None\<rparr>)) (\<lambda>_. stmt_ret (Some (fo_Name f0)))) d1 = Inr (r, d')"
      unfolding RestoreFolder_tx_def stmt_bind_read Some option.case
      by (rule stmt_bind_InrE) (simp only: stmt_bind_read)
    then have ids: "set ids = below (\<lambda>_. True) d {x}" and d1: "d1 = d"
      by (auto dest: subtree_idsD)
    from st [unfolded d1] have "r = Some (fo_Name f0)" "d' = restore_rows ids x ?rp d"
      "folder_names_unique (folders d')"
      by (auto simp: restore_rows_def simp del: not_None_eq
          elim!: stmt_bind_InrE dest!: update_folders_conj update_blobsD)
    then show ?thesis by (rule that(2) [OF f0 ids])
  qed
qed

text \<open>Everything directly below a folder of the set is in the set, except \<open>x\<close> itself.\<close>

lemma wf_RestoreFolder:
  assumes wf: "wf_db now d" and tx: "RestoreFolder_tx x u d = Inr (r, d')"
  shows "wf_db now d'"
  using tx
proof (rule RestoreFolder_txD)
  fix f0 ids
  assume f0: "f0 \<in> set (folders d)" "folder_is x u f0"
    and ids: "set ids = below (\<lambda>_. True) d {x}"
    and d': "d' = restore_rows ids x (restored_folder d (fo_ParentID f0)) d"
    and names: "folder_names_unique (folders d')"
  let ?rp = "restored_folder d (fo_ParentID f0)"
  let ?u = "\<lambda>f. if id_in ids f then f\<lparr>fo_DeletedAt := None,
              fo_ParentID := (if fo_ID f = x then ?rp else fo_ParentID f)\<rparr> else f"
  let ?v = "\<lambda>b. if in_folders ids b \<and> bl_DeletedAt b \<noteq> None then b\<lparr>bl_DeletedAt := None\<rparr> else b"
  note uniq = folder_unique [OF wf_dbD(1) [OF wf]]
  have up: "id_in ids p" if "f \<in> set (folders d)" "id_in ids f" "fo_ID f \<noteq> x"
      "fo_ParentID f = Some (fo_ID p)" for f p
  proof -
    from that(2) have "fo_ID f \<in> below (\<lambda>_. True) d {x}" by (simp add: id_in_def ids)
    then show ?thesis
    proof (cases rule: below_cases)
      case 1
      with that(3) show ?thesis by simp
    next
      case (2 y g)
      with uniq [of g f] that(1,4) have "y = fo_ID p" by simp
      with 2(1) show ?thesis by (simp add: id_in_def ids)
    qed
  qed
  have down: "id_in ids f" if "f \<in> set (folders d)" "fo_ParentID f = Some i" "i \<in> set ids" for f i
    using below_child [of i "\<lambda>_. True" d _ f] that ids by (auto simp: id_in_def)
  have rp: "\<exists>p \<in> set (folders d). fo_ID p = i \<and> fo_UserID p = fo_UserID f0 \<and> is_active p"
    if "?rp = Some i" for i
    using ref_ok_restored [OF wf_dbD(1) [OF wf], of "fo_ParentID f0" "fo_UserID f0" "fo_DeletedAt f0"]
      wf_dbD(5) [OF wf f0(1)] that by (auto simp: folder_ok_def ref_ok_def is_active_def)
  show ?thesis
  proof (rule wf_rewrite [OF wf, where kf = "\<lambda>_. True" and kb = "\<lambda>_. True" and v = ?v and u = ?u])
    fix f i assume f: "f \<in> set (folders d)" and i: "fo_ParentID (?u f) = Some i"
    show "\<exists>q \<in> set (folders d). True \<and> fo_ID q = i \<and> fo_UserID q = fo_UserID f
        \<and> trash_le (fo_DeletedAt (?u f)) (fo_DeletedAt (?u q))"
    proof (cases "id_in ids f \<and> fo_ID f = x")
      case True
      with uniq [OF f f0(1)] f0(2) have "f = f0" by (simp add: folder_is_def)
      with True i rp [of i] show ?thesis by (fastforce simp: is_active_def)
    next
      case False
      with i have i': "fo_ParentID f = Some i" by (simp split: if_splits)
      from folder_refD [OF wf f i'] obtain p where p: "p \<in> set (folders d)" "fo_ID p = i"
        "fo_UserID p = fo_UserID f" "trash_le (fo_DeletedAt f) (fo_DeletedAt p)" by blast
      have "id_in ids f \<longleftrightarrow> id_in ids p"
        using False up [OF f, of p] down [OF f i'] i' p(2) by (auto simp: id_in_def)
      with p show ?thesis by (intro bexI [of _ p]) auto
    qed
  next
    fix b i assume b: "b \<in> set (stored_blobs d)" and i: "bl_FolderID (?v b) = Some i"
    then have i': "bl_FolderID b = Some i" by (simp split: if_splits)
    from blob_refD [OF wf b i'] obtain p where p: "p \<in> set (folders d)" "fo_ID p = i"
      "fo_UserID p = bl_UserID b" "trash_le (bl_DeletedAt b) (fo_DeletedAt p)" by blast
    have "in_folders ids b \<longleftrightarrow> id_in ids p" using i' p(2) by (simp add: in_folders_def id_in_def)
    with p show "\<exists>q \<in> set (folders d). True \<and> fo_ID q = i \<and> fo_UserID q = bl_UserID b
        \<and> trash_le (bl_DeletedAt (?v b)) (fo_DeletedAt (?u q))"
      by (intro bexI [of _ p]) auto
  qed (use names folder_pastD [OF wf] folder_nameD [OF wf] blob_pastD [OF wf]
      in \<open>auto simp: d' restore_rows_def\<close>)
qed (use wf in simp)

section \<open>Deleting folders for good\<close>

definition unlink :: "uuid set \<Rightarrow> Blob \<Rightarrow> Blob" where
  "unlink ids b = (case bl_FolderID b of None \<Rightarrow> b | Some i \<Rightarrow> if i \<in> ids then b\<lparr>bl_FolderID := None\<rparr> else b)"

definition remove_rows :: "(Blob \<Rightarrow> bool) \<Rightarrow> (Folder \<Rightarrow> bool) \<Rightarrow> db \<Rightarrow> db \<Rightarrow> bool" where
  "remove_rows pb pf d d' \<longleftrightarrow>
     folders d' = filter (\<lambda>f. \<not> pf f) (folders d) \<and>
     stored_blobs d' = map (unlink (fo_ID ` {f \<in> set (folders d). pf f}))
                         (filter (\<lambda>b. \<not> pb b) (stored_blobs d)) \<and>
     file_shares d' = filter (\<lambda>s. sh_BlobID s \<notin> bl_ID ` {b \<in> set (stored_blobs d). pb b}) (file_shares d) \<and>
     users d' = users d"

text \<open>A condition on folders that does not look at the parent.\<close>

definition parent_blind :: "(Folder \<Rightarrow> bool) \<Rightarrow> bool" where
  "parent_blind pf \<longleftrightarrow> (\<forall>f r. pf (f\<lparr>fo_ParentID := r\<rparr>) = pf f)"

lemma filter_map_blind:
  assumes "parent_blind pf"
  shows "filter (\<lambda>f. \<not> pf f) (map (\<lambda>f. if pf f then f\<lparr>fo_ParentID := None\<rparr> else f) t) = filter (\<lambda>f. \<not> pf f) t"
    and "fo_ID ` set (filter pf (map (\<lambda>f. if pf f then f\<lparr>fo_ParentID := None\<rparr> else f) t)) = fo_ID ` {f \<in> set t. pf f}"
  using assms by (induction t) (auto simp: parent_blind_def image_iff)

lemma remove_folders_txD:
  assumes blind: "parent_blind pf" and tx: "remove_folders_tx pb pf d = Inr ((blobs, fs), d')"
  shows "blobs = filter (pb d) (stored_blobs d)" and "remove_rows (pb d) pf d d'"
proof -
  let ?t = "map (\<lambda>f. if pf f then f\<lparr>fo_ParentID := None\<rparr> else f) (folders d)"
  from tx obtain d1 d2 n where d1: "delete_blobs (pb d) d = Inr (blobs, d1)"
    and d2: "update_folders pf (\<lambda>f. f\<lparr>fo_ParentID := None\<rparr>) d1 = Inr (n, d2)"
    and d3: "delete_folders pf d2 = Inr (fs, d')"
    unfolding remove_folders_tx_def by (elim stmt_bind_InrE) auto
  note e1 = delete_blobsD [OF d1] and e2 = update_foldersD(1) [OF d2]
  have sh: "file_shares d1 = filter (\<lambda>s. sh_BlobID s \<notin> bl_ID ` {b \<in> set (stored_blobs d). pb d b}) (file_shares d)"
    using d1 by (auto simp: delete_blobs_def Let_def)
  show "blobs = filter (pb d) (stored_blobs d)" by (rule e1(1))
  have t: "folders d2 = ?t" by (simp add: e2 e1(3))
  have "folders d' = filter (\<lambda>f. \<not> pf f) (folders d2)"
    and "stored_blobs d' = map (unlink (fo_ID ` set (filter pf (folders d2)))) (stored_blobs d2)"
    and "users d' = users d2" and "file_shares d' = file_shares d2"
    using d3 by (auto simp: delete_folders_def Let_def unlink_def [abs_def] split: if_splits option.splits)
  then show "remove_rows (pb d) pf d d'"
    unfolding remove_rows_def t filter_map_blind [OF blind] using e1 e2 sh by simp
qed

lemma wf_remove_rows:
  assumes wf: "wf_db now d" and rm: "remove_rows pb pf d d'"
    and closed: "\<And>f p. f \<in> set (folders d) \<Longrightarrow> p \<in> set (folders d) \<Longrightarrow>
      fo_ParentID f = Some (fo_ID p) \<Longrightarrow> pf p \<Longrightarrow> pf f"
  shows "wf_db now d'"
proof -
  let ?ids = "fo_ID ` {f \<in> set (folders d). pf f}"
  have keep: "bl_FolderID (unlink ?ids b) = Some i \<Longrightarrow> bl_FolderID b = Some i \<and> i \<notin> ?ids" for b i
    by (auto simp: unlink_def split: option.splits if_splits)
  show ?thesis
  proof (rule wf_rewrite [OF wf, where kf = "\<lambda>f. \<not> pf f" and kb = "\<lambda>b. \<not> pb b"
        and v = "unlink ?ids" and u = "\<lambda>f. f"])
    fix f i assume f: "f \<in> set (folders d)" "\<not> pf f" "fo_ParentID f = Some i"
    with folder_refD [OF wf, of f i] closed [of f]
    show "\<exists>p \<in> set (folders d). \<not> pf p \<and> fo_ID p = i \<and> fo_UserID p = fo_UserID f
        \<and> trash_le (fo_DeletedAt f) (fo_DeletedAt p)" by blast
  next
    fix b i assume b: "b \<in> set (stored_blobs d)" and i: "bl_FolderID (unlink ?ids b) = Some i"
    have "bl_DeletedAt (unlink ?ids b) = bl_DeletedAt b" by (simp add: unlink_def split: option.splits)
    with blob_refD [OF wf b, of i] keep [OF i]
    show "\<exists>p \<in> set (folders d). \<not> pf p \<and> fo_ID p = i \<and> fo_UserID p = bl_UserID b
        \<and> trash_le (bl_DeletedAt (unlink ?ids b)) (fo_DeletedAt p)" by auto
  qed (use rm names_unique_filter [OF wf_dbD(2) [OF wf]] folder_pastD [OF wf] folder_nameD [OF wf]
      blob_pastD [OF wf] in \<open>auto simp: remove_rows_def unlink_def split: option.splits\<close>)
qed

lemma delete_folders_total:
  assumes "\<And>f i. f \<in> set (filter (\<lambda>f. \<not> p f) (folders d)) \<Longrightarrow> i \<in> fo_ID ` set (filter p (folders d)) \<Longrightarrow>
    fo_ParentID f \<noteq> Some i"
  shows "\<exists>fs d'. delete_folders p d = Inr (fs, d')"
proof -
  have "\<not> (\<exists>f \<in> set (filter (\<lambda>f. \<not> p f) (folders d)). \<exists>i \<in> fo_ID ` set (filter p (folders d)).
      fo_ParentID f = Some i)"
    using assms by blast
  then show ?thesis unfolding delete_folders_def Let_def by (simp only: if_False) blast
qed

text \<open>The three statements succeed: no name conflict, no folder left without its parent.\<close>

lemma remove_folders_tx_total:
  assumes wf: "wf_db now d" and blind: "parent_blind pf"
    and trashed: "\<And>f. f \<in> set (folders d) \<Longrightarrow> pf f \<Longrightarrow> \<not> is_active f"
    and closed: "\<And>f p. f \<in> set (folders d) \<Longrightarrow> p \<in> set (folders d) \<Longrightarrow>
      fo_ParentID f = Some (fo_ID p) \<Longrightarrow> pf p \<Longrightarrow> pf f"
  shows "\<exists>fs d'. remove_folders_tx pb pf d = Inr ((filter (pb d) (stored_blobs d), fs), d')"
proof -
  let ?g = "\<lambda>f. if pf f then f\<lparr>fo_ParentID := None\<rparr> else f"
  obtain d1 where d1: "delete_blobs (pb d) d = Inr (filter (pb d) (stored_blobs d), d1)"
    by (simp add: delete_blobs_def Let_def)
  note e1 = delete_blobsD [OF d1]
  have act: "\<not> pf f" if "f \<in> set (folders d)" "fo_DeletedAt f = None" for f
    using trashed [OF that(1)] that(2) by (auto simp: is_active_def)
  have "active_folder_keys (map ?g t) = active_folder_keys t" if "set t \<subseteq> set (folders d)" for t
    using that by (induction t) (auto simp: active_folder_keys_def dest: act)
  then have "folder_names_unique (map ?g (folders d))"
    using wf_dbD(2) [OF wf] by (simp add: folder_names_unique_def)
  define d2 where "d2 = d1\<lparr>folders := map ?g (folders d)\<rparr>"
  have t: "folders d2 = map ?g (folders d)" by (simp add: d2_def)
  have d2: "update_folders pf (\<lambda>f. f\<lparr>fo_ParentID := None\<rparr>) d1 = Inr (length (filter pf (folders d)), d2)"
    using folder_nameD [OF wf] \<open>folder_names_unique (map ?g (folders d))\<close>
    by (auto simp: update_folders_def Let_def e1 folder_ref_def d2_def)
  have "\<exists>fs d3. delete_folders pf d2 = Inr (fs, d3)"
    by (rule delete_folders_total, unfold t filter_map_blind [OF blind]) (use closed in auto)
  then obtain fs d3 where "delete_folders pf d2 = Inr (fs, d3)" by blast
  then have "remove_folders_tx pb pf d = Inr ((filter (pb d) (stored_blobs d), fs), d3)"
    unfolding remove_folders_tx_def by (simp add: stmt_bind_def d1 d2)
  then show ?thesis by blast
qed

end
