(* ===== verification/Storage_Steps.thy ===== *)
theory Storage_Steps
  imports Storage_Invariant
begin

text \<open>
  The storage service as a state machine. The locale \<open>storage_tables\<close> is the interface between the
  service and the repositories: what a predicate on the tables must survive, statement by statement,
  to survive every operation on every fault schedule. It is interpreted with the invariant \<open>wf_db\<close>,
  which therefore holds in every reachable world, and with the view other users have of the tables,
  which therefore never changes under a user's operations.
\<close>

section \<open>Rules for operations that keep a database invariant\<close>

lemma keeps_found [keeps_rules]: "keeps I m \<Longrightarrow> keeps I (found e m)"
  unfolding found_def by (intro keeps_rules)

lemma snd_obj_call [simp]: "snd (obj_call m w) = w\<lparr>w_obj := snd (m (w_obj w))\<rparr>"
  by (simp add: obj_call_def split: prod.splits sum.splits)

lemma keeps_obj_call [keeps_rules]: "keeps (on_db I) (obj_call m)"
  by (rule keepsI) (simp add: on_db_def)

lemma keeps_now_minus [keeps_rules]: "keeps I (now_minus ttl)"
  by (rule keepsI) (simp add: now_minus_def)

lemma keeps_remove_objects [keeps_rules]: "keeps (on_db I) (remove_objects s ks)"
  unfolding remove_objects_def by (intro keeps_rules)

lemma keeps_release_upload [keeps_rules]: "keeps (on_db I) (release_upload s k u)"
  unfolding release_upload_def by (intro keeps_rules)

lemma keeps_GetFolder_pg [keeps_rules]: "keeps (on_db I) (GetFolder_pg f u)"
  unfolding GetFolder_pg_def by (rule keeps_query)

text \<open>A folder that was found is an active folder of the user, and a reference may point to it.\<close>

lemma find_active_target:
  assumes "find (\<lambda>f. folder_is i u f \<and> is_active f) (folders d) = Some f"
  shows "active_target (Some i) u d"
  using find_SomeD [OF assms]
  by (auto simp: active_target_def ref_ok_def folder_is_def is_active_def)

lemma triple_found_folder:
  "triple (on_db I) (found e (GetFolder_pg i u))
     (\<lambda>x. on_db (\<lambda>now d. I now d \<and> active_target (Some i) u d)) (\<lambda>_. on_db I)"
  unfolding found_def
proof (rule triple_bindE)
  let ?q = "\<lambda>_ d. find (\<lambda>f. folder_is i u f \<and> is_active f) (folders d)"
  show "triple (on_db I) (map_err Db (GetFolder_pg i u))
      (\<lambda>x w. on_db I w \<and> x = ?q (w_now w) (w_db w)) (\<lambda>_. on_db I)"
    unfolding GetFolder_pg_def by (rule triple_map_err) (rule triple_query)
  show "triple (\<lambda>w. on_db I w \<and> x = ?q (w_now w) (w_db w))
      (case x of None \<Rightarrow> fail e | Some f \<Rightarrow> ret f)
      (\<lambda>_. on_db (\<lambda>now d. I now d \<and> active_target (Some i) u d)) (\<lambda>_. on_db I)" for x
    by (cases x) (auto simp: on_db_def intro!: triple_ret triple_fail find_active_target dest: sym)
qed

text \<open>The checks that a destination folder is there, in the three forms the service has them.\<close>

abbreviation with_target :: "(time \<Rightarrow> db \<Rightarrow> bool) \<Rightarrow> uuid option \<Rightarrow> uuid \<Rightarrow> time \<Rightarrow> db \<Rightarrow> bool" where
  "with_target I r u now d \<equiv> I now d \<and> active_target r u d"

lemma active_target_None [simp]: "active_target None u d"
  by (simp add: active_target_def ref_ok_def)

lemma triple_folder_name_of:
  "triple (on_db I) (folder_name_of r u) (\<lambda>_. on_db (with_target I r u)) (\<lambda>_. on_db I)"
proof (cases r)
  case None
  then show ?thesis by (simp add: folder_name_of_def triple_ret)
next
  case (Some i)
  show ?thesis
    unfolding folder_name_of_def Some option.case
    by (rule triple_bindE [OF triple_found_folder]) (simp add: triple_ret)
qed

lemma triple_requireFolder:
  "triple (on_db I) (case r of None \<Rightarrow> ret () | Some f \<Rightarrow> requireFolder f u)
     (\<lambda>_. on_db (with_target I r u)) (\<lambda>_. on_db I)"
proof (cases r)
  case None
  then show ?thesis by (simp add: triple_ret)
next
  case (Some i)
  show ?thesis
    unfolding requireFolder_def Some option.case
    by (rule triple_bindE [OF triple_found_folder]) (simp add: triple_ret)
qed

lemma weaken_target: "keeps (on_db (with_target I r u)) m \<Longrightarrow>
  triple (on_db (with_target I r u)) m (\<lambda>_. on_db I) (\<lambda>_. on_db I)"
  by (erule triple_weaken) (auto simp: on_db_def)

lemma triple_move_target:
  "triple (on_db I) (move_target p)
     (\<lambda>_. on_db (with_target I (mf_NewParentID p) (mf_UserID p))) (\<lambda>_. on_db I)"
proof (cases "mf_NewParentID p")
  case None
  then show ?thesis by (simp add: move_target_def triple_ret)
next
  case (Some i)
  let ?J = "on_db (with_target I (Some i) (mf_UserID p))"
  have check: "triple ?J (bindE (map_err Db (IsDescendantOf_pg (mf_FolderID p) i))
      (\<lambda>isDesc. if isDesc then fail ErrFolderCycle else ret (fo_Name x))) (\<lambda>_. ?J) (\<lambda>_. on_db I)" for x
    by (rule triple_weaken [where P' = ?J and Q' = "\<lambda>_. ?J" and R' = "\<lambda>_. ?J"])
      (unfold IsDescendantOf_pg_def, intro keeps_rules, auto simp: on_db_def)
  show ?thesis
    unfolding move_target_def Some option.case
    by (cases "i = mf_FolderID p")
      (simp_all add: triple_fail triple_bindE [OF triple_found_folder check])
qed

lemma keeps_source_name [keeps_rules]: "keeps (on_db I) (source_name r u)"
  unfolding source_name_def by (intro keeps_rules)

lemma keeps_quota_check [keeps_rules]: "keeps (on_db I) (quota_check s p)"
  unfolding quota_check_def GetUserStorageUsed_pg_def
  by (intro keeps_rules keeps_db_call) (auto simp: Let_def split: if_splits)

lemma keeps_presign_parts [keeps_rules]: "keeps (on_db I) (presign_parts s k u is)"
proof (induction "is")
  case Nil
  show ?case unfolding presign_parts.simps by (rule keeps_ret)
next
  case (Cons i "is")
  then show ?case unfolding presign_parts.simps by (intro keeps_rules)
qed

section \<open>The three ways to delete folders\<close>

lemma parentD:
  assumes "wf_db now d" and "f \<in> set (folders d)" and "p \<in> set (folders d)"
    and "fo_ParentID f = Some (fo_ID p)"
  shows "fo_UserID p = fo_UserID f" and "trash_le (fo_DeletedAt f) (fo_DeletedAt p)"
  using folder_refD [OF assms(1,2,4)] folder_unique [OF wf_dbD(1) [OF assms(1)]] assms(3) by metis+

lemma expired_le: "trash_le c p \<Longrightarrow> expired before p \<Longrightarrow> expired before c"
  by (cases p; cases c) (auto simp: expired_def)

text \<open>What hangs in an expired folder is expired.\<close>

lemma expired_closed:
  assumes "wf_db now d" and "f \<in> set (folders d)" and "p \<in> set (folders d)"
    and "fo_ParentID f = Some (fo_ID p)" and "expired before (fo_DeletedAt p)"
  shows "expired before (fo_DeletedAt f)"
  using parentD(2) [OF assms(1-4)] assms(5) by (rule expired_le)

lemma trashed_closed:
  assumes "wf_db now d" and "f \<in> set (folders d)" and "p \<in> set (folders d)"
    and "fo_ParentID f = Some (fo_ID p)" and "fo_UserID p = u \<and> fo_DeletedAt p \<noteq> None"
  shows "fo_UserID f = u \<and> fo_DeletedAt f \<noteq> None"
  using parentD [OF assms(1-4)] assms(5) by (cases "fo_DeletedAt f") auto

lemma below_trashed:
  assumes wf: "wf_db now d" and f0: "f0 \<in> set (folders d)" "\<not> is_active f0"
    and y: "y \<in> below (\<lambda>_. True) d {fo_ID f0}" and g: "g \<in> set (folders d)" "fo_ID g = y"
  shows "\<not> is_active g \<and> fo_UserID g = fo_UserID f0"
proof -
  from y have "(fo_ID f0, y) \<in> (child_rel (\<lambda>_. True) (folders d))\<^sup>*" by simp
  then show ?thesis using g
  proof (induction arbitrary: g rule: rtrancl_induct)
    case base
    then show ?case using folder_unique [OF wf_dbD(1) [OF wf] base(1) f0(1)] f0 by simp
  next
    case (step y z)
    from step(2) obtain c where c: "c \<in> set (folders d)" "fo_ID c = z" "fo_ParentID c = Some y"
      by (auto simp: child_rel_def)
    with step.prems folder_unique [OF wf_dbD(1) [OF wf]] have "c = g" by metis
    from folder_refD [OF wf c(1,3)] obtain p where "p \<in> set (folders d)" "fo_ID p = y" by blast
    with step.IH [of p] parentD [OF wf c(1), of p] c(3) \<open>c = g\<close> show ?case
      by (cases "fo_DeletedAt g") (auto simp: is_active_def)
  qed
qed

lemma parent_blind_conds [simp]:
  "parent_blind (id_in ids)" "parent_blind (\<lambda>f. fo_UserID f = u \<and> fo_DeletedAt f \<noteq> None)"
  "parent_blind (\<lambda>f. expired before (fo_DeletedAt f))"
  by (simp_all add: parent_blind_def id_in_def)

lemma PurgeExpiredFolders_txD:
  assumes "PurgeExpiredFolders_tx before d = Inr (ks, d')"
  shows "remove_rows (in_folders (map fo_ID (filter (\<lambda>f. expired before (fo_DeletedAt f)) (folders d))))
           (\<lambda>f. expired before (fo_DeletedAt f)) d d'"
  using assms unfolding PurgeExpiredFolders_tx_def
  by (elim stmt_bind_InrE) (auto dest: remove_folders_txD(2) [rotated])

lemma EmptyTrashedFolders_txD:
  assumes "EmptyTrashedFolders_tx u d = Inr (r, d')"
  shows "remove_rows (\<lambda>b. bl_UserID b = u \<and>
            in_folders (map fo_ID (filter (\<lambda>f. fo_UserID f = u \<and> fo_DeletedAt f \<noteq> None) (folders d))) b)
           (\<lambda>f. fo_UserID f = u \<and> fo_DeletedAt f \<noteq> None) d d'"
  using assms unfolding EmptyTrashedFolders_tx_def
  by (elim stmt_bind_InrE) (auto dest!: remove_folders_txD(2) [rotated] simp del: not_None_eq)

lemma HardDeleteFolder_txD:
  assumes "HardDeleteFolder_tx x u d = Inr (r, d')"
  obtains "r = None" and "d' = d" and "\<And>f. f \<in> set (folders d) \<Longrightarrow> folder_is x u f \<Longrightarrow> is_active f"
  | f0 ids where "f0 \<in> set (folders d)" and "folder_is x u f0" and "\<not> is_active f0"
    and "set ids = below (\<lambda>_. True) d {x}" and "remove_rows (in_folders ids) (id_in ids) d d'"
    and "r = Some (map bl_ObjectKey (filter (in_folders ids) (stored_blobs d)), fo_Name f0)"
proof (cases "find (\<lambda>f. folder_is x u f \<and> fo_DeletedAt f \<noteq> None) (folders d)")
  case None
  then show thesis
    using assms by (intro that(1)) (auto simp: HardDeleteFolder_tx_def is_active_def
        simp del: not_None_eq dest: find_NoneD)
next
  case (Some f0)
  have f0: "f0 \<in> set (folders d)" "folder_is x u f0" "\<not> is_active f0"
    using find_SomeD [OF Some] by (auto simp: is_active_def)
  from assms obtain ids d1 where "subtree_ids (\<lambda>_. True) (\<lambda>_. [x]) d = Inr (ids, d1)"
    and st: "stmt_bind (remove_folders_tx (\<lambda>_. in_folders ids) (id_in ids))
        (\<lambda>(blobs, _). stmt_ret (Some (map bl_ObjectKey blobs, fo_Name f0))) d1 = Inr (r, d')"
    unfolding HardDeleteFolder_tx_def stmt_bind_read Some option.case by (rule stmt_bind_InrE)
  then have ids: "set ids = below (\<lambda>_. True) d {x}" and d1: "d1 = d" by (auto dest: subtree_idsD)
  from st obtain blobs fs where "remove_folders_tx (\<lambda>_. in_folders ids) (id_in ids) d = Inr ((blobs, fs), d')"
    and "r = Some (map bl_ObjectKey blobs, fo_Name f0)"
    unfolding d1 by (rule stmt_bind_InrE) (auto split: prod.splits)
  with remove_folders_txD [of "id_in ids" "\<lambda>_. in_folders ids"] show thesis
    by (intro that(2) [OF f0 ids]) auto
qed

lemma wf_PurgeExpiredFolders:
  assumes "wf_db now d" and "PurgeExpiredFolders_tx before d = Inr (ks, d')"
  shows "wf_db now d'"
  by (rule wf_remove_rows [OF assms(1) PurgeExpiredFolders_txD [OF assms(2)]])
    (rule expired_closed [OF assms(1)])

lemma wf_EmptyTrashedFolders:
  assumes "wf_db now d" and "EmptyTrashedFolders_tx u d = Inr (r, d')"
  shows "wf_db now d'"
  by (rule wf_remove_rows [OF assms(1) EmptyTrashedFolders_txD [OF assms(2)]])
    (rule trashed_closed [OF assms(1)])

lemma wf_HardDeleteFolder:
  assumes wf: "wf_db now d" and "HardDeleteFolder_tx x u d = Inr (r, d')"
  shows "wf_db now d'"
  using assms(2)
proof (rule HardDeleteFolder_txD)
  fix f0 ids
  assume ids: "set ids = below (\<lambda>_. True) d {x}" and rm: "remove_rows (in_folders ids) (id_in ids) d d'"
  show ?thesis
  proof (rule wf_remove_rows [OF wf rm])
    fix f p assume "f \<in> set (folders d)" "fo_ParentID f = Some (fo_ID p)" "id_in ids p"
    with below_child [of "fo_ID p" "\<lambda>_. True" d "{x}" f] show "id_in ids f" by (simp add: id_in_def ids)
  qed
qed (use wf in simp)

section \<open>The interface to the repositories\<close>

text \<open>
  \<open>I\<close> is a predicate on the clock and the tables, \<open>U\<close> the users whose operations it must survive.
  The laws say what it survives: statements on the user's own rows, with the conditions under which
  the service issues them.
\<close>

locale storage_tables =
  fixes I :: "time \<Rightarrow> db \<Rightarrow> bool" and U :: "uuid \<Rightarrow> bool"
  assumes consistent: "I now d \<Longrightarrow> wf_db now d"
    and blobs_update: "I now d \<Longrightarrow> U u \<Longrightarrow>
      d' = d\<lparr>stored_blobs := map (\<lambda>b. if p b then g b else b) (stored_blobs d)\<rparr> \<Longrightarrow>
      (\<And>b. p b \<Longrightarrow> bl_UserID b = u) \<Longrightarrow>
      (\<And>b. bl_ID (g b) = bl_ID b \<and> bl_ObjectKey (g b) = bl_ObjectKey b \<and> bl_UserID (g b) = bl_UserID b) \<Longrightarrow>
      (\<And>b. b \<in> set (stored_blobs d) \<Longrightarrow> p b \<Longrightarrow> blob_ok now (folders d) b \<Longrightarrow> blob_ok now (folders d) (g b)) \<Longrightarrow>
      I now d'"
    and blobs_delete: "I now d \<Longrightarrow> U u \<Longrightarrow> (\<And>b. q b \<Longrightarrow> bl_UserID b = u) \<Longrightarrow>
      delete_blobs q d = Inr (gone, d') \<Longrightarrow> I now d'"
    and blob_insert: "I now d \<Longrightarrow> U (bl_UserID b) \<Longrightarrow> insert_blob b d = Inr (x, d') \<Longrightarrow>
      blob_ok now (folders d) b \<Longrightarrow> I now d'"
    and folder_insert: "I now d \<Longrightarrow> U (fo_UserID f) \<Longrightarrow> insert_folder f d = Inr (x, d') \<Longrightarrow>
      ref_ok (folders d) (fo_ParentID f) (fo_UserID f) (fo_DeletedAt f) \<Longrightarrow> past now (fo_DeletedAt f) \<Longrightarrow> I now d'"
    and folders_update: "I now d \<Longrightarrow> U u \<Longrightarrow> update_folders pf h d = Inr (n, d') \<Longrightarrow>
      (\<And>f. pf f \<Longrightarrow> fo_UserID f = u) \<Longrightarrow>
      (\<And>f. fo_ID (h f) = fo_ID f \<and> fo_UserID (h f) = fo_UserID f \<and> fo_DeletedAt (h f) = fo_DeletedAt f) \<Longrightarrow>
      (\<And>f. f \<in> set (folders d) \<Longrightarrow> pf f \<Longrightarrow>
        ref_ok (folders d) (fo_ParentID (h f)) (fo_UserID f) (fo_DeletedAt f)) \<Longrightarrow> I now d'"
    and trash_folder: "I now d \<Longrightarrow> U u \<Longrightarrow> TrashFolder_tx i u now d = Inr (tr, d') \<Longrightarrow> I now d'"
    and restore_folder: "I now d \<Longrightarrow> U u \<Longrightarrow> RestoreFolder_tx i u d = Inr (rn, d') \<Longrightarrow> I now d'"
    and remove_folder: "I now d \<Longrightarrow> U u \<Longrightarrow> HardDeleteFolder_tx i u d = Inr (rk, d') \<Longrightarrow> I now d'"
    and empty_folders: "I now d \<Longrightarrow> U u \<Longrightarrow> EmptyTrashedFolders_tx u d = Inr (re, d') \<Longrightarrow> I now d'"
begin

lemma keeps_delete_own:
  "U u \<Longrightarrow> (\<And>b. q b \<Longrightarrow> bl_UserID b = u) \<Longrightarrow> keeps (on_db I) (db_call (\<lambda>_. delete_blobs q))"
  by (rule keeps_db_call) (rule blobs_delete)

lemma keeps_update_own:
  assumes "U u" and "\<And>b. p b \<Longrightarrow> bl_UserID b = u"
    and "\<And>now b. bl_ID (g now b) = bl_ID b \<and> bl_ObjectKey (g now b) = bl_ObjectKey b
      \<and> bl_UserID (g now b) = bl_UserID b \<and> bl_FolderID (g now b) = bl_FolderID b
      \<and> bl_DeletedAt (g now b) = bl_DeletedAt b"
  shows "keeps (on_db I) (db_call (\<lambda>now. update_blobs p (g now)))"
proof (rule keeps_db_call)
  fix now d n d' assume "I now d" and "update_blobs p (g now) d = Inr (n, d')"
  then show "I now d'"
    by (rule blobs_update [OF _ assms(1) conjunct1 [OF update_blobsD] assms(2)])
      (use assms(3) in \<open>auto simp: blob_ok_def\<close>)
qed

lemma DeleteBlob_keeps: "U u \<Longrightarrow> keeps (on_db I) (DeleteBlob u b)"
  unfolding DeleteBlob_def TrashBlob_pg_def
proof (intro keeps_rules keeps_db_call)
  fix now d r d' assume "U u" and "I now d"
    and up: "update_blob_returning (\<lambda>x. blob_is b u x \<and> bl_DeletedAt x = None)
      (\<lambda>x. x\<lparr>bl_DeletedAt := Some now\<rparr>) bl_FileName d = Inr (r, d')"
  show "I now d'"
    by (rule blobs_update [OF \<open>I now d\<close> \<open>U u\<close> conjunct1 [OF update_blob_returningD [OF up]]])
      (auto simp: blob_is_def blob_ok_def intro: ref_ok_trash)
qed

lemma RestoreBlob_keeps: "U u \<Longrightarrow> keeps (on_db I) (RestoreBlob u b)"
  unfolding RestoreBlob_def RestoreBlob_pg_def
proof (intro keeps_rules keeps_db_call)
  fix now d r d' assume "U u" and "I now d"
    and up: "update_blob_returning (\<lambda>x. blob_is b u x \<and> bl_DeletedAt x \<noteq> None)
      (\<lambda>x. x\<lparr>bl_DeletedAt := None, bl_FolderID := restored_folder d (bl_FolderID x)\<rparr>) bl_FileName d = Inr (r, d')"
  show "I now d'"
    by (rule blobs_update [OF \<open>I now d\<close> \<open>U u\<close> conjunct1 [OF update_blob_returningD [OF up]]])
      (auto simp: blob_is_def blob_ok_def
        intro: ref_ok_restored [OF wf_dbD(1) [OF consistent [OF \<open>I now d\<close>]]])
qed

lemma HardDeleteBlob_keeps: "U u \<Longrightarrow> keeps (on_db I) (HardDeleteBlob s u b)"
  unfolding HardDeleteBlob_def PeekTrashedBlob_pg_def HardDeleteBlob_pg_def
  by (intro keeps_rules keeps_delete_own) (auto simp: blob_is_def)

lemma RenameBlob_keeps: "U u \<Longrightarrow> keeps (on_db I) (RenameBlob u b name)"
  unfolding RenameBlob_def RenameBlob_pg_def
  by (intro keeps_rules keeps_update_own) (auto simp: blob_is_def)

lemma MoveBlob_keeps:
  assumes "U u"
  shows "keeps (on_db I) (MoveBlob u b r)"
  unfolding MoveBlob_def
proof (rule triple_bindE [OF triple_folder_name_of], rule weaken_target, intro keeps_rules)
  show "keeps (on_db (with_target I r u)) (MoveBlob_pg b u r)"
    unfolding MoveBlob_pg_def
  proof (intro keeps_rules keeps_db_call)
    fix now d n d'
    assume J: "with_target I r u now d"
      and up: "update_blobs (\<lambda>x. blob_is b u x \<and> bl_DeletedAt x = None) (\<lambda>x. x\<lparr>bl_FolderID := r\<rparr>) d = Inr (n, d')"
    have "I now d'"
      by (rule blobs_update [OF conjunct1 [OF J] assms conjunct1 [OF update_blobsD [OF up]]])
        (use J in \<open>auto simp: blob_ok_def blob_is_def active_target_def\<close>)
    then show "with_target I r u now d'"
      using J update_blobsD [OF up] by (simp add: active_target_def)
  qed
qed

lemma CreateFolder_keeps:
  assumes "U (cf_UserID p)"
  shows "keeps (on_db I) (CreateFolder newID p)"
  unfolding CreateFolder_def CreateFolder_pg_def
proof (rule triple_bindE [OF triple_folder_name_of], rule triple_bindE, rule triple_map_err, rule triple_db_call)
  fix now d f d'
  assume J: "with_target I (cf_ParentID p) (cf_UserID p) now d"
    and "stmt_bind (insert_folder (new_folder_row newID now p))
        (\<lambda>_. stmt_ret (new_folder_row newID now p)) d = Inr (f, d')"
  then have "insert_folder (new_folder_row newID now p) d = Inr ((), d')"
    by (auto elim!: stmt_bind_InrE)
  then show "I now d'"
    by (rule folder_insert [OF conjunct1 [OF J], rotated])
      (use J assms in \<open>simp_all add: active_target_def new_folder_row_def\<close>)
qed (simp, rule keeps_ret)

lemma RenameFolder_keeps: "U u \<Longrightarrow> keeps (on_db I) (RenameFolder u f name)"
  unfolding RenameFolder_def RenameFolder_pg_def
proof (intro keeps_rules keeps_db_call)
  fix now d r d' assume "U u" and i: "I now d"
    and "stmt_bind (stmt_read (\<lambda>d. find (\<lambda>x. folder_is f u x \<and> is_active x) (folders d)))
      (\<lambda>old. stmt_bind (update_folders (\<lambda>x. folder_is f u x \<and> is_active x) (\<lambda>x. x\<lparr>fo_Name := name\<rparr>))
        (\<lambda>_. stmt_ret (map_option (\<lambda>x. x\<lparr>fo_Name := name\<rparr>) old))) d = Inr (r, d')"
  then obtain n where "update_folders (\<lambda>x. folder_is f u x \<and> is_active x) (\<lambda>x. x\<lparr>fo_Name := name\<rparr>) d = Inr (n, d')"
    by (auto elim!: stmt_bind_InrE)
  then show "I now d'"
    by (rule folders_update [OF i \<open>U u\<close>])
      (use wf_dbD(5) [OF consistent [OF i]] in \<open>auto simp: folder_ok_def folder_is_def\<close>)
qed

lemma triple_MoveFolder_pg:
  assumes "U (mf_UserID p)"
  shows "triple (on_db (with_target I (mf_NewParentID p) (mf_UserID p))) (MoveFolder_pg p) (\<lambda>_. on_db I) (\<lambda>_. on_db I)"
  unfolding MoveFolder_pg_def
proof (rule triple_bindE, rule triple_map_err, rule triple_db_call)
  fix now d n d'
  assume J: "with_target I (mf_NewParentID p) (mf_UserID p) now d"
    and up: "update_folders (\<lambda>f. folder_is (mf_FolderID p) (mf_UserID p) f \<and> is_active f)
      (\<lambda>f. f\<lparr>fo_ParentID := mf_NewParentID p\<rparr>) d = Inr (n, d')"
  show "I now d'"
    by (rule folders_update [OF conjunct1 [OF J] assms up])
      (use J in \<open>auto simp: active_target_def folder_is_def is_active_def\<close>)
qed (auto intro: keeps_rules)

lemma MoveFolder_keeps: "U (mf_UserID p) \<Longrightarrow> keeps (on_db I) (MoveFolder p)"
  unfolding MoveFolder_def
  by (intro keeps_bind keeps_found keeps_GetFolder_pg keeps_source_name
      triple_bindE [OF triple_move_target] triple_bindE [OF triple_MoveFolder_pg] keeps_ret)

lemma DeleteFolder_keeps: "U u \<Longrightarrow> keeps (on_db I) (DeleteFolder u f)"
  unfolding DeleteFolder_def TrashFolder_pg_def
  by (intro keeps_rules keeps_db_call) (rule trash_folder)

lemma RestoreFolder_keeps: "U u \<Longrightarrow> keeps (on_db I) (RestoreFolder u f)"
  unfolding RestoreFolder_def RestoreFolder_pg_def
  by (intro keeps_rules keeps_db_call) (rule restore_folder)

lemma HardDeleteFolder_keeps: "U u \<Longrightarrow> keeps (on_db I) (HardDeleteFolder s u f)"
  unfolding HardDeleteFolder_def HardDeleteFolder_pg_def
  by (intro keeps_rules keeps_db_call) (rule remove_folder)

lemma EmptyTrash_keeps: "U u \<Longrightarrow> keeps (on_db I) (EmptyTrash s u)"
  unfolding EmptyTrash_def EmptyTrashedBlobs_pg_def EmptyTrashedFolders_pg_def
  by (intro keeps_rules keeps_delete_own keeps_db_call) (auto intro: empty_folders)

lemma AbortUpload_keeps: "U u \<Longrightarrow> keeps (on_db I) (AbortUpload s u b)"
  unfolding AbortUpload_def GetPendingBlobMeta_pg_def AbortPendingBlob_pg_def
  by (intro keeps_rules keeps_delete_own) (auto simp: blob_is_def)

lemma CompleteMultipartUpload_keeps: "U (cm_UserID p) \<Longrightarrow> keeps (on_db I) (CompleteMultipartUpload s p)"
  unfolding CompleteMultipartUpload_def GetPendingBlobMeta_pg_def ConfirmBlobUpload_pg_def
  by (intro keeps_rules keeps_update_own) (auto simp: blob_is_def)

lemma triple_register:
  assumes "rb_FolderID p = r" and "rb_UserID p = u" and "U u"
  shows "triple (on_db (with_target I r u)) (attempt (RegisterBlob_pg p)
     (\<lambda>x. case x of Inl e \<Rightarrow> bindE (ignore (obj_call m)) (\<lambda>_. fail (Db e)) | Inr _ \<Rightarrow> ret ()))
     (\<lambda>_. on_db I) (\<lambda>_. on_db I)"
proof (rule triple_attempt [where M = "\<lambda>_. on_db I"])
  show "triple (on_db (with_target I r u)) (RegisterBlob_pg p) (\<lambda>_. on_db I) (\<lambda>_. on_db I)"
    unfolding RegisterBlob_pg_def
  proof (rule triple_db_call)
    fix now d x d'
    assume J: "with_target I r u now d" and ins: "insert_blob (new_blob_row now p) d = Inr (x, d')"
    show "I now d'"
      by (rule blob_insert [OF conjunct1 [OF J] _ ins])
        (use J assms in \<open>simp_all add: new_blob_row_def blob_ok_def active_target_def\<close>)
  qed simp
qed (intro keeps_rules)

lemma InitiateMultipartUpload_keeps:
  assumes "U (im_UserID p)"
  shows "keeps (on_db I) (InitiateMultipartUpload s us b p)"
proof -
  let ?J = "on_db (with_target I (im_FolderID p) (im_UserID p))"
  have new: "triple ?J (obj_call m) (\<lambda>_. ?J) (\<lambda>_. on_db I)" for m :: "('a, minio_err, string) eff"
    by (rule triple_weaken [OF keeps_obj_call [where I = "with_target I (im_FolderID p) (im_UserID p)"]])
      (auto simp: on_db_def)
  show ?thesis
    unfolding InitiateMultipartUpload_def Let_def
    by (intro keeps_if keeps_fail keeps_bind [OF keeps_quota_check] triple_bindE [OF triple_requireFolder]
        triple_bindE [OF new] triple_bindE [OF triple_register] keeps_bind keeps_presign_parts keeps_ret)
      (simp_all add: assms)
qed

end

text \<open>The scheduled clean-ups act on the rows of every user.\<close>

locale cleaned_tables = storage_tables +
  assumes any_delete: "I now d \<Longrightarrow> delete_blobs q d = Inr (gone, d') \<Longrightarrow> I now d'"
    and purge_folders: "I now d \<Longrightarrow> PurgeExpiredFolders_tx before d = Inr (ks, d') \<Longrightarrow> I now d'"
begin

lemma CleanOrphanedBlobs_keeps: "keeps (on_db I) (CleanOrphanedBlobs s ttl)"
  unfolding CleanOrphanedBlobs_def PurgeOrphanedBlobs_pg_def
  by (intro keeps_rules keeps_db_call) (rule any_delete)

lemma CleanExpiredTrash_keeps: "keeps (on_db I) (CleanExpiredTrash s ttl)"
  unfolding CleanExpiredTrash_def PurgeExpiredBlobs_pg_def PurgeExpiredFolders_pg_def
  by (intro keeps_rules keeps_db_call) (auto intro: any_delete purge_folders)

end

section \<open>The state machine\<close>

datatype storage_op =
  OpDeleteBlob uuid uuid
| OpRestoreBlob uuid uuid
| OpHardDeleteBlob uuid uuid
| OpMoveBlob uuid uuid "uuid option"
| OpRenameBlob uuid uuid string
| OpCreateFolder uuid CreateFolderParams
| OpRenameFolder uuid uuid string
| OpMoveFolder MoveFolderParams
| OpDeleteFolder uuid uuid
| OpRestoreFolder uuid uuid
| OpHardDeleteFolder uuid uuid
| OpEmptyTrash uuid
| OpAbortUpload uuid uuid
| OpInitiate uuid InitiateMultipartParams
| OpComplete CompleteMultipartParams
| OpCleanOrphanedBlobs int
| OpCleanExpiredTrash int

text \<open>Every state-changing operation of the service, its result dropped.\<close>

fun run_op :: "'o Service \<Rightarrow> (uuid \<Rightarrow> string) \<Rightarrow> storage_op \<Rightarrow> ('o sworld, storage_err, unit) eff" where
  "run_op s us (OpDeleteBlob u b) = ignore (DeleteBlob u b)"
| "run_op s us (OpRestoreBlob u b) = ignore (RestoreBlob u b)"
| "run_op s us (OpHardDeleteBlob u b) = ignore (HardDeleteBlob s u b)"
| "run_op s us (OpMoveBlob u b r) = ignore (MoveBlob u b r)"
| "run_op s us (OpRenameBlob u b n) = ignore (RenameBlob u b n)"
| "run_op s us (OpCreateFolder i p) = ignore (CreateFolder i p)"
| "run_op s us (OpRenameFolder u f n) = ignore (RenameFolder u f n)"
| "run_op s us (OpMoveFolder p) = ignore (MoveFolder p)"
| "run_op s us (OpDeleteFolder u f) = ignore (DeleteFolder u f)"
| "run_op s us (OpRestoreFolder u f) = ignore (RestoreFolder u f)"
| "run_op s us (OpHardDeleteFolder u f) = ignore (HardDeleteFolder s u f)"
| "run_op s us (OpEmptyTrash u) = ignore (EmptyTrash s u)"
| "run_op s us (OpAbortUpload u b) = ignore (AbortUpload s u b)"
| "run_op s us (OpInitiate i p) = ignore (InitiateMultipartUpload s us i p)"
| "run_op s us (OpComplete p) = ignore (CompleteMultipartUpload s p)"
| "run_op s us (OpCleanOrphanedBlobs ttl) = ignore (CleanOrphanedBlobs s ttl)"
| "run_op s us (OpCleanExpiredTrash ttl) = ignore (CleanExpiredTrash s ttl)"

text \<open>The user an operation acts for; the clean-ups act for nobody.\<close>

fun op_user :: "storage_op \<Rightarrow> uuid option" where
  "op_user (OpDeleteBlob u b) = Some u"
| "op_user (OpRestoreBlob u b) = Some u"
| "op_user (OpHardDeleteBlob u b) = Some u"
| "op_user (OpMoveBlob u b r) = Some u"
| "op_user (OpRenameBlob u b n) = Some u"
| "op_user (OpCreateFolder i p) = Some (cf_UserID p)"
| "op_user (OpRenameFolder u f n) = Some u"
| "op_user (OpMoveFolder p) = Some (mf_UserID p)"
| "op_user (OpDeleteFolder u f) = Some u"
| "op_user (OpRestoreFolder u f) = Some u"
| "op_user (OpHardDeleteFolder u f) = Some u"
| "op_user (OpEmptyTrash u) = Some u"
| "op_user (OpAbortUpload u b) = Some u"
| "op_user (OpInitiate i p) = Some (im_UserID p)"
| "op_user (OpComplete p) = Some (cm_UserID p)"
| "op_user (OpCleanOrphanedBlobs ttl) = None"
| "op_user (OpCleanExpiredTrash ttl) = None"

context storage_tables
begin

lemma user_op_keeps: "op_user x = Some u \<Longrightarrow> U u \<Longrightarrow> keeps (on_db I) (run_op s us x)"
  by (cases x)
    (auto intro!: keeps_ignore DeleteBlob_keeps RestoreBlob_keeps HardDeleteBlob_keeps MoveBlob_keeps
      RenameBlob_keeps CreateFolder_keeps RenameFolder_keeps MoveFolder_keeps DeleteFolder_keeps
      RestoreFolder_keeps HardDeleteFolder_keeps EmptyTrash_keeps AbortUpload_keeps
      InitiateMultipartUpload_keeps CompleteMultipartUpload_keeps)

end

context cleaned_tables
begin

lemma clean_op_keeps: "op_user x = None \<Longrightarrow> keeps (on_db I) (run_op s us x)"
  by (cases x) (auto intro!: keeps_ignore CleanOrphanedBlobs_keeps CleanExpiredTrash_keeps)

end

text \<open>The invariant is such a predicate, for every user.\<close>

interpretation wf: cleaned_tables wf_db "\<lambda>_. True"
proof unfold_locales
  fix now d u d' p g
  assume "wf_db now d" "d' = d\<lparr>stored_blobs := map (\<lambda>b. if p b then g b else b) (stored_blobs d)\<rparr>"
    "\<And>b. bl_ID (g b) = bl_ID b \<and> bl_ObjectKey (g b) = bl_ObjectKey b \<and> bl_UserID (g b) = bl_UserID b"
    "\<And>b. b \<in> set (stored_blobs d) \<Longrightarrow> p b \<Longrightarrow> blob_ok now (folders d) b \<Longrightarrow> blob_ok now (folders d) (g b)"
  then show "wf_db now d'" by (rule wf_update_blobs)
next
  fix now d u pf h n d'
  assume "wf_db now d" "update_folders pf h d = Inr (n, d')"
    "\<And>f. fo_ID (h f) = fo_ID f \<and> fo_UserID (h f) = fo_UserID f \<and> fo_DeletedAt (h f) = fo_DeletedAt f"
    "\<And>f. f \<in> set (folders d) \<Longrightarrow> pf f \<Longrightarrow> ref_ok (folders d) (fo_ParentID (h f)) (fo_UserID f) (fo_DeletedAt f)"
  then show "wf_db now d'" by (rule wf_update_folders)
qed (auto intro: wf_delete_blobs wf_insert_blob wf_insert_folder wf_TrashFolder wf_RestoreFolder
    wf_HardDeleteFolder wf_EmptyTrashedFolders wf_PurgeExpiredFolders)

abbreviation wf_world :: "'x world_scheme \<Rightarrow> bool" where
  "wf_world \<equiv> on_db wf_db"

lemma run_op_keeps: "keeps wf_world (run_op s us x)"
  by (cases "op_user x") (simp_all add: wf.clean_op_keeps wf.user_op_keeps)

text \<open>
  A step is an operation, the passing of time (with a new fault schedule for what follows), or a
  client's work on the object store with its presigned URLs.
\<close>

inductive storage_step :: "'o Service \<Rightarrow> (uuid \<Rightarrow> string) \<Rightarrow> 'o sworld \<Rightarrow> 'o sworld \<Rightarrow> bool"
  for s us where
  op: "storage_step s us w (snd (run_op s us x w))"
| tick: "w_now w \<le> t \<Longrightarrow> storage_step s us w (w\<lparr>w_now := t, w_faults := fs\<rparr>)"
| upload: "storage_step s us w (w\<lparr>w_obj := x\<rparr>)"

inductive_cases storage_stepE: "storage_step s us w w'"

lemma storage_step_wf: "storage_step s us w w' \<Longrightarrow> wf_world w \<Longrightarrow> wf_world w'"
proof (induction rule: storage_step.induct)
  case (op w x)
  then show ?case by (rule keeps_snd [OF run_op_keeps])
next
  case (tick w t fs)
  then show ?case by (auto simp: on_db_def intro: wf_db_mono)
next
  case (upload w x)
  then show ?case by (simp add: on_db_def)
qed

lemma storage_steps_wf: "(storage_step s us)\<^sup>*\<^sup>* w w' \<Longrightarrow> wf_world w \<Longrightarrow> wf_world w'"
  by (induction rule: rtranclp_induct) (auto intro: storage_step_wf)

lemma wf_db_empty: "folders d = [] \<Longrightarrow> stored_blobs d = [] \<Longrightarrow> wf_db now d"
  by (simp add: wf_db_def folder_ids_distinct_def folder_names_unique_def active_folder_keys_def)


text \<open>
  C4. Every world the service reaches from empty tables is consistent: after any sequence of
  operations by any users, with any faults in between, keys are unique, references stay inside one
  account, active folder names do not clash, and everything inside a trashed folder is in the trash.
\<close>

theorem storage_reachable_consistent:
  assumes "folders (w_db w) = []" and "stored_blobs (w_db w) = []" and "(storage_step s us)\<^sup>*\<^sup>* w w'"
  shows "wf_db (w_now w') (w_db w')"
  using storage_steps_wf [OF assms(3)] wf_db_empty [OF assms(1,2)] by (simp add: on_db_def)

end
