(* ===== verification/Storage_Trash.thy ===== *)
theory Storage_Trash
  imports Storage_Steps
begin

text \<open>
  The trash of the storage service: permanent deletion empties exactly what it should, restoring a
  folder undoes trashing it, and no row disappears while its object is still stored.
\<close>

section \<open>Permanent deletion\<close>

lemma expired_trashed: "expired before t \<Longrightarrow> t \<noteq> None"
  by (cases t) (auto simp: expired_def)

lemma in_folders_set: "in_folders (map fo_ID (filter p (folders d))) b \<longleftrightarrow>
    (\<exists>f \<in> set (folders d). p f \<and> bl_FolderID b = Some (fo_ID f))"
  by (auto simp: in_folders_def split: option.splits)

lemma unlink_id:
  assumes "\<And>i. bl_FolderID b = Some i \<Longrightarrow> i \<notin> ids"
  shows "unlink ids b = b"
  using assms by (auto simp: unlink_def split: option.splits)

text \<open>The folder a blob lies in, by the invariant: same owner, and trashed no earlier.\<close>

lemma blob_parentD:
  assumes "wf_db now d" and "b \<in> set (stored_blobs d)" and "p \<in> set (folders d)"
    and "bl_FolderID b = Some (fo_ID p)"
  shows "fo_UserID p = bl_UserID b" and "trash_le (bl_DeletedAt b) (fo_DeletedAt p)"
  using blob_refD [OF assms(1,2,4)] folder_unique [OF wf_dbD(1) [OF assms(1)]] assms(3) by metis+

text \<open>Two deletions of blobs before the folders go: none of the remaining blobs is in a deleted folder.\<close>

lemma remove_rows_exact:
  assumes rm: "remove_rows pb pf d d'"
    and pb: "\<And>b. b \<in> set (stored_blobs d) \<Longrightarrow> pb b = (\<exists>p \<in> set (folders d). pf p \<and> bl_FolderID b = Some (fo_ID p))"
  shows "stored_blobs d' = filter (\<lambda>b. \<not> pb b) (stored_blobs d)"
proof -
  have "map (unlink (fo_ID ` {f \<in> set (folders d). pf f})) (filter (\<lambda>b. \<not> pb b) (stored_blobs d))
      = map (\<lambda>b. b) (filter (\<lambda>b. \<not> pb b) (stored_blobs d))"
    by (rule map_cong [OF refl], rule unlink_id) (auto dest: pb)
  with rm show ?thesis by (simp add: remove_rows_def)
qed

lemma PurgeExpiredFolders_total:
  assumes wf: "wf_db now d"
  shows "\<exists>ks d'. PurgeExpiredFolders_tx before d = Inr (ks, d')"
proof -
  let ?pb = "\<lambda>d. in_folders (map fo_ID (filter (\<lambda>f. expired before (fo_DeletedAt f)) (folders d)))"
  have "\<exists>fs d'. remove_folders_tx ?pb (\<lambda>f. expired before (fo_DeletedAt f)) d
      = Inr ((filter (?pb d) (stored_blobs d), fs), d')"
    by (rule remove_folders_tx_total [OF wf])
      (auto simp: is_active_def dest: expired_trashed intro: expired_closed [OF wf])
  then show ?thesis by (auto simp: PurgeExpiredFolders_tx_def stmt_bind_def)
qed

lemma EmptyTrashedFolders_total:
  assumes wf: "wf_db now d"
  shows "\<exists>r d'. EmptyTrashedFolders_tx u d = Inr (r, d')"
proof -
  let ?pf = "\<lambda>f. fo_UserID f = u \<and> fo_DeletedAt f \<noteq> None"
  let ?pb = "\<lambda>d b. bl_UserID b = u \<and> in_folders (map fo_ID (filter ?pf (folders d))) b"
  have "\<exists>fs d'. remove_folders_tx ?pb ?pf d = Inr ((filter (?pb d) (stored_blobs d), fs), d')"
    by (rule remove_folders_tx_total [OF wf parent_blind_conds(2)])
      (auto simp: is_active_def simp del: not_None_eq dest: trashed_closed [OF wf])
  then show ?thesis by (auto simp: EmptyTrashedFolders_tx_def stmt_bind_def simp del: not_None_eq)
qed

lemma HardDeleteFolder_total:
  assumes wf: "wf_db now d" and ac: "acyclic_folders (folders d)"
  shows "\<exists>r d'. HardDeleteFolder_tx x u d = Inr (r, d')"
proof (cases "find (\<lambda>f. folder_is x u f \<and> fo_DeletedAt f \<noteq> None) (folders d)")
  case None
  then show ?thesis by (simp add: HardDeleteFolder_tx_def del: not_None_eq)
next
  case (Some f0)
  have f0: "f0 \<in> set (folders d)" "fo_ID f0 = x" "\<not> is_active f0"
    using find_SomeD [OF Some] by (auto simp: is_active_def folder_is_def)
  obtain ids where w: "subtree_walk (\<lambda>_. True) (folders d) [x] = Some ids"
    using subtree_walk_acyclic [OF ac] by blast
  then have ids: "set ids = below (\<lambda>_. True) d {x}" by (simp add: subtree_walk_set)
  have "\<exists>fs d'. remove_folders_tx (\<lambda>_. in_folders ids) (id_in ids) d
      = Inr ((filter (in_folders ids) (stored_blobs d), fs), d')"
  proof (rule remove_folders_tx_total [OF wf parent_blind_conds(1)])
    show "\<not> is_active f" if "f \<in> set (folders d)" "id_in ids f" for f
      using below_trashed [OF wf f0(1,3), of "fo_ID f" f] that by (simp add: id_in_def ids f0(2))
    show "id_in ids f" if "f \<in> set (folders d)" "fo_ParentID f = Some (fo_ID p)" "id_in ids p" for f p
      using below_child [of "fo_ID p" "\<lambda>_. True" d "{x}" f] that by (simp add: id_in_def ids)
  qed
  with w Some show ?thesis
    by (auto simp: HardDeleteFolder_tx_def stmt_bind_def subtree_ids_def simp del: not_None_eq)
qed

section \<open>The clean-up of expired trash\<close>

lemma remove_objects_ok: "\<exists>x. remove_objects s ks w = (Inr (), w\<lparr>w_obj := x\<rparr>)"
proof (induction ks arbitrary: w)
  case Nil
  show ?case by (auto simp: remove_objects_def ret_def intro: exI [of _ "w_obj w"])
next
  case (Cons k ks)
  let ?w = "snd (obj_call (RemoveObject (sv_Objects s) k) w)"
  have "remove_objects s (k # ks) w = remove_objects s ks ?w"
    by (simp add: remove_objects_def bindE_def ignore_def)
  with Cons [of ?w] show ?case by auto
qed

lemma db_call_total:
  assumes "w_faults w = []" and "s (w_now w) (w_db w) = Inr (x, d)"
  shows "db_call s w = (Inr x, w\<lparr>w_db := d\<rparr>)"
  using assms by (simp add: db_call_nil)


lemma delete_blobs_call:
  assumes "w_faults w = []"
  obtains d' where "db_call (\<lambda>now. delete_blobs p) w = (Inr (filter p (stored_blobs (w_db w))), w\<lparr>w_db := d'\<rparr>)"
    and "delete_blobs p (w_db w) = Inr (filter p (stored_blobs (w_db w)), d')"
proof -
  obtain d' where "delete_blobs p (w_db w) = Inr (filter p (stored_blobs (w_db w)), d')"
    by (simp add: delete_blobs_def Let_def)
  with assms show thesis by (intro that [of d']) (simp_all add: db_call_total)
qed

lemma purge_blobs_folders:
  assumes wf: "wf_db now d" and d1: "delete_blobs (\<lambda>b. expired before (bl_DeletedAt b)) d = Inr (gone, d1)"
    and d2: "PurgeExpiredFolders_tx before d1 = Inr (ks, d2)"
  shows "folders d2 = filter (\<lambda>f. \<not> expired before (fo_DeletedAt f)) (folders d)"
    and "stored_blobs d2 = filter (\<lambda>b. \<not> expired before (bl_DeletedAt b)) (stored_blobs d)"
proof -
  note e1 = delete_blobsD [OF d1]
  note wf1 = wf_delete_blobs [OF wf d1]
  note rm = PurgeExpiredFolders_txD [OF d2]
  show "folders d2 = filter (\<lambda>f. \<not> expired before (fo_DeletedAt f)) (folders d)"
    using rm by (simp add: remove_rows_def e1)
  have none: "\<not> (\<exists>p \<in> set (folders d1). expired before (fo_DeletedAt p) \<and> bl_FolderID b = Some (fo_ID p))"
    if b: "b \<in> set (stored_blobs d1)" for b
  proof
    assume "\<exists>p \<in> set (folders d1). expired before (fo_DeletedAt p) \<and> bl_FolderID b = Some (fo_ID p)"
    then obtain p where p: "p \<in> set (folders d1)" "expired before (fo_DeletedAt p)" "bl_FolderID b = Some (fo_ID p)"
      by blast
    from expired_le [OF blob_parentD(2) [OF wf1 b p(1,3)] p(2)] b e1 show False by simp
  qed
  have "stored_blobs d2 = stored_blobs d1"
    using remove_rows_exact [OF rm] none by (simp add: in_folders_set cong: filter_cong)
  then show "stored_blobs d2 = filter (\<lambda>b. \<not> expired before (bl_DeletedAt b)) (stored_blobs d)"
    by (simp add: e1)
qed

text \<open>
  C23. When no call fails, the clean-up of expired trash always succeeds on a consistent database (no
  foreign key stops it), and removes exactly the folders and files trashed longer than \<open>ttl\<close> ago.
\<close>

theorem CleanExpiredTrash_complete:
  assumes "wf_db (w_now w) (w_db w)" and "w_faults w = []"
  shows "\<exists>w'. CleanExpiredTrash s ttl w = (Inr (), w')
    \<and> folders (w_db w') = filter (\<lambda>f. \<not> expired (w_now w - ttl) (fo_DeletedAt f)) (folders (w_db w))
    \<and> stored_blobs (w_db w') =
        filter (\<lambda>b. \<not> expired (w_now w - ttl) (bl_DeletedAt b)) (stored_blobs (w_db w))"
proof -
  let ?before = "w_now w - ttl" and ?d = "w_db w"
  let ?gone = "filter (\<lambda>b. expired ?before (bl_DeletedAt b)) (stored_blobs ?d)"
  obtain d1 where c1: "db_call (\<lambda>now. delete_blobs (\<lambda>b. expired ?before (bl_DeletedAt b))) w
      = (Inr ?gone, w\<lparr>w_db := d1\<rparr>)"
    and d1: "delete_blobs (\<lambda>b. expired ?before (bl_DeletedAt b)) ?d = Inr (?gone, d1)"
    by (rule delete_blobs_call [OF assms(2)])
  obtain ks d2 where d2: "PurgeExpiredFolders_tx ?before d1 = Inr (ks, d2)"
    using PurgeExpiredFolders_total [OF wf_delete_blobs [OF assms(1) d1]] by blast
  let ?w2 = "w\<lparr>w_db := d2\<rparr>"
  have "PurgeExpiredFolders_pg ?before (w\<lparr>w_db := d1\<rparr>) = (Inr ks, ?w2)"
    using assms(2) d2 by (simp add: PurgeExpiredFolders_pg_def db_call_total)
  then have run: "CleanExpiredTrash s ttl w = remove_objects s (map bl_ObjectKey ?gone @ ks) ?w2"
    by (simp add: CleanExpiredTrash_def bindE_def now_minus_def PurgeExpiredBlobs_pg_def c1
        map_err_def ret_def)
  obtain x where "remove_objects s (map bl_ObjectKey ?gone @ ks) ?w2 = (Inr (), ?w2\<lparr>w_obj := x\<rparr>)"
    using remove_objects_ok [of s "map bl_ObjectKey ?gone @ ks" ?w2] by blast
  with run purge_blobs_folders [OF assms(1) d1 d2] show ?thesis by simp
qed


section \<open>Emptying the trash\<close>

lemma empty_blobs_folders:
  assumes wf: "wf_db now d"
    and d1: "delete_blobs (\<lambda>b. bl_UserID b = u \<and> bl_DeletedAt b \<noteq> None) d = Inr (gone, d1)"
    and d2: "EmptyTrashedFolders_tx u d1 = Inr (r, d2)"
  shows "folders d2 = filter (\<lambda>f. \<not> (fo_UserID f = u \<and> fo_DeletedAt f \<noteq> None)) (folders d)"
    and "stored_blobs d2 = filter (\<lambda>b. \<not> (bl_UserID b = u \<and> bl_DeletedAt b \<noteq> None)) (stored_blobs d)"
proof -
  let ?pf = "\<lambda>f. fo_UserID f = u \<and> fo_DeletedAt f \<noteq> None"
  note e1 = delete_blobsD [OF d1]
  note wf1 = wf_delete_blobs [OF wf d1]
  note rm = EmptyTrashedFolders_txD [OF d2]
  show "folders d2 = filter (\<lambda>f. \<not> ?pf f) (folders d)"
    using rm by (simp add: remove_rows_def e1 del: not_None_eq)
  have none: "bl_FolderID b \<noteq> Some (fo_ID p)"
    if b: "b \<in> set (stored_blobs d1)" and p: "p \<in> set (folders d1)" "?pf p" for b p
  proof
    assume "bl_FolderID b = Some (fo_ID p)"
    with blob_parentD [OF wf1 b p(1)] p(2) have "bl_UserID b = u \<and> bl_DeletedAt b \<noteq> None"
      by (cases "bl_DeletedAt b") auto
    with b e1 show False by simp
  qed
  have pb: "(bl_UserID b = u \<and> in_folders (map fo_ID (filter ?pf (folders d1))) b)
      = (\<exists>p \<in> set (folders d1). ?pf p \<and> bl_FolderID b = Some (fo_ID p))"
    and "\<not> in_folders (map fo_ID (filter ?pf (folders d1))) b" if "b \<in> set (stored_blobs d1)" for b
    unfolding in_folders_set using none [OF that] by blast+
  with remove_rows_exact [OF rm pb] have "stored_blobs d2 = stored_blobs d1"
    by (simp cong: filter_cong del: not_None_eq)
  then show "stored_blobs d2 = filter (\<lambda>b. \<not> (bl_UserID b = u \<and> bl_DeletedAt b \<noteq> None)) (stored_blobs d)"
    by (simp add: e1)
qed

text \<open>The folders it returns are the ones it removes.\<close>

lemma remove_folders_tx_returns:
  assumes blind: "parent_blind pf" and "remove_folders_tx pb pf d = Inr ((blobs, fs), d')"
  shows "map (\<lambda>f. (fo_ID f, fo_Name f)) fs = map (\<lambda>f. (fo_ID f, fo_Name f)) (filter pf (folders d))"
proof -
  from assms(2) obtain d1 d2 n where d1: "delete_blobs (pb d) d = Inr (blobs, d1)"
    and d2: "update_folders pf (\<lambda>f. f\<lparr>fo_ParentID := None\<rparr>) d1 = Inr (n, d2)" and d3: "delete_folders pf d2 = Inr (fs, d')"
    unfolding remove_folders_tx_def by (elim stmt_bind_InrE) auto
  have "fs = filter pf (map (\<lambda>f. if pf f then f\<lparr>fo_ParentID := None\<rparr> else f) (folders d))"
    using d3 by (auto simp: delete_folders_def Let_def update_foldersD(1) [OF d2] delete_blobsD(3) [OF d1] split: if_splits)
  moreover have "map (\<lambda>f. (fo_ID f, fo_Name f)) (filter pf (map (\<lambda>f. if pf f then f\<lparr>fo_ParentID := None\<rparr> else f) t))
      = map (\<lambda>f. (fo_ID f, fo_Name f)) (filter pf t)" for t
    using blind by (induction t) (auto simp: parent_blind_def)
  ultimately show ?thesis by simp
qed

lemma EmptyTrashedFolders_returns:
  assumes "EmptyTrashedFolders_tx u d = Inr ((fs, ks), d')"
  shows "map (\<lambda>f. (ef_ID f, ef_Name f)) fs
    = map (\<lambda>f. (fo_ID f, fo_Name f)) (filter (\<lambda>f. fo_UserID f = u \<and> fo_DeletedAt f \<noteq> None) (folders d))"
proof -
  from assms obtain blobs gs where gs: "remove_folders_tx (\<lambda>d b. bl_UserID b = u \<and>
        in_folders (map fo_ID (filter (\<lambda>f. fo_UserID f = u \<and> fo_DeletedAt f \<noteq> None) (folders d))) b)
      (\<lambda>f. fo_UserID f = u \<and> fo_DeletedAt f \<noteq> None) d = Inr ((blobs, gs), d')"
    and fs: "fs = map (\<lambda>f. \<lparr>ef_ID = fo_ID f, ef_Name = fo_Name f\<rparr>) gs"
    unfolding EmptyTrashedFolders_tx_def by (elim stmt_bind_InrE) auto
  from remove_folders_tx_returns [OF parent_blind_conds(2) gs] show ?thesis by (simp add: fs comp_def del: not_None_eq)
qed

lemma EmptyTrash_returns:
  assumes "wf_db (w_now w) (w_db w)" and "w_faults w = []"
  obtains fs d2 y where "EmptyTrash s u w
      = (Inr (map (\<lambda>b. \<lparr>eb_ID = bl_ID b, eb_FileName = bl_FileName b, eb_ObjectKey = bl_ObjectKey b\<rparr>)
               (filter (\<lambda>b. bl_UserID b = u \<and> bl_DeletedAt b \<noteq> None) (stored_blobs (w_db w))), fs), w\<lparr>w_db := d2, w_obj := y\<rparr>)"
    and "map (\<lambda>f. (ef_ID f, ef_Name f)) fs
      = map (\<lambda>f. (fo_ID f, fo_Name f)) (filter (\<lambda>f. fo_UserID f = u \<and> fo_DeletedAt f \<noteq> None) (folders (w_db w)))"
    and "folders d2 = filter (\<lambda>f. \<not> (fo_UserID f = u \<and> fo_DeletedAt f \<noteq> None)) (folders (w_db w))"
    and "stored_blobs d2 = filter (\<lambda>b. \<not> (bl_UserID b = u \<and> bl_DeletedAt b \<noteq> None)) (stored_blobs (w_db w))"
proof -
  let ?d = "w_db w" and ?p = "\<lambda>b. bl_UserID b = u \<and> bl_DeletedAt b \<noteq> None"
  let ?bs = "map (\<lambda>b. \<lparr>eb_ID = bl_ID b, eb_FileName = bl_FileName b, eb_ObjectKey = bl_ObjectKey b\<rparr>)
    (filter ?p (stored_blobs ?d))"
  obtain d1 where c1: "db_call (\<lambda>now. delete_blobs ?p) w = (Inr (filter ?p (stored_blobs ?d)), w\<lparr>w_db := d1\<rparr>)"
    and d1: "delete_blobs ?p ?d = Inr (filter ?p (stored_blobs ?d), d1)"
    by (rule delete_blobs_call [OF assms(2)])
  obtain fs ks d2 where d2: "EmptyTrashedFolders_tx u d1 = Inr ((fs, ks), d2)"
    using EmptyTrashedFolders_total [OF wf_delete_blobs [OF assms(1) d1]] by fast
  let ?w2 = "w\<lparr>w_db := d2\<rparr>"
  have "EmptyTrashedFolders_pg u (w\<lparr>w_db := d1\<rparr>) = (Inr (fs, ks), ?w2)"
    using assms(2) d2 by (simp add: EmptyTrashedFolders_pg_def db_call_total)
  moreover have "EmptyTrashedBlobs_pg u w = (Inr ?bs, w\<lparr>w_db := d1\<rparr>)"
    by (simp add: EmptyTrashedBlobs_pg_def bindE_def c1 ret_def del: not_None_eq)
  moreover obtain x where "remove_objects s (map eb_ObjectKey ?bs) ?w2 = (Inr (), ?w2\<lparr>w_obj := x\<rparr>)"
    using remove_objects_ok [of s "map eb_ObjectKey ?bs" ?w2] by blast
  moreover obtain y where "remove_objects s ks (?w2\<lparr>w_obj := x\<rparr>) = (Inr (), ?w2\<lparr>w_obj := y\<rparr>)"
    using remove_objects_ok [of s ks "?w2\<lparr>w_obj := x\<rparr>"] by auto
  ultimately have "EmptyTrash s u w = (Inr (?bs, fs), ?w2\<lparr>w_obj := y\<rparr>)"
    by (simp add: EmptyTrash_def bindE_def map_err_def ret_def)
  then show thesis
    using EmptyTrashedFolders_returns [OF d2] empty_blobs_folders [OF assms(1) d1 d2] delete_blobsD(3) [OF d1]
    by (intro that [of fs y d2]) (simp_all del: not_None_eq)
qed

text \<open>
  Emptying the trash succeeds on a consistent database and removes exactly the user's trashed
  folders and files; every other row, trashed or not, stays.
\<close>

lemma EmptyTrash_complete:
  assumes "wf_db (w_now w) (w_db w)" and "w_faults w = []"
  shows "\<exists>bs fs w'. EmptyTrash s u w = (Inr (bs, fs), w')
    \<and> map eb_ObjectKey bs =
        map bl_ObjectKey (filter (\<lambda>b. bl_UserID b = u \<and> bl_DeletedAt b \<noteq> None) (stored_blobs (w_db w)))
    \<and> folders (w_db w') = filter (\<lambda>f. \<not> (fo_UserID f = u \<and> fo_DeletedAt f \<noteq> None)) (folders (w_db w))
    \<and> stored_blobs (w_db w') =
        filter (\<lambda>b. \<not> (bl_UserID b = u \<and> bl_DeletedAt b \<noteq> None)) (stored_blobs (w_db w))"
  by (rule EmptyTrash_returns [OF assms, of s u]) (simp add: comp_def del: not_None_eq)

text \<open>
  C24. When no call fails and the folder tree has no cycle, deleting a trashed folder for good removes it
  with every folder below it and every file in them, and no other folder or file.
\<close>

theorem HardDeleteFolder_complete:
  assumes "wf_db (w_now w) (w_db w)" and "w_faults w = []" and "acyclic_folders (folders (w_db w))"
    and "f \<in> set (folders (w_db w))" and "folder_is x u f" and "\<not> is_active f"
  shows "\<exists>w'. HardDeleteFolder s u x w = (Inr (fo_Name f), w')
    \<and> folders (w_db w') = filter (\<lambda>g. fo_ID g \<notin> below (\<lambda>_. True) (w_db w) {x}) (folders (w_db w))
    \<and> stored_blobs (w_db w') =
        filter (\<lambda>b. \<forall>i. bl_FolderID b = Some i \<longrightarrow> i \<notin> below (\<lambda>_. True) (w_db w) {x}) (stored_blobs (w_db w))"
proof -
  let ?d = "w_db w"
  obtain r d' where tx: "HardDeleteFolder_tx x u ?d = Inr (r, d')"
    using HardDeleteFolder_total [OF assms(1,3)] by blast
  then obtain f0 ids where f0: "f0 \<in> set (folders ?d)" "folder_is x u f0"
    and ids: "set ids = below (\<lambda>_. True) ?d {x}" and rm: "remove_rows (in_folders ids) (id_in ids) ?d d'"
    and r: "r = Some (map bl_ObjectKey (filter (in_folders ids) (stored_blobs ?d)), fo_Name f0)"
    using assms(4-6) by (elim HardDeleteFolder_txD) auto
  have "f0 = f"
    using folder_unique [OF wf_dbD(1) [OF assms(1)] f0(1) assms(4)] f0(2) assms(5) by (simp add: folder_is_def)
  let ?ks = "map bl_ObjectKey (filter (in_folders ids) (stored_blobs ?d))" and ?w = "w\<lparr>w_db := d'\<rparr>"
  obtain y where y: "remove_objects s ?ks ?w = (Inr (), ?w\<lparr>w_obj := y\<rparr>)"
    using remove_objects_ok [of s ?ks ?w] by blast
  have run: "HardDeleteFolder s u x w = (Inr (fo_Name f), ?w\<lparr>w_obj := y\<rparr>)"
    using assms(2) tx r y \<open>f0 = f\<close>
    by (simp add: HardDeleteFolder_def found_def HardDeleteFolder_pg_def db_call_total bindE_def map_err_def ret_def)
  have in_iff: "in_folders ids b \<longleftrightarrow> (\<exists>i. bl_FolderID b = Some i \<and> i \<in> below (\<lambda>_. True) ?d {x})" for b
    by (auto simp: in_folders_def ids split: option.splits)
  have "stored_blobs d' = filter (\<lambda>b. \<not> in_folders ids b) (stored_blobs ?d)"
  proof (rule remove_rows_exact [OF rm])
    fix b assume b: "b \<in> set (stored_blobs ?d)"
    show "in_folders ids b = (\<exists>p \<in> set (folders ?d). id_in ids p \<and> bl_FolderID b = Some (fo_ID p))"
      using blob_refD [OF assms(1) b] by (auto simp: in_folders_def id_in_def split: option.splits)
  qed
  then have "stored_blobs d' =
      filter (\<lambda>b. \<forall>i. bl_FolderID b = Some i \<longrightarrow> i \<notin> below (\<lambda>_. True) ?d {x}) (stored_blobs ?d)"
    by (simp add: in_iff cong: filter_cong)
  with run rm show ?thesis
    by (intro exI [of _ "?w\<lparr>w_obj := y\<rparr>"]) (simp add: remove_rows_def id_in_def ids)
qed

section \<open>Trashing a folder and restoring it\<close>

lemma below_active:
  assumes "\<And>g. g \<in> set (folders d) \<Longrightarrow> fo_ID g \<in> below (\<lambda>_. True) d {x} \<Longrightarrow> is_active g"
  shows "below is_active d {x} = below (\<lambda>_. True) d {x}"
proof
  show "below is_active d {x} \<subseteq> below (\<lambda>_. True) d {x}"
    by (intro Image_mono rtrancl_mono child_rel_mono) auto
  have "(x, y) \<in> (child_rel is_active (folders d))\<^sup>*" if "(x, y) \<in> (child_rel (\<lambda>_. True) (folders d))\<^sup>*" for y
    using that
  proof (induction rule: rtrancl_induct)
    case (step y z)
    then obtain g where g: "g \<in> set (folders d)" "fo_ID g = z" "fo_ParentID g = Some y"
      by (auto simp: child_rel_def)
    moreover have "is_active g"
      using assms [OF g(1)] rtrancl_into_rtrancl [OF step(1,2)] g(2) by simp
    ultimately have "(y, z) \<in> child_rel is_active (folders d)" using child_relI by blast
    with step.IH show ?case by (rule rtrancl_into_rtrancl)
  qed simp
  then show "below (\<lambda>_. True) d {x} \<subseteq> below is_active d {x}" by auto
qed

lemma names_unique_trash:
  assumes "folder_names_unique t"
  shows "folder_names_unique (map (\<lambda>f. if p f then f\<lparr>fo_DeletedAt := Some now\<rparr> else f) t)"
proof -
  have "active_folder_keys (map (\<lambda>f. if p f then f\<lparr>fo_DeletedAt := Some now\<rparr> else f) t)
      = active_folder_keys (filter (\<lambda>f. \<not> p f) t)"
    by (induction t) (auto simp: active_folder_keys_def)
  with names_unique_filter [OF assms] show ?thesis by (simp add: folder_names_unique_def)
qed

lemma folder_ref_wf:
  "wf_db now d \<Longrightarrow> f \<in> set (folders d) \<Longrightarrow> folder_ref (fo_ParentID f) d"
  "wf_db now d \<Longrightarrow> b \<in> set (stored_blobs d) \<Longrightarrow> folder_ref (bl_FolderID b) d"
  by (auto simp: folder_ref_def folder_exists_def split: option.splits dest: folder_refD blob_refD)

lemma folder_ref_ids:
  assumes "map fo_ID (folders d') = map fo_ID (folders d)"
  shows "folder_ref r d' = folder_ref r d"
  using arg_cong [OF assms, of set] by (simp add: folder_ref_def folder_exists_def split: option.split)

text \<open>On a forest the transaction succeeds and trashes the folder with its subtree.\<close>

lemma TrashFolder_ok:
  assumes wf: "wf_db now d" and ac: "acyclic_folders (folders d)"
    and f: "f \<in> set (folders d)" "folder_is x u f" "is_active f"
  obtains ids where "TrashFolder_tx x u now d = Inr (True, trash_rows ids now d)"
    and "set ids = below is_active d {x}"
proof -
  have "filter (\<lambda>g. folder_is x u g \<and> is_active g) (folders d) \<noteq> []"
    using f by (auto simp: filter_empty_conv)
  then have start: "set (map fo_ID (filter (\<lambda>g. folder_is x u g \<and> is_active g) (folders d))) = {x}"
    using f by (auto simp: folder_is_def image_iff intro!: exI [of _ f])
  obtain ids where w: "subtree_walk is_active (folders d)
      (map fo_ID (filter (\<lambda>g. folder_is x u g \<and> is_active g) (folders d))) = Some ids"
    using subtree_walk_acyclic [OF ac] by blast
  then have ids: "set ids = below is_active d {x}" using start by (simp add: subtree_walk_set)
  then have ne: "ids \<noteq> []" by auto
  let ?d1 = "d\<lparr>folders := map (\<lambda>f. if id_in ids f then f\<lparr>fo_DeletedAt := Some now\<rparr> else f) (folders d)\<rparr>"
  have u1: "update_folders (id_in ids) (\<lambda>f. f\<lparr>fo_DeletedAt := Some now\<rparr>) d
      = Inr (length (filter (id_in ids) (folders d)), ?d1)"
    using folder_nameD [OF wf] folder_ref_wf(1) [OF wf] names_unique_trash [OF wf_dbD(2) [OF wf]]
    by (auto simp: update_folders_def Let_def)
  have ref: "folder_ref r ?d1 = folder_ref r d" for r
    by (rule folder_ref_ids) (simp add: row_simps)
  have "update_blobs (\<lambda>b. in_folders ids b \<and> bl_DeletedAt b = None) (\<lambda>b. b\<lparr>bl_DeletedAt := Some now\<rparr>) ?d1
      = Inr (length (filter (\<lambda>b. in_folders ids b \<and> bl_DeletedAt b = None) (stored_blobs d)), trash_rows ids now d)"
    using folder_ref_wf(2) [OF wf] by (auto simp: update_blobs_def ref trash_rows_def)
  with u1 w ne have "TrashFolder_tx x u now d = Inr (True, trash_rows ids now d)"
    by (simp add: TrashFolder_tx_def stmt_bind_def subtree_ids_def)
  with ids show thesis by (rule that [rotated])
qed


lemma restored_folder_eq:
  "\<exists>p \<in> set (folders d). r = Some (fo_ID p) \<and> is_active p \<Longrightarrow> restored_folder d r = r"
  by (auto simp: restored_folder_def is_active_def)

lemma child_rel_all: "child_rel (\<lambda>_. True) t = {(x, y). (Some x, y) \<in> (\<lambda>f. (fo_ParentID f, fo_ID f)) ` set t}"
  by (force simp: child_rel_def)

lemma trash_rows_folders:
  "map fo_ID (folders (trash_rows ids now d)) = map fo_ID (folders d)"
  "child_rel (\<lambda>_. True) (folders (trash_rows ids now d)) = child_rel (\<lambda>_. True) (folders d)"
proof -
  show "map fo_ID (folders (trash_rows ids now d)) = map fo_ID (folders d)"
    by (simp add: trash_rows_def)
  have "map (\<lambda>f. (fo_ParentID f, fo_ID f)) (folders (trash_rows ids now d))
      = map (\<lambda>f. (fo_ParentID f, fo_ID f)) (folders d)"
    by (simp add: trash_rows_def)
  from arg_cong [OF this, of set]
  show "child_rel (\<lambda>_. True) (folders (trash_rows ids now d)) = child_rel (\<lambda>_. True) (folders d)"
    unfolding child_rel_all set_map by (rule arg_cong)
qed

lemma restore_trash_rows:
  assumes act: "\<And>g. g \<in> set (folders d) \<Longrightarrow> id_in ids g \<Longrightarrow> is_active g"
    and actb: "\<And>b. b \<in> set (stored_blobs d) \<Longrightarrow> in_folders ids b \<Longrightarrow> bl_DeletedAt b = None"
    and rp: "\<And>g. g \<in> set (folders d) \<Longrightarrow> fo_ID g = x \<Longrightarrow> fo_ParentID g = rp"
  shows "restore_rows ids x rp (trash_rows ids now d) = d"
proof -
  have f: "map (\<lambda>f. if id_in ids f then f\<lparr>fo_DeletedAt := None,
       fo_ParentID := (if fo_ID f = x then rp else fo_ParentID f)\<rparr> else f)
      (map (\<lambda>f. if id_in ids f then f\<lparr>fo_DeletedAt := Some now\<rparr> else f) (folders d)) = folders d"
    unfolding map_map
    by (rule map_idI) (use act rp in \<open>auto simp: id_in_def is_active_def\<close>)
  have b: "map (\<lambda>b. if in_folders ids b \<and> bl_DeletedAt b \<noteq> None then b\<lparr>bl_DeletedAt := None\<rparr> else b)
      (map (\<lambda>b. if in_folders ids b \<and> bl_DeletedAt b = None then b\<lparr>bl_DeletedAt := Some now\<rparr> else b)
        (stored_blobs d)) = stored_blobs d"
    unfolding map_map
    by (rule map_idI) (use actb in \<open>auto simp: in_folders_def\<close>)
  show ?thesis by (simp add: restore_rows_def trash_rows_def f b del: map_map not_None_eq)
qed

text \<open>A restore whose outcome is consistent passes the constraints.\<close>

lemma RestoreFolder_tx_ok:
  assumes wf1: "wf_db now d1" and wf: "wf_db now d"
    and find: "find (\<lambda>g. folder_is x u g \<and> fo_DeletedAt g \<noteq> None) (folders d1) = Some f0"
    and walk: "subtree_walk (\<lambda>_. True) (folders d1) [x] = Some ids"
    and result: "restore_rows ids x (restored_folder d1 (fo_ParentID f0)) d1 = d"
  shows "RestoreFolder_tx x u d1 = Inr (Some (fo_Name f0), d)"
proof -
  let ?rp = "restored_folder d1 (fo_ParentID f0)"
  let ?g = "\<lambda>f. f\<lparr>fo_DeletedAt := None, fo_ParentID := (if fo_ID f = x then ?rp else fo_ParentID f)\<rparr>"
  let ?d2 = "d1\<lparr>folders := folders d\<rparr>"
  have t: "map (\<lambda>f. if id_in ids f then ?g f else f) (folders d1) = folders d"
    using arg_cong [OF result, of folders] by (simp add: restore_rows_def)
  have "map fo_ID (folders d) = map fo_ID (folders d1)" unfolding t [symmetric] by simp
  then have ref: "folder_ref r d1 = folder_ref r d" "folder_ref r ?d2 = folder_ref r d" for r
    by (auto intro!: folder_ref_ids)
  have "folder_ref (fo_ParentID (?g f)) d1" if "f \<in> set (folders d1)" "id_in ids f" for f
  proof -
    have "?g f \<in> set (folders d)" unfolding t [symmetric] using that by force
    from folder_ref_wf(1) [OF wf this] ref show ?thesis by simp
  qed
  then have "update_folders (id_in ids) ?g d1 = Inr (length (filter (id_in ids) (folders d1)), ?d2)"
    unfolding update_folders_def Let_def t
    using folder_nameD [OF wf1] wf_dbD(2) [OF wf] by auto
  moreover have "?d2\<lparr>stored_blobs := map (\<lambda>b. if in_folders ids b \<and> bl_DeletedAt b \<noteq> None
      then b\<lparr>bl_DeletedAt := None\<rparr> else b) (stored_blobs ?d2)\<rparr> = d"
    using result t by (simp add: restore_rows_def del: not_None_eq)
  then have "update_blobs (\<lambda>b. in_folders ids b \<and> bl_DeletedAt b \<noteq> None) (\<lambda>b. b\<lparr>bl_DeletedAt := None\<rparr>) ?d2
      = Inr (length (filter (\<lambda>b. in_folders ids b \<and> bl_DeletedAt b \<noteq> None) (stored_blobs ?d2)), d)"
    using folder_ref_wf(2) [OF wf1] by (auto simp: update_blobs_def ref simp del: not_None_eq)
  ultimately show ?thesis
    unfolding RestoreFolder_tx_def stmt_bind_read find
    by (simp add: stmt_bind_def subtree_ids_def walk del: not_None_eq)
qed

text \<open>On a forest, the parent of an active folder stays active when the folder is trashed.\<close>

lemma parent_not_trashed:
  assumes wf: "wf_db now d" and ac: "acyclic_folders (folders d)"
    and f: "f \<in> set (folders d)" "is_active f" and ids: "set ids = below (\<lambda>_. True) d {fo_ID f}"
  shows "restored_folder (trash_rows ids now d) (fo_ParentID f) = fo_ParentID f"
proof (cases "fo_ParentID f")
  case None
  then show ?thesis by (simp add: restored_folder_def)
next
  case (Some i)
  let ?R = "child_rel (\<lambda>_. True) (folders d)"
  from folder_refD [OF wf f(1) Some] obtain p where p: "p \<in> set (folders d)" "fo_ID p = i" by blast
  have "is_active p" using parent_active [OF wf f p(1)] Some p(2) by simp
  have "i \<notin> set ids"
  proof
    assume "i \<in> set ids"
    then have "(fo_ID f, i) \<in> ?R\<^sup>*" using ids by simp
    moreover have "(i, fo_ID f) \<in> ?R" using child_relI [OF f(1) Some] by simp
    ultimately have "(fo_ID f, fo_ID f) \<in> ?R\<^sup>+" by (rule rtrancl_into_trancl1)
    with ac show False by (auto simp: acyclic_folders_def acyclic_def)
  qed
  then have "p \<in> set (folders (trash_rows ids now d))" using p by (force simp: trash_rows_def id_in_def)
  with Some p(2) \<open>is_active p\<close> show ?thesis by (intro restored_folder_eq) auto
qed

lemma trash_then_restore:
  assumes wf: "wf_db now d" and ac: "acyclic_folders (folders d)"
    and f: "f \<in> set (folders d)" "folder_is x u f" "is_active f"
    and act: "\<And>g. g \<in> set (folders d) \<Longrightarrow> fo_ID g \<in> below (\<lambda>_. True) d {x} \<Longrightarrow> is_active g"
    and actb: "\<And>b i. b \<in> set (stored_blobs d) \<Longrightarrow> bl_FolderID b = Some i \<Longrightarrow>
      i \<in> below (\<lambda>_. True) d {x} \<Longrightarrow> bl_DeletedAt b = None"
  obtains d1 where "TrashFolder_tx x u now d = Inr (True, d1)"
    and "RestoreFolder_tx x u d1 = Inr (Some (fo_Name f), d)"
proof -
  have fx: "fo_ID f = x" using f(2) by (simp add: folder_is_def)
  have "below is_active d {x} = below (\<lambda>_. True) d {x}" by (rule below_active) (rule act)
  then obtain ids where tx: "TrashFolder_tx x u now d = Inr (True, trash_rows ids now d)"
    and ids: "set ids = below (\<lambda>_. True) d {x}"
    using TrashFolder_ok [OF wf ac f] by metis
  let ?d1 = "trash_rows ids now d" and ?f' = "f\<lparr>fo_DeletedAt := Some now\<rparr>"
  note wf1 = wf_TrashFolder [OF wf tx]
  have "id_in ids f" using fx ids by (auto simp: id_in_def)
  then have f1: "?f' \<in> set (folders ?d1)" using f(1) by (force simp: trash_rows_def)
  have find: "find (\<lambda>g. folder_is x u g \<and> fo_DeletedAt g \<noteq> None) (folders ?d1) = Some ?f'"
    by (rule find_key_unique [OF wf_dbD(1) [OF wf1, unfolded folder_ids_distinct_def] f1])
      (use f(2) in \<open>auto simp: folder_is_def\<close>)
  obtain ids2 where w2: "subtree_walk (\<lambda>_. True) (folders ?d1) [x] = Some ids2"
    using subtree_walk_acyclic [of "folders ?d1"] ac by (auto simp: acyclic_folders_def trash_rows_folders)
  then have ids2: "set ids2 = set ids" using ids by (simp add: subtree_walk_set trash_rows_folders)
  then have "id_in ids2 = id_in ids" and "in_folders ids2 = in_folders ids"
    by (simp_all add: fun_eq_iff id_in_def in_folders_def split: option.splits)
  then have "restore_rows ids2 x (fo_ParentID f) ?d1 = restore_rows ids x (fo_ParentID f) ?d1"
    by (simp add: restore_rows_def)
  also have "\<dots> = d"
  proof (rule restore_trash_rows)
    show "fo_ParentID g = fo_ParentID f" if "g \<in> set (folders d)" "fo_ID g = x" for g
      using folder_unique [OF wf_dbD(1) [OF wf] that(1) f(1)] that(2) fx by simp
  qed (use act actb ids in \<open>auto simp: id_in_def in_folders_def split: option.splits\<close>)
  finally have "restore_rows ids2 x (restored_folder ?d1 (fo_ParentID ?f')) ?d1 = d"
    using parent_not_trashed [OF wf ac f(1,3)] ids fx by simp
  from RestoreFolder_tx_ok [OF wf1 wf find w2 this] tx show thesis
    by (intro that) simp_all
qed

lemma DeleteFolder_run:
  assumes "wf_db (w_now w) (w_db w)" and "w_faults w = []"
    and "f \<in> set (folders (w_db w))" and "folder_is x u f" and "is_active f"
    and "TrashFolder_tx x u (w_now w) (w_db w) = Inr (True, d1)"
  shows "DeleteFolder u x w = (Inr (fo_Name f), w\<lparr>w_db := d1\<rparr>)"
proof -
  have "find (\<lambda>g. folder_is x u g \<and> is_active g) (folders (w_db w)) = Some f"
    by (rule find_key_unique [OF wf_dbD(1) [OF assms(1), unfolded folder_ids_distinct_def] assms(3)])
      (use assms(4,5) in \<open>auto simp: folder_is_def\<close>)
  then have "GetFolder_pg x u w = (Inr (Some f), w)"
    using assms(2) by (simp add: GetFolder_pg_def query_nil)
  with assms(2,6) show ?thesis
    by (simp add: DeleteFolder_def found_def bindE_def map_err_def ret_def TrashFolder_pg_def db_call_total)
qed

text \<open>
  C29. Moving an active folder to the trash, in a tree without a cycle and when no call fails, marks exactly
  the active folders of its subtree, reached through active folders, and the files in them that are not
  in the trash, all with the same instant; everything else is as before.
\<close>

theorem DeleteFolder_complete:
  assumes "wf_db (w_now w) (w_db w)" and "w_faults w = []" and "acyclic_folders (folders (w_db w))"
    and "f \<in> set (folders (w_db w))" and "folder_is x u f" and "is_active f"
  shows "DeleteFolder u x w = (Inr (fo_Name f), w\<lparr>w_db := (w_db w)\<lparr>
      folders := map (\<lambda>g. if fo_ID g \<in> below is_active (w_db w) {x} then g\<lparr>fo_DeletedAt := Some (w_now w)\<rparr> else g) (folders (w_db w)),
      stored_blobs := map (\<lambda>b. if bl_DeletedAt b = None \<and> (\<exists>i \<in> below is_active (w_db w) {x}. bl_FolderID b = Some i)
        then b\<lparr>bl_DeletedAt := Some (w_now w)\<rparr> else b) (stored_blobs (w_db w))\<rparr>\<rparr>)"
proof -
  obtain ids where tx: "TrashFolder_tx x u (w_now w) (w_db w) = Inr (True, trash_rows ids (w_now w) (w_db w))"
    and ids: "set ids = below is_active (w_db w) {x}"
    using TrashFolder_ok [OF assms(1,3-6)] by metis
  have "id_in ids = (\<lambda>g. fo_ID g \<in> below is_active (w_db w) {x})"
    and "in_folders ids = (\<lambda>b. \<exists>i \<in> below is_active (w_db w) {x}. bl_FolderID b = Some i)"
    unfolding ids [symmetric] by (auto simp: fun_eq_iff id_in_def in_folders_def split: option.split)
  then have "trash_rows ids (w_now w) (w_db w) = (w_db w)\<lparr>
      folders := map (\<lambda>g. if fo_ID g \<in> below is_active (w_db w) {x} then g\<lparr>fo_DeletedAt := Some (w_now w)\<rparr> else g) (folders (w_db w)),
      stored_blobs := map (\<lambda>b. if bl_DeletedAt b = None \<and> (\<exists>i \<in> below is_active (w_db w) {x}. bl_FolderID b = Some i)
        then b\<lparr>bl_DeletedAt := Some (w_now w)\<rparr> else b) (stored_blobs (w_db w))\<rparr>"
    by (simp add: trash_rows_def conj_commute)
  with DeleteFolder_run [OF assms(1,2,4-6) tx] show ?thesis by simp
qed

text \<open>
  C25. Restoring a folder undoes moving it to the trash. When the folder is active, neither a folder nor a file
  below it is in the trash already, the folder tree has no cycle and no call fails, \<open>DeleteFolder\<close>
  directly followed by \<open>RestoreFolder\<close> gives back the same database, with the folder at its old place.
  (What was in the trash before is restored along with the folder.)
\<close>

theorem DeleteFolder_RestoreFolder:
  assumes "wf_db (w_now w) (w_db w)" and "w_faults w = []" and "acyclic_folders (folders (w_db w))"
    and "f \<in> set (folders (w_db w))" and "folder_is x u f" and "is_active f"
    and "\<And>g. g \<in> set (folders (w_db w)) \<Longrightarrow> fo_ID g \<in> below (\<lambda>_. True) (w_db w) {x} \<Longrightarrow> is_active g"
    and "\<And>b i. b \<in> set (stored_blobs (w_db w)) \<Longrightarrow> bl_FolderID b = Some i \<Longrightarrow>
      i \<in> below (\<lambda>_. True) (w_db w) {x} \<Longrightarrow> bl_DeletedAt b = None"
  shows "\<exists>w'. DeleteFolder u x w = (Inr (fo_Name f), w') \<and> RestoreFolder u x w' = (Inr (fo_Name f), w)"
proof -
  obtain d1 where d1: "TrashFolder_tx x u (w_now w) (w_db w) = Inr (True, d1)"
    and d2: "RestoreFolder_tx x u d1 = Inr (Some (fo_Name f), w_db w)"
    by (rule trash_then_restore [OF assms(1,3-8)])
  from DeleteFolder_run [OF assms(1,2,4-6) d1] have "DeleteFolder u x w = (Inr (fo_Name f), w\<lparr>w_db := d1\<rparr>)" .
  moreover have "RestoreFolder u x (w\<lparr>w_db := d1\<rparr>) = (Inr (fo_Name f), w)"
    using d2 assms(2)
    by (simp add: RestoreFolder_def found_def RestoreFolder_pg_def db_call_total bindE_def map_err_def ret_def)
  ultimately show ?thesis by blast
qed

end
