(* ===== verification/Storage_Objects.thy ===== *)
theory Storage_Objects
  imports Storage_Trash
begin

text \<open>
  The two stores together. A file a user can download is a visible row whose object is in the object
  store; rows and objects change in separate calls, each of which may fail. Shown here: no operation
  of the service removes the object of a row that is visible afterwards, whatever fails.
\<close>

section \<open>Object keys that may go\<close>

text \<open>
  \<open>doomed S K w\<close>: of the objects \<open>S\<close> at most those named in \<open>K\<close> are gone, and no visible row has its
  object named in \<open>K\<close>.
\<close>

definition doomed :: "('o \<Rightarrow> string set) \<Rightarrow> string set \<Rightarrow> string set \<Rightarrow> 'o sworld \<Rightarrow> bool" where
  "doomed stored S K w \<longleftrightarrow> wf_world w \<and> S - K \<subseteq> stored (w_obj w)
     \<and> (\<forall>b \<in> set (stored_blobs (w_db w)). is_visible b \<longrightarrow> bl_ObjectKey b \<notin> K)"

definition objects_kept :: "('o \<Rightarrow> string set) \<Rightarrow> string set \<Rightarrow> 'o sworld \<Rightarrow> bool" where
  "objects_kept stored S w \<longleftrightarrow>
     (\<forall>b \<in> set (stored_blobs (w_db w)). is_visible b \<longrightarrow> bl_ObjectKey b \<in> S \<longrightarrow> bl_ObjectKey b \<in> stored (w_obj w))"

lemma doomed_kept: "doomed stored S K w \<Longrightarrow> objects_kept stored S w"
  by (auto simp: doomed_def objects_kept_def)

lemma doomed_init: "wf_world w \<Longrightarrow> S \<subseteq> stored (w_obj w) \<Longrightarrow> doomed stored S {} w"
  by (auto simp: doomed_def)

lemma w_obj_more: "world.more w = world.more w' \<Longrightarrow> w_obj w = w_obj w'"
  by (cases w; cases w') simp

lemma db_call_obj [simp]: "w_obj (snd (db_call s w)) = w_obj (w :: 'o sworld)"
  by (rule w_obj_more) (rule db_call_more)

lemma db_call_obj_eq: "db_call s w = (r, w') \<Longrightarrow> w_obj w' = w_obj (w :: 'o sworld)"
  using db_call_obj [of s w] by simp

text \<open>Removing an object that is named, or growing the store, keeps the property.\<close>

lemma doomed_remove:
  assumes "s3_safe stored (sv_Objects s)" and "k \<in> K"
  shows "keeps (doomed stored S K) (obj_call (RemoveObject (sv_Objects s) k))"
proof (rule keepsI)
  fix w assume D: "doomed stored S K w"
  have "stored (w_obj w) - {k} \<subseteq> stored (snd (RemoveObject (sv_Objects s) k (w_obj w)))"
    using RemoveObject_stored(2) [of stored "sv_Objects s" k "w_obj w"] assms(1) by (auto simp: s3_safe_def)
  with D assms(2) show "doomed stored S K (snd (obj_call (RemoveObject (sv_Objects s) k) w))"
    by (auto simp: doomed_def on_db_def)
qed

lemma doomed_grows: "s3_grows stored m \<Longrightarrow> keeps (doomed stored S K) (obj_call m)"
  by (rule keepsI) (fastforce simp: doomed_def on_db_def s3_grows_def)

lemma doomed_remove_objects:
  assumes "s3_safe stored (sv_Objects s)" and "set ks \<subseteq> K"
  shows "keeps (doomed stored S K) (remove_objects s ks)"
  unfolding remove_objects_def by (rule keeps_for_ignore) (use assms in \<open>auto intro: doomed_remove\<close>)

lemma doomed_release:
  assumes "s3_safe stored (sv_Objects s)" and "k \<in> K"
  shows "keeps (doomed stored S K) (release_upload s k u)"
  unfolding release_upload_def
  by (intro keeps_if doomed_remove [OF assms] doomed_grows) (use assms(1) in \<open>simp add: s3_safe_def\<close>)

text \<open>A statement that deletes rows and reports their keys: those keys may go.\<close>

definition drops :: "(db \<Rightarrow> pg_err + 'a \<times> db) \<Rightarrow> ('a \<Rightarrow> string set) \<Rightarrow> bool" where
  "drops s keys \<longleftrightarrow> (\<forall>now d x d'. wf_db now d \<longrightarrow> s d = Inr (x, d') \<longrightarrow>
     wf_db now d' \<and> (\<forall>b' \<in> set (stored_blobs d'). bl_ObjectKey b' \<notin> keys x
       \<and> (\<exists>b \<in> set (stored_blobs d). bl_ObjectKey b = bl_ObjectKey b' \<and> is_visible b = is_visible b')))"

lemma doomed_drops:
  assumes "drops s keys"
  shows "triple (doomed stored S K) (db_call (\<lambda>_. s)) (\<lambda>x. doomed stored S (K \<union> keys x)) (\<lambda>_. doomed stored S K)"
proof (rule tripleI)
  fix w x w' assume D: "doomed stored S K w" and c: "db_call (\<lambda>_. s) w = (Inr x, w')"
  from db_call_ok [OF c] db_call_obj_eq [OF c] assms D
  show "doomed stored S (K \<union> keys x) w'"
    unfolding drops_def doomed_def on_db_def by fastforce
next
  fix w e w' assume D: "doomed stored S K w" and c: "db_call (\<lambda>_. s) w = (Inl e, w')"
  have "w_db w' = w_db w \<or> (\<exists>x. s (w_db w) = Inr (x, w_db w'))" and "w_now w' = w_now w"
    using db_call_db [of "\<lambda>_. s" w] db_call_now [of "\<lambda>_. s" w] c by simp_all
  with db_call_obj_eq [OF c] assms D show "doomed stored S K w'"
    unfolding drops_def doomed_def on_db_def by fastforce
qed

lemma distinct_keys_filter:
  assumes "distinct (map f xs)" and "x \<in> set xs" and "\<not> p x"
  shows "f x \<notin> f ` {y \<in> set xs. p y}"
  using assms by (auto dest: distinct_map_eqD)

lemma drops_delete_blobs: "drops (delete_blobs p) (\<lambda>gone. bl_ObjectKey ` set gone)"
  unfolding drops_def
proof (intro allI impI conjI ballI)
  fix now d gone d' assume wf: "wf_db now d" and del: "delete_blobs p d = Inr (gone, d')"
  note e = delete_blobsD [OF del]
  show "wf_db now d'" by (rule wf_delete_blobs [OF wf del])
  fix b assume "b \<in> set (stored_blobs d')"
  then have b: "b \<in> set (stored_blobs d)" "\<not> p b" by (auto simp: e)
  with distinct_keys_filter [OF wf_dbD(4) [OF wf]] show "bl_ObjectKey b \<notin> bl_ObjectKey ` set gone"
    by (simp add: e)
  from b show "\<exists>c \<in> set (stored_blobs d). bl_ObjectKey c = bl_ObjectKey b \<and> is_visible c = is_visible b" by auto
qed

text \<open>The folder transactions delete the blobs whose keys they return, and unlink some of the others.\<close>

lemma remove_rows_keys:
  assumes "wf_db now d" and "remove_rows pb pf d d'" and "b' \<in> set (stored_blobs d')"
  shows "bl_ObjectKey b' \<notin> bl_ObjectKey ` set (filter pb (stored_blobs d))"
    and "\<exists>b \<in> set (stored_blobs d). bl_ObjectKey b = bl_ObjectKey b' \<and> is_visible b = is_visible b'"
proof -
  let ?ids = "fo_ID ` {f \<in> set (folders d). pf f}"
  have same: "bl_ObjectKey (unlink ?ids b) = bl_ObjectKey b" "is_visible (unlink ?ids b) = is_visible b" for b
    by (simp_all add: unlink_def is_visible_def split: option.splits)
  from assms(2,3) obtain b where b: "b \<in> set (stored_blobs d)" "\<not> pb b" "b' = unlink ?ids b"
    by (auto simp: remove_rows_def)
  with distinct_keys_filter [OF wf_dbD(4) [OF assms(1)] b(1)]
  show "bl_ObjectKey b' \<notin> bl_ObjectKey ` set (filter pb (stored_blobs d))" by (simp add: same)
  from b show "\<exists>b \<in> set (stored_blobs d). bl_ObjectKey b = bl_ObjectKey b' \<and> is_visible b = is_visible b'"
    by (auto simp: same)
qed


lemma PurgeExpiredFolders_keys:
  "PurgeExpiredFolders_tx before d = Inr (ks, d') \<Longrightarrow>
     ks = map bl_ObjectKey (filter (in_folders (map fo_ID (filter (\<lambda>f. expired before (fo_DeletedAt f)) (folders d))))
       (stored_blobs d))"
  unfolding PurgeExpiredFolders_tx_def
  by (elim stmt_bind_InrE) (auto dest: remove_folders_txD(1) [rotated])

lemma EmptyTrashedFolders_keys:
  "EmptyTrashedFolders_tx u d = Inr (r, d') \<Longrightarrow>
     snd r = map bl_ObjectKey (filter (\<lambda>b. bl_UserID b = u \<and>
       in_folders (map fo_ID (filter (\<lambda>f. fo_UserID f = u \<and> fo_DeletedAt f \<noteq> None) (folders d))) b) (stored_blobs d))"
  unfolding EmptyTrashedFolders_tx_def
  by (elim stmt_bind_InrE) (auto dest!: remove_folders_txD(1) [rotated] simp del: not_None_eq)

lemma drops_PurgeExpiredFolders: "drops (PurgeExpiredFolders_tx before) set"
  unfolding drops_def
proof (intro allI impI)
  fix now d ks d' assume wf: "wf_db now d" and tx: "PurgeExpiredFolders_tx before d = Inr (ks, d')"
  show "wf_db now d' \<and> (\<forall>b' \<in> set (stored_blobs d'). bl_ObjectKey b' \<notin> set ks
      \<and> (\<exists>b \<in> set (stored_blobs d). bl_ObjectKey b = bl_ObjectKey b' \<and> is_visible b = is_visible b'))"
    using wf_PurgeExpiredFolders [OF wf tx] remove_rows_keys [OF wf PurgeExpiredFolders_txD [OF tx]]
    by (simp add: PurgeExpiredFolders_keys [OF tx])
qed

lemma drops_EmptyTrashedFolders: "drops (EmptyTrashedFolders_tx u) (\<lambda>r. set (snd r))"
  unfolding drops_def
proof (intro allI impI)
  fix now d r d' assume wf: "wf_db now d" and tx: "EmptyTrashedFolders_tx u d = Inr (r, d')"
  show "wf_db now d' \<and> (\<forall>b' \<in> set (stored_blobs d'). bl_ObjectKey b' \<notin> set (snd r)
      \<and> (\<exists>b \<in> set (stored_blobs d). bl_ObjectKey b = bl_ObjectKey b' \<and> is_visible b = is_visible b'))"
    using wf_EmptyTrashedFolders [OF wf tx] remove_rows_keys [OF wf EmptyTrashedFolders_txD [OF tx]]
    by (simp add: EmptyTrashedFolders_keys [OF tx] del: not_None_eq)
qed

lemma drops_HardDeleteFolder:
  "drops (HardDeleteFolder_tx x u) (\<lambda>r. case r of None \<Rightarrow> {} | Some (ks, _) \<Rightarrow> set ks)"
  unfolding drops_def
proof (intro allI impI)
  fix now d r d' assume wf: "wf_db now d" and tx: "HardDeleteFolder_tx x u d = Inr (r, d')"
  have "\<forall>b' \<in> set (stored_blobs d'). bl_ObjectKey b' \<notin> (case r of None \<Rightarrow> {} | Some (ks, _) \<Rightarrow> set ks)
      \<and> (\<exists>b \<in> set (stored_blobs d). bl_ObjectKey b = bl_ObjectKey b' \<and> is_visible b = is_visible b')"
    using tx
  proof (rule HardDeleteFolder_txD)
    fix f0 ids
    assume "remove_rows (in_folders ids) (id_in ids) d d'"
      and "r = Some (map bl_ObjectKey (filter (in_folders ids) (stored_blobs d)), fo_Name f0)"
    with remove_rows_keys [OF wf] show ?thesis by auto
  qed auto
  with wf_HardDeleteFolder [OF wf tx]
  show "wf_db now d' \<and> (\<forall>b' \<in> set (stored_blobs d'). bl_ObjectKey b' \<notin> (case r of None \<Rightarrow> {} | Some (ks, _) \<Rightarrow> set ks)
      \<and> (\<exists>b \<in> set (stored_blobs d). bl_ObjectKey b = bl_ObjectKey b' \<and> is_visible b = is_visible b'))" by blast
qed

section \<open>The operations that remove objects\<close>

abbreviation kept_after :: "('o \<Rightarrow> string set) \<Rightarrow> string set \<Rightarrow> ('o sworld, 'e, 'a) eff \<Rightarrow> bool" where
  "kept_after stored S m \<equiv>
     triple (doomed stored S {}) m (\<lambda>_. objects_kept stored S) (\<lambda>_. objects_kept stored S)"

lemma kept_afterI: "keeps (doomed stored S K) m \<Longrightarrow>
    triple (doomed stored S K) m (\<lambda>_. objects_kept stored S) (\<lambda>_. objects_kept stored S)"
  by (erule triple_weaken) (auto intro: doomed_kept)

text \<open>Reading a row that is not visible: its object may go.\<close>

lemma doomed_row:
  assumes "doomed stored S {} w" and "b \<in> set (stored_blobs (w_db w))" and "\<not> is_visible b"
  shows "doomed stored S {bl_ObjectKey b} w"
proof -
  have wf: "wf_db (w_now w) (w_db w)" using assms(1) by (simp add: doomed_def on_db_def)
  have "c = b" if "c \<in> set (stored_blobs (w_db w))" "bl_ObjectKey c = bl_ObjectKey b" for c
    using distinct_map_eqD [OF wf_dbD(4) [OF wf] that(1) assms(2)] that(2) by simp
  with assms show ?thesis by (auto simp: doomed_def)
qed

lemma doomed_query: "keeps (doomed stored S K) (query q)"
  by (rule keepsI) (simp add: doomed_def on_db_def query_def db_call_obj [of "\<lambda>now d. Inr (q now d, d)"]
    query_db [unfolded query_def])

lemma triple_found_query:
  assumes "\<And>w x. doomed stored S {} w \<Longrightarrow> q (w_now w) (w_db w) = Some x \<Longrightarrow> doomed stored S (K x) w"
  shows "triple (doomed stored S {}) (found e (query q)) (\<lambda>x. doomed stored S (K x)) (\<lambda>_. objects_kept stored S)"
proof (rule tripleI)
  fix w x w' assume D: "doomed stored S {} w" and "found e (query q) w = (Inr x, w')"
  then obtain r w1 where q: "query q w = (Inr r, w1)" "r = Some x" "w1 = w'"
    by (auto simp: found_def fail_def ret_def split: option.splits elim!: bindE_InrE map_err_InrE)
  have "doomed stored S {} w'" using triple_Inr [OF doomed_query D q(1)] q(3) by simp
  with q query_ok [OF q(1)] assms show "doomed stored S (K x) w'" by simp
next
  fix w y w' assume D: "doomed stored S {} w" and f: "found e (query q) w = (Inl y, w')"
  have "keeps (doomed stored S {}) (found e (query q))" by (rule keeps_found) (rule doomed_query)
  from doomed_kept [OF triple_Inl [OF this D f]] show "objects_kept stored S w'" .
qed

lemma doomed_delete_blobs: "keeps (doomed stored S K) (db_call (\<lambda>_. delete_blobs p))"
  using doomed_drops [of "delete_blobs p" "\<lambda>_. {}" stored S K] drops_delete_blobs [of p]
  by (auto simp: drops_def)

lemma HardDeleteBlob_kept:
  assumes "s3_safe stored (sv_Objects s)"
  shows "kept_after stored S (HardDeleteBlob s u b)"
  unfolding HardDeleteBlob_def PeekTrashedBlob_pg_def
proof (rule triple_bindE [OF triple_found_query [where K = "\<lambda>x. {fst x}"]])
  fix w :: "'a sworld" and x
  assume "doomed stored S {} w"
    and "map_option (\<lambda>b. (bl_ObjectKey b, bl_FileName b))
      (find (\<lambda>x. blob_is b u x \<and> bl_DeletedAt x \<noteq> None) (stored_blobs (w_db w))) = Some x"
  then show "doomed stored S {fst x} w"
    by (auto dest!: find_SomeD simp: is_visible_def intro!: doomed_row)
next
  fix x :: "string \<times> string"
  show "triple (doomed stored S {fst x}) (case x of (objectKey, fileName) \<Rightarrow>
      bindE (obj_call (RemoveObject (sv_Objects s) objectKey))
        (\<lambda>_. bindE (map_err Db (HardDeleteBlob_pg b u)) (\<lambda>_. ret fileName)))
      (\<lambda>_. objects_kept stored S) (\<lambda>_. objects_kept stored S)"
    unfolding HardDeleteBlob_pg_def
    by (rule kept_afterI, cases x) (auto intro!: keeps_bind keeps_map_err keeps_ret doomed_remove [OF assms]
        doomed_delete_blobs)
qed


lemma AbortUpload_kept:
  assumes "s3_safe stored (sv_Objects s)"
  shows "kept_after stored S (AbortUpload s u b)"
  unfolding AbortUpload_def GetPendingBlobMeta_pg_def
proof (rule triple_bindE [OF triple_found_query [where K = "\<lambda>x. {pm_ObjectKey x}"]])
  fix w :: "'a sworld" and x
  assume "doomed stored S {} w"
    and "map_option (\<lambda>b. \<lparr>pm_ObjectKey = bl_ObjectKey b, pm_DeclaredSize = bl_FileSize b,
        pm_FileName = bl_FileName b, pm_FolderID = bl_FolderID b, pm_UploadID = bl_UploadID b\<rparr>)
      (find (\<lambda>x. blob_is b u x \<and> is_pending x) (stored_blobs (w_db w))) = Some x"
  then show "doomed stored S {pm_ObjectKey x} w"
    by (auto dest!: find_SomeD simp: is_visible_def is_pending_def intro!: doomed_row)
next
  fix x
  show "triple (doomed stored S {pm_ObjectKey x})
      (bindE (release_upload s (pm_ObjectKey x) (pm_UploadID x))
        (\<lambda>_. bindE (map_err Db (AbortPendingBlob_pg b u)) (\<lambda>_. ret ())))
      (\<lambda>_. objects_kept stored S) (\<lambda>_. objects_kept stored S)"
    unfolding AbortPendingBlob_pg_def
    by (rule kept_afterI) (auto intro!: keeps_bind keeps_map_err keeps_ret doomed_release [OF assms]
        doomed_delete_blobs)
qed

text \<open>A deletion in the database, then objects: an error in between leaves objects, never rows, behind.\<close>

lemma drops_bind:
  assumes "drops s keys" and "\<And>x. triple (doomed stored S (K \<union> keys x)) (k x) Q (\<lambda>_. objects_kept stored S)"
  shows "triple (doomed stored S K) (bindE (map_err Db (db_call (\<lambda>_. s))) k) Q (\<lambda>_. objects_kept stored S)"
  by (rule triple_bindE [OF triple_map_err [OF triple_weaken [OF doomed_drops [OF assms(1)]]] assms(2)])
    (auto intro: doomed_kept)

lemma drops_bind_ret:
  assumes "drops s keys" and "\<And>x. triple (doomed stored S (K \<union> keys x)) (k (g x)) Q (\<lambda>_. objects_kept stored S)"
  shows "triple (doomed stored S K) (bindE (map_err Db (bindE (db_call (\<lambda>_. s)) (\<lambda>x. ret (g x)))) k) Q
    (\<lambda>_. objects_kept stored S)"
proof -
  have "bindE (map_err Db (bindE (db_call (\<lambda>_. s)) (\<lambda>x. ret (g x)))) k
      = bindE (map_err Db (db_call (\<lambda>_. s))) (\<lambda>x. k (g x))"
    by (rule ext) (simp add: bindE_def map_err_def ret_def split: prod.splits sum.splits)
  with drops_bind [OF assms(1), where k = "\<lambda>x. k (g x)", OF assms(2)] show ?thesis by simp
qed

lemma HardDeleteFolder_kept:
  assumes "s3_safe stored (sv_Objects s)"
  shows "kept_after stored S (HardDeleteFolder s u x)"
proof -
  let ?keys = "\<lambda>r. case r of None \<Rightarrow> {} | Some (ks, _) \<Rightarrow> set ks"
  have "HardDeleteFolder s u x = bindE (map_err Db (db_call (\<lambda>_. HardDeleteFolder_tx x u)))
      (\<lambda>r. case r of None \<Rightarrow> fail ErrFolderNotFound
        | Some (ks, name) \<Rightarrow> bindE (remove_objects s ks) (\<lambda>_. ret name))"
    by (rule ext) (simp add: HardDeleteFolder_def HardDeleteFolder_pg_def found_def bindE_def fail_def ret_def
        split: prod.splits sum.splits option.splits)
  moreover have "triple (doomed stored S ({} \<union> ?keys r)) (case r of None \<Rightarrow> fail ErrFolderNotFound
      | Some (ks, name) \<Rightarrow> bindE (remove_objects s ks) (\<lambda>_. ret name))
      (\<lambda>_. objects_kept stored S) (\<lambda>_. objects_kept stored S)" for r
    by (rule kept_afterI) (auto split: option.splits intro!: keeps_fail keeps_bind keeps_ret
        doomed_remove_objects [OF assms])
  ultimately show ?thesis using drops_bind [OF drops_HardDeleteFolder] by metis
qed

lemma EmptyTrash_kept:
  assumes "s3_safe stored (sv_Objects s)"
  shows "kept_after stored S (EmptyTrash s u)"
  unfolding EmptyTrash_def EmptyTrashedBlobs_pg_def EmptyTrashedFolders_pg_def
  by (rule drops_bind_ret [OF drops_delete_blobs], rule drops_bind [OF drops_EmptyTrashedFolders], rule kept_afterI)
    (auto split: prod.splits intro!: keeps_bind keeps_ret doomed_remove_objects [OF assms])

lemma now_minus_kept:
  assumes "\<And>t. kept_after stored S (k t)"
  shows "kept_after stored S (bindE (now_minus ttl) k)"
  by (rule triple_bindE [where M = "\<lambda>_. doomed stored S {}"])
    (use assms in \<open>auto simp: now_minus_def triple_def\<close>)

lemma CleanExpiredTrash_kept:
  assumes "s3_safe stored (sv_Objects s)"
  shows "kept_after stored S (CleanExpiredTrash s ttl)"
  unfolding CleanExpiredTrash_def PurgeExpiredBlobs_pg_def PurgeExpiredFolders_pg_def
  by (rule now_minus_kept, rule drops_bind_ret [OF drops_delete_blobs], rule drops_bind [OF drops_PurgeExpiredFolders],
      rule kept_afterI)
    (auto intro!: doomed_remove_objects [OF assms])

lemma CleanOrphanedBlobs_kept:
  assumes "s3_safe stored (sv_Objects s)"
  shows "kept_after stored S (CleanOrphanedBlobs s ttl)"
  unfolding CleanOrphanedBlobs_def PurgeOrphanedBlobs_pg_def
  by (rule now_minus_kept, rule drops_bind_ret [OF drops_delete_blobs], rule kept_afterI)
    (auto intro!: keeps_for_ignore doomed_release [OF assms])


section \<open>The operations that do not\<close>

definition holds_objects :: "('o \<Rightarrow> string set) \<Rightarrow> string set \<Rightarrow> 'o sworld \<Rightarrow> bool" where
  "holds_objects stored S w \<longleftrightarrow> S \<subseteq> stored (w_obj w)"

named_theorems holds_rules

lemma holds_db_call [holds_rules]: "keeps (holds_objects stored S) (db_call s)"
  by (rule keepsI) (simp add: holds_objects_def)

lemma holds_query [holds_rules]: "keeps (holds_objects stored S) (query q)"
  unfolding query_def by (rule holds_db_call)

lemma holds_grows [holds_rules]: "s3_grows stored m \<Longrightarrow> keeps (holds_objects stored S) (obj_call m)"
  by (rule keepsI) (auto simp: holds_objects_def s3_grows_def)

lemma holds_presign_parts:
  assumes "s3_safe stored (sv_Objects s)"
  shows "keeps (holds_objects stored S) (presign_parts s k u is)"
proof (induction "is")
  case Nil
  show ?case unfolding presign_parts.simps by (rule keeps_ret)
next
  case (Cons i "is")
  then show ?case
    unfolding presign_parts.simps
    by (intro keeps_attempt keeps_sum keeps_bind keeps_ignore keeps_ret keeps_fail holds_grows)
      (use assms in \<open>auto simp: s3_safe_def\<close>)
qed

lemmas call_defs = DeleteBlob_def TrashBlob_pg_def RestoreBlob_def RestoreBlob_pg_def MoveBlob_def MoveBlob_pg_def
  RenameBlob_def RenameBlob_pg_def CreateFolder_def CreateFolder_pg_def RenameFolder_def RenameFolder_pg_def
  MoveFolder_def MoveFolder_pg_def move_target_def source_name_def folder_name_of_def requireFolder_def
  IsDescendantOf_pg_def GetFolder_pg_def DeleteFolder_def TrashFolder_pg_def RestoreFolder_def RestoreFolder_pg_def
  quota_check_def GetUserStorageUsed_pg_def RegisterBlob_pg_def GetPendingBlobMeta_pg_def ConfirmBlobUpload_pg_def

lemmas keeps_basic = keeps_ret keeps_fail keeps_bind keeps_map_err keeps_attempt keeps_ignore keeps_if keeps_option
  keeps_sum keeps_prod keeps_found

lemma holds_InitiateMultipartUpload:
  assumes "s3_safe stored (sv_Objects s)"
  shows "keeps (holds_objects stored S) (InitiateMultipartUpload s us b p)"
  unfolding InitiateMultipartUpload_def Let_def call_defs
  by (intro keeps_basic holds_rules holds_presign_parts [OF assms]) (use assms in \<open>auto simp: s3_safe_def\<close>)

lemma holds_CompleteMultipartUpload:
  assumes "s3_safe stored (sv_Objects s)"
  shows "keeps (holds_objects stored S) (CompleteMultipartUpload s p)"
  unfolding CompleteMultipartUpload_def call_defs
  by (intro keeps_basic holds_rules) (use assms in \<open>auto simp: s3_safe_def\<close>)

lemma kept_of_holds:
  assumes "keeps (holds_objects stored S) m"
  shows "kept_after stored S m"
  by (rule triple_weaken [OF assms]) (auto simp: holds_objects_def doomed_def objects_kept_def)

lemma holds_plain:
  "keeps (holds_objects stored S) (DeleteBlob u b)" "keeps (holds_objects stored S) (RestoreBlob u b)"
  "keeps (holds_objects stored S) (MoveBlob u b r)" "keeps (holds_objects stored S) (RenameBlob u b n)"
  "keeps (holds_objects stored S) (CreateFolder i cp)" "keeps (holds_objects stored S) (RenameFolder u f n)"
  "keeps (holds_objects stored S) (MoveFolder mp)" "keeps (holds_objects stored S) (DeleteFolder u f)"
  "keeps (holds_objects stored S) (RestoreFolder u f)"
  unfolding call_defs by (intro keeps_basic holds_rules)+

lemma run_op_kept:
  assumes "s3_safe stored (sv_Objects s)"
  shows "kept_after stored S (run_op s us x)"
  using assms
  by (cases x)
    (simp_all add: triple_ignore kept_of_holds holds_plain holds_InitiateMultipartUpload
      holds_CompleteMultipartUpload HardDeleteBlob_kept AbortUpload_kept HardDeleteFolder_kept
      EmptyTrash_kept CleanExpiredTrash_kept CleanOrphanedBlobs_kept)

text \<open>
  C3. No operation of the storage service, run on any fault schedule of the database and any
  behaviour of an object store that removes only the objects it is asked to remove, removes the object of
  a file that is visible after it, when the tables were consistent.
\<close>

theorem no_visible_file_loses_its_object:
  assumes "s3_safe stored (sv_Objects s)" and "wf_db (w_now w) (w_db w)"
    and "run_op s us x w = (r, w')" and "b \<in> set (stored_blobs (w_db w'))" and "is_visible b"
    and "bl_ObjectKey b \<in> stored (w_obj w)"
  shows "bl_ObjectKey b \<in> stored (w_obj w')"
proof -
  have "doomed stored (stored (w_obj w)) {} w"
    using assms(2) by (intro doomed_init) (simp_all add: on_db_def)
  then have "objects_kept stored (stored (w_obj w)) (snd (run_op s us x w))"
    by (rule keeps_like_snd [OF run_op_kept [OF assms(1)]])
  with assms(3-6) show ?thesis by (simp add: objects_kept_def)
qed


text \<open>
  C18. Deleting a file for good never leaves its object behind without a row: whatever fails, the row
  is still there or the object is gone; and success means that both are gone.
\<close>

theorem HardDeleteBlob_object_first:
  assumes "s3_contract stored (sv_Objects s)" and wf: "wf_db (w_now w) (w_db w)"
    and b: "b \<in> set (stored_blobs (w_db w))" "blob_is i u b" "bl_DeletedAt b \<noteq> None"
    and run: "HardDeleteBlob s u i w = (r, w')"
  shows "(b \<in> set (stored_blobs (w_db w')) \<or> bl_ObjectKey b \<notin> stored (w_obj w'))
    \<and> (\<forall>n. r = Inr n \<longrightarrow> b \<notin> set (stored_blobs (w_db w')) \<and> bl_ObjectKey b \<notin> stored (w_obj w'))"
proof -
  let ?p = "\<lambda>x. blob_is i u x \<and> bl_DeletedAt x \<noteq> None"
  have find: "find ?p (stored_blobs (w_db w)) = Some b"
    by (rule find_key_unique [OF wf_dbD(3) [OF wf] b(1)]) (use b in \<open>auto simp: blob_is_def\<close>)
  obtain r1 w1 where q: "PeekTrashedBlob_pg i u w = (r1, w1)" by (rule prod.exhaust)
  have "w_db (snd (PeekTrashedBlob_pg i u w)) = w_db w" unfolding PeekTrashedBlob_pg_def by (rule query_db)
  then have db1: "w_db w1 = w_db w" by (simp add: q)
  obtain r2 o2 where rem: "RemoveObject (sv_Objects s) (bl_ObjectKey b) (w_obj w) = (r2, o2)" by (rule prod.exhaust)
  let ?w2 = "w1\<lparr>w_obj := o2\<rparr>"
  obtain r3 w3 where del: "db_call (\<lambda>_. delete_blobs ?p) ?w2 = (r3, w3)" by (rule prod.exhaust)
  show ?thesis
  proof (cases r1)
    case (Inl e)
    with q run have "w' = w1" "r = Inl (Db e)"
      by (auto simp: HardDeleteBlob_def found_def bindE_def map_err_def)
    with db1 b show ?thesis by simp
  next
    case (Inr x)
    note ok = query_ok [OF q [unfolded Inr PeekTrashedBlob_pg_def]]
    have x: "x = Some (bl_ObjectKey b, bl_FileName b)" "w_obj w1 = w_obj w"
      unfolding ok(1) find by (simp, rule w_obj_more [OF ok(4)])
    show ?thesis
    proof (cases r2)
      case (Inl e)
      with q x rem run \<open>r1 = Inr x\<close> have "w' = ?w2" "r = Inl (Obj e)"
        by (auto simp: HardDeleteBlob_def found_def bindE_def map_err_def ret_def obj_call_def)
      with db1 b show ?thesis by simp
    next
      case (Inr y)
      have gone: "bl_ObjectKey b \<notin> stored o2"
        using RemoveObject_stored(3) [OF assms(1), of "bl_ObjectKey b" "w_obj w"] rem Inr by simp
      have "w' = w3" "r = (case r3 of Inl e \<Rightarrow> Inl (Db e) | Inr _ \<Rightarrow> Inr (bl_FileName b))"
        using q x rem run \<open>r1 = Inr x\<close> Inr del
        by (auto simp: HardDeleteBlob_def found_def bindE_def map_err_def ret_def obj_call_def HardDeleteBlob_pg_def
            simp del: not_None_eq split: sum.splits)
      moreover have "w_obj w3 = o2" using db_call_obj_eq [OF del] by simp
      moreover have "b \<notin> set (stored_blobs (w_db w3))" if "r3 = Inr gone" for gone
        using db_call_ok(1) [OF del [unfolded that]] b by (auto dest: delete_blobsD(2))
      ultimately show ?thesis using gone by (auto split: sum.splits)
    qed
  qed
qed

end
