(* ===== verification/Storage_Isolation.thy ===== *)
theory Storage_Isolation
  imports Storage_Objects
begin

text \<open>
  Accounts are separate. The rows of a user are changed by that user's operations only: the view any
  other user has of the folder and blob tables satisfies the interface \<open>storage_tables\<close>. The subtree
  walks of the folder transactions do not test the owner; they stay in one account because the
  invariant keeps parent and child in one.
\<close>

section \<open>The view of a user\<close>

definition user_view :: "uuid \<Rightarrow> db \<Rightarrow> Folder list \<times> Blob list" where
  "user_view v d = (filter (\<lambda>f. fo_UserID f = v) (folders d), filter (\<lambda>b. bl_UserID b = v) (stored_blobs d))"

lemma filter_map_view:
  assumes "\<And>x. x \<in> set xs \<Longrightarrow> owner (g x) = owner x" and "\<And>x. x \<in> set xs \<Longrightarrow> owner x = v \<Longrightarrow> g x = x"
  shows "filter (\<lambda>x. owner x = v) (map g xs) = filter (\<lambda>x. owner x = v) xs"
  using assms by (induction xs) auto

lemma filter_filter_view:
  assumes "\<And>x. x \<in> set xs \<Longrightarrow> owner x = v \<Longrightarrow> k x"
  shows "filter (\<lambda>x. owner x = v) (filter k xs) = filter (\<lambda>x. owner x = v) xs"
  using assms by (induction xs) auto

text \<open>What a walk from a user's folder reaches belongs to the user.\<close>

lemma below_owner:
  assumes wf: "wf_db now d" and f0: "f0 \<in> set (folders d)"
    and y: "y \<in> below p d {fo_ID f0}" and g: "g \<in> set (folders d)" "fo_ID g = y"
  shows "fo_UserID g = fo_UserID f0"
proof -
  from y have "(fo_ID f0, y) \<in> (child_rel p (folders d))\<^sup>*" by simp
  then show ?thesis using g
  proof (induction arbitrary: g rule: rtrancl_induct)
    case base
    then show ?case using folder_unique [OF wf_dbD(1) [OF wf] base(1) f0] by simp
  next
    case (step y z)
    from step(2) obtain c where c: "c \<in> set (folders d)" "fo_ID c = z" "fo_ParentID c = Some y"
      by (auto simp: child_rel_def)
    with step.prems folder_unique [OF wf_dbD(1) [OF wf]] have "c = g" by metis
    from folder_refD [OF wf c(1,3)] obtain p where "p \<in> set (folders d)" "fo_ID p = y" by blast
    with step.IH [of p] parentD(1) [OF wf c(1), of p] c(3) \<open>c = g\<close> show ?case by simp
  qed
qed

text \<open>The files in a set of folders belong to the owner of the folders.\<close>

lemma in_folders_owner:
  assumes wf: "wf_db now d" and own: "\<And>g. g \<in> set (folders d) \<Longrightarrow> id_in ids g \<Longrightarrow> fo_UserID g = u"
    and b: "b \<in> set (stored_blobs d)" "in_folders ids b"
  shows "bl_UserID b = u"
proof -
  from b(2) obtain i where i: "bl_FolderID b = Some i" "i \<in> set ids"
    by (auto simp: in_folders_def split: option.splits)
  from blob_refD [OF wf b(1) i(1)] i(2) own show ?thesis by (auto simp: id_in_def)
qed

lemma view_rewrite:
  assumes "folders d' = map h (filter kf (folders d))" and "stored_blobs d' = map g (filter kb (stored_blobs d))"
    and "\<And>f. f \<in> set (folders d) \<Longrightarrow> fo_UserID (h f) = fo_UserID f"
    and "\<And>f. f \<in> set (folders d) \<Longrightarrow> fo_UserID f = v \<Longrightarrow> kf f \<and> h f = f"
    and "\<And>b. b \<in> set (stored_blobs d) \<Longrightarrow> bl_UserID (g b) = bl_UserID b"
    and "\<And>b. b \<in> set (stored_blobs d) \<Longrightarrow> bl_UserID b = v \<Longrightarrow> kb b \<and> g b = b"
  shows "user_view v d' = user_view v d"
proof -
  have "filter (\<lambda>f. fo_UserID f = v) (folders d') = filter (\<lambda>f. fo_UserID f = v) (folders d)"
    unfolding assms(1) by (subst filter_map_view, use assms(3,4) in force, use assms(3,4) in force)
      (rule filter_filter_view, use assms(4) in blast)
  moreover have "filter (\<lambda>b. bl_UserID b = v) (stored_blobs d') = filter (\<lambda>b. bl_UserID b = v) (stored_blobs d)"
    unfolding assms(2) by (subst filter_map_view, use assms(5,6) in force, use assms(5,6) in force)
      (rule filter_filter_view, use assms(6) in blast)
  ultimately show ?thesis by (simp add: user_view_def)
qed

section \<open>The statements\<close>

lemma view_TrashFolder:
  assumes wf: "wf_db now d" and tx: "TrashFolder_tx x u now d = Inr (r, d')" and "u \<noteq> v"
  shows "user_view v d' = user_view v d"
  using tx
proof (rule TrashFolder_txD)
  fix ids
  assume ids: "set ids = below is_active d (fo_ID ` {f \<in> set (folders d). folder_is x u f \<and> is_active f})"
    and d': "d' = trash_rows ids now d"
  have own: "fo_UserID g = u" if "g \<in> set (folders d)" "id_in ids g" for g
  proof -
    from that(2) obtain f0 where "f0 \<in> set (folders d)" "folder_is x u f0" "fo_ID g \<in> below is_active d {fo_ID f0}"
      by (auto simp: id_in_def ids)
    with below_owner [OF wf _ _ that(1)] show ?thesis by (simp add: folder_is_def)
  qed
  show ?thesis
    by (rule view_rewrite [where kf = "\<lambda>_. True" and kb = "\<lambda>_. True"
        and h = "\<lambda>f. if id_in ids f then f\<lparr>fo_DeletedAt := Some now\<rparr> else f"
        and g = "\<lambda>b. if in_folders ids b \<and> bl_DeletedAt b = None then b\<lparr>bl_DeletedAt := Some now\<rparr> else b"])
      (use own in_folders_owner [OF wf own] \<open>u \<noteq> v\<close> in \<open>auto simp: d' trash_rows_def\<close>)
qed

lemma below_own:
  assumes "wf_db now d" and "f0 \<in> set (folders d)" and "folder_is x u f0"
    and "set ids = below (\<lambda>_. True) d {x}" and "g \<in> set (folders d)" and "id_in ids g"
  shows "fo_UserID g = u"
  using below_owner [OF assms(1,2) _ assms(5) refl, of "\<lambda>_. True"] assms(3,4,6)
  by (simp add: folder_is_def id_in_def)

lemma view_RestoreFolder:
  assumes wf: "wf_db now d" and tx: "RestoreFolder_tx x u d = Inr (r, d')" and "u \<noteq> v"
  shows "user_view v d' = user_view v d"
  using tx
proof (rule RestoreFolder_txD)
  fix f0 ids
  assume "f0 \<in> set (folders d)" "folder_is x u f0" "set ids = below (\<lambda>_. True) d {x}"
    and d': "d' = restore_rows ids x (restored_folder d (fo_ParentID f0)) d"
  note own = below_own [OF wf this(1-3)]
  show ?thesis
    by (rule view_rewrite [where kf = "\<lambda>_. True" and kb = "\<lambda>_. True"
        and h = "\<lambda>f. if id_in ids f then f\<lparr>fo_DeletedAt := None,
          fo_ParentID := (if fo_ID f = x then restored_folder d (fo_ParentID f0) else fo_ParentID f)\<rparr> else f"
        and g = "\<lambda>b. if in_folders ids b \<and> bl_DeletedAt b \<noteq> None then b\<lparr>bl_DeletedAt := None\<rparr> else b"])
      (use own in_folders_owner [OF wf own] \<open>u \<noteq> v\<close> in \<open>auto simp: d' restore_rows_def simp del: not_None_eq\<close>)
qed simp

lemma view_remove_rows:
  assumes wf: "wf_db now d" and rm: "remove_rows pb pf d d'" and "u \<noteq> v"
    and pf: "\<And>f. f \<in> set (folders d) \<Longrightarrow> pf f \<Longrightarrow> fo_UserID f = u"
    and pb: "\<And>b. b \<in> set (stored_blobs d) \<Longrightarrow> pb b \<Longrightarrow> bl_UserID b = u"
  shows "user_view v d' = user_view v d"
proof -
  let ?ids = "fo_ID ` {f \<in> set (folders d). pf f}"
  have "unlink ?ids b = b" if b: "b \<in> set (stored_blobs d)" "bl_UserID b = v" for b
  proof (rule unlink_id)
    fix i assume "bl_FolderID b = Some i"
    then obtain p where "p \<in> set (folders d)" "fo_ID p = i" "fo_UserID p = v"
      using blob_refD [OF wf b(1)] b(2) by blast
    with pf \<open>u \<noteq> v\<close> folder_unique [OF wf_dbD(1) [OF wf]] show "i \<notin> ?ids" by auto
  qed
  then show ?thesis
    by (intro view_rewrite [where kf = "\<lambda>f. \<not> pf f" and kb = "\<lambda>b. \<not> pb b" and h = "\<lambda>f. f" and g = "unlink ?ids"])
      (use rm pf pb \<open>u \<noteq> v\<close> in \<open>auto simp: remove_rows_def unlink_def split: option.splits\<close>)
qed

lemma view_HardDeleteFolder:
  assumes wf: "wf_db now d" and tx: "HardDeleteFolder_tx x u d = Inr (r, d')" and "u \<noteq> v"
  shows "user_view v d' = user_view v d"
  using tx
proof (rule HardDeleteFolder_txD)
  fix f0 ids
  assume "f0 \<in> set (folders d)" "folder_is x u f0" "set ids = below (\<lambda>_. True) d {x}"
    and rm: "remove_rows (in_folders ids) (id_in ids) d d'"
  note own = below_own [OF wf this(1-3)]
  show ?thesis by (rule view_remove_rows [OF wf rm \<open>u \<noteq> v\<close> own in_folders_owner [OF wf own]])
qed simp

lemma view_EmptyTrashedFolders:
  assumes "wf_db now d" and "EmptyTrashedFolders_tx u d = Inr (r, d')" and "u \<noteq> v"
  shows "user_view v d' = user_view v d"
  by (rule view_remove_rows [OF assms(1) EmptyTrashedFolders_txD [OF assms(2)] assms(3)]) auto

interpretation other: storage_tables "\<lambda>now d. wf_db now d \<and> user_view v d = V" "\<lambda>u. u \<noteq> v" for v V
proof unfold_locales
  fix now d u d' p g
  assume wf: "wf_db now d \<and> user_view v d = V" and "u \<noteq> v"
    and d': "d' = d\<lparr>stored_blobs := map (\<lambda>b. if p b then g b else b) (stored_blobs d)\<rparr>"
    and own: "\<And>b. p b \<Longrightarrow> bl_UserID b = u"
    and keys: "\<And>b. bl_ID (g b) = bl_ID b \<and> bl_ObjectKey (g b) = bl_ObjectKey b \<and> bl_UserID (g b) = bl_UserID b"
    and ok: "\<And>b. b \<in> set (stored_blobs d) \<Longrightarrow> p b \<Longrightarrow> blob_ok now (folders d) b \<Longrightarrow> blob_ok now (folders d) (g b)"
  have "user_view v d' = user_view v d"
    by (rule view_rewrite [where kf = "\<lambda>_. True" and kb = "\<lambda>_. True" and h = "\<lambda>f. f" and g = "\<lambda>b. if p b then g b else b"])
      (use own keys \<open>u \<noteq> v\<close> in \<open>auto simp: d'\<close>)
  with wf wf_update_blobs [OF conjunct1 [OF wf] d' keys ok] show "wf_db now d' \<and> user_view v d' = V" by simp
next
  fix now d u q gone d'
  assume wf: "wf_db now d \<and> user_view v d = V" and "u \<noteq> v" and own: "\<And>b. q b \<Longrightarrow> bl_UserID b = u"
    and del: "delete_blobs q d = Inr (gone, d')"
  have "user_view v d' = user_view v d"
    by (rule view_rewrite [where kf = "\<lambda>_. True" and kb = "\<lambda>b. \<not> q b" and h = "\<lambda>f. f" and g = "\<lambda>b. b"])
      (use own \<open>u \<noteq> v\<close> delete_blobsD [OF del] in auto)
  with wf wf_delete_blobs [OF conjunct1 [OF wf] del] show "wf_db now d' \<and> user_view v d' = V" by simp
next
  fix now d u pf h n d'
  assume wf: "wf_db now d \<and> user_view v d = V" and "u \<noteq> v" and up: "update_folders pf h d = Inr (n, d')"
    and own: "\<And>f. pf f \<Longrightarrow> fo_UserID f = u"
    and keys: "\<And>f. fo_ID (h f) = fo_ID f \<and> fo_UserID (h f) = fo_UserID f \<and> fo_DeletedAt (h f) = fo_DeletedAt f"
    and ok: "\<And>f. f \<in> set (folders d) \<Longrightarrow> pf f \<Longrightarrow> ref_ok (folders d) (fo_ParentID (h f)) (fo_UserID f) (fo_DeletedAt f)"
  have "user_view v d' = user_view v d"
    by (rule view_rewrite [where kf = "\<lambda>_. True" and kb = "\<lambda>_. True" and h = "\<lambda>f. if pf f then h f else f" and g = "\<lambda>b. b"])
      (use own keys \<open>u \<noteq> v\<close> update_foldersD [OF up] in auto)
  with wf wf_update_folders [OF conjunct1 [OF wf] up keys ok] show "wf_db now d' \<and> user_view v d' = V" by simp
qed (auto simp: user_view_def insert_blob_def insert_folder_def split: if_splits
    intro: wf_insert_blob wf_insert_folder wf_TrashFolder wf_RestoreFolder wf_HardDeleteFolder wf_EmptyTrashedFolders
    dest: view_TrashFolder view_RestoreFolder view_HardDeleteFolder view_EmptyTrashedFolders)


text \<open>
  C12. Tenant isolation: whatever a user does, with whatever faults, the folders and files of every
  other user stay exactly as they are.
\<close>

theorem user_operations_isolated:
  assumes "wf_db (w_now w) (w_db w)" and "op_user x = Some u" and "v \<noteq> u"
  shows "user_view v (w_db (snd (run_op s us x w))) = user_view v (w_db w)"
proof -
  have "on_db (\<lambda>now d. wf_db now d \<and> user_view v d = user_view v (w_db w)) (snd (run_op s us x w))"
    by (rule keeps_snd [OF other.user_op_keeps [OF assms(2)]]) (use assms in \<open>auto simp: on_db_def\<close>)
  then show ?thesis by (simp add: on_db_def)
qed

end
