(* ===== verification/Sharing.thy ===== *)
theory Sharing
  imports Storage_Isolation
begin

text \<open>
  \<open>internal/repo/persistent/postgres/shares.go\<close> and \<open>internal/usecase/sharing\<close>: sharing of a file
  with one recipient. The file key is wrapped by the client; the server stores the wrapped key and
  decides who may download. The identifier of a new share, which PostgreSQL draws, is an argument.
\<close>

section \<open>Parameters, results, errors\<close>

text \<open>\<open>entity.FileShareView\<close> embeds \<open>entity.FileShare\<close>.\<close>

record FileShareView = FileShare +
  vw_BlobFileName :: string
  vw_BlobContentType :: string
  vw_OwnerEmail :: string
  vw_RecipientEmail :: string

record BlobInfo =
  bi_ObjectKey :: string
  bi_FileName :: string
  bi_ContentType :: string
  bi_FileSize :: int64
  bi_FileSizePlain :: int64
  bi_ChunkSize :: int32
  bi_OwnerID :: uuid

record CreateShareParams =
  cp_BlobID :: uuid
  cp_OwnerID :: uuid
  cp_RecipientEmail :: string
  cp_RecipientID :: uuid
  cp_EphemeralPub :: bytes
  cp_WrappedFileKey :: bytes
  cp_ExpiresAt :: "time option"

record SharedFileResult =
  sf_Share :: FileShareView
  sf_DownloadURL :: string
  sf_FileName :: string
  sf_ContentType :: string
  sf_FileSize :: int64
  sf_FileSizePlain :: int64
  sf_ChunkSize :: int32

datatype sharing_err =
  ShareNotFound | ErrForbidden | ErrNoPublicKey | ErrExpired | ErrRevoked | ErrDuplicateShare | ErrSelfShare
| ShareDb pg_err | SharePresign storage_err

section \<open>The repository\<close>

definition GetPublicKeyByEmail_pg :: "string \<Rightarrow> ('x world_scheme, sharing_err, bytes \<times> uuid) eff" where
  "GetPublicKeyByEmail_pg email =
     bindE (map_err ShareDb (query (\<lambda>_ d. find (\<lambda>r. us_email r = email) (users d))))
       (\<lambda>r. case r of None \<Rightarrow> fail ShareNotFound
        | Some row \<Rightarrow> (case us_public_key row of
            None \<Rightarrow> fail ErrNoPublicKey
          | Some pub \<Rightarrow> if pub = [] then fail ErrNoPublicKey else ret (pub, us_id row)))"

definition GetBlobInfo_pg :: "uuid \<Rightarrow> ('x world_scheme, pg_err, BlobInfo option) eff" where
  "GetBlobInfo_pg blobID =
     query (\<lambda>_ d. map_option
       (\<lambda>b. \<lparr>bi_ObjectKey = bl_ObjectKey b, bi_FileName = bl_FileName b, bi_ContentType = bl_ContentType b,
             bi_FileSize = bl_FileSize b, bi_FileSizePlain = bl_FileSizePlain b,
             bi_ChunkSize = bl_ChunkSize b, bi_OwnerID = bl_UserID b\<rparr>)
       (find (\<lambda>b. bl_ID b = blobID \<and> bl_DeletedAt b = None) (stored_blobs d)))"

text \<open>
  \<open>INSERT INTO file_shares\<close>: the primary key, the partial unique index on the shares that are not
  revoked, and the references to the blob and the two users.
\<close>

definition insert_share :: "FileShare \<Rightarrow> unit stmt" where
  "insert_share s d =
     (if sh_ID s \<in> sh_ID ` set (file_shares d)
         \<or> sh_RevokedAt s = None \<and> (\<exists>s' \<in> set (file_shares d). sh_RevokedAt s' = None
              \<and> sh_BlobID s' = sh_BlobID s \<and> sh_RecipientID s' = sh_RecipientID s) then Inl UniqueViolation
      else if sh_BlobID s \<notin> bl_ID ` set (stored_blobs d) \<or> \<not> user_exists (sh_OwnerID s) d
         \<or> \<not> user_exists (sh_RecipientID s) d then Inl ForeignKeyViolation
      else Inr ((), d\<lparr>file_shares := file_shares d @ [s]\<rparr>))"

definition share_row :: "uuid \<Rightarrow> time \<Rightarrow> CreateShareParams \<Rightarrow> FileShare" where
  "share_row newID now p =
     \<lparr>sh_ID = newID, sh_BlobID = cp_BlobID p, sh_OwnerID = cp_OwnerID p, sh_RecipientID = cp_RecipientID p,
      sh_EphemeralPub = cp_EphemeralPub p, sh_WrappedFileKey = cp_WrappedFileKey p,
      sh_ExpiresAt = cp_ExpiresAt p, sh_RevokedAt = None, sh_CreatedAt = now\<rparr>"

text \<open>The three joins of every query on shares: a row without its blob or users has no view.\<close>

definition share_view :: "db \<Rightarrow> FileShare \<Rightarrow> FileShareView option" where
  "share_view d s =
     (case (find (\<lambda>b. bl_ID b = sh_BlobID s) (stored_blobs d), find (\<lambda>r. us_id r = sh_OwnerID s) (users d),
            find (\<lambda>r. us_id r = sh_RecipientID s) (users d)) of
        (Some sb, Some owner, Some recipient) \<Rightarrow> Some
          \<lparr>sh_ID = sh_ID s, sh_BlobID = sh_BlobID s, sh_OwnerID = sh_OwnerID s,
           sh_RecipientID = sh_RecipientID s, sh_EphemeralPub = sh_EphemeralPub s,
           sh_WrappedFileKey = sh_WrappedFileKey s, sh_ExpiresAt = sh_ExpiresAt s,
           sh_RevokedAt = sh_RevokedAt s, sh_CreatedAt = sh_CreatedAt s,
           vw_BlobFileName = bl_FileName sb, vw_BlobContentType = bl_ContentType sb,
           vw_OwnerEmail = us_email owner, vw_RecipientEmail = us_email recipient\<rparr>
      | _ \<Rightarrow> None)"

text \<open>A view that is missing is \<open>pgx.ErrNoRows\<close> of the scan, after the insert.\<close>

definition CreateShare_pg :: "uuid \<Rightarrow> CreateShareParams \<Rightarrow> ('x world_scheme, sharing_err, FileShareView) eff" where
  "CreateShare_pg newID p =
     bindE (map_err (\<lambda>e. if e = UniqueViolation then ErrDuplicateShare else ShareDb e)
        (db_call (\<lambda>now. stmt_bind (insert_share (share_row newID now p))
           (\<lambda>_. stmt_read (\<lambda>d. share_view d (share_row newID now p))))))
       (\<lambda>r. case r of None \<Rightarrow> fail (ShareDb DbError) | Some share \<Rightarrow> ret share)"

definition GetShare_pg :: "uuid \<Rightarrow> ('x world_scheme, pg_err, FileShareView option) eff" where
  "GetShare_pg shareID =
     query (\<lambda>_ d. Option.bind (find (\<lambda>s. sh_ID s = shareID) (file_shares d)) (share_view d))"

definition ListSharedWithUser_pg :: "uuid \<Rightarrow> ('x world_scheme, pg_err, FileShareView list) eff" where
  "ListSharedWithUser_pg recipientID =
     query (\<lambda>now d. List.map_filter (share_view d) (sort_key (\<lambda>s. - sh_CreatedAt s)
       (filter (\<lambda>s. sh_RecipientID s = recipientID \<and> sh_RevokedAt s = None
            \<and> (\<exists>b \<in> set (stored_blobs d). bl_ID b = sh_BlobID s \<and> bl_DeletedAt b = None)
            \<and> (case sh_ExpiresAt s of None \<Rightarrow> True | Some e \<Rightarrow> e > now)) (file_shares d))))"

definition ListSharesForBlob_pg :: "uuid \<Rightarrow> uuid \<Rightarrow> ('x world_scheme, pg_err, FileShareView list) eff" where
  "ListSharesForBlob_pg blobID ownerID =
     query (\<lambda>_ d. List.map_filter (share_view d) (sort_key (\<lambda>s. - sh_CreatedAt s)
       (filter (\<lambda>s. sh_BlobID s = blobID \<and> sh_OwnerID s = ownerID \<and> sh_RevokedAt s = None) (file_shares d))))"

definition revokes :: "uuid \<Rightarrow> uuid \<Rightarrow> FileShare \<Rightarrow> bool" where
  "revokes shareID ownerID s = (sh_ID s = shareID \<and> sh_OwnerID s = ownerID \<and> sh_RevokedAt s = None)"

definition revoke_share :: "uuid \<Rightarrow> uuid \<Rightarrow> time \<Rightarrow> db \<Rightarrow> db" where
  "revoke_share shareID ownerID now d =
     d\<lparr>file_shares := map (\<lambda>s. if revokes shareID ownerID s then s\<lparr>sh_RevokedAt := Some now\<rparr> else s) (file_shares d)\<rparr>"

definition RevokeShare_pg :: "uuid \<Rightarrow> uuid \<Rightarrow> ('x world_scheme, sharing_err, unit) eff" where
  "RevokeShare_pg shareID ownerID =
     bindE (map_err ShareDb (db_call (\<lambda>now d.
        Inr (length (filter (revokes shareID ownerID) (file_shares d)), revoke_share shareID ownerID now d))))
       (\<lambda>n. if n = 0 then fail ShareNotFound else ret ())"

section \<open>The service\<close>

record 'o SharingService =
  hs_Objects :: "'o Store"
  hs_PresignTTL :: int
  hs_UniLower :: "string \<Rightarrow> string"

definition share_email :: "'o SharingService \<Rightarrow> string \<Rightarrow> string" where
  "share_email s email = TrimSpace (ToLower (hs_UniLower s) email)"

definition GetRecipientPublicKey :: "'o SharingService \<Rightarrow> string \<Rightarrow> ('o sworld, sharing_err, bytes) eff" where
  "GetRecipientPublicKey s email =
     bindE (GetPublicKeyByEmail_pg (share_email s email)) (\<lambda>(pub, _). ret pub)"

text \<open>
  The goroutine that ends \<open>CreateShare\<close> mails the recipient; an error of the notifier is only
  logged. Its arguments are returned with the share.
\<close>

definition share_notice :: "FileShareView \<Rightarrow> string \<times> string \<times> string" where
  "share_notice v = (vw_RecipientEmail v, vw_OwnerEmail v, vw_BlobFileName v)"

definition CreateShare ::
  "'o SharingService \<Rightarrow> uuid \<Rightarrow> CreateShareParams
   \<Rightarrow> ('o sworld, sharing_err, FileShareView \<times> (string \<times> string \<times> string)) eff" where
  "CreateShare s newID p =
     bindE (map_err ShareDb (GetBlobInfo_pg (cp_BlobID p)))
       (\<lambda>r. case r of None \<Rightarrow> fail ShareNotFound
        | Some info \<Rightarrow>
            if bi_OwnerID info \<noteq> cp_OwnerID p then fail ShareNotFound
            else bindE (GetPublicKeyByEmail_pg (share_email s (cp_RecipientEmail p)))
              (\<lambda>(_, recipientID).
                 if recipientID = cp_OwnerID p then fail ErrSelfShare
                 else bindE (CreateShare_pg newID
                     \<lparr>cp_BlobID = cp_BlobID p, cp_OwnerID = cp_OwnerID p, cp_RecipientEmail = [],
                      cp_RecipientID = recipientID, cp_EphemeralPub = cp_EphemeralPub p,
                      cp_WrappedFileKey = cp_WrappedFileKey p, cp_ExpiresAt = cp_ExpiresAt p\<rparr>)
                   (\<lambda>share. ret (share, share_notice share))))"

definition validateShareAccess :: "FileShareView \<Rightarrow> uuid \<Rightarrow> time \<Rightarrow> sharing_err option" where
  "validateShareAccess share callerID now =
     (if sh_RecipientID share \<noteq> callerID then Some ErrForbidden
      else if sh_RevokedAt share \<noteq> None then Some ErrRevoked
      else (case sh_ExpiresAt share of
              None \<Rightarrow> None
            | Some e \<Rightarrow> if now > e then Some ErrExpired else None))"

definition GetSharedFile ::
  "'o SharingService \<Rightarrow> uuid \<Rightarrow> uuid \<Rightarrow> ('o sworld, sharing_err, SharedFileResult) eff" where
  "GetSharedFile s shareID callerID =
     bindE (map_err ShareDb (GetShare_pg shareID))
       (\<lambda>r. case r of None \<Rightarrow> fail ShareNotFound
        | Some share \<Rightarrow> (\<lambda>w. (case validateShareAccess share callerID (w_now w) of
             Some e \<Rightarrow> fail e
           | None \<Rightarrow>
               bindE (map_err ShareDb (GetBlobInfo_pg (sh_BlobID share)))
                 (\<lambda>r. case r of None \<Rightarrow> fail ShareNotFound
                  | Some info \<Rightarrow>
                      bindE (map_err SharePresign
                               (obj_call (PresignedGetObject (hs_Objects s) (bi_ObjectKey info) (hs_PresignTTL s))))
                        (\<lambda>u. ret \<lparr>sf_Share = share, sf_DownloadURL = u, sf_FileName = bi_FileName info,
                           sf_ContentType = bi_ContentType info, sf_FileSize = bi_FileSize info,
                           sf_FileSizePlain = bi_FileSizePlain info, sf_ChunkSize = bi_ChunkSize info\<rparr>))) w))"

definition ListSharedWithMe :: "uuid \<Rightarrow> ('o sworld, sharing_err, FileShareView list) eff" where
  "ListSharedWithMe recipientID = map_err ShareDb (ListSharedWithUser_pg recipientID)"

definition ListMyShares :: "uuid \<Rightarrow> uuid \<Rightarrow> ('o sworld, sharing_err, FileShareView list) eff" where
  "ListMyShares blobID ownerID = map_err ShareDb (ListSharesForBlob_pg blobID ownerID)"

definition RevokeShare :: "uuid \<Rightarrow> uuid \<Rightarrow> ('o sworld, sharing_err, unit) eff" where
  "RevokeShare shareID ownerID = RevokeShare_pg shareID ownerID"

section \<open>Views\<close>

lemma share_viewD:
  assumes "share_view d s = Some v"
  shows "sh_ID v = sh_ID s" "sh_BlobID v = sh_BlobID s" "sh_OwnerID v = sh_OwnerID s"
    "sh_RecipientID v = sh_RecipientID s" "sh_ExpiresAt v = sh_ExpiresAt s" "sh_RevokedAt v = sh_RevokedAt s"
    "sh_WrappedFileKey v = sh_WrappedFileKey s" "sh_EphemeralPub v = sh_EphemeralPub s"
  using assms by (auto simp: share_view_def split: option.splits)

lemma share_view_exists:
  assumes "sh_BlobID s \<in> bl_ID ` set (stored_blobs d)" and "user_exists (sh_OwnerID s) d"
    and "user_exists (sh_RecipientID s) d"
  shows "share_view d s \<noteq> None"
proof -
  have "find (\<lambda>b. bl_ID b = sh_BlobID s) (stored_blobs d) \<noteq> None"
    "find (\<lambda>r. us_id r = sh_OwnerID s) (users d) \<noteq> None" "find (\<lambda>r. us_id r = sh_RecipientID s) (users d) \<noteq> None"
    using assms by (auto simp: find_None_iff user_exists_def)
  then show ?thesis by (auto simp: share_view_def)
qed

text \<open>The steps of a download that was granted.\<close>

lemma GetSharedFile_InrE:
  assumes "GetSharedFile s i u w = (Inr res, w')"
  obtains row v b where "find (\<lambda>s. sh_ID s = i) (file_shares (w_db w)) = Some row"
    and "share_view (w_db w) row = Some v" and "validateShareAccess v u (w_now w) = None"
    and "b \<in> set (stored_blobs (w_db w))" and "bl_ID b = sh_BlobID row" and "bl_DeletedAt b = None"
    and "sf_Share res = v"
    and "\<exists>o1 o2. PresignedGetObject (hs_Objects s) (bl_ObjectKey b) (hs_PresignTTL s) o1 = (Inr (sf_DownloadURL res), o2)"
proof -
  obtain r w1 where g: "map_err ShareDb (GetShare_pg i) w = (Inr r, w1)"
    and k: "(case r of None \<Rightarrow> fail ShareNotFound
        | Some share \<Rightarrow> (\<lambda>w. (case validateShareAccess share u (w_now w) of
             Some e \<Rightarrow> fail e
           | None \<Rightarrow>
               bindE (map_err ShareDb (GetBlobInfo_pg (sh_BlobID share)))
                 (\<lambda>r. case r of None \<Rightarrow> fail ShareNotFound
                  | Some info \<Rightarrow>
                      bindE (map_err SharePresign
                               (obj_call (PresignedGetObject (hs_Objects s) (bi_ObjectKey info) (hs_PresignTTL s))))
                        (\<lambda>u. ret \<lparr>sf_Share = share, sf_DownloadURL = u, sf_FileName = bi_FileName info,
                           sf_ContentType = bi_ContentType info, sf_FileSize = bi_FileSize info,
                           sf_FileSizePlain = bi_FileSizePlain info, sf_ChunkSize = bi_ChunkSize info\<rparr>))) w)) w1
        = (Inr res, w')"
    using assms unfolding GetSharedFile_def by (rule bindE_InrE) (rule that)
  from g have "GetShare_pg i w = (Inr r, w1)" by (rule map_err_InrE)
  note q = query_ok [OF this [unfolded GetShare_pg_def]]
  obtain v where v: "r = Some v" using k by (cases r) (auto simp: fail_def)
  with q(1) obtain row where row: "find (\<lambda>s. sh_ID s = i) (file_shares (w_db w)) = Some row" "share_view (w_db w) row = Some v"
    by (cases "find (\<lambda>s. sh_ID s = i) (file_shares (w_db w))") auto
  have acc: "validateShareAccess v u (w_now w) = None"
    using k q(3) by (auto simp: v fail_def split: option.splits)
  obtain r2 w2 where g2: "map_err ShareDb (GetBlobInfo_pg (sh_BlobID v)) w1 = (Inr r2, w2)"
    and k2: "(case r2 of None \<Rightarrow> fail ShareNotFound
                  | Some info \<Rightarrow>
                      bindE (map_err SharePresign
                               (obj_call (PresignedGetObject (hs_Objects s) (bi_ObjectKey info) (hs_PresignTTL s))))
                        (\<lambda>u. ret \<lparr>sf_Share = v, sf_DownloadURL = u, sf_FileName = bi_FileName info,
                           sf_ContentType = bi_ContentType info, sf_FileSize = bi_FileSize info,
                           sf_FileSizePlain = bi_FileSizePlain info, sf_ChunkSize = bi_ChunkSize info\<rparr>)) w2
        = (Inr res, w')"
    using k q(3) unfolding v option.case by (simp only: acc option.case) (rule bindE_InrE, assumption, rule that)
  from g2 have "GetBlobInfo_pg (sh_BlobID v) w1 = (Inr r2, w2)" by (rule map_err_InrE)
  note q2 = query_ok(1) [OF this [unfolded GetBlobInfo_pg_def]]
  obtain info where info: "r2 = Some info" using k2 by (cases r2) (auto simp: fail_def)
  with q2 q(2) obtain b where "find (\<lambda>b. bl_ID b = sh_BlobID v \<and> bl_DeletedAt b = None) (stored_blobs (w_db w)) = Some b"
    and key: "bi_ObjectKey info = bl_ObjectKey b"
    by (cases "find (\<lambda>b. bl_ID b = sh_BlobID v \<and> bl_DeletedAt b = None) (stored_blobs (w_db w))") auto
  then have b: "b \<in> set (stored_blobs (w_db w))" "bl_ID b = sh_BlobID row" "bl_DeletedAt b = None"
    using share_viewD(2) [OF row(2)] by (auto dest: find_SomeD)
  obtain url w3 where "map_err SharePresign (obj_call (PresignedGetObject (hs_Objects s) (bl_ObjectKey b) (hs_PresignTTL s))) w2
      = (Inr url, w3)" and "sf_Share res = v" "sf_DownloadURL res = url"
    using k2 unfolding info option.case key by (rule bindE_InrE) (auto simp: ret_def intro: that)
  then show thesis
    by (intro that [OF row acc b]) (auto simp: map_err_def obj_call_def split: prod.splits sum.splits)
qed

end
