(* ===== verification/Favorites.thy ===== *)
theory Favorites
  imports Sharing
begin

text \<open>
  \<open>internal/repo/persistent/postgres/favorites.go\<close> and \<open>internal/usecase/favorites\<close>: the files and
  folders a user has marked. Shown here: the table is a set of marks, one per user and resource, and
  a listing returns exactly the marked resources the user can see.
\<close>

section \<open>The repository\<close>

text \<open>\<open>FavoriteBlob\<close> embeds \<open>entity.Blob\<close>.\<close>

record FavoriteBlob = Blob +
  fb_FolderName :: "string option"

text \<open>
  \<open>INSERT INTO favorites .. ON CONFLICT DO NOTHING\<close>: a mark that is there already (one of the two
  partial unique indexes) is left alone; otherwise the user and the resource must exist.
\<close>

definition same_mark :: "favorite \<Rightarrow> favorite \<Rightarrow> bool" where
  "same_mark v v' = (fv_user_id v' = fv_user_id v
     \<and> (fv_blob_id v \<noteq> None \<and> fv_blob_id v' = fv_blob_id v
        \<or> fv_folder_id v \<noteq> None \<and> fv_folder_id v' = fv_folder_id v))"

definition resource_exists :: "favorite \<Rightarrow> db \<Rightarrow> bool" where
  "resource_exists v d = ((case fv_blob_id v of None \<Rightarrow> True | Some b \<Rightarrow> b \<in> bl_ID ` set (stored_blobs d))
     \<and> folder_ref (fv_folder_id v) d)"

definition insert_favorite :: "favorite \<Rightarrow> unit stmt" where
  "insert_favorite v d =
     (if \<exists>v' \<in> set (favorites d). same_mark v v' then Inr ((), d)
      else if \<not> user_exists (fv_user_id v) d \<or> \<not> resource_exists v d then Inl ForeignKeyViolation
      else Inr ((), d\<lparr>favorites := favorites d @ [v]\<rparr>))"

definition AddBlobFavorite_pg :: "uuid \<Rightarrow> uuid \<Rightarrow> ('x world_scheme, pg_err, unit) eff" where
  "AddBlobFavorite_pg userID blobID =
     db_call (\<lambda>now. insert_favorite
       \<lparr>fv_user_id = userID, fv_blob_id = Some blobID, fv_folder_id = None, fv_created_at = now\<rparr>)"

definition RemoveBlobFavorite_pg :: "uuid \<Rightarrow> uuid \<Rightarrow> ('x world_scheme, pg_err, unit) eff" where
  "RemoveBlobFavorite_pg userID blobID =
     db_call (\<lambda>_ d. Inr ((), d\<lparr>favorites :=
       filter (\<lambda>v. \<not> (fv_user_id v = userID \<and> fv_blob_id v = Some blobID)) (favorites d)\<rparr>))"

definition AddFolderFavorite_pg :: "uuid \<Rightarrow> uuid \<Rightarrow> ('x world_scheme, pg_err, unit) eff" where
  "AddFolderFavorite_pg userID folderID =
     db_call (\<lambda>now. insert_favorite
       \<lparr>fv_user_id = userID, fv_blob_id = None, fv_folder_id = Some folderID, fv_created_at = now\<rparr>)"

definition RemoveFolderFavorite_pg :: "uuid \<Rightarrow> uuid \<Rightarrow> ('x world_scheme, pg_err, unit) eff" where
  "RemoveFolderFavorite_pg userID folderID =
     db_call (\<lambda>_ d. Inr ((), d\<lparr>favorites :=
       filter (\<lambda>v. \<not> (fv_user_id v = userID \<and> fv_folder_id v = Some folderID)) (favorites d)\<rparr>))"

text \<open>The scan leaves the owner and the upload and trash columns at their zero values.\<close>

definition favorite_blob :: "db \<Rightarrow> Blob \<Rightarrow> FavoriteBlob" where
  "favorite_blob d b =
     \<lparr>bl_ID = bl_ID b, bl_UserID = uuid_Nil, bl_FolderID = bl_FolderID b, bl_FileName = bl_FileName b,
      bl_ContentType = bl_ContentType b, bl_ObjectKey = bl_ObjectKey b, bl_FileSize = bl_FileSize b,
      bl_FileSizePlain = bl_FileSizePlain b, bl_ChunkSize = bl_ChunkSize b, bl_CreatedAt = bl_CreatedAt b,
      bl_UploadedAt = None, bl_EncryptedFileKey = bl_EncryptedFileKey b, bl_UploadID = [],
      bl_DeletedAt = None,
      fb_FolderName = (case bl_FolderID b of None \<Rightarrow> None
        | Some i \<Rightarrow> map_option fo_Name (find (\<lambda>f. fo_ID f = i \<and> fo_DeletedAt f = None) (folders d)))\<rparr>"

text \<open>The join goes from the user's marks, newest first, to the resources.\<close>

definition ListFavoriteBlobs_pg :: "uuid \<Rightarrow> ('x world_scheme, pg_err, FavoriteBlob list) eff" where
  "ListFavoriteBlobs_pg userID =
     query (\<lambda>_ d. concat (map
       (\<lambda>v. map (favorite_blob d)
          (filter (\<lambda>b. fv_blob_id v = Some (bl_ID b) \<and> bl_UserID b = userID \<and> is_visible b) (stored_blobs d)))
       (sort_key (\<lambda>v. - fv_created_at v) (filter (\<lambda>v. fv_user_id v = userID) (favorites d)))))"

definition ListFavoriteFolders_pg :: "uuid \<Rightarrow> ('x world_scheme, pg_err, Folder list) eff" where
  "ListFavoriteFolders_pg userID =
     query (\<lambda>_ d. concat (map
       (\<lambda>v. map (\<lambda>f. f\<lparr>fo_UserID := uuid_Nil, fo_DeletedAt := None\<rparr>)
          (filter (\<lambda>f. fv_folder_id v = Some (fo_ID f) \<and> fo_UserID f = userID \<and> fo_DeletedAt f = None) (folders d)))
       (sort_key (\<lambda>v. - fv_created_at v) (filter (\<lambda>v. fv_user_id v = userID) (favorites d)))))"

section \<open>The service\<close>

definition AddBlob :: "uuid \<Rightarrow> uuid \<Rightarrow> ('x world_scheme, pg_err, unit) eff" where
  "AddBlob userID blobID = AddBlobFavorite_pg userID blobID"

definition RemoveBlob :: "uuid \<Rightarrow> uuid \<Rightarrow> ('x world_scheme, pg_err, unit) eff" where
  "RemoveBlob userID blobID = RemoveBlobFavorite_pg userID blobID"

definition AddFolder :: "uuid \<Rightarrow> uuid \<Rightarrow> ('x world_scheme, pg_err, unit) eff" where
  "AddFolder userID folderID = AddFolderFavorite_pg userID folderID"

definition RemoveFolder :: "uuid \<Rightarrow> uuid \<Rightarrow> ('x world_scheme, pg_err, unit) eff" where
  "RemoveFolder userID folderID = RemoveFolderFavorite_pg userID folderID"

definition ListBlobs_fav :: "uuid \<Rightarrow> ('x world_scheme, pg_err, FavoriteBlob list) eff" where
  "ListBlobs_fav userID = ListFavoriteBlobs_pg userID"

definition ListFolders_fav :: "uuid \<Rightarrow> ('x world_scheme, pg_err, Folder list) eff" where
  "ListFolders_fav userID = ListFavoriteFolders_pg userID"

section \<open>A set of marks\<close>

datatype mark = BlobMark uuid | FolderMark uuid

definition marks :: "db \<Rightarrow> uuid \<Rightarrow> mark set" where
  "marks d u = {BlobMark b | b. \<exists>v \<in> set (favorites d). fv_user_id v = u \<and> fv_blob_id v = Some b}
     \<union> {FolderMark f | f. \<exists>v \<in> set (favorites d). fv_user_id v = u \<and> fv_folder_id v = Some f}"

lemma marks_iff [simp]:
  "BlobMark b \<in> marks d u \<longleftrightarrow> (\<exists>v \<in> set (favorites d). fv_user_id v = u \<and> fv_blob_id v = Some b)"
  "FolderMark f \<in> marks d u \<longleftrightarrow> (\<exists>v \<in> set (favorites d). fv_user_id v = u \<and> fv_folder_id v = Some f)"
  by (auto simp: marks_def)

lemma mark_set_eqI:
  "(\<And>b. BlobMark b \<in> A \<longleftrightarrow> BlobMark b \<in> B) \<Longrightarrow> (\<And>f. FolderMark f \<in> A \<longleftrightarrow> FolderMark f \<in> B) \<Longrightarrow> A = B"
proof (rule set_eqI)
  fix x assume "\<And>b. BlobMark b \<in> A \<longleftrightarrow> BlobMark b \<in> B" "\<And>f. FolderMark f \<in> A \<longleftrightarrow> FolderMark f \<in> B"
  then show "x \<in> A \<longleftrightarrow> x \<in> B" by (cases x) auto
qed

text \<open>A row of the table: the constraint \<open>favorites_one_resource\<close>, and its references.\<close>

definition favorite_ok :: "db \<Rightarrow> favorite \<Rightarrow> bool" where
  "favorite_ok d v \<longleftrightarrow> (fv_blob_id v = None) \<noteq> (fv_folder_id v = None)
     \<and> user_exists (fv_user_id v) d \<and> resource_exists v d"

definition favorites_ok :: "db \<Rightarrow> bool" where
  "favorites_ok d \<longleftrightarrow> distinct (map (\<lambda>v. (fv_user_id v, fv_blob_id v, fv_folder_id v)) (favorites d))
     \<and> (\<forall>v \<in> set (favorites d). favorite_ok d v)"

lemma favorite_ok_cong:
  "users d' = users d \<Longrightarrow> stored_blobs d' = stored_blobs d \<Longrightarrow> folders d' = folders d \<Longrightarrow>
     favorite_ok d' v = favorite_ok d v"
  by (simp add: favorite_ok_def resource_exists_def user_exists_def folder_ref_def folder_exists_def split: option.split)

lemma insert_favorite_ok:
  assumes "favorites_ok d" and "insert_favorite v d = Inr (x, d')" and "(fv_blob_id v = None) \<noteq> (fv_folder_id v = None)"
  shows "favorites_ok d'"
proof (cases "\<exists>v' \<in> set (favorites d). same_mark v v'")
  case True
  with assms show ?thesis by (simp add: insert_favorite_def)
next
  case False
  with assms(2) have d': "d' = d\<lparr>favorites := favorites d @ [v]\<rparr>" and "user_exists (fv_user_id v) d" "resource_exists v d"
    by (auto simp: insert_favorite_def split: if_splits)
  have ok: "favorite_ok d' v' = favorite_ok d v'" for v' by (rule favorite_ok_cong) (simp_all add: d')
  have "distinct (map (\<lambda>v. (fv_user_id v, fv_blob_id v, fv_folder_id v)) (favorites d'))"
    using assms(1,3) False by (auto simp: favorites_ok_def same_mark_def d' simp del: not_None_eq)
  moreover have "favorite_ok d v"
    using assms(3) \<open>user_exists (fv_user_id v) d\<close> \<open>resource_exists v d\<close> by (simp add: favorite_ok_def)
  then have "\<forall>v' \<in> set (favorites d'). favorite_ok d' v'"
    unfolding ok using assms(1) by (auto simp: favorites_ok_def d')
  ultimately show ?thesis by (simp add: favorites_ok_def)
qed

lemma remove_favorite_ok:
  assumes "favorites_ok d"
  shows "favorites_ok (d\<lparr>favorites := filter k (favorites d)\<rparr>)"
proof -
  have "favorite_ok (d\<lparr>favorites := filter k (favorites d)\<rparr>) v = favorite_ok d v" for v
    by (rule favorite_ok_cong) simp_all
  with assms show ?thesis by (auto simp: favorites_ok_def distinct_map_filter)
qed

lemmas favorite_defs = AddBlob_def RemoveBlob_def AddFolder_def RemoveFolder_def AddBlobFavorite_pg_def
  RemoveBlobFavorite_pg_def AddFolderFavorite_pg_def RemoveFolderFavorite_pg_def

section \<open>The operations on marks\<close>

lemma AddBlob_marks:
  assumes "w_faults w = []" and "user_exists u (w_db w)" and "b \<in> bl_ID ` set (stored_blobs (w_db w))"
  obtains w' where "AddBlob u b w = (Inr (), w')" and "marks (w_db w') = (marks (w_db w))(u := insert (BlobMark b) (marks (w_db w) u))"
proof (cases "BlobMark b \<in> marks (w_db w) u")
  case True
  then have "AddBlob u b w = (Inr (), w)"
    by (auto simp: favorite_defs db_call_nil [OF assms(1)] insert_favorite_def same_mark_def)
  then show thesis by (rule that) (metis True fun_upd_triv insert_absorb)
next
  case False
  let ?v = "\<lparr>fv_user_id = u, fv_blob_id = Some b, fv_folder_id = None, fv_created_at = w_now w\<rparr>"
  let ?d = "(w_db w)\<lparr>favorites := favorites (w_db w) @ [?v]\<rparr>"
  have "AddBlob u b w = (Inr (), w\<lparr>w_db := ?d\<rparr>)"
    using False assms(2,3)
    by (auto simp: favorite_defs db_call_nil [OF assms(1)] insert_favorite_def same_mark_def resource_exists_def folder_ref_def)
  then show thesis by (rule that) (intro ext mark_set_eqI, auto)
qed

lemma AddFolder_marks:
  assumes "w_faults w = []" and "user_exists u (w_db w)" and "folder_exists f (w_db w)"
  obtains w' where "AddFolder u f w = (Inr (), w')" and "marks (w_db w') = (marks (w_db w))(u := insert (FolderMark f) (marks (w_db w) u))"
proof (cases "FolderMark f \<in> marks (w_db w) u")
  case True
  then have "AddFolder u f w = (Inr (), w)"
    by (auto simp: favorite_defs db_call_nil [OF assms(1)] insert_favorite_def same_mark_def)
  then show thesis by (rule that) (metis True fun_upd_triv insert_absorb)
next
  case False
  let ?v = "\<lparr>fv_user_id = u, fv_blob_id = None, fv_folder_id = Some f, fv_created_at = w_now w\<rparr>"
  let ?d = "(w_db w)\<lparr>favorites := favorites (w_db w) @ [?v]\<rparr>"
  have "AddFolder u f w = (Inr (), w\<lparr>w_db := ?d\<rparr>)"
    using False assms(2,3)
    by (auto simp: favorite_defs db_call_nil [OF assms(1)] insert_favorite_def same_mark_def resource_exists_def folder_ref_def)
  then show thesis by (rule that) (intro ext mark_set_eqI, auto)
qed

text \<open>A row marks a file or a folder, so removing a mark of one leaves the marks of the other.\<close>

lemma remove_blob_mark:
  assumes "favorites_ok d"
  shows "marks (d\<lparr>favorites := filter (\<lambda>v. \<not> (fv_user_id v = u \<and> fv_blob_id v = Some b)) (favorites d)\<rparr>)
     = (marks d)(u := marks d u - {BlobMark b})"
  using assms by (intro ext mark_set_eqI) (force simp: favorites_ok_def favorite_ok_def)+

lemma remove_folder_mark:
  assumes "favorites_ok d"
  shows "marks (d\<lparr>favorites := filter (\<lambda>v. \<not> (fv_user_id v = u \<and> fv_folder_id v = Some f)) (favorites d)\<rparr>)
     = (marks d)(u := marks d u - {FolderMark f})"
  using assms by (intro ext mark_set_eqI) (force simp: favorites_ok_def favorite_ok_def)+

lemma distinct_join:
  assumes "\<And>v x. v \<in> set vs \<Longrightarrow> x \<in> set (g v) \<Longrightarrow> k v = Some (i x)" and "\<And>v. v \<in> set vs \<Longrightarrow> distinct (map i (g v))"
    and "distinct (map k (filter (\<lambda>v. k v \<noteq> None) vs))"
  shows "distinct (map i (concat (map g vs)))"
  using assms
proof (induction vs)
  case (Cons v vs)
  have "i x \<noteq> i y" if "x \<in> set (g v)" "v' \<in> set vs" "y \<in> set (g v')" for x y v'
  proof
    assume "i x = i y"
    with that Cons.prems(1) have "k v = k v'" "k v = Some (i x)" "k v' \<noteq> None" by (metis list.set_intros option.distinct(1))+
    with Cons.prems(3) that(2) show False by (auto simp: image_iff)
  qed
  with Cons show ?case by (fastforce split: if_splits)
qed simp

lemma distinct_map_coarser:
  assumes "distinct (map f xs)" and "\<And>x y. x \<in> set xs \<Longrightarrow> y \<in> set xs \<Longrightarrow> p x \<Longrightarrow> p y \<Longrightarrow> k x = k y \<Longrightarrow> f x = f y"
  shows "distinct (map k (filter p xs))"
  using assms
proof (induction xs)
  case (Cons x xs)
  have ne: "k y \<noteq> k x" if "p x" "y \<in> set xs" "p y" for y
  proof
    assume "k y = k x"
    with that Cons.prems(2) [of y x] have "f y = f x" by simp
    with that(2) have "f x \<in> f ` set xs" by (metis imageI)
    with Cons.prems(1) show False by simp
  qed
  have "distinct (map k (filter p xs))" by (rule Cons.IH) (use Cons.prems in simp_all)
  moreover have "k x \<notin> k ` set (filter p xs)" if "p x" using ne [OF that] by force
  ultimately show ?case by simp
qed simp

lemma favorites_ok_keys:
  assumes "favorites_ok d"
  shows "distinct (map fv_blob_id (filter (\<lambda>v. fv_user_id v = u \<and> fv_blob_id v \<noteq> None) (favorites d)))"
proof (rule distinct_map_coarser)
  show "distinct (map (\<lambda>v. (fv_user_id v, fv_blob_id v, fv_folder_id v)) (favorites d))"
    using assms by (simp add: favorites_ok_def)
  fix x y assume "x \<in> set (favorites d)" "y \<in> set (favorites d)" "fv_user_id x = u \<and> fv_blob_id x \<noteq> None"
    "fv_user_id y = u \<and> fv_blob_id y \<noteq> None" "fv_blob_id x = fv_blob_id y"
  moreover from this assms have "favorite_ok d x" "favorite_ok d y" by (simp_all add: favorites_ok_def)
  ultimately show "(fv_user_id x, fv_blob_id x, fv_folder_id x) = (fv_user_id y, fv_blob_id y, fv_folder_id y)"
    by (simp add: favorite_ok_def del: not_None_eq)
qed

lemma distinct_map_sort: "distinct (map f (sort_key g xs)) = distinct (map f xs)"
  by (simp add: distinct_map)

text \<open>
  C40. When no call fails and the rows exist, the favorites of a user are a set of marks. Adding and removing a favorite insert and delete one
  mark and change no other, repeating them changes nothing; the listing of files has each marked file that
  is the user's and visible, once.
\<close>

theorem favorites_refine_marks:
  assumes "w_faults w = []" and "favorites_ok (w_db w)" and "wf_db (w_now w) (w_db w)"
    and "user_exists u (w_db w)" and "b \<in> bl_ID ` set (stored_blobs (w_db w))" and "folder_exists f (w_db w)"
  shows "(\<exists>w'. AddBlob u b w = (Inr (), w') \<and> marks (w_db w') = (marks (w_db w))(u := insert (BlobMark b) (marks (w_db w) u)))
    \<and> (\<exists>w'. RemoveBlob u b w = (Inr (), w') \<and> marks (w_db w') = (marks (w_db w))(u := marks (w_db w) u - {BlobMark b}))
    \<and> (\<exists>w'. AddFolder u f w = (Inr (), w') \<and> marks (w_db w') = (marks (w_db w))(u := insert (FolderMark f) (marks (w_db w) u)))
    \<and> (\<exists>w'. RemoveFolder u f w = (Inr (), w') \<and> marks (w_db w') = (marks (w_db w))(u := marks (w_db w) u - {FolderMark f}))
    \<and> (\<exists>bs. ListBlobs_fav u w = (Inr bs, w) \<and> distinct (map bl_ID bs)
         \<and> set (map bl_ID bs) = {i. BlobMark i \<in> marks (w_db w) u
              \<and> (\<exists>r \<in> set (stored_blobs (w_db w)). bl_ID r = i \<and> bl_UserID r = u \<and> is_visible r)})"
proof (intro conjI)
  let ?d = "w_db w"
  let ?vs = "sort_key (\<lambda>v. - fv_created_at v) (filter (\<lambda>v. fv_user_id v = u) (favorites ?d))"
  let ?g = "\<lambda>v. map (favorite_blob ?d) (filter (\<lambda>b. fv_blob_id v = Some (bl_ID b) \<and> bl_UserID b = u \<and> is_visible b) (stored_blobs ?d))"
  have id: "bl_ID (favorite_blob ?d b) = bl_ID b" for b by (simp add: favorite_blob_def)
  show "\<exists>w'. AddBlob u b w = (Inr (), w') \<and> marks (w_db w') = (marks ?d)(u := insert (BlobMark b) (marks ?d u))"
    using AddBlob_marks [OF assms(1,4,5)] by metis
  show "\<exists>w'. AddFolder u f w = (Inr (), w') \<and> marks (w_db w') = (marks ?d)(u := insert (FolderMark f) (marks ?d u))"
    using AddFolder_marks [OF assms(1,4,6)] by metis
  show "\<exists>w'. RemoveBlob u b w = (Inr (), w') \<and> marks (w_db w') = (marks ?d)(u := marks ?d u - {BlobMark b})"
    and "\<exists>w'. RemoveFolder u f w = (Inr (), w') \<and> marks (w_db w') = (marks ?d)(u := marks ?d u - {FolderMark f})"
    using remove_blob_mark [OF assms(2), of u b] remove_folder_mark [OF assms(2), of u f]
    by (simp_all add: favorite_defs db_call_nil [OF assms(1)])
  have l: "ListBlobs_fav u w = (Inr (concat (map ?g ?vs)), w)"
    by (simp add: ListBlobs_fav_def ListFavoriteBlobs_pg_def query_nil [OF assms(1)])
  have "distinct (map bl_ID (concat (map ?g ?vs)))"
  proof (rule distinct_join [of _ _ fv_blob_id])
    show "distinct (map bl_ID (?g v))" for v
      using wf_dbD(3) [OF assms(3)] by (simp add: comp_def id distinct_map_filter)
    show "distinct (map fv_blob_id (filter (\<lambda>v. fv_blob_id v \<noteq> None) ?vs))"
      using favorites_ok_keys [OF assms(2), of u] by (simp add: filter_sort distinct_map_sort del: not_None_eq)
  qed (auto simp: id)
  with l show "\<exists>bs. ListBlobs_fav u w = (Inr bs, w) \<and> distinct (map bl_ID bs)
         \<and> set (map bl_ID bs) = {i. BlobMark i \<in> marks ?d u
              \<and> (\<exists>r \<in> set (stored_blobs ?d). bl_ID r = i \<and> bl_UserID r = u \<and> is_visible r)}"
    by (intro exI [of _ "concat (map ?g ?vs)"]) (force simp: id image_iff)
qed

end
