(* ===== verification/Links.thy ===== *)
theory Links
  imports Favorites
begin

text \<open>
  Files, shares and favorites together. Shares and favorites point at files and folders, which the
  storage service trashes, restores and deletes. The invariant \<open>linked\<close> says that the pointers stay
  right: it satisfies the interface \<open>cleaned_tables\<close> of the storage operations, because every
  statement on files and folders cascades to the rows that point at what it deletes.
\<close>

section \<open>The invariant\<close>

definition share_ok :: "db \<Rightarrow> FileShare \<Rightarrow> bool" where
  "share_ok d s \<longleftrightarrow> sh_OwnerID s \<noteq> sh_RecipientID s \<and> user_exists (sh_OwnerID s) d \<and> user_exists (sh_RecipientID s) d
     \<and> (\<exists>b \<in> set (stored_blobs d). bl_ID b = sh_BlobID s \<and> bl_UserID b = sh_OwnerID s)"

definition active_shares :: "FileShare list \<Rightarrow> FileShare list" where
  "active_shares t = filter (\<lambda>s. sh_RevokedAt s = None) t"

definition shares_ok :: "db \<Rightarrow> bool" where
  "shares_ok d \<longleftrightarrow> distinct (map sh_ID (file_shares d))
     \<and> distinct (map (\<lambda>s. (sh_BlobID s, sh_RecipientID s)) (active_shares (file_shares d)))
     \<and> (\<forall>s \<in> set (file_shares d). share_ok d s)"

text \<open>\<open>Q\<close> is any further property of the shares.\<close>

definition linked :: "(FileShare \<Rightarrow> bool) \<Rightarrow> time \<Rightarrow> db \<Rightarrow> bool" where
  "linked Q now d \<longleftrightarrow> wf_db now d \<and> shares_ok d \<and> favorites_ok d \<and> (\<forall>s \<in> set (file_shares d). Q s)"

text \<open>The tables behind authentication, and the invariant with a given content of them.\<close>

definition accounts ::
  "db \<Rightarrow> user_row list \<times> device_session list \<times> refresh_session list \<times> PasswordResetToken list \<times> AuditEvent list" where
  [simp]: "accounts d = (users d, device_sessions d, refresh_sessions d, password_reset_tokens d, audit_log d)"

definition linked_as where
  "linked_as Q A now d \<longleftrightarrow> linked Q now d \<and> accounts d = A"

section \<open>Cascading\<close>

text \<open>
  Rows that point at files and folders only go away, and what a remaining row points at is still
  there, with the same owner. The accounts are left alone.
\<close>

definition cascade :: "db \<Rightarrow> db \<Rightarrow> bool" where
  "cascade d d' \<longleftrightarrow> accounts d' = accounts d
     \<and> (\<exists>k. file_shares d' = filter k (file_shares d)) \<and> (\<exists>k. favorites d' = filter k (favorites d))
     \<and> (\<forall>s \<in> set (file_shares d'). \<forall>b \<in> set (stored_blobs d). bl_ID b = sh_BlobID s \<longrightarrow>
          (\<exists>b' \<in> set (stored_blobs d'). bl_ID b' = bl_ID b \<and> bl_UserID b' = bl_UserID b))
     \<and> (\<forall>v \<in> set (favorites d'). \<forall>i \<in> bl_ID ` set (stored_blobs d). fv_blob_id v = Some i \<longrightarrow> i \<in> bl_ID ` set (stored_blobs d'))
     \<and> (\<forall>v \<in> set (favorites d'). \<forall>i \<in> fo_ID ` set (folders d). fv_folder_id v = Some i \<longrightarrow> i \<in> fo_ID ` set (folders d'))"

lemma cascadeI:
  assumes "accounts d' = accounts d" and "file_shares d' = filter k (file_shares d)" and "favorites d' = filter k' (favorites d)"
    and "\<And>s b. s \<in> set (file_shares d') \<Longrightarrow> b \<in> set (stored_blobs d) \<Longrightarrow> bl_ID b = sh_BlobID s \<Longrightarrow>
          \<exists>b' \<in> set (stored_blobs d'). bl_ID b' = bl_ID b \<and> bl_UserID b' = bl_UserID b"
    and "\<And>v b. v \<in> set (favorites d') \<Longrightarrow> b \<in> set (stored_blobs d) \<Longrightarrow> fv_blob_id v = Some (bl_ID b) \<Longrightarrow>
          bl_ID b \<in> bl_ID ` set (stored_blobs d')"
    and "\<And>v f. v \<in> set (favorites d') \<Longrightarrow> f \<in> set (folders d) \<Longrightarrow> fv_folder_id v = Some (fo_ID f) \<Longrightarrow>
          fo_ID f \<in> fo_ID ` set (folders d')"
  shows "cascade d d'"
  unfolding cascade_def using assms by (intro conjI) auto

text \<open>The same when no file goes away.\<close>

lemma cascade_filesI:
  assumes "accounts d' = accounts d" and "file_shares d' = filter k (file_shares d)" and "favorites d' = filter k' (favorites d)"
    and "\<And>b. b \<in> set (stored_blobs d) \<Longrightarrow> \<exists>b' \<in> set (stored_blobs d'). bl_ID b' = bl_ID b \<and> bl_UserID b' = bl_UserID b"
    and "\<And>v f. v \<in> set (favorites d') \<Longrightarrow> f \<in> set (folders d) \<Longrightarrow> fv_folder_id v = Some (fo_ID f) \<Longrightarrow>
          fo_ID f \<in> fo_ID ` set (folders d')"
  shows "cascade d d'"
proof (rule cascadeI [OF assms(1-3) _ _ assms(5)])
  show "bl_ID b \<in> bl_ID ` set (stored_blobs d')" if "b \<in> set (stored_blobs d)" for b
    using assms(4) [OF that] by (metis imageI)
qed (rule assms(4))

lemma cascade_shares: "cascade d d' \<Longrightarrow> set (file_shares d') \<subseteq> set (file_shares d)"
  by (auto simp: cascade_def)

lemma cascade_refl: "cascade d d"
  by (rule cascadeI [where k = "\<lambda>_. True" and k' = "\<lambda>_. True"]) auto

lemma filter_trans: "\<exists>k. ys = filter k xs \<Longrightarrow> \<exists>k. zs = filter k ys \<Longrightarrow> \<exists>k. zs = filter k xs"
  by (auto simp: filter_filter)

lemma cascade_trans:
  assumes "cascade d d1" and "cascade d1 d2"
  shows "cascade d d2"
  unfolding cascade_def
proof (intro conjI ballI impI)
  fix s b assume s: "s \<in> set (file_shares d2)" and b: "b \<in> set (stored_blobs d)" "bl_ID b = sh_BlobID s"
  have "s \<in> set (file_shares d1)" using cascade_shares [OF assms(2)] s by blast
  then obtain b1 where "b1 \<in> set (stored_blobs d1)" "bl_ID b1 = bl_ID b" "bl_UserID b1 = bl_UserID b"
    using assms(1) b unfolding cascade_def by blast
  with assms(2) s b(2) show "\<exists>b' \<in> set (stored_blobs d2). bl_ID b' = bl_ID b \<and> bl_UserID b' = bl_UserID b"
    unfolding cascade_def by metis
next
  fix v i assume v: "v \<in> set (favorites d2)"
  then have "v \<in> set (favorites d1)" using assms(2) by (auto simp: cascade_def)
  with v assms show "i \<in> bl_ID ` set (stored_blobs d) \<Longrightarrow> fv_blob_id v = Some i \<Longrightarrow> i \<in> bl_ID ` set (stored_blobs d2)"
    and "i \<in> fo_ID ` set (folders d) \<Longrightarrow> fv_folder_id v = Some i \<Longrightarrow> i \<in> fo_ID ` set (folders d2)"
    unfolding cascade_def by metis+
next
  show "accounts d2 = accounts d" using assms by (simp add: cascade_def)
  show "\<exists>k. file_shares d2 = filter k (file_shares d)" "\<exists>k. favorites d2 = filter k (favorites d)"
    using assms filter_trans unfolding cascade_def by metis+
qed

lemma distinct_map_filter_sub: "distinct (map f (filter p xs)) \<Longrightarrow> distinct (map f (filter p (filter k xs)))"
  by (induction xs) auto

lemma cascade_linked:
  assumes "cascade d d'" and "linked Q now d" and "wf_db now d'"
  shows "linked Q now d'"
proof -
  obtain k k' where k: "file_shares d' = filter k (file_shares d)" "favorites d' = filter k' (favorites d)"
    using assms(1) by (auto simp: cascade_def)
  have u: "user_exists x d' = user_exists x d" for x using assms(1) by (simp add: cascade_def user_exists_def)
  have "share_ok d' s" if s: "s \<in> set (file_shares d')" for s
  proof -
    have "share_ok d s" using assms(2) s k(1) by (auto simp: linked_def shares_ok_def)
    with assms(1) s show ?thesis unfolding share_ok_def cascade_def u by metis
  qed
  moreover have "distinct (map (\<lambda>s. (sh_BlobID s, sh_RecipientID s)) (active_shares (file_shares d')))"
    unfolding active_shares_def k
    by (rule distinct_map_filter_sub) (use assms(2) in \<open>simp add: linked_def shares_ok_def active_shares_def\<close>)
  ultimately have "shares_ok d'"
    using assms(2) by (simp add: linked_def shares_ok_def k(1) distinct_map_filter)
  moreover have "favorite_ok d' v" if v: "v \<in> set (favorites d')" for v
  proof -
    have "favorite_ok d v" using assms(2) v k(2) by (auto simp: linked_def favorites_ok_def)
    with assms(1) v show ?thesis
      unfolding favorite_ok_def resource_exists_def folder_ref_def folder_exists_def cascade_def u
      by (auto split: option.splits)
  qed
  then have "favorites_ok d'"
    using assms(2) by (auto simp: linked_def favorites_ok_def k distinct_map_filter)
  ultimately show ?thesis using assms k by (auto simp: linked_def)
qed

text \<open>The statements cascade.\<close>

definition cascades :: "'a stmt \<Rightarrow> bool" where
  "cascades m \<longleftrightarrow> (\<forall>d x d'. m d = Inr (x, d') \<longrightarrow> cascade d d')"

lemma cascadesI: "(\<And>d x d'. m d = Inr (x, d') \<Longrightarrow> cascade d d') \<Longrightarrow> cascades m"
  by (simp add: cascades_def)

lemma cascadesD: "cascades m \<Longrightarrow> m d = Inr (x, d') \<Longrightarrow> cascade d d'"
  by (simp add: cascades_def)

named_theorems cascade_rules

lemma cascades_ret [cascade_rules]: "cascades (stmt_ret x)"
  by (simp add: cascades_def cascade_refl)

lemma cascades_read [cascade_rules]: "cascades (stmt_read q)"
  by (simp add: cascades_def cascade_refl)

lemma cascades_bind [cascade_rules]: "cascades m \<Longrightarrow> (\<And>x. cascades (k x)) \<Longrightarrow> cascades (stmt_bind m k)"
  by (rule cascadesI, elim stmt_bind_InrE) (blast intro: cascade_trans dest: cascadesD)

lemma cascades_if [cascade_rules]: "cascades m \<Longrightarrow> cascades n \<Longrightarrow> cascades (if c then m else n)"
  by simp

lemma cascades_option [cascade_rules]:
  "cascades m \<Longrightarrow> (\<And>x. cascades (n x)) \<Longrightarrow> cascades (case r of None \<Rightarrow> m | Some x \<Rightarrow> n x)"
  by (cases r) auto

lemma cascades_prod [cascade_rules]: "(\<And>x y. cascades (m x y)) \<Longrightarrow> cascades (case r of (x, y) \<Rightarrow> m x y)"
  by (cases r) auto

lemma cascades_subtree [cascade_rules]: "cascades (subtree_ids p st)"
  by (rule cascadesI) (auto dest: subtree_idsD intro: cascade_refl)

lemma cascade_blobs:
  assumes "\<And>b. bl_ID (g b) = bl_ID b \<and> bl_UserID (g b) = bl_UserID b"
  shows "cascade d (d\<lparr>stored_blobs := map (\<lambda>b. if p b then g b else b) (stored_blobs d)\<rparr>)"
proof -
  let ?d = "d\<lparr>stored_blobs := map (\<lambda>b. if p b then g b else b) (stored_blobs d)\<rparr>"
  have b: "\<exists>b' \<in> set (stored_blobs ?d). bl_ID b' = bl_ID b \<and> bl_UserID b' = bl_UserID b" if "b \<in> set (stored_blobs d)" for b
    using that assms by (intro bexI [of _ "if p b then g b else b"]) auto
  show ?thesis
    by (rule cascade_filesI [where k = "\<lambda>_. True" and k' = "\<lambda>_. True"]) (erule b | simp)+
qed

lemma cascades_update_blobs [cascade_rules]:
  "(\<And>b. bl_ID (g b) = bl_ID b \<and> bl_UserID (g b) = bl_UserID b) \<Longrightarrow> cascades (update_blobs p g)"
  by (rule cascadesI) (auto dest!: update_blobsD intro!: cascade_blobs)

lemma cascades_update_folders [cascade_rules]:
  assumes "\<And>f. fo_ID (g f) = fo_ID f"
  shows "cascades (update_folders p g)"
proof (rule cascadesI)
  fix d n d' assume "update_folders p g d = Inr (n, d')"
  note d' = update_foldersD(1) [OF this]
  have "map fo_ID (folders d') = map fo_ID (folders d)" by (simp add: d' assms)
  then have "fo_ID ` set (folders d') = fo_ID ` set (folders d)" by (metis list.set_map)
  then show "cascade d d'"
    by (intro cascadeI [where k = "\<lambda>_. True" and k' = "\<lambda>_. True"]) (auto simp: d')
qed

lemma delete_blobs_cascade:
  assumes "delete_blobs p d = Inr (x, d')"
  shows "cascade d d'"
proof -
  let ?ids = "bl_ID ` set (filter p (stored_blobs d))"
  have d': "stored_blobs d' = filter (\<lambda>b. \<not> p b) (stored_blobs d)" "accounts d' = accounts d" "folders d' = folders d"
    "file_shares d' = filter (\<lambda>s. sh_BlobID s \<notin> ?ids) (file_shares d)"
    "favorites d' = filter (\<lambda>v. case fv_blob_id v of None \<Rightarrow> True | Some b \<Rightarrow> b \<notin> ?ids) (favorites d)"
    using assms by (auto simp: delete_blobs_def Let_def)
  have stays: "b \<in> set (stored_blobs d')" if "b \<in> set (stored_blobs d)" "bl_ID b \<notin> ?ids" for b
    using that by (auto simp: d')
  show ?thesis
    by (rule cascadeI [OF d'(2,4,5)])
      (use stays in \<open>auto simp: d'(3-5) split: option.splits intro!: bexI imageI\<close>)
qed

lemma delete_folders_cascade:
  assumes "delete_folders p d = Inr (x, d')"
  shows "cascade d d'"
proof -
  let ?ids = "fo_ID ` set (filter p (folders d))"
  let ?g = "\<lambda>b. case bl_FolderID b of None \<Rightarrow> b | Some i \<Rightarrow> if i \<in> ?ids then b\<lparr>bl_FolderID := None\<rparr> else b"
  have d': "d' = d\<lparr>folders := filter (\<lambda>f. \<not> p f) (folders d), stored_blobs := map ?g (stored_blobs d),
      favorites := filter (\<lambda>v. case fv_folder_id v of None \<Rightarrow> True | Some i \<Rightarrow> i \<notin> ?ids) (favorites d)\<rparr>"
    using assms by (auto simp: delete_folders_def Let_def split: if_splits)
  have g: "bl_ID (?g b) = bl_ID b" "bl_UserID (?g b) = bl_UserID b" for b by (auto split: option.splits)
  have b: "\<exists>b' \<in> set (stored_blobs d'). bl_ID b' = bl_ID b \<and> bl_UserID b' = bl_UserID b" if "b \<in> set (stored_blobs d)" for b
    using that g [of b] by (intro bexI [of _ "?g b"]) (simp_all add: d')
  show ?thesis
  proof (rule cascade_filesI [where k = "\<lambda>_. True" and k' = "\<lambda>v. case fv_folder_id v of None \<Rightarrow> True | Some i \<Rightarrow> i \<notin> ?ids"])
    show "fo_ID f \<in> fo_ID ` set (folders d')"
      if "v \<in> set (favorites d')" "f \<in> set (folders d)" "fv_folder_id v = Some (fo_ID f)" for v f
      using that by (auto simp: d')
  qed (erule b | simp add: d')+
qed

lemma cascades_remove_folders [cascade_rules]: "cascades (remove_folders_tx pb pf)"
  unfolding remove_folders_tx_def
  by (intro cascade_rules) (auto intro: cascadesI delete_blobs_cascade delete_folders_cascade)

lemma cascades_folder_tx:
  "cascades (TrashFolder_tx i u now)" "cascades (RestoreFolder_tx i u)" "cascades (HardDeleteFolder_tx i u)"
  "cascades (EmptyTrashedFolders_tx u)" "cascades (PurgeExpiredFolders_tx before)"
  unfolding TrashFolder_tx_def RestoreFolder_tx_def HardDeleteFolder_tx_def EmptyTrashedFolders_tx_def PurgeExpiredFolders_tx_def
  by (intro cascade_rules; simp)+

lemma cascade_insert_blob: "insert_blob b d = Inr (x, d') \<Longrightarrow> cascade d d'"
  by (rule cascadeI [where k = "\<lambda>_. True" and k' = "\<lambda>_. True"]) (auto simp: insert_blob_def split: if_splits)

lemma cascade_insert_folder: "insert_folder f d = Inr (x, d') \<Longrightarrow> cascade d d'"
  by (rule cascadeI [where k = "\<lambda>_. True" and k' = "\<lambda>_. True"]) (auto simp: insert_folder_def split: if_splits)

lemmas cascading = delete_blobs_cascade cascade_insert_blob cascade_insert_folder cascadesD [OF cascades_folder_tx(1)]
  cascadesD [OF cascades_folder_tx(2)] cascadesD [OF cascades_folder_tx(3)] cascadesD [OF cascades_folder_tx(4)]
  cascadesD [OF cascades_folder_tx(5)]

lemma linked_wf: "linked_as Q A now d \<Longrightarrow> wf_db now d"
  by (simp add: linked_as_def linked_def)

lemma cascade_linked_as: "cascade d d' \<Longrightarrow> linked_as Q A now d \<Longrightarrow> wf_db now d' \<Longrightarrow> linked_as Q A now d'"
  by (auto simp: linked_as_def intro: cascade_linked) (auto simp: cascade_def)

lemma linked_by: "linked_as Q A now d \<Longrightarrow> cascade d d' \<Longrightarrow> (wf_db now d \<Longrightarrow> wf_db now d') \<Longrightarrow> linked_as Q A now d'"
  by (rule cascade_linked_as) (simp_all add: linked_wf)

text \<open>The invariant meets the interface of the storage operations, for every user.\<close>

interpretation links: cleaned_tables "linked_as Q A" "\<lambda>_. True" for Q A
proof unfold_locales
  fix now d u d' p g
  assume i: "linked_as Q A now d" and d': "d' = d\<lparr>stored_blobs := map (\<lambda>b. if p b then g b else b) (stored_blobs d)\<rparr>"
    and g: "\<And>b. bl_ID (g b) = bl_ID b \<and> bl_ObjectKey (g b) = bl_ObjectKey b \<and> bl_UserID (g b) = bl_UserID b"
    and ok: "\<And>b. b \<in> set (stored_blobs d) \<Longrightarrow> p b \<Longrightarrow> blob_ok now (folders d) b \<Longrightarrow> blob_ok now (folders d) (g b)"
  have "wf_db now d'" using linked_wf [OF i] wf_update_blobs [OF _ d' g ok] by simp
  with cascade_blobs [of g d p] g i show "linked_as Q A now d'" by (intro cascade_linked_as [of d d']) (simp_all add: d')
next
  fix now d u pf h n d'
  assume i: "linked_as Q A now d" and up: "update_folders pf h d = Inr (n, d')"
    and h: "\<And>f. fo_ID (h f) = fo_ID f \<and> fo_UserID (h f) = fo_UserID f \<and> fo_DeletedAt (h f) = fo_DeletedAt f"
    and ok: "\<And>f. f \<in> set (folders d) \<Longrightarrow> pf f \<Longrightarrow> ref_ok (folders d) (fo_ParentID (h f)) (fo_UserID f) (fo_DeletedAt f)"
  have "wf_db now d'" using linked_wf [OF i] wf_update_folders [OF _ up h ok] by simp
  with cascadesD [OF cascades_update_folders up] h i show "linked_as Q A now d'" by (intro cascade_linked_as [of d d']) simp_all
qed (erule linked_wf | (erule linked_by, blast intro: cascading, blast intro: wf_delete_blobs wf_insert_blob wf_insert_folder
    wf_TrashFolder wf_RestoreFolder wf_HardDeleteFolder wf_EmptyTrashedFolders wf_PurgeExpiredFolders))+

lemma keeps_linked:
  fixes m :: "('x world_scheme, 'e, 'a) eff"
  assumes "\<And>A. keeps (on_db (linked_as Q A)) m"
  shows "keeps (on_db (linked Q)) m"
proof (rule keepsI)
  fix w :: "'x world_scheme" assume "on_db (linked Q) w"
  then have "on_db (linked_as Q (accounts (w_db w))) w" by (simp add: on_db_def linked_as_def)
  from keeps_snd [OF assms this] show "on_db (linked Q) (snd (m w))" by (simp add: on_db_def linked_as_def)
qed

end
