(* ===== verification/Sharing_Properties.thy ===== *)
theory Sharing_Properties
  imports Links
begin

text \<open>
  Files, shares and favorites as one state machine, with the interleavings of the three services:
  the pointers stay right in every reachable world, a download needs a share that is addressed to
  the caller, not revoked and not expired, and a revocation is final.
\<close>

section \<open>The sharing operations\<close>

lemma keeps_GetPublicKeyByEmail [keeps_rules]: "keeps (on_db I) (GetPublicKeyByEmail_pg email)"
  unfolding GetPublicKeyByEmail_pg_def by (intro keeps_rules)

text \<open>An insert of a share of the owner's file.\<close>

lemma insert_share_linked:
  assumes "linked Q now d" and "insert_share s d = Inr (x, d')" and "Q s" and "sh_OwnerID s \<noteq> sh_RecipientID s"
    and "b \<in> set (stored_blobs d)" "bl_ID b = sh_BlobID s" "bl_UserID b = sh_OwnerID s"
  shows "linked Q now d'"
proof -
  have d': "d' = d\<lparr>file_shares := file_shares d @ [s]\<rparr>" and u: "user_exists (sh_OwnerID s) d" "user_exists (sh_RecipientID s) d"
    and new: "sh_ID s \<notin> sh_ID ` set (file_shares d)"
      "sh_RevokedAt s = None \<Longrightarrow> (sh_BlobID s, sh_RecipientID s) \<notin> (\<lambda>s. (sh_BlobID s, sh_RecipientID s)) ` set (active_shares (file_shares d))"
    using assms(2) by (auto simp: insert_share_def active_shares_def split: if_splits)
  have ok: "share_ok d' s' = share_ok d s'" for s' by (simp add: share_ok_def d' user_exists_def)
  have fav: "favorite_ok d' v = favorite_ok d v" for v by (rule favorite_ok_cong) (simp_all add: d')
  have "share_ok d s" using assms(4-7) u by (auto simp: share_ok_def)
  then have "\<forall>s' \<in> set (file_shares d'). share_ok d' s'" and "\<forall>s' \<in> set (file_shares d'). Q s'"
    unfolding ok using assms(1,3) by (auto simp: linked_def shares_ok_def d')
  moreover have "distinct (map sh_ID (file_shares d'))"
    and "distinct (map (\<lambda>s. (sh_BlobID s, sh_RecipientID s)) (active_shares (file_shares d')))"
    using assms(1) new by (auto simp: linked_def shares_ok_def d' active_shares_def)
  moreover have "favorites_ok d'" using assms(1) unfolding linked_def favorites_ok_def fav by (simp add: d')
  moreover have "wf_db now d'" using assms(1) by (simp add: linked_def wf_db_def d')
  ultimately show ?thesis by (simp add: linked_def shares_ok_def)
qed

definition owns :: "uuid \<Rightarrow> uuid \<Rightarrow> db \<Rightarrow> bool" where
  "owns u i d \<longleftrightarrow> (\<exists>b \<in> set (stored_blobs d). bl_ID b = i \<and> bl_UserID b = u)"

text \<open>
  What the service inserts: a share of a file its owner has, with somebody else. A predicate that
  survives this insert survives the operation.
\<close>

abbreviation shared_with :: "CreateShareParams \<Rightarrow> uuid \<Rightarrow> CreateShareParams" where
  "shared_with p r \<equiv> \<lparr>cp_BlobID = cp_BlobID p, cp_OwnerID = cp_OwnerID p, cp_RecipientEmail = [], cp_RecipientID = r,
     cp_EphemeralPub = cp_EphemeralPub p, cp_WrappedFileKey = cp_WrappedFileKey p, cp_ExpiresAt = cp_ExpiresAt p\<rparr>"

lemma CreateShare_keeps_by:
  assumes ins: "\<And>now d r x d'. I now d \<Longrightarrow> owns (cp_OwnerID p) (cp_BlobID p) d \<Longrightarrow> r \<noteq> cp_OwnerID p \<Longrightarrow>
      insert_share (share_row newID now (shared_with p r)) d = Inr (x, d') \<Longrightarrow> I now d'"
  shows "keeps (on_db I) (CreateShare h newID p)"
  unfolding CreateShare_def
proof (rule triple_bindE)
  let ?J = "\<lambda>r. on_db (\<lambda>now d. I now d \<and> (\<forall>info. r = Some info \<longrightarrow> owns (bi_OwnerID info) (cp_BlobID p) d))"
  let ?I = "\<lambda>now d. I now d \<and> owns (cp_OwnerID p) (cp_BlobID p) d"
  let ?k = "\<lambda>(_, recipientID). if recipientID = cp_OwnerID p then fail ErrSelfShare
      else bindE (CreateShare_pg newID (shared_with p recipientID)) (\<lambda>share. ret (share, share_notice share))"
  show "triple (on_db I) (map_err ShareDb (GetBlobInfo_pg (cp_BlobID p))) ?J (\<lambda>_. on_db I)"
    unfolding GetBlobInfo_pg_def
    by (rule triple_map_err, rule triple_weaken [OF triple_query])
      (auto simp: on_db_def owns_def dest!: find_SomeD)
  have pg: "triple (on_db ?I) (CreateShare_pg newID (shared_with p r)) (\<lambda>_. on_db I) (\<lambda>_. on_db I)"
    if "r \<noteq> cp_OwnerID p" for r
    unfolding CreateShare_pg_def
  proof (rule triple_bindE, rule triple_map_err, rule triple_db_call)
    fix now d x d'
    assume J: "?I now d" and "stmt_bind (insert_share (share_row newID now (shared_with p r)))
        (\<lambda>_. stmt_read (\<lambda>d. share_view d (share_row newID now (shared_with p r)))) d = Inr (x, d')"
    then have "insert_share (share_row newID now (shared_with p r)) d = Inr ((), d')" by (auto elim!: stmt_bind_InrE)
    with J that show "I now d'" by (blast intro: ins)
  qed (auto intro: keeps_rules)
  have key: "triple (on_db ?I) (GetPublicKeyByEmail_pg e) (\<lambda>_. on_db ?I) (\<lambda>_. on_db I)" for e
    by (rule triple_weaken [OF keeps_GetPublicKeyByEmail [of ?I]]) (auto simp: on_db_def)
  have k: "triple (on_db ?I) (bindE (GetPublicKeyByEmail_pg e) ?k) (\<lambda>_. on_db I) (\<lambda>_. on_db I)" for e
    by (rule triple_bindE [OF key])
      (auto simp: on_db_def split: prod.splits intro!: triple_fail triple_bindE [OF pg keeps_ret])
  show "triple (?J r) (case r of None \<Rightarrow> fail ShareNotFound
        | Some info \<Rightarrow> if bi_OwnerID info \<noteq> cp_OwnerID p then fail ShareNotFound
            else bindE (GetPublicKeyByEmail_pg (share_email h (cp_RecipientEmail p))) ?k)
      (\<lambda>_. on_db I) (\<lambda>_. on_db I)" for r
  proof (cases r)
    case (Some info)
    then show ?thesis using k [of "share_email h (cp_RecipientEmail p)"]
      by (cases "bi_OwnerID info = cp_OwnerID p")
        (auto simp: on_db_def intro!: triple_fail elim!: triple_pre)
  qed (auto simp: on_db_def intro!: triple_fail)
qed

lemma CreateShare_keeps:
  assumes "\<And>now p. Q (share_row newID now p)"
  shows "keeps (on_db (linked Q)) (CreateShare h newID p)"
proof (rule CreateShare_keeps_by)
  fix now d r x d'
  assume l: "linked Q now d" and "owns (cp_OwnerID p) (cp_BlobID p) d" and "r \<noteq> cp_OwnerID p"
    and ins: "insert_share (share_row newID now (shared_with p r)) d = Inr (x, d')"
  then obtain b where "b \<in> set (stored_blobs d)" "bl_ID b = cp_BlobID p" "bl_UserID b = cp_OwnerID p" by (auto simp: owns_def)
  then show "linked Q now d'"
    by (intro insert_share_linked [where Q = Q, OF l ins assms]) (use \<open>r \<noteq> cp_OwnerID p\<close> in \<open>auto simp: share_row_def\<close>)
qed

lemma revoke_share_linked:
  assumes l: "linked Q now d" and "\<And>s t. Q s \<Longrightarrow> Q (s\<lparr>sh_RevokedAt := Some t\<rparr>)"
  shows "linked Q now (revoke_share i u now d)"
proof -
  let ?g = "\<lambda>s. if revokes i u s then s\<lparr>sh_RevokedAt := Some now\<rparr> else s"
  have t: "file_shares (revoke_share i u now d) = map ?g (file_shares d)" by (simp add: revoke_share_def)
  have ok: "share_ok (revoke_share i u now d) (?g s) = share_ok d s" for s
    by (simp add: share_ok_def revoke_share_def user_exists_def)
  have fav: "favorite_ok (revoke_share i u now d) v = favorite_ok d v" for v
    by (rule favorite_ok_cong) (simp_all add: revoke_share_def)
  have "distinct (map sh_ID (file_shares (revoke_share i u now d)))"
    using l by (simp add: t linked_def shares_ok_def comp_def if_distrib cong: if_cong)
  moreover have "distinct (map (\<lambda>s. (sh_BlobID s, sh_RecipientID s)) (active_shares (file_shares (revoke_share i u now d))))"
    unfolding active_shares_def t
    by (rule distinct_partial_update) (use l in \<open>auto simp: linked_def shares_ok_def active_shares_def split: if_splits\<close>)
  moreover have "\<forall>s \<in> set (file_shares (revoke_share i u now d)). share_ok (revoke_share i u now d) s"
    unfolding t set_map ball_simps ok using l by (simp add: linked_def shares_ok_def)
  moreover have "\<forall>s \<in> set (file_shares (revoke_share i u now d)). Q s"
    unfolding t using l assms by (auto simp: linked_def)
  moreover have "favorites_ok (revoke_share i u now d)"
    using l unfolding linked_def favorites_ok_def fav by (simp add: revoke_share_def)
  moreover have "wf_db now (revoke_share i u now d)" using l by (simp add: linked_def wf_db_def revoke_share_def)
  ultimately show ?thesis by (simp add: linked_def shares_ok_def)
qed

lemma RevokeShare_keeps:
  assumes "\<And>s t. Q s \<Longrightarrow> Q (s\<lparr>sh_RevokedAt := Some t\<rparr>)"
  shows "keeps (on_db (linked Q)) (RevokeShare i u)"
  unfolding RevokeShare_def RevokeShare_pg_def
  by (intro keeps_rules keeps_db_call) (auto intro: revoke_share_linked [where Q = Q, OF _ assms])

lemma favorites_linked:
  "linked Q now d \<Longrightarrow> favorites_ok (d\<lparr>favorites := vs\<rparr>) \<Longrightarrow> linked Q now (d\<lparr>favorites := vs\<rparr>)"
  by (simp add: linked_def wf_db_def shares_ok_def share_ok_def user_exists_def)

lemma insert_favorite_linked:
  assumes l: "linked Q now d" and i: "insert_favorite v d = Inr (x, d')"
    and v: "(fv_blob_id v = None) \<noteq> (fv_folder_id v = None)"
  shows "linked Q now d'"
proof -
  have "favorites_ok d'" using insert_favorite_ok [OF _ i v] l by (simp add: linked_def)
  moreover obtain vs where "d' = d\<lparr>favorites := vs\<rparr>"
  proof (cases "d' = d")
    case True
    then show thesis by (intro that [of "favorites d"]) simp
  qed (use i in \<open>auto simp: insert_favorite_def split: if_splits intro: that\<close>)
  ultimately show ?thesis using favorites_linked [OF l] by simp
qed

lemma remove_favorite_linked: "linked Q now d \<Longrightarrow> linked Q now (d\<lparr>favorites := filter k (favorites d)\<rparr>)"
  by (rule favorites_linked) (auto intro: remove_favorite_ok simp: linked_def)

lemma favorite_ops_keep:
  "keeps (on_db (linked Q)) (AddBlob u b)" "keeps (on_db (linked Q)) (RemoveBlob u b)"
  "keeps (on_db (linked Q)) (AddFolder u f)" "keeps (on_db (linked Q)) (RemoveFolder u f)"
  unfolding favorite_defs
  by (rule keeps_db_call; auto elim: insert_favorite_linked intro: remove_favorite_linked)+

section \<open>The state machine\<close>

text \<open>
  Steps of the storage service (with the passing of time and uploads), of the sharing service and of
  the favorites, in any order. \<open>N\<close> is the set of identifiers PostgreSQL draws for new shares.
\<close>

inductive linked_step ::
  "'o Service \<Rightarrow> 'o SharingService \<Rightarrow> (uuid \<Rightarrow> string) \<Rightarrow> uuid set \<Rightarrow> 'o sworld \<Rightarrow> 'o sworld \<Rightarrow> bool"
  for s h us N where
  store: "storage_step s us w w' \<Longrightarrow> linked_step s h us N w w'"
| share: "i \<in> N \<Longrightarrow> linked_step s h us N w (snd (CreateShare h i p w))"
| revoke: "linked_step s h us N w (snd (RevokeShare i u w))"
| add_blob: "linked_step s h us N w (snd (AddBlob u b w))"
| remove_blob: "linked_step s h us N w (snd (RemoveBlob u b w))"
| add_folder: "linked_step s h us N w (snd (AddFolder u f w))"
| remove_folder: "linked_step s h us N w (snd (RemoveFolder u f w))"

lemma storage_step_linked: "storage_step s us w w' \<Longrightarrow> on_db (linked Q) w \<Longrightarrow> on_db (linked Q) w'"
proof (induction rule: storage_step.induct)
  case (op w x)
  have "keeps (on_db (linked Q)) (run_op s us x)"
    by (rule keeps_linked) (cases "op_user x"; simp add: links.clean_op_keeps links.user_op_keeps)
  then show ?case using op by (rule keeps_snd)
next
  case (tick w t fs)
  then show ?case by (auto simp: on_db_def linked_def intro: wf_db_mono)
next
  case (upload w x)
  then show ?case by (simp add: on_db_def)
qed

lemma linked_step_keeps:
  assumes "linked_step s h us N w w'" and "on_db (linked Q) w"
    and "\<And>i now p. i \<in> N \<Longrightarrow> Q (share_row i now p)" and "\<And>s t. Q s \<Longrightarrow> Q (s\<lparr>sh_RevokedAt := Some t\<rparr>)"
  shows "on_db (linked Q) w'"
  using assms(1,2)
proof cases
  case store
  then show ?thesis using assms(2) by (rule storage_step_linked)
next
  case (share i p)
  then show ?thesis using assms(2,3) by (auto intro!: keeps_snd [OF CreateShare_keeps [where Q = Q]])
next
  case (revoke i u)
  then show ?thesis using assms(2,4) by (auto intro!: keeps_snd [OF RevokeShare_keeps [where Q = Q]])
qed (auto intro!: keeps_snd [OF favorite_ops_keep(1)] keeps_snd [OF favorite_ops_keep(2)]
    keeps_snd [OF favorite_ops_keep(3)] keeps_snd [OF favorite_ops_keep(4)])

lemma linked_steps_keep:
  assumes "(linked_step s h us N)\<^sup>*\<^sup>* w w'" and "on_db (linked Q) w"
    and "\<And>i now p. i \<in> N \<Longrightarrow> Q (share_row i now p)" and "\<And>s t. Q s \<Longrightarrow> Q (s\<lparr>sh_RevokedAt := Some t\<rparr>)"
  shows "on_db (linked Q) w'"
  using assms(1,2) by (induction rule: rtranclp_induct) (auto intro: linked_step_keeps [OF _ _ assms(3,4)])

text \<open>
  Files, shares and favorites stay consistent. From empty tables, after any interleaving of
  operations of the storage, sharing and favorites services, with any faults: the sharer of a file
  is its owner and not the recipient, there is at most one share that is not revoked per file and
  recipient, no share or favorite points at a file or folder that is gone, and a resource is marked
  at most once per user.
\<close>

lemma linked_reachable:
  assumes "folders (w_db w) = []" and "stored_blobs (w_db w) = []" and "file_shares (w_db w) = []"
    and "favorites (w_db w) = []" and "(linked_step s h us N)\<^sup>*\<^sup>* w w'"
  shows "wf_db (w_now w') (w_db w') \<and> shares_ok (w_db w') \<and> favorites_ok (w_db w')"
proof -
  have "on_db (linked (\<lambda>_. True)) w"
    using assms(1-4) by (simp add: on_db_def linked_def wf_db_empty shares_ok_def active_shares_def favorites_ok_def)
  from linked_steps_keep [OF assms(5) this] show ?thesis by (simp add: on_db_def linked_def)
qed

section \<open>Access\<close>

lemma validateShareAccess_None:
  "validateShareAccess v u now = None \<longleftrightarrow>
     sh_RecipientID v = u \<and> sh_RevokedAt v = None \<and> (\<forall>e. sh_ExpiresAt v = Some e \<longrightarrow> now \<le> e)"
  by (auto simp: validateShareAccess_def split: option.splits)

text \<open>
  C15. A download through a share was authorised: the share is addressed to the caller, it is not
  revoked and not expired, the sharer owns the file, the file is not in the trash, and the link that
  is returned was signed for the object of that file.
\<close>

theorem GetSharedFile_authorised:
  assumes "shares_ok (w_db w)" and "distinct (map bl_ID (stored_blobs (w_db w)))"
    and "GetSharedFile h i u w = (Inr res, w')"
  shows "\<exists>row \<in> set (file_shares (w_db w)). \<exists>b \<in> set (stored_blobs (w_db w)).
      sh_ID row = i \<and> sh_RecipientID row = u \<and> sh_RevokedAt row = None
    \<and> (\<forall>e. sh_ExpiresAt row = Some e \<longrightarrow> w_now w \<le> e)
    \<and> bl_ID b = sh_BlobID row \<and> bl_UserID b = sh_OwnerID row \<and> bl_DeletedAt b = None
    \<and> sh_WrappedFileKey (sf_Share res) = sh_WrappedFileKey row
    \<and> (\<exists>o1 o2. PresignedGetObject (hs_Objects h) (bl_ObjectKey b) (hs_PresignTTL h) o1 = (Inr (sf_DownloadURL res), o2))"
  using assms(3)
proof (rule GetSharedFile_InrE)
  fix row v b
  assume row: "find (\<lambda>s. sh_ID s = i) (file_shares (w_db w)) = Some row"
    and v: "share_view (w_db w) row = Some v" "validateShareAccess v u (w_now w) = None"
    and b: "b \<in> set (stored_blobs (w_db w))" "bl_ID b = sh_BlobID row" "bl_DeletedAt b = None"
    and res: "sf_Share res = v"
      "\<exists>o1 o2. PresignedGetObject (hs_Objects h) (bl_ObjectKey b) (hs_PresignTTL h) o1 = (Inr (sf_DownloadURL res), o2)"
  have r: "row \<in> set (file_shares (w_db w))" "sh_ID row = i" using find_SomeD [OF row] by simp_all
  then obtain b' where "b' \<in> set (stored_blobs (w_db w))" "bl_ID b' = sh_BlobID row" "bl_UserID b' = sh_OwnerID row"
    using assms(1) by (auto simp: shares_ok_def share_ok_def)
  moreover from this b have "b' = b" by (intro distinct_map_eqD [OF assms(2)]) simp_all
  ultimately have "bl_UserID b = sh_OwnerID row" by simp
  with r b res v(2) share_viewD [OF v(1)] show ?thesis
    by (intro bexI [of _ row] bexI [of _ b]) (simp_all add: validateShareAccess_None)
qed

text \<open>
  C8. A revocation is final. Once a share is revoked, nobody can download through it again, after any
  further operations of any users on storage, shares and favorites and whatever fails; a new share of the
  same file has another identifier.
\<close>

theorem revocation_final:
  assumes "linked (\<lambda>_. True) (w_now w) (w_db w)" and "RevokeShare i u w = (Inr (), w1)"
    and "(linked_step s h us N)\<^sup>*\<^sup>* w1 w2" and "i \<notin> N"
  shows "GetSharedFile h i v w2 \<noteq> (Inr res, w3)"
proof
  let ?Q = "\<lambda>s. sh_ID s = i \<longrightarrow> sh_RevokedAt s \<noteq> None"
  assume g: "GetSharedFile h i v w2 = (Inr res, w3)"
  obtain n where d: "map_err ShareDb (db_call (\<lambda>now d.
        Inr (length (filter (revokes i u) (file_shares d)), revoke_share i u now d))) w = (Inr n, w1)" and "n \<noteq> 0"
    using assms(2) unfolding RevokeShare_def RevokeShare_pg_def
    by (elim bindE_InrE) (auto simp: fail_def ret_def split: if_splits)
  from d have "db_call (\<lambda>now d. Inr (length (filter (revokes i u) (file_shares d)), revoke_share i u now d)) w = (Inr n, w1)"
    by (rule map_err_InrE)
  note c = db_call_ok [OF this]
  have db1: "w_db w1 = revoke_share i u (w_now w) (w_db w)" and n: "filter (revokes i u) (file_shares (w_db w)) \<noteq> []"
    using c(1) \<open>n \<noteq> 0\<close> by auto
  then obtain s0 where s0: "s0 \<in> set (file_shares (w_db w))" "revokes i u s0" by (auto simp: filter_empty_conv)
  have all: "revokes i u x" if "x \<in> set (file_shares (w_db w))" "sh_ID x = i" for x
  proof -
    have "x = s0"
      using distinct_map_eqD [of sh_ID "file_shares (w_db w)" x s0] assms(1) s0 that by (auto simp: linked_def shares_ok_def revokes_def)
    with s0 show ?thesis by simp
  qed
  have l1: "on_db (linked (\<lambda>_. True)) w1"
    using keeps_snd [OF RevokeShare_keeps [where Q = "\<lambda>_. True"], of w i u] assms(1,2) by (simp add: on_db_def)
  have "on_db (linked ?Q) w1"
    using l1 all by (auto simp: on_db_def linked_def db1 revoke_share_def)
  then have "on_db (linked ?Q) w2"
    by (rule linked_steps_keep [OF assms(3)]) (use assms(4) in \<open>auto simp: share_row_def\<close>)
  moreover obtain row v' where "find (\<lambda>s. sh_ID s = i) (file_shares (w_db w2)) = Some row" "share_view (w_db w2) row = Some v'"
    "validateShareAccess v' v (w_now w2) = None"
    using g by (rule GetSharedFile_InrE)
  ultimately show False
    by (auto simp: on_db_def linked_def validateShareAccess_None share_viewD dest!: find_SomeD)
qed

section \<open>Sharing a file\<close>

lemma GetPublicKeyByEmail_nil:
  assumes "w_faults w = []" and "distinct (map us_email (users (w_db w)))" and "r \<in> set (users (w_db w))"
    and "us_email r = email" and "us_public_key r = Some pub" and "pub \<noteq> []"
  shows "GetPublicKeyByEmail_pg email w = (Inr (pub, us_id r), w)"
proof -
  have "find (\<lambda>r. us_email r = email) (users (w_db w)) = Some r"
    using assms by (intro find_key_unique [of us_email]) auto
  then show ?thesis using assms(5,6) by (simp add: GetPublicKeyByEmail_pg_def bindE_def map_err_def query_nil [OF assms(1)] ret_def)
qed

lemma GetBlobInfo_nil:
  assumes "w_faults w = []" and "distinct (map bl_ID (stored_blobs (w_db w)))"
    and "b \<in> set (stored_blobs (w_db w))" and "bl_ID b = i" and "bl_DeletedAt b = None"
  shows "GetBlobInfo_pg i w = (Inr (Some \<lparr>bi_ObjectKey = bl_ObjectKey b, bi_FileName = bl_FileName b,
     bi_ContentType = bl_ContentType b, bi_FileSize = bl_FileSize b, bi_FileSizePlain = bl_FileSizePlain b,
     bi_ChunkSize = bl_ChunkSize b, bi_OwnerID = bl_UserID b\<rparr>), w)"
proof -
  have "find (\<lambda>b. bl_ID b = i \<and> bl_DeletedAt b = None) (stored_blobs (w_db w)) = Some b"
    using assms by (intro find_key_unique [of bl_ID]) auto
  then show ?thesis by (simp add: GetBlobInfo_pg_def query_nil [OF assms(1)])
qed

text \<open>A share of one's own file with somebody else who has a key comes down to the insert.\<close>

lemma CreateShare_nil:
  assumes "w_faults w = []" and "wf_db (w_now w) (w_db w)" and "distinct (map us_email (users (w_db w)))"
    and "b \<in> set (stored_blobs (w_db w))" and "bl_ID b = cp_BlobID p" and "bl_UserID b = cp_OwnerID p"
    and "bl_DeletedAt b = None"
    and "r \<in> set (users (w_db w))" and "us_email r = share_email h (cp_RecipientEmail p)"
    and "us_public_key r = Some pub" and "pub \<noteq> []" and "us_id r \<noteq> cp_OwnerID p"
  shows "CreateShare h newID p w = bindE (CreateShare_pg newID (p\<lparr>cp_RecipientEmail := [], cp_RecipientID := us_id r\<rparr>))
     (\<lambda>share. ret (share, share_notice share)) w"
  using GetBlobInfo_nil [OF assms(1) wf_dbD(3) [OF assms(2)] assms(4,5,7)]
    GetPublicKeyByEmail_nil [OF assms(1,3,8,9,10,11)] assms(6,12)
  by (cases p) (simp add: CreateShare_def bindE_def map_err_def)

text \<open>
  C39. A share that has expired still counts as the active share of its file and recipient: the
  recipient is told that it has expired, and the owner who shares the file again is told that a share
  exists, when no call fails.
\<close>

theorem expired_share_blocks_sharing:
  assumes "w_faults w = []" and "linked (\<lambda>_. True) (w_now w) (w_db w)" and "distinct (map us_email (users (w_db w)))"
    and "s0 \<in> set (file_shares (w_db w))" and "sh_RevokedAt s0 = None" and "sh_ExpiresAt s0 = Some e" and "e < w_now w"
    and "b \<in> set (stored_blobs (w_db w))" and "bl_ID b = sh_BlobID s0" and "bl_DeletedAt b = None"
    and "r \<in> set (users (w_db w))" and "us_id r = sh_RecipientID s0" and "us_email r = share_email h (cp_RecipientEmail p)"
    and "us_public_key r = Some pub" and "pub \<noteq> []"
    and "cp_BlobID p = sh_BlobID s0" and "cp_OwnerID p = sh_OwnerID s0"
  shows "GetSharedFile h (sh_ID s0) (sh_RecipientID s0) w = (Inl ErrExpired, w)
    \<and> CreateShare h newID p w = (Inl ErrDuplicateShare, w)"
proof
  have sh: "shares_ok (w_db w)" and wf: "wf_db (w_now w) (w_db w)" using assms(2) by (simp_all add: linked_def)
  have ok: "share_ok (w_db w) s0" using sh assms(4) by (simp add: shares_ok_def)
  have "find (\<lambda>s. sh_ID s = sh_ID s0) (file_shares (w_db w)) = Some s0"
    using sh assms(4) by (intro find_key_unique [of sh_ID]) (auto simp: shares_ok_def)
  moreover obtain v where v: "share_view (w_db w) s0 = Some v"
    using share_view_exists [of s0 "w_db w"] ok imageI [OF assms(8), of bl_ID] by (auto simp: share_ok_def assms(9))
  ultimately have "map_err ShareDb (GetShare_pg (sh_ID s0)) w = (Inr (Some v), w)"
    by (simp add: GetShare_pg_def query_nil [OF assms(1)] map_err_def)
  moreover have "validateShareAccess v (sh_RecipientID s0) (w_now w) = Some ErrExpired"
    using share_viewD [OF v] assms(5-7) by (simp add: validateShareAccess_def)
  ultimately show "GetSharedFile h (sh_ID s0) (sh_RecipientID s0) w = (Inl ErrExpired, w)"
    by (simp add: GetSharedFile_def bindE_def fail_def)
  have "bl_UserID b = sh_OwnerID s0"
    using ok distinct_map_eqD [OF wf_dbD(3) [OF wf] assms(8)] assms(9) by (auto simp: share_ok_def)
  moreover have "us_id r \<noteq> cp_OwnerID p" using ok assms(12,17) by (auto simp: share_ok_def)
  moreover have "insert_share (share_row newID now (p\<lparr>cp_RecipientEmail := [], cp_RecipientID := us_id r\<rparr>)) (w_db w)
      = Inl UniqueViolation" for now
    using assms(4,5,12,16) by (auto simp: insert_share_def share_row_def)
  ultimately show "CreateShare h newID p w = (Inl ErrDuplicateShare, w)"
    using CreateShare_nil [OF assms(1) wf assms(3,8) _ _ assms(10,11,13-15)] assms(9,16,17)
    by (simp add: bindE_def CreateShare_pg_def map_err_def db_call_nil [OF assms(1)] stmt_bind_def)
qed

text \<open>
  C38. Sharing works end to end when no call fails. The owner of a file shares it with a user who has a key and no unrevoked share of it: the share is
  created, the recipient is to be notified, and until the share expires the recipient gets the link
  and exactly the wrapped key that the owner stored.
\<close>

theorem share_roundtrip:
  assumes "w_faults w = []" and "linked (\<lambda>_. True) (w_now w) (w_db w)" and "distinct (map us_email (users (w_db w)))"
    and "b \<in> set (stored_blobs (w_db w))" and "bl_ID b = cp_BlobID p" and "bl_UserID b = cp_OwnerID p" and "bl_DeletedAt b = None"
    and "r \<in> set (users (w_db w))" and "us_email r = share_email h (cp_RecipientEmail p)"
    and "us_public_key r = Some pub" and "pub \<noteq> []" and "us_id r \<noteq> cp_OwnerID p"
    and "user_exists (cp_OwnerID p) (w_db w)"
    and "newID \<notin> sh_ID ` set (file_shares (w_db w))"
    and "\<forall>s \<in> set (file_shares (w_db w)). sh_BlobID s = cp_BlobID p \<longrightarrow> sh_RecipientID s = us_id r \<longrightarrow> sh_RevokedAt s \<noteq> None"
    and "\<forall>e. cp_ExpiresAt p = Some e \<longrightarrow> t \<le> e"
    and "PresignedGetObject (hs_Objects h) (bl_ObjectKey b) (hs_PresignTTL h) (w_obj w) = (Inr url, o')"
  shows "\<exists>v w1 res w2. CreateShare h newID p w = (Inr (v, share_notice v), w1)
    \<and> GetSharedFile h newID (us_id r) (w1\<lparr>w_now := t\<rparr>) = (Inr res, w2)
    \<and> sf_DownloadURL res = url \<and> sf_FileName res = bl_FileName b
    \<and> sh_WrappedFileKey (sf_Share res) = cp_WrappedFileKey p \<and> sh_EphemeralPub (sf_Share res) = cp_EphemeralPub p"
proof -
  have wf: "wf_db (w_now w) (w_db w)" using assms(2) by (simp add: linked_def)
  define row where "row = share_row newID (w_now w) (p\<lparr>cp_RecipientEmail := [], cp_RecipientID := us_id r\<rparr>)"
  define d1 where "d1 = (w_db w)\<lparr>file_shares := file_shares (w_db w) @ [row]\<rparr>"
  have ids: "sh_ID row = newID" "sh_BlobID row = bl_ID b" "sh_OwnerID row = cp_OwnerID p" "sh_RecipientID row = us_id r"
    "sh_ExpiresAt row = cp_ExpiresAt p" "sh_RevokedAt row = None" "sh_WrappedFileKey row = cp_WrappedFileKey p"
    "sh_EphemeralPub row = cp_EphemeralPub p"
    by (simp_all add: row_def share_row_def assms(5))
  have ins: "insert_share row (w_db w) = Inr ((), d1)"
    using assms(5,8,13,14,15) imageI [OF assms(4), of bl_ID] by (auto simp: insert_share_def ids d1_def user_exists_def)
  obtain v where v: "share_view d1 row = Some v"
    using share_view_exists [of row d1] assms(4,8,13) by (auto simp: ids d1_def user_exists_def)
  have cr: "CreateShare h newID p w = (Inr (v, share_notice v), w\<lparr>w_db := d1\<rparr>)"
    using CreateShare_nil [OF assms(1) wf assms(3-12)] ins v
    by (simp add: bindE_def CreateShare_pg_def map_err_def db_call_nil [OF assms(1)] stmt_bind_def row_def ret_def)
  let ?w = "w\<lparr>w_db := d1, w_now := t\<rparr>"
  have "find (\<lambda>s. sh_ID s = newID) (file_shares d1) = Some row"
    using assms(14) by (auto simp: d1_def find_append ids image_iff find_None_iff split: option.splits dest!: find_SomeD)
  then have g: "map_err ShareDb (GetShare_pg newID) ?w = (Inr (Some v), ?w)"
    using v by (simp add: GetShare_pg_def query_nil assms(1) map_err_def)
  have acc: "validateShareAccess v (us_id r) t = None"
    using share_viewD [OF v] assms(16) by (simp add: validateShareAccess_None ids)
  have bi: "GetBlobInfo_pg (bl_ID b) ?w = (Inr (Some \<lparr>bi_ObjectKey = bl_ObjectKey b, bi_FileName = bl_FileName b,
     bi_ContentType = bl_ContentType b, bi_FileSize = bl_FileSize b, bi_FileSizePlain = bl_FileSizePlain b,
     bi_ChunkSize = bl_ChunkSize b, bi_OwnerID = bl_UserID b\<rparr>), ?w)"
    by (rule GetBlobInfo_nil) (use assms(1,4,7) wf_dbD(3) [OF wf] in \<open>simp_all add: d1_def\<close>)
  have bid: "sh_BlobID v = bl_ID b" using share_viewD(2) [OF v] by (simp add: ids)
  obtain res w2 where "GetSharedFile h newID (us_id r) ?w = (Inr res, w2)" "sf_DownloadURL res = url"
    "sf_FileName res = bl_FileName b" "sf_Share res = v"
    using g acc bi assms(17) by (simp add: GetSharedFile_def bindE_def bid map_err_def obj_call_def ret_def)
  with cr share_viewD(7,8) [OF v] show ?thesis
    by (intro exI [of _ v] exI [of _ "w\<lparr>w_db := d1\<rparr>"] exI [of _ res] exI [of _ w2]) (simp add: ids)
qed

end
