(* ===== verification/Server.thy ===== *)
theory Server
  imports Auth_Frame Auth_Handlers Sharing_Properties
begin

text \<open>
  The world of the whole server: the database, the clock and the schedule of faults, which the
  services share, with Redis, the audit queue and the mails of the authentication side and the
  objects of the storage side. A service's operation runs on its part of this world. An invariant of
  the database that an operation keeps on its part is kept by the operation on the whole.
\<close>

section \<open>Parts of a world\<close>

definition within :: "('g \<Rightarrow> 'w) \<Rightarrow> ('g \<Rightarrow> 'w \<Rightarrow> 'g) \<Rightarrow> ('w \<Rightarrow> 'a \<times> 'w) \<Rightarrow> 'g \<Rightarrow> 'a \<times> 'g" where
  "within get put m g = (case m (get g) of (r, w) \<Rightarrow> (r, put g w))"

lemma snd_within [simp]: "snd (within get put m g) = put g (snd (m (get g)))"
  by (simp add: within_def split: prod.splits)

lemma fst_within [simp]: "fst (within get put m g) = fst (m (get g))"
  by (simp add: within_def split: prod.splits)

locale part =
  fixes get :: "('x world_scheme) \<Rightarrow> ('y world_scheme)" and put :: "('x world_scheme) \<Rightarrow> ('y world_scheme) \<Rightarrow> ('x world_scheme)"
  assumes get_put: "get (put g w) = w"
    and put_get: "put g (get g) = g"
    and put_put: "put (put g w) w' = put g w'"
    and get_db: "w_db (get g) = w_db g" and get_now: "w_now (get g) = w_now g"
    and put_db: "w_db (put g w) = w_db w" and put_now: "w_now (put g w) = w_now w"
begin

text \<open>Running one operation after the other on a part is running their composition on it.\<close>

lemma within_bindE: "within get put (bindE m k) = bindE (within get put m) (\<lambda>x. within get put (k x))"
  by (rule ext) (simp add: within_def bindE_def get_put put_put split: prod.splits sum.splits)

lemma within_ret: "within get put (ret x) = ret x"
  by (rule ext) (simp add: within_def ret_def put_get)

lemma keeps_within:
  assumes "keeps (on_db I) m"
  shows "keeps (on_db I) (within get put m)"
proof (rule keepsI)
  fix g :: "'x world_scheme"
  assume "on_db I g"
  then have "on_db I (get g)" by (simp add: on_db_def get_db get_now)
  from keeps_snd [OF assms this] show "on_db I (snd (within get put m g))"
    by (simp add: on_db_def put_db put_now)
qed

end

section \<open>The world of the server\<close>

record ('r, 'o) gworld = "'r aworld" +
  w_objects :: 'o

definition storage_part :: "('r, 'o) gworld \<Rightarrow> 'o sworld" where
  "storage_part g = \<lparr>w_db = w_db g, w_now = w_now g, w_faults = w_faults g, w_obj = w_objects g\<rparr>"

definition put_storage :: "('r, 'o) gworld \<Rightarrow> 'o sworld \<Rightarrow> ('r, 'o) gworld" where
  "put_storage g s = g\<lparr>w_db := w_db s, w_now := w_now s, w_faults := w_faults s, w_objects := w_obj s\<rparr>"

definition auth_part :: "('r, 'o) gworld \<Rightarrow> 'r aworld" where
  "auth_part g = \<lparr>w_db = w_db g, w_now = w_now g, w_faults = w_faults g, w_redis = w_redis g,
     w_queue = w_queue g, w_mails = w_mails g\<rparr>"

definition put_auth :: "('r, 'o) gworld \<Rightarrow> 'r aworld \<Rightarrow> ('r, 'o) gworld" where
  "put_auth g a = g\<lparr>w_db := w_db a, w_now := w_now a, w_faults := w_faults a, w_redis := w_redis a,
     w_queue := w_queue a, w_mails := w_mails a\<rparr>"

lemmas part_defs = storage_part_def put_storage_def auth_part_def put_auth_def

interpretation storage: part storage_part put_storage
  by unfold_locales (simp_all add: part_defs)

interpretation auth: part auth_part put_auth
  by unfold_locales (simp_all add: part_defs)

definition at_storage :: "('o sworld, 'e, 'a) eff \<Rightarrow> (('r, 'o) gworld, 'e, 'a) eff" where
  "at_storage = within storage_part put_storage"

definition at_auth :: "('r aworld \<Rightarrow> 'a \<times> 'r aworld) \<Rightarrow> ('r, 'o) gworld \<Rightarrow> 'a \<times> ('r, 'o) gworld" where
  "at_auth = within auth_part put_auth"

lemma keeps_at_storage: "keeps (on_db I) m \<Longrightarrow> keeps (on_db I) (at_storage m)"
  unfolding at_storage_def by (rule storage.keeps_within)

section \<open>Handlers that keep an invariant\<close>

definition serves :: "('w \<Rightarrow> bool) \<Rightarrow> ('w, 'b) handler \<Rightarrow> bool" where
  "serves P h \<longleftrightarrow> (\<forall>w. P w \<longrightarrow> P (snd (h w)))"

lemma servesI: "(\<And>w. P w \<Longrightarrow> P (snd (h w))) \<Longrightarrow> serves P h"
  by (simp add: serves_def)

lemma servesD: "serves P h \<Longrightarrow> P w \<Longrightarrow> P (snd (h w))"
  by (simp add: serves_def)

named_theorems serves_rules

lemma serves_reply [serves_rules]: "serves P (reply st b)"
  by (simp add: serves_def reply_def)

lemma serves_WriteError [serves_rules]: "serves P (WriteError st msg)"
  by (simp add: serves_def)

lemma serves_WriteInternalError [serves_rules]: "serves P WriteInternalError"
  unfolding WriteInternalError_def by (rule serves_WriteError)

lemma serves_call [serves_rules]:
  assumes "keeps P m" and "\<And>x. serves P (e x)" and "\<And>x. serves P (k x)"
  shows "serves P (call m e k)"
proof (rule servesI)
  fix w assume "P w"
  then have "P (snd (m w))" by (rule keeps_snd [OF assms(1)])
  with assms(2,3) show "P (snd (call m e k w))"
    by (auto simp: call_def serves_def split: prod.splits sum.splits)
qed

lemma serves_decoded [serves_rules]: "(\<And>x. serves P (k x)) \<Longrightarrow> serves P (decoded body validate k)"
  by (auto simp: decoded_def WriteValidationError_def split: option.splits validate_err.splits intro: serves_rules)

lemma serves_as_user: "rq_ctxUserID rq = Some u \<Longrightarrow> serves P (k u) \<Longrightarrow> serves P (MustUserID rq k)"
  by (simp add: MustUserID_def serves_WriteError)

lemma serves_mustDecodeB64 [serves_rules]: "(\<And>x. serves P (k x)) \<Longrightarrow> serves P (mustDecodeB64 s f mn mx k)"
  by (auto simp: mustDecodeB64_def split: prod.splits intro: serves_rules)

lemma serves_set_cookie [serves_rules]: "serves P h \<Longrightarrow> serves P (set_cookie c h)"
  by (simp add: serves_def set_cookie_def split_beta)

lemma serves_logged_async [serves_rules]: "serves (on_db I) h \<Longrightarrow> serves (on_db I) (logged_async e h)"
  by (simp add: serves_def logged_async_def on_db_def)

lemma serves_if [serves_rules]: "serves P h \<Longrightarrow> serves P k \<Longrightarrow> serves P (if c then h else k)"
  by simp

lemma serves_option [serves_rules]:
  "serves P h \<Longrightarrow> (\<And>x. serves P (k x)) \<Longrightarrow> serves P (case r of None \<Rightarrow> h | Some x \<Rightarrow> k x)"
  by (cases r) auto

lemma serves_prod [serves_rules]: "(\<And>x y. serves P (k x y)) \<Longrightarrow> serves P (case r of (x, y) \<Rightarrow> k x y)"
  by (cases r) auto

lemma serves_world: "(\<And>w. serves P (h w)) \<Longrightarrow> serves P (\<lambda>w. h w w)"
  by (simp add: serves_def)

lemma serves_at_auth: "serves (on_db I) h \<Longrightarrow> serves (on_db I) (at_auth h)"
proof (rule servesI)
  fix g :: "('a, 'c) gworld"
  assume h: "serves (on_db I) h" and "on_db I g"
  then have "on_db I (auth_part g)" by (simp add: on_db_def auth_part_def)
  from servesD [OF h this] show "on_db I (snd (at_auth h g))" by (simp add: at_auth_def on_db_def auth.put_db auth.put_now)
qed

end
