(* ===== verification/Storage_Handlers.thy ===== *)
theory Storage_Handlers
  imports Server
begin

text \<open>
  The handlers of \<open>storage.go\<close>, \<open>folders.go\<close> and \<open>trash.go\<close> of
  \<open>internal/controller/restapi/v1\<close>, with the requests and responses of \<open>dto/storage.go\<close>. The
  identifier \<open>uuid.New\<close> draws for a new row, the order in which the two queries of an \<open>errgroup\<close>
  reach the database, and the database's lower case and collation are arguments, as in the service.
\<close>

section \<open>Requests and responses\<close>

record PresignGetResponse =
  ps_BlobID :: string
  ps_DownloadURL :: string
  ps_ExpiresIn :: int
  ps_HTTPMethod :: string
  ps_ContentType :: string
  ps_EncryptedFileKey :: string
  ps_FileSize :: int64
  ps_FileSizePlain :: int64
  ps_ChunkSize :: int32

record BlobItem =
  bx_BlobID :: string
  bx_FolderID :: "string option"
  bx_FileName :: string
  bx_ContentType :: string
  bx_FileSize :: int64
  bx_FileSizePlain :: int64
  bx_ChunkSize :: int32
  bx_CreatedAt :: time
  bx_EncryptedFileKey :: string

record InitiateMultipartRequest =
  qm_FileName :: string
  qm_ContentType :: string
  qm_EncryptedFileKey :: string
  qm_FileSize :: int64
  qm_FileSizePlain :: int64
  qm_ChunkSize :: int32
  qm_PartCount :: int
  qm_FolderID :: "string option"

record PartURLItem =
  pi_PartNumber :: int
  pi_URL :: string

record InitiateMultipartResponse =
  rm_BlobID :: string
  rm_UploadID :: string
  rm_PartURLs :: "PartURLItem list"

record UploadedPartItem =
  pt_PartNumber :: int
  pt_ETag :: string

record CompleteMultipartRequest =
  qp_Parts :: "UploadedPartItem list"

record MoveBlobRequest =
  qv_FolderID :: "string option"

record RenameBlobRequest =
  qn_Name :: string

record FolderItem =
  fi_FolderID :: string
  fi_ParentID :: "string option"
  fi_Name :: string
  fi_CreatedAt :: time

record SearchBlobItem =
  si_BlobID :: string
  si_FolderID :: "string option"
  si_FolderName :: "string option"
  si_FileName :: string
  si_ContentType :: string
  si_FileSize :: int64
  si_FileSizePlain :: int64
  si_ChunkSize :: int32
  si_CreatedAt :: time
  si_EncryptedFileKey :: string

record SearchResponse =
  rs_Blobs :: "SearchBlobItem list"
  rs_Folders :: "FolderItem list"

record CreateFolderRequest =
  qd_Name :: string
  qd_ParentID :: "string option"

record RenameFolderRequest =
  qe_Name :: string

record MoveFolderRequest =
  qg_ParentID :: "string option"

record TrashBlobItem =
  ti_BlobID :: string
  ti_FolderID :: "string option"
  ti_FileName :: string
  ti_ContentType :: string
  ti_FileSize :: int64
  ti_FileSizePlain :: int64
  ti_ChunkSize :: int32
  ti_CreatedAt :: time
  ti_EncryptedFileKey :: string

record TrashFolderItem =
  tf_FolderID :: string
  tf_ParentID :: "string option"
  tf_Name :: string
  tf_CreatedAt :: time

record TrashListResponse =
  rt_Blobs :: "TrashBlobItem list"
  rt_Folders :: "TrashFolderItem list"

section \<open>Dependencies and helpers\<close>

text \<open>\<open>d.Folders\<close> is the storage service too; its operations use none of the settings.\<close>

record ('r, 'o) Deps = "'r AuthDeps" +
  dp_Blobs :: "'o Service"
  dp_Trash :: "'o Service"
  dp_Sharing :: "'o SharingService"

abbreviation dp_Codec :: "('r, 'o) Deps \<Rightarrow> codec" where
  "dp_Codec d \<equiv> as_Codec (dp_Auth d)"

text \<open>\<open>uuid.Parse\<close> of a path parameter, and of an optional field (absent: the root).\<close>

definition uuid_param ::
  "('r, 'o) Deps \<Rightarrow> request \<Rightarrow> string \<Rightarrow> string \<Rightarrow> (uuid \<Rightarrow> ('w, 'b) handler) \<Rightarrow> ('w, 'b) handler" where
  "uuid_param d rq name msg k =
     (case cd_Parse (dp_Codec d) (rq_Param rq name) of None \<Rightarrow> WriteError 400 msg | Some i \<Rightarrow> k i)"

definition uuid_field ::
  "('r, 'o) Deps \<Rightarrow> string option \<Rightarrow> string \<Rightarrow> (uuid option \<Rightarrow> ('w, 'b) handler) \<Rightarrow> ('w, 'b) handler" where
  "uuid_field d field msg k =
     (case field of None \<Rightarrow> k None
      | Some s \<Rightarrow> (case cd_Parse (dp_Codec d) s of None \<Rightarrow> WriteError 400 msg | Some i \<Rightarrow> k (Some i)))"

text \<open>\<open>d.Audit.LogAsync(r.Context(), auditEvent(..))\<close> with the address and user agent of the request.\<close>

definition audited ::
  "request \<Rightarrow> uuid \<Rightarrow> string \<Rightarrow> uuid option \<Rightarrow> string \<Rightarrow> (('r, 'x) aworld_scheme, 'b) handler
   \<Rightarrow> (('r, 'x) aworld_scheme, 'b) handler" where
  "audited rq uid ev resourceID name =
     logged_async (auditEvent uid ev (realIP rq) (rq_Header rq ''User-Agent'') resourceID name)"

definition writeStorageErr :: "storage_err \<Rightarrow> ('w, 'b) handler" where
  "writeStorageErr e =
     (case e of
        ErrNotFound \<Rightarrow> WriteError 404 ''not found''
      | ErrFolderNotFound \<Rightarrow> WriteError 404 ''folder not found''
      | ErrFileTooLarge \<Rightarrow> WriteError 413 ''file too large''
      | ErrQuotaExceeded \<Rightarrow> WriteError 402 ''storage quota exceeded''
      | _ \<Rightarrow> WriteInternalError)"

definition writeFolderErr :: "storage_err \<Rightarrow> ('w, 'b) handler" where
  "writeFolderErr e =
     (case e of
        ErrFolderNotFound \<Rightarrow> WriteError 404 ''folder not found''
      | ErrFolderNotEmpty \<Rightarrow> WriteError 409 ''folder is not empty''
      | ErrFolderConflict \<Rightarrow> WriteError 409 ''folder with this name already exists''
      | ErrFolderCycle \<Rightarrow> WriteError 422 ''moving folder would create a cycle''
      | ErrNotFound \<Rightarrow> WriteError 404 ''not found''
      | _ \<Rightarrow> WriteInternalError)"

section \<open>storage.go\<close>

definition storageGetUsage :: "('r, 'o) Deps \<Rightarrow> request \<Rightarrow> (('r, 'o) gworld, StorageUsage) handler" where
  "storageGetUsage d rq =
     MustUserID rq (\<lambda>uid.
       call (at_storage (GetStorageUsage (dp_Blobs d) uid)) (\<lambda>_. WriteError 500 ''failed to get storage usage'')
         (\<lambda>usage. reply 200 (Json usage)))"

definition storagePresignGet :: "('r, 'o) Deps \<Rightarrow> request \<Rightarrow> (('r, 'o) gworld, PresignGetResponse) handler" where
  "storagePresignGet d rq =
     MustUserID rq (\<lambda>uid. uuid_param d rq ''blobID'' ''invalid blob_id'' (\<lambda>blobID.
       call (at_storage (PresignGet (dp_Blobs d) uid blobID)) writeStorageErr
         (\<lambda>out. audited rq uid ''file_downloaded'' (Some blobID) (pg_FileName out)
            (reply 200 (Json
              \<lparr>ps_BlobID = cd_String (dp_Codec d) (pg_BlobID out), ps_DownloadURL = pg_DownloadURL out,
               ps_ExpiresIn = pg_ExpiresIn out, ps_HTTPMethod = pg_HTTPMethod out,
               ps_ContentType = pg_ContentType out,
               ps_EncryptedFileKey = StdEncoding_EncodeToString (pg_EncryptedFileKey out),
               ps_FileSize = pg_FileSize out, ps_FileSizePlain = pg_FileSizePlain out,
               ps_ChunkSize = pg_ChunkSize out\<rparr>)))))"

definition storageDeleteBlob :: "('r, 'o) Deps \<Rightarrow> request \<Rightarrow> (('r, 'o) gworld, unit) handler" where
  "storageDeleteBlob d rq =
     MustUserID rq (\<lambda>uid. uuid_param d rq ''blobID'' ''invalid blob_id'' (\<lambda>blobID.
       call (at_storage (DeleteBlob uid blobID)) writeStorageErr
         (\<lambda>fileName. audited rq uid ''file_deleted'' (Some blobID) fileName (reply 204 NoBody))))"

definition blobToDTO :: "codec \<Rightarrow> Blob \<Rightarrow> BlobItem" where
  "blobToDTO cd b =
     \<lparr>bx_BlobID = cd_String cd (bl_ID b), bx_FolderID = map_option (cd_String cd) (bl_FolderID b),
      bx_FileName = bl_FileName b, bx_ContentType = bl_ContentType b, bx_FileSize = bl_FileSize b,
      bx_FileSizePlain = bl_FileSizePlain b, bx_ChunkSize = bl_ChunkSize b, bx_CreatedAt = bl_CreatedAt b,
      bx_EncryptedFileKey = StdEncoding_EncodeToString (bl_EncryptedFileKey b)\<rparr>"

definition storageListBlobs :: "('r, 'o) Deps \<Rightarrow> request \<Rightarrow> (('r, 'o) gworld, BlobItem list) handler" where
  "storageListBlobs d rq =
     MustUserID rq (\<lambda>uid.
       let folderRaw = rq_Query rq ''folder_id'';
           answer = (\<lambda>m. call (at_storage m) writeStorageErr
             (\<lambda>blobs. reply 200 (Json (map (blobToDTO (dp_Codec d)) blobs))))
       in if folderRaw = [] then answer (ListBlobs uid)
          else if folderRaw = ''root'' then answer (ListBlobsInFolder uid None)
          else (case cd_Parse (dp_Codec d) folderRaw of
                  None \<Rightarrow> WriteError 400 ''invalid folder_id''
                | Some folderID \<Rightarrow> answer (ListBlobsInFolder uid (Some folderID))))"

definition renameBlob ::
  "('r, 'o) Deps \<Rightarrow> (RenameBlobRequest \<Rightarrow> validate_err option) \<Rightarrow> request \<Rightarrow> RenameBlobRequest option
   \<Rightarrow> (('r, 'o) gworld, unit) handler" where
  "renameBlob d validate rq body =
     MustUserID rq (\<lambda>uid. uuid_param d rq ''blobID'' ''invalid blob_id'' (\<lambda>blobID.
       decoded body validate (\<lambda>q.
         let name = TrimSpace (qn_Name q) in
         if name = [] then WriteError 400 ''name must not be blank''
         else call (at_storage (RenameBlob uid blobID name)) writeStorageErr
           (\<lambda>_. audited rq uid ''file_renamed'' (Some blobID) name (reply 204 NoBody)))))"

definition folderToDTO :: "codec \<Rightarrow> Folder \<Rightarrow> FolderItem" where
  "folderToDTO cd f =
     \<lparr>fi_FolderID = cd_String cd (fo_ID f), fi_ParentID = map_option (cd_String cd) (fo_ParentID f),
      fi_Name = fo_Name f, fi_CreatedAt = fo_CreatedAt f\<rparr>"

definition searchBlobToDTO :: "codec \<Rightarrow> SearchBlobRecord \<Rightarrow> SearchBlobItem" where
  "searchBlobToDTO cd r =
     (let b = sr_Blob r in
      \<lparr>si_BlobID = cd_String cd (bl_ID b), si_FolderID = map_option (cd_String cd) (bl_FolderID b),
       si_FolderName = sr_FolderName r, si_FileName = bl_FileName b, si_ContentType = bl_ContentType b,
       si_FileSize = bl_FileSize b, si_FileSizePlain = bl_FileSizePlain b, si_ChunkSize = bl_ChunkSize b,
       si_CreatedAt = bl_CreatedAt b, si_EncryptedFileKey = StdEncoding_EncodeToString (bl_EncryptedFileKey b)\<rparr>)"

definition storageSearch ::
  "('r, 'o) Deps \<Rightarrow> bool \<Rightarrow> (string \<Rightarrow> string) \<Rightarrow> (string \<Rightarrow> string) \<Rightarrow> request
   \<Rightarrow> (('r, 'o) gworld, SearchResponse) handler" where
  "storageSearch d second lower collate rq =
     MustUserID rq (\<lambda>uid.
       let q = TrimSpace (rq_Query rq ''q'') in
       if q = [] then WriteError 400 ''q is required''
       else call (at_storage (Search second lower collate \<lparr>sp_UserID = uid, sp_Query = q\<rparr>)) (\<lambda>_. WriteInternalError)
         (\<lambda>result. reply 200 (Json
            \<lparr>rs_Blobs = map (searchBlobToDTO (dp_Codec d)) (se_Blobs result),
             rs_Folders = map (folderToDTO (dp_Codec d)) (se_Folders result)\<rparr>)))"

text \<open>The content type is trimmed before it is validated.\<close>

definition storageInitiateMultipart ::
  "('r, 'o) Deps \<Rightarrow> (InitiateMultipartRequest \<Rightarrow> validate_err option) \<Rightarrow> uuid \<Rightarrow> request
   \<Rightarrow> InitiateMultipartRequest option \<Rightarrow> (('r, 'o) gworld, InitiateMultipartResponse) handler" where
  "storageInitiateMultipart d validate newID rq body =
     MustUserID rq (\<lambda>uid.
       decoded (map_option (\<lambda>q. q\<lparr>qm_ContentType := TrimSpace (qm_ContentType q)\<rparr>) body) validate (\<lambda>q.
         case StdEncoding_DecodeString (qm_EncryptedFileKey q) of (encryptedFileKey, ok) \<Rightarrow>
         if \<not> ok then WriteError 400 ''invalid encrypted_file_key''
         else uuid_field d (qm_FolderID q) ''invalid folder_id'' (\<lambda>folderID.
           call (at_storage (InitiateMultipartUpload (dp_Blobs d) (cd_String (dp_Codec d)) newID
               \<lparr>im_UserID = uid, im_FileName = qm_FileName q, im_ContentType = qm_ContentType q,
                im_FileSize = qm_FileSize q, im_FileSizePlain = qm_FileSizePlain q,
                im_ChunkSize = qm_ChunkSize q, im_PartCount = qm_PartCount q,
                im_EncryptedFileKey = encryptedFileKey, im_FolderID = folderID\<rparr>))
             writeStorageErr
             (\<lambda>result. reply 200 (Json
               \<lparr>rm_BlobID = cd_String (dp_Codec d) (ir_BlobID result), rm_UploadID = ir_UploadID result,
                rm_PartURLs = map (\<lambda>p. \<lparr>pi_PartNumber = pu_PartNumber p, pi_URL = pu_URL p\<rparr>) (ir_PartURLs result)\<rparr>)))))"

definition storageCompleteMultipart ::
  "('r, 'o) Deps \<Rightarrow> (CompleteMultipartRequest \<Rightarrow> validate_err option) \<Rightarrow> request
   \<Rightarrow> CompleteMultipartRequest option \<Rightarrow> (('r, 'o) gworld, unit) handler" where
  "storageCompleteMultipart d validate rq body =
     MustUserID rq (\<lambda>uid. uuid_param d rq ''blobID'' ''invalid blob_id'' (\<lambda>blobID.
       decoded body validate (\<lambda>q.
         call (at_storage (CompleteMultipartUpload (dp_Blobs d)
             \<lparr>cm_BlobID = blobID, cm_UserID = uid,
              cm_Parts = map (\<lambda>p. \<lparr>up_PartNumber = pt_PartNumber p, up_ETag = pt_ETag p\<rparr>) (qp_Parts q)\<rparr>))
           writeStorageErr
           (\<lambda>_. audited rq uid ''file_uploaded'' (Some blobID) [] (reply 204 NoBody)))))"

definition storageAbortUpload :: "('r, 'o) Deps \<Rightarrow> request \<Rightarrow> (('r, 'o) gworld, unit) handler" where
  "storageAbortUpload d rq =
     MustUserID rq (\<lambda>uid. uuid_param d rq ''blobID'' ''invalid blob_id'' (\<lambda>blobID.
       call (at_storage (AbortUpload (dp_Blobs d) uid blobID)) writeStorageErr (\<lambda>_. reply 204 NoBody)))"

section \<open>folders.go\<close>

text \<open>The UTF-8 encodings of the Russian for ``in folder'' and of an arrow to the right.\<close>

definition in_folder_text :: string where
  "in_folder_text = [CHR 0xD0, CHR 0xB2, CHR 0x20, CHR 0xD0, CHR 0xBF, CHR 0xD0, CHR 0xB0, CHR 0xD0, CHR 0xBF, CHR 0xD0, CHR 0xBA, CHR 0xD0, CHR 0xB5]"

definition arrow_text :: string where
  "arrow_text = [CHR 0xE2, CHR 0x86, CHR 0x92]"

definition createFolder ::
  "('r, 'o) Deps \<Rightarrow> (CreateFolderRequest \<Rightarrow> validate_err option) \<Rightarrow> uuid \<Rightarrow> request \<Rightarrow> CreateFolderRequest option
   \<Rightarrow> (('r, 'o) gworld, FolderItem) handler" where
  "createFolder d validate newID rq body =
     MustUserID rq (\<lambda>uid.
       decoded body validate (\<lambda>q.
         uuid_field d (qd_ParentID q) ''invalid parent_id'' (\<lambda>parentID.
           let name = TrimSpace (qd_Name q) in
           if name = [] then WriteError 400 ''name must not be blank''
           else call (at_storage (CreateFolder newID \<lparr>cf_UserID = uid, cf_ParentID = parentID, cf_Name = name\<rparr>))
             writeFolderErr
             (\<lambda>(folder, parentFolderName).
                let resourceName = (if parentFolderName \<noteq> []
                      then fo_Name folder @ '' ('' @ in_folder_text @ '': '' @ parentFolderName @ '')'' else fo_Name folder)
                in audited rq uid ''folder_created'' (Some (fo_ID folder)) resourceName
                     (reply 201 (Json (folderToDTO (dp_Codec d) folder)))))))"

definition getFolder :: "('r, 'o) Deps \<Rightarrow> request \<Rightarrow> (('r, 'o) gworld, FolderItem) handler" where
  "getFolder d rq =
     MustUserID rq (\<lambda>uid. uuid_param d rq ''folderID'' ''invalid folder_id'' (\<lambda>folderID.
       call (at_storage (GetFolder uid folderID)) writeFolderErr
         (\<lambda>folder. reply 200 (Json (folderToDTO (dp_Codec d) folder)))))"

definition listFolders ::
  "('r, 'o) Deps \<Rightarrow> (string \<Rightarrow> string) \<Rightarrow> request \<Rightarrow> (('r, 'o) gworld, FolderItem list) handler" where
  "listFolders d collate rq =
     MustUserID rq (\<lambda>uid.
       let raw = rq_Query rq ''parent_id'' in
       uuid_field d (if raw = [] then None else Some raw) ''invalid parent_id'' (\<lambda>parentID.
         call (at_storage (ListFolders collate uid parentID)) writeFolderErr
           (\<lambda>fs. reply 200 (Json (map (folderToDTO (dp_Codec d)) fs)))))"

definition renameFolder ::
  "('r, 'o) Deps \<Rightarrow> (RenameFolderRequest \<Rightarrow> validate_err option) \<Rightarrow> request \<Rightarrow> RenameFolderRequest option
   \<Rightarrow> (('r, 'o) gworld, FolderItem) handler" where
  "renameFolder d validate rq body =
     MustUserID rq (\<lambda>uid. uuid_param d rq ''folderID'' ''invalid folder_id'' (\<lambda>folderID.
       decoded body validate (\<lambda>q.
         let name = TrimSpace (qe_Name q) in
         if name = [] then WriteError 400 ''name must not be blank''
         else call (at_storage (RenameFolder uid folderID name)) writeFolderErr
           (\<lambda>folder. audited rq uid ''folder_renamed'' (Some (fo_ID folder)) (fo_Name folder)
              (reply 200 (Json (folderToDTO (dp_Codec d) folder)))))))"

text \<open>What is logged of a move: the name and the two places, the root being a slash.\<close>

definition move_text :: "string \<Rightarrow> string \<Rightarrow> string \<Rightarrow> string" where
  "move_text name src0 dst0 =
     (let src = (if src0 = [] then ''/'' else src0); dst = (if dst0 = [] then ''/'' else dst0) in
      name @ '' ('' @ src @ '' '' @ arrow_text @ '' '' @ dst @ '')'')"

text \<open>The two requests to move have no validation.\<close>

definition moveFolder ::
  "('r, 'o) Deps \<Rightarrow> request \<Rightarrow> MoveFolderRequest option \<Rightarrow> (('r, 'o) gworld, unit) handler" where
  "moveFolder d rq body =
     MustUserID rq (\<lambda>uid. uuid_param d rq ''folderID'' ''invalid folder_id'' (\<lambda>folderID.
       decoded body (\<lambda>_. None) (\<lambda>q.
         uuid_field d (qg_ParentID q) ''invalid parent_id'' (\<lambda>newParentID.
           call (at_storage (MoveFolder \<lparr>mf_FolderID = folderID, mf_UserID = uid, mf_NewParentID = newParentID\<rparr>))
             writeFolderErr
             (\<lambda>info. audited rq uid ''folder_moved'' (Some folderID)
                (move_text (fm_FolderName info) (fm_SrcFolderName info) (fm_DstFolderName info))
                (reply 204 NoBody))))))"

definition deleteFolder :: "('r, 'o) Deps \<Rightarrow> request \<Rightarrow> (('r, 'o) gworld, unit) handler" where
  "deleteFolder d rq =
     MustUserID rq (\<lambda>uid. uuid_param d rq ''folderID'' ''invalid folder_id'' (\<lambda>folderID.
       call (at_storage (DeleteFolder uid folderID)) writeFolderErr
         (\<lambda>name. audited rq uid ''folder_deleted'' (Some folderID) name (reply 204 NoBody))))"

definition moveBlob ::
  "('r, 'o) Deps \<Rightarrow> request \<Rightarrow> MoveBlobRequest option \<Rightarrow> (('r, 'o) gworld, unit) handler" where
  "moveBlob d rq body =
     MustUserID rq (\<lambda>uid. uuid_param d rq ''blobID'' ''invalid blob_id'' (\<lambda>blobID.
       decoded body (\<lambda>_. None) (\<lambda>q.
         uuid_field d (qv_FolderID q) ''invalid folder_id'' (\<lambda>folderID.
           call (at_storage (MoveBlob uid blobID folderID)) writeFolderErr
             (\<lambda>info. audited rq uid ''file_moved'' (Some blobID)
                (move_text (mi_FileName info) (mi_SrcFolderName info) (mi_DstFolderName info))
                (reply 204 NoBody))))))"

section \<open>trash.go\<close>

definition blobToTrashDTO :: "codec \<Rightarrow> Blob \<Rightarrow> TrashBlobItem" where
  "blobToTrashDTO cd b =
     \<lparr>ti_BlobID = cd_String cd (bl_ID b), ti_FolderID = map_option (cd_String cd) (bl_FolderID b),
      ti_FileName = bl_FileName b, ti_ContentType = bl_ContentType b, ti_FileSize = bl_FileSize b,
      ti_FileSizePlain = bl_FileSizePlain b, ti_ChunkSize = bl_ChunkSize b, ti_CreatedAt = bl_CreatedAt b,
      ti_EncryptedFileKey = StdEncoding_EncodeToString (bl_EncryptedFileKey b)\<rparr>"

definition folderToTrashDTO :: "codec \<Rightarrow> Folder \<Rightarrow> TrashFolderItem" where
  "folderToTrashDTO cd f =
     \<lparr>tf_FolderID = cd_String cd (fo_ID f), tf_ParentID = map_option (cd_String cd) (fo_ParentID f),
      tf_Name = fo_Name f, tf_CreatedAt = fo_CreatedAt f\<rparr>"

definition trashResultToDTO :: "codec \<Rightarrow> TrashResult \<Rightarrow> TrashListResponse" where
  "trashResultToDTO cd r =
     \<lparr>rt_Blobs = map (blobToTrashDTO cd) (tr_Blobs r), rt_Folders = map (folderToTrashDTO cd) (tr_Folders r)\<rparr>"

definition trashList ::
  "('r, 'o) Deps \<Rightarrow> bool \<Rightarrow> (string \<Rightarrow> string) \<Rightarrow> request \<Rightarrow> (('r, 'o) gworld, TrashListResponse) handler" where
  "trashList d second collate rq =
     MustUserID rq (\<lambda>uid.
       call (at_storage (ListTrash second collate uid)) (\<lambda>_. WriteInternalError)
         (\<lambda>result. reply 200 (Json (trashResultToDTO (dp_Codec d) result))))"

definition trashRestoreBlob :: "('r, 'o) Deps \<Rightarrow> request \<Rightarrow> (('r, 'o) gworld, unit) handler" where
  "trashRestoreBlob d rq =
     MustUserID rq (\<lambda>uid. uuid_param d rq ''blobID'' ''invalid blob_id'' (\<lambda>blobID.
       call (at_storage (RestoreBlob uid blobID)) writeStorageErr
         (\<lambda>fileName. audited rq uid ''file_restored'' (Some blobID) fileName (reply 204 NoBody))))"

definition trashDeleteBlob :: "('r, 'o) Deps \<Rightarrow> request \<Rightarrow> (('r, 'o) gworld, unit) handler" where
  "trashDeleteBlob d rq =
     MustUserID rq (\<lambda>uid. uuid_param d rq ''blobID'' ''invalid blob_id'' (\<lambda>blobID.
       call (at_storage (HardDeleteBlob (dp_Trash d) uid blobID)) writeStorageErr
         (\<lambda>fileName. audited rq uid ''file_hard_deleted'' (Some blobID) fileName (reply 204 NoBody))))"

definition trashRestoreFolder :: "('r, 'o) Deps \<Rightarrow> request \<Rightarrow> (('r, 'o) gworld, unit) handler" where
  "trashRestoreFolder d rq =
     MustUserID rq (\<lambda>uid. uuid_param d rq ''folderID'' ''invalid folder_id'' (\<lambda>folderID.
       call (at_storage (RestoreFolder uid folderID)) writeStorageErr
         (\<lambda>name. audited rq uid ''folder_restored'' (Some folderID) name (reply 204 NoBody))))"

definition trashDeleteFolder :: "('r, 'o) Deps \<Rightarrow> request \<Rightarrow> (('r, 'o) gworld, unit) handler" where
  "trashDeleteFolder d rq =
     MustUserID rq (\<lambda>uid. uuid_param d rq ''folderID'' ''invalid folder_id'' (\<lambda>folderID.
       call (at_storage (HardDeleteFolder (dp_Trash d) uid folderID)) writeStorageErr
         (\<lambda>name. audited rq uid ''folder_hard_deleted'' (Some folderID) name (reply 204 NoBody))))"

text \<open>One event for each file and then one for each folder.\<close>

definition trashEmpty :: "('r, 'o) Deps \<Rightarrow> request \<Rightarrow> (('r, 'o) gworld, unit) handler" where
  "trashEmpty d rq =
     MustUserID rq (\<lambda>uid.
       call (at_storage (EmptyTrash (dp_Trash d) uid)) (\<lambda>_. WriteInternalError)
         (\<lambda>(blobs, fs).
            foldr (\<lambda>b. audited rq uid ''file_hard_deleted'' (Some (eb_ID b)) (eb_FileName b)) blobs
              (foldr (\<lambda>f. audited rq uid ''folder_hard_deleted'' (Some (ef_ID f)) (ef_Name f)) fs
                (reply 204 NoBody))))"

end
