(* ===== verification/Sharing_Handlers.thy ===== *)
theory Sharing_Handlers
  imports Storage_Handlers
begin

text \<open>
  The handlers of \<open>sharing.go\<close>, \<open>favorites.go\<close> and \<open>health.go\<close>, with \<open>dto/sharing.go\<close>. Parsing and
  printing of RFC 3339 times are arguments.
\<close>

section \<open>sharing.go\<close>

record CreateShareRequest =
  qs_RecipientEmail :: string
  qs_EphemeralPub :: string
  qs_WrappedFileKey :: string
  qs_ExpiresAt :: "string option"

record ShareResponse =
  sx_ShareID :: string
  sx_BlobID :: string
  sx_OwnerID :: string
  sx_OwnerEmail :: string
  sx_RecipientEmail :: string
  sx_BlobFileName :: string
  sx_BlobContentType :: string
  sx_EphemeralPub :: string
  sx_WrappedFileKey :: string
  sx_ExpiresAt :: "string option"
  sx_CreatedAt :: time
  sx_DownloadURL :: string
  sx_FileSize :: int64
  sx_FileSizePlain :: int64
  sx_ChunkSize :: int32

text \<open>An AES-256 key wrapped with AES-KW has 40 bytes.\<close>

definition aesKwWrappedLen :: nat where
  "aesKwWrappedLen = 40"

definition writeSharingErr :: "sharing_err \<Rightarrow> ('w, 'b) handler" where
  "writeSharingErr e =
     (case e of
        ShareNotFound \<Rightarrow> WriteError 404 ''not found''
      | ErrNoPublicKey \<Rightarrow> WriteError 422 ''recipient has no encryption key''
      | ErrDuplicateShare \<Rightarrow> WriteError 409 ''share already exists for this recipient''
      | ErrSelfShare \<Rightarrow> WriteError 400 ''cannot share a file with yourself''
      | ErrForbidden \<Rightarrow> WriteError 403 ''forbidden''
      | ErrExpired \<Rightarrow> WriteError 403 ''forbidden''
      | ErrRevoked \<Rightarrow> WriteError 403 ''forbidden''
      | _ \<Rightarrow> WriteInternalError)"

definition shareToDTO ::
  "codec \<Rightarrow> (time \<Rightarrow> string) \<Rightarrow> FileShareView \<Rightarrow> string \<Rightarrow> int64 \<Rightarrow> int64 \<Rightarrow> int32 \<Rightarrow> ShareResponse" where
  "shareToDTO cd format_time s downloadURL fileSize fileSizePlain chunkSize =
     \<lparr>sx_ShareID = cd_String cd (sh_ID s), sx_BlobID = cd_String cd (sh_BlobID s),
      sx_OwnerID = cd_String cd (sh_OwnerID s), sx_OwnerEmail = vw_OwnerEmail s,
      sx_RecipientEmail = vw_RecipientEmail s, sx_BlobFileName = vw_BlobFileName s,
      sx_BlobContentType = vw_BlobContentType s,
      sx_EphemeralPub = StdEncoding_EncodeToString (sh_EphemeralPub s),
      sx_WrappedFileKey = StdEncoding_EncodeToString (sh_WrappedFileKey s),
      sx_ExpiresAt = map_option format_time (sh_ExpiresAt s), sx_CreatedAt = sh_CreatedAt s,
      sx_DownloadURL = downloadURL, sx_FileSize = fileSize, sx_FileSizePlain = fileSizePlain,
      sx_ChunkSize = chunkSize\<rparr>"

text \<open>Every error is 404, so that a caller does not learn whether the address is registered.\<close>

definition getRecipientPublicKey :: "('r, 'o) Deps \<Rightarrow> request \<Rightarrow> (('r, 'o) gworld, string) handler" where
  "getRecipientPublicKey d rq =
     MustUserID rq (\<lambda>_.
       let email = rq_Query rq ''email'' in
       if email = [] then WriteError 400 ''email query param required''
       else call (at_storage (GetRecipientPublicKey (dp_Sharing d) email)) (\<lambda>_. WriteError 404 ''not found'')
         (\<lambda>pub. reply 200 (Json (StdEncoding_EncodeToString pub))))"

text \<open>The expiry of a new share must parse and lie in the future.\<close>

definition share_expiry ::
  "(string \<Rightarrow> time option) \<Rightarrow> string option \<Rightarrow> (time option \<Rightarrow> ('x world_scheme, 'b) handler)
   \<Rightarrow> ('x world_scheme, 'b) handler" where
  "share_expiry parse_time field k =
     (case field of None \<Rightarrow> k None
      | Some s \<Rightarrow> (case parse_time s of
          None \<Rightarrow> WriteError 400 ''invalid expires_at (must be RFC3339)''
        | Some t \<Rightarrow> (\<lambda>w. (if \<not> t > w_now w then WriteError 400 ''expires_at must be in the future'' else k (Some t)) w)))"

text \<open>The mail to the recipient that \<open>CreateShare\<close> starts is the second part of its result.\<close>

definition createShare ::
  "('r, 'o) Deps \<Rightarrow> (CreateShareRequest \<Rightarrow> validate_err option) \<Rightarrow> (string \<Rightarrow> time option) \<Rightarrow> (time \<Rightarrow> string)
   \<Rightarrow> uuid \<Rightarrow> request \<Rightarrow> CreateShareRequest option \<Rightarrow> (('r, 'o) gworld, ShareResponse) handler" where
  "createShare d validate parse_time format_time newID rq body =
     MustUserID rq (\<lambda>ownerID. uuid_param d rq ''blobID'' ''invalid blob_id'' (\<lambda>blobID.
       decoded body validate (\<lambda>q.
         mustDecodeB64 (qs_EphemeralPub q) ''ephemeral_pub'' ecSpkiLen ecSpkiLen (\<lambda>ephemeralPub.
         mustDecodeB64 (qs_WrappedFileKey q) ''wrapped_file_key'' aesKwWrappedLen aesKwWrappedLen (\<lambda>wrappedFileKey.
         share_expiry parse_time (qs_ExpiresAt q) (\<lambda>expiresAt.
           call (at_storage (CreateShare (dp_Sharing d) newID
               \<lparr>cp_BlobID = blobID, cp_OwnerID = ownerID,
                cp_RecipientEmail = share_email (dp_Sharing d) (qs_RecipientEmail q), cp_RecipientID = uuid_Nil,
                cp_EphemeralPub = ephemeralPub, cp_WrappedFileKey = wrappedFileKey, cp_ExpiresAt = expiresAt\<rparr>))
             writeSharingErr
             (\<lambda>(share, _). audited rq ownerID ''file_shared'' (Some blobID) (qs_RecipientEmail q)
                (reply 201 (Json (shareToDTO (dp_Codec d) format_time share [] 0 0 0))))))))))"

definition listSharedWithMe ::
  "('r, 'o) Deps \<Rightarrow> (time \<Rightarrow> string) \<Rightarrow> request \<Rightarrow> (('r, 'o) gworld, ShareResponse list) handler" where
  "listSharedWithMe d format_time rq =
     MustUserID rq (\<lambda>uid.
       call (at_storage (ListSharedWithMe uid)) writeSharingErr
         (\<lambda>shares. reply 200 (Json (map (\<lambda>s. shareToDTO (dp_Codec d) format_time s [] 0 0 0) shares))))"

definition listMyShares ::
  "('r, 'o) Deps \<Rightarrow> (time \<Rightarrow> string) \<Rightarrow> request \<Rightarrow> (('r, 'o) gworld, ShareResponse list) handler" where
  "listMyShares d format_time rq =
     MustUserID rq (\<lambda>ownerID. uuid_param d rq ''blobID'' ''invalid blob_id'' (\<lambda>blobID.
       call (at_storage (ListMyShares blobID ownerID)) writeSharingErr
         (\<lambda>shares. reply 200 (Json (map (\<lambda>s. shareToDTO (dp_Codec d) format_time s [] 0 0 0) shares)))))"

text \<open>The download is logged for the owner of the file.\<close>

definition getSharedFile ::
  "('r, 'o) Deps \<Rightarrow> (time \<Rightarrow> string) \<Rightarrow> request \<Rightarrow> (('r, 'o) gworld, ShareResponse) handler" where
  "getSharedFile d format_time rq =
     MustUserID rq (\<lambda>uid. uuid_param d rq ''shareID'' ''invalid share_id'' (\<lambda>shareID.
       call (at_storage (GetSharedFile (dp_Sharing d) shareID uid)) writeSharingErr
         (\<lambda>result. let share = sf_Share result in
            audited rq (sh_OwnerID share) ''file_downloaded_via_share'' (Some (sh_BlobID share)) (vw_BlobFileName share)
              (reply 200 (Json (shareToDTO (dp_Codec d) format_time share (sf_DownloadURL result) (sf_FileSize result)
                 (sf_FileSizePlain result) (sf_ChunkSize result)))))))"

definition revokeShare :: "('r, 'o) Deps \<Rightarrow> request \<Rightarrow> (('r, 'o) gworld, unit) handler" where
  "revokeShare d rq =
     MustUserID rq (\<lambda>ownerID. uuid_param d rq ''shareID'' ''invalid share_id'' (\<lambda>shareID.
       call (at_storage (RevokeShare shareID ownerID)) writeSharingErr
         (\<lambda>_. audited rq ownerID ''file_share_revoked'' (Some shareID) [] (reply 204 NoBody))))"

section \<open>favorites.go\<close>

record FavoritesResponse =
  rk_Blobs :: "SearchBlobItem list"
  rk_Folders :: "FolderItem list"

definition favoritesAdd :: "('r, 'o) Deps \<Rightarrow> string \<Rightarrow> request \<Rightarrow> (('r, 'o) gworld, unit) handler" where
  "favoritesAdd d resourceType rq =
     MustUserID rq (\<lambda>uid. uuid_param d rq ''id'' ''invalid id'' (\<lambda>i.
       call (if resourceType = ''blob'' then AddBlob uid i
             else if resourceType = ''folder'' then AddFolder uid i else ret ())
         (\<lambda>_. WriteInternalError) (\<lambda>_. reply 204 NoBody)))"

definition favoritesRemove :: "('r, 'o) Deps \<Rightarrow> string \<Rightarrow> request \<Rightarrow> (('r, 'o) gworld, unit) handler" where
  "favoritesRemove d resourceType rq =
     MustUserID rq (\<lambda>uid. uuid_param d rq ''id'' ''invalid id'' (\<lambda>i.
       call (if resourceType = ''blob'' then RemoveBlob uid i
             else if resourceType = ''folder'' then RemoveFolder uid i else ret ())
         (\<lambda>_. WriteInternalError) (\<lambda>_. reply 204 NoBody)))"

definition favoriteBlobToDTO :: "codec \<Rightarrow> FavoriteBlob \<Rightarrow> SearchBlobItem" where
  "favoriteBlobToDTO cd b =
     \<lparr>si_BlobID = cd_String cd (bl_ID b), si_FolderID = map_option (cd_String cd) (bl_FolderID b),
      si_FolderName = fb_FolderName b, si_FileName = bl_FileName b, si_ContentType = bl_ContentType b,
      si_FileSize = bl_FileSize b, si_FileSizePlain = bl_FileSizePlain b, si_ChunkSize = bl_ChunkSize b,
      si_CreatedAt = bl_CreatedAt b, si_EncryptedFileKey = StdEncoding_EncodeToString (bl_EncryptedFileKey b)\<rparr>"

definition favoritesList :: "('r, 'o) Deps \<Rightarrow> request \<Rightarrow> (('r, 'o) gworld, FavoritesResponse) handler" where
  "favoritesList d rq =
     MustUserID rq (\<lambda>uid.
       call (ListBlobs_fav uid) (\<lambda>_. WriteInternalError) (\<lambda>blobs.
         call (ListFolders_fav uid) (\<lambda>_. WriteInternalError) (\<lambda>fs.
           reply 200 (Json \<lparr>rk_Blobs = map (favoriteBlobToDTO (dp_Codec d)) blobs,
                            rk_Folders = map (folderToDTO (dp_Codec d)) fs\<rparr>))))"

section \<open>health.go\<close>

definition health :: "('w, string) handler" where
  "health = reply 200 (Json ''ok'')"

end
