(* ===== verification/Router.thy ===== *)
theory Router
  imports Sharing_Handlers
begin

text \<open>
  \<open>NewRouter\<close> of \<open>router.go\<close>: the table of routes with the middleware in front of each handler. The
  router library matches a request against the patterns; which entry it picks is a parameter. What
  libraries and the database do for a handler is collected in \<open>platform\<close>, what a request draws at
  random in \<open>draws_of_request\<close>. The library's timeout of 30 minutes on \<open>/storage\<close> is not modelled.
\<close>

section \<open>Parameters\<close>

text \<open>Decoding of the JSON bodies, validation of the decoded values, and text formats.\<close>

record platform =
  json_Register :: "string \<Rightarrow> RegisterRequest option"
  json_LoginInit :: "string \<Rightarrow> LoginInitRequest option"
  json_LoginFinalize :: "string \<Rightarrow> LoginFinalizeRequest option"
  json_ResetRequest :: "string \<Rightarrow> string option"
  json_RecoveryData :: "string \<Rightarrow> string option"
  json_ResetConfirm :: "string \<Rightarrow> ResetPasswordConfirmRequest option"
  json_InitiateMultipart :: "string \<Rightarrow> InitiateMultipartRequest option"
  json_CompleteMultipart :: "string \<Rightarrow> CompleteMultipartRequest option"
  json_MoveBlob :: "string \<Rightarrow> MoveBlobRequest option"
  json_RenameBlob :: "string \<Rightarrow> RenameBlobRequest option"
  json_CreateFolder :: "string \<Rightarrow> CreateFolderRequest option"
  json_RenameFolder :: "string \<Rightarrow> RenameFolderRequest option"
  json_MoveFolder :: "string \<Rightarrow> MoveFolderRequest option"
  json_CreateShare :: "string \<Rightarrow> CreateShareRequest option"
  valid_Register :: "RegisterRequest \<Rightarrow> validate_err option"
  valid_LoginInit :: "LoginInitRequest \<Rightarrow> validate_err option"
  valid_LoginFinalize :: "LoginFinalizeRequest \<Rightarrow> validate_err option"
  valid_ResetRequest :: "string \<Rightarrow> validate_err option"
  valid_RecoveryData :: "string \<Rightarrow> validate_err option"
  valid_ResetConfirm :: "ResetPasswordConfirmRequest \<Rightarrow> validate_err option"
  valid_InitiateMultipart :: "InitiateMultipartRequest \<Rightarrow> validate_err option"
  valid_CompleteMultipart :: "CompleteMultipartRequest \<Rightarrow> validate_err option"
  valid_RenameBlob :: "RenameBlobRequest \<Rightarrow> validate_err option"
  valid_CreateFolder :: "CreateFolderRequest \<Rightarrow> validate_err option"
  valid_RenameFolder :: "RenameFolderRequest \<Rightarrow> validate_err option"
  valid_CreateShare :: "CreateShareRequest \<Rightarrow> validate_err option"
  sql_lower :: "string \<Rightarrow> string"
  sql_collate :: "string \<Rightarrow> string"
  parse_RFC3339 :: "string \<Rightarrow> time option"
  parse_RFC3339Nano :: "string \<Rightarrow> time option"
  format_RFC3339 :: "time \<Rightarrow> string"

record draws_of_request =
  rn_DeviceID :: uuid
  rn_NewID :: uuid
  rn_SessionID :: uuid
  rn_Bytes :: "bytes option"
  rn_Tokens :: draws
  rn_Second :: bool

text \<open>The answers of all handlers in one type.\<close>

datatype payload =
  PNone | PHealth string | PToken BaseTokenResponse | PLoginInit LoginInitResponse
| PLoginFinalize LoginFinalizeResponse | PRefresh RefreshResponse | PRecovery RecoveryDataResponse
| PSessions "SessionItem list" | PAudit "AuditEventItem list" | PUsage StorageUsage
| PPresign PresignGetResponse | PBlobs "BlobItem list" | PSearch SearchResponse
| PInitiate InitiateMultipartResponse | PFolder FolderItem | PFolders "FolderItem list"
| PTrash TrashListResponse | PPublicKey string | PShare ShareResponse | PShares "ShareResponse list"
| PFavorites FavoritesResponse

definition answer :: "('b \<Rightarrow> payload) \<Rightarrow> ('w, 'b) handler \<Rightarrow> ('w, payload) handler" where
  "answer f h w = (case h w of (r, w') \<Rightarrow>
     (\<lparr>rp_Status = rp_Status r, rp_Cookies = rp_Cookies r, rp_Body = map_body f (rp_Body r)\<rparr>, w'))"

abbreviation silent :: "('w, unit) handler \<Rightarrow> ('w, payload) handler" where
  "silent \<equiv> answer (\<lambda>_. PNone)"

type_synonym ('r, 'o) endpoint = "request \<Rightarrow> (('r, 'o) gworld, payload) handler"
type_synonym ('r, 'o) routes = "(string \<times> string \<times> ('r, 'o) endpoint) list"

section \<open>The table\<close>

definition auth_routes :: "('r, 'o) Deps \<Rightarrow> platform \<Rightarrow> draws_of_request \<Rightarrow> ('r, 'o) routes" where
  "auth_routes d pf rn =
     [(''POST'', ''/register'', \<lambda>rq. answer PToken (at_auth
         (register d (valid_Register pf) (rn_DeviceID rn) (rn_NewID rn) (rn_SessionID rn) (rn_Tokens rn) rq
            (DecodeJSON (json_Register pf) rq)))),
      (''POST'', ''/login/init'', \<lambda>rq. answer PLoginInit (at_auth
         (loginInit d (valid_LoginInit pf) (rn_Bytes rn) (rn_SessionID rn) (DecodeJSON (json_LoginInit pf) rq)))),
      (''POST'', ''/login/finalize'', \<lambda>rq. answer PLoginFinalize (at_auth
         (loginFinalize d (valid_LoginFinalize pf) (rn_DeviceID rn) (rn_SessionID rn) (rn_Tokens rn) rq
            (DecodeJSON (json_LoginFinalize pf) rq)))),
      (''POST'', ''/refresh'', \<lambda>rq. answer PRefresh (at_auth (refresh d (rn_Tokens rn) rq))),
      (''POST'', ''/logout'', \<lambda>rq. silent (at_auth (logout d rq))),
      (''POST'', ''/reset-password/request'', \<lambda>rq. silent (at_auth
         (requestPasswordReset d (valid_ResetRequest pf) (rn_NewID rn) (rn_Bytes rn) (DecodeJSON (json_ResetRequest pf) rq)))),
      (''POST'', ''/reset-password/recovery-data'', \<lambda>rq. answer PRecovery (at_auth
         (getRecoveryData (valid_RecoveryData pf) (DecodeJSON (json_RecoveryData pf) rq)))),
      (''POST'', ''/reset-password/confirm'', \<lambda>rq. silent (at_auth
         (resetPasswordConfirm d (valid_ResetConfirm pf) (DecodeJSON (json_ResetConfirm pf) rq))))]"

definition session_routes :: "('r, 'o) Deps \<Rightarrow> ('r, 'o) routes" where
  "session_routes d =
     [(''GET'', ''/'', \<lambda>rq. answer PSessions (at_auth (listSessions rq))),
      (''DELETE'', ''/'', \<lambda>rq. silent (at_auth (revokeOtherSessions d rq))),
      (''DELETE'', ''/{id}'', \<lambda>rq. silent (at_auth (revokeSession d rq)))]"

definition storage_routes :: "('r, 'o) Deps \<Rightarrow> platform \<Rightarrow> draws_of_request \<Rightarrow> ('r, 'o) routes" where
  "storage_routes d pf rn =
     [(''GET'', ''/usage'', \<lambda>rq. answer PUsage (storageGetUsage d rq)),
      (''POST'', ''/blobs/initiate-multipart'', \<lambda>rq. answer PInitiate
         (storageInitiateMultipart d (valid_InitiateMultipart pf) (rn_NewID rn) rq (DecodeJSON (json_InitiateMultipart pf) rq))),
      (''GET'', ''/blobs'', \<lambda>rq. answer PBlobs (storageListBlobs d rq)),
      (''POST'', ''/blobs/{blobID}/complete-multipart'', \<lambda>rq. silent
         (storageCompleteMultipart d (valid_CompleteMultipart pf) rq (DecodeJSON (json_CompleteMultipart pf) rq))),
      (''POST'', ''/blobs/{blobID}/presign-get'', \<lambda>rq. answer PPresign (storagePresignGet d rq)),
      (''DELETE'', ''/blobs/{blobID}/abort'', \<lambda>rq. silent (storageAbortUpload d rq)),
      (''DELETE'', ''/blobs/{blobID}'', \<lambda>rq. silent (storageDeleteBlob d rq)),
      (''PATCH'', ''/blobs/{blobID}'', \<lambda>rq. silent
         (renameBlob d (valid_RenameBlob pf) rq (DecodeJSON (json_RenameBlob pf) rq))),
      (''PATCH'', ''/blobs/{blobID}/folder'', \<lambda>rq. silent (moveBlob d rq (DecodeJSON (json_MoveBlob pf) rq))),
      (''GET'', ''/blobs/{blobID}/shares'', \<lambda>rq. answer PShares (listMyShares d (format_RFC3339 pf) rq)),
      (''POST'', ''/blobs/{blobID}/shares'', \<lambda>rq. answer PShare
         (createShare d (valid_CreateShare pf) (parse_RFC3339 pf) (format_RFC3339 pf) (rn_NewID rn) rq
            (DecodeJSON (json_CreateShare pf) rq))),
      (''GET'', ''/search'', \<lambda>rq. answer PSearch (storageSearch d (rn_Second rn) (sql_lower pf) (sql_collate pf) rq)),
      (''POST'', ''/folders'', \<lambda>rq. answer PFolder
         (createFolder d (valid_CreateFolder pf) (rn_NewID rn) rq (DecodeJSON (json_CreateFolder pf) rq))),
      (''GET'', ''/folders'', \<lambda>rq. answer PFolders (listFolders d (sql_collate pf) rq)),
      (''GET'', ''/folders/{folderID}'', \<lambda>rq. answer PFolder (getFolder d rq)),
      (''PATCH'', ''/folders/{folderID}'', \<lambda>rq. answer PFolder
         (renameFolder d (valid_RenameFolder pf) rq (DecodeJSON (json_RenameFolder pf) rq))),
      (''PATCH'', ''/folders/{folderID}/move'', \<lambda>rq. silent (moveFolder d rq (DecodeJSON (json_MoveFolder pf) rq))),
      (''DELETE'', ''/folders/{folderID}'', \<lambda>rq. silent (deleteFolder d rq))]"

definition trash_routes :: "('r, 'o) Deps \<Rightarrow> platform \<Rightarrow> draws_of_request \<Rightarrow> ('r, 'o) routes" where
  "trash_routes d pf rn =
     [(''GET'', ''/'', \<lambda>rq. answer PTrash (trashList d (rn_Second rn) (sql_collate pf) rq)),
      (''DELETE'', ''/'', \<lambda>rq. silent (trashEmpty d rq)),
      (''POST'', ''/blobs/{blobID}/restore'', \<lambda>rq. silent (trashRestoreBlob d rq)),
      (''DELETE'', ''/blobs/{blobID}'', \<lambda>rq. silent (trashDeleteBlob d rq)),
      (''POST'', ''/folders/{folderID}/restore'', \<lambda>rq. silent (trashRestoreFolder d rq)),
      (''DELETE'', ''/folders/{folderID}'', \<lambda>rq. silent (trashDeleteFolder d rq))]"

definition share_routes :: "('r, 'o) Deps \<Rightarrow> platform \<Rightarrow> ('r, 'o) routes" where
  "share_routes d pf =
     [(''GET'', ''/incoming'', \<lambda>rq. answer PShares (listSharedWithMe d (format_RFC3339 pf) rq)),
      (''GET'', ''/{shareID}'', \<lambda>rq. answer PShare (getSharedFile d (format_RFC3339 pf) rq)),
      (''DELETE'', ''/{shareID}'', \<lambda>rq. silent (revokeShare d rq))]"

definition favorite_routes :: "('r, 'o) Deps \<Rightarrow> ('r, 'o) routes" where
  "favorite_routes d =
     [(''GET'', ''/'', \<lambda>rq. answer PFavorites (favoritesList d rq)),
      (''POST'', ''/blobs/{id}'', \<lambda>rq. silent (favoritesAdd d ''blob'' rq)),
      (''DELETE'', ''/blobs/{id}'', \<lambda>rq. silent (favoritesRemove d ''blob'' rq)),
      (''POST'', ''/folders/{id}'', \<lambda>rq. silent (favoritesAdd d ''folder'' rq)),
      (''DELETE'', ''/folders/{id}'', \<lambda>rq. silent (favoritesRemove d ''folder'' rq))]"

text \<open>\<open>r.Route\<close> puts a prefix before the patterns, \<open>r.With\<close> and \<open>r.Use\<close> a middleware before the handlers.\<close>

definition Route :: "string \<Rightarrow> ('r, 'o) routes \<Rightarrow> ('r, 'o) routes" where
  "Route pre rs = map (\<lambda>(m, p, h). (m, pre @ p, h)) rs"

definition Use :: "(('r, 'o) endpoint \<Rightarrow> ('r, 'o) endpoint) \<Rightarrow> ('r, 'o) routes \<Rightarrow> ('r, 'o) routes" where
  "Use mw rs = map (\<lambda>(m, p, h). (m, p, mw h)) rs"

definition loginRL :: "('r, 'o) Deps \<Rightarrow> ('r, 'o) endpoint \<Rightarrow> ('r, 'o) endpoint" where
  "loginRL d = RateLimitMiddleware (as_Redis (dp_Auth d)) (dp_LoginRateLimiter d) realIP"

definition publicKeyRL :: "('r, 'o) Deps \<Rightarrow> ('r, 'o) endpoint \<Rightarrow> ('r, 'o) endpoint" where
  "publicKeyRL d = RateLimitMiddleware (as_Redis (dp_Auth d)) (dp_PublicKeyRateLimiter d) (userIDKey (cd_String (dp_Codec d)))"

definition gate :: "('r, 'o) Deps \<Rightarrow> ('r, 'o) endpoint \<Rightarrow> ('r, 'o) endpoint" where
  "gate d = AuthMiddleware (as_Jwt (dp_Auth d)) (dp_Codec d) (as_Tokens (dp_Auth d)) (as_Redis (dp_Auth d))"

definition protected_routes :: "('r, 'o) Deps \<Rightarrow> platform \<Rightarrow> draws_of_request \<Rightarrow> ('r, 'o) routes" where
  "protected_routes d pf rn =
     Route ''/sessions'' (session_routes d)
     @ Route ''/storage'' (storage_routes d pf rn)
     @ Route ''/trash'' (trash_routes d pf rn)
     @ Route ''/shares'' (share_routes d pf)
     @ Use (publicKeyRL d) [(''GET'', ''/users/public-key'', \<lambda>rq. answer PPublicKey (getRecipientPublicKey d rq))]
     @ [(''GET'', ''/audit'', \<lambda>rq. answer PAudit (at_auth (listAuditEvents (parse_RFC3339Nano pf) rq)))]
     @ Route ''/favorites'' (favorite_routes d)"

definition NewRouter :: "('r, 'o) Deps \<Rightarrow> platform \<Rightarrow> draws_of_request \<Rightarrow> ('r, 'o) routes" where
  "NewRouter d pf rn =
     [(''GET'', ''/health'', \<lambda>rq. answer PHealth health)]
     @ Route ''/auth'' (Use (loginRL d) (auth_routes d pf rn))
     @ Use (gate d) (protected_routes d pf rn)"

text \<open>
  \<open>chi\<close> is the router library: for the method and path of a request and the patterns registered it
  returns the index of an entry with the values of the path parameters, or a status for a request
  that no pattern matches. A request is served by the entry picked.
\<close>

type_synonym chi = "string \<Rightarrow> string \<Rightarrow> (string \<times> string) list \<Rightarrow> nat + (nat \<times> (string \<Rightarrow> string))"

definition chi_contract :: "chi \<Rightarrow> bool" where
  "chi_contract chi \<longleftrightarrow> (\<forall>meth path ps i params. chi meth path ps = Inr (i, params) \<longrightarrow> i < length ps)"

definition ServeHTTP ::
  "chi \<Rightarrow> ('r, 'o) Deps \<Rightarrow> platform \<Rightarrow> draws_of_request \<Rightarrow> string \<Rightarrow> string \<Rightarrow> ('r, 'o) endpoint" where
  "ServeHTTP chi d pf rn meth path rq =
     (case chi meth path (map (\<lambda>(m, p, h). (m, p)) (NewRouter d pf rn)) of
        Inl st \<Rightarrow> reply st NoBody
      | Inr (i, params) \<Rightarrow> snd (snd (NewRouter d pf rn ! i)) (rq\<lparr>rq_Param := params\<rparr>))"

end
