(* ===== verification/Server_Routes.thy ===== *)
theory Server_Routes
  imports Router
begin

text \<open>
  The interface between the routes and the tables. \<open>server_tables\<close> lists what a predicate on the
  tables must survive, statement by statement, to survive every request that an authenticated user
  sends to a protected route, whatever fails. It extends the interface of the storage operations by
  the statements of sharing, favorites and device sessions.
\<close>

section \<open>Handlers and middleware\<close>

lemma serves_answer [serves_rules]: "serves P h \<Longrightarrow> serves P (answer f h)"
  by (simp add: serves_def answer_def split_beta)

lemma serves_uuid_param [serves_rules]: "(\<And>i. serves P (k i)) \<Longrightarrow> serves P (uuid_param d rq name msg k)"
  unfolding uuid_param_def by (intro serves_rules)

lemma serves_uuid_field [serves_rules]: "(\<And>i. serves P (k i)) \<Longrightarrow> serves P (uuid_field d field msg k)"
  unfolding uuid_field_def by (intro serves_rules)

lemma serves_audited [serves_rules]: "serves (on_db I) h \<Longrightarrow> serves (on_db I) (audited rq u ev i n h)"
  unfolding audited_def by (rule serves_logged_async)

lemma serves_audited_all [serves_rules]:
  "serves (on_db I) h \<Longrightarrow> serves (on_db I) (foldr (\<lambda>x. audited rq u ev (g x) (n x)) xs h)"
  by (induction xs) (auto intro: serves_audited)

lemma serves_error_writers [serves_rules]:
  "serves P (writeStorageErr e)" "serves P (writeFolderErr e)" "serves P (writeSharingErr e')" "serves P (writeAuthErr e'')"
proof -
  show "serves P (writeStorageErr e)" by (cases e) (auto simp: writeStorageErr_def intro: serves_rules)
  show "serves P (writeFolderErr e)" by (cases e) (auto simp: writeFolderErr_def intro: serves_rules)
  show "serves P (writeSharingErr e')" by (cases e') (auto simp: writeSharingErr_def intro: serves_rules)
  show "serves P (writeAuthErr e'')" by (cases e'') (auto simp: writeAuthErr_def intro: serves_rules)
qed

lemma serves_share_expiry [serves_rules]: "(\<And>t. serves P (k t)) \<Longrightarrow> serves P (share_expiry parse_time field k)"
  unfolding share_expiry_def
  by (rule serves_option, blast, rule serves_option, rule serves_WriteError, rule serves_world, rule serves_if,
      rule serves_WriteError)

lemma keeps_Allow [keeps_rules]: "keeps (on_db I) (Allow rd l k)"
  unfolding Allow_def Let_def by (intro keeps_rules keeps_redis_call)

lemma serves_RateLimit: "serves (on_db I) (h rq) \<Longrightarrow> serves (on_db I) (RateLimitMiddleware rd l key h rq)"
  unfolding RateLimitMiddleware_def by (intro serves_rules keeps_rules)

section \<open>Operations that only read\<close>

lemma keeps_errgroup2 [keeps_rules]: "keeps I m \<Longrightarrow> keeps I n \<Longrightarrow> keeps I (errgroup2 b m n)"
  unfolding errgroup2_def by (intro keeps_if keeps_attempt) (auto split: sum.splits intro: keeps_rules)

lemma storage_reads_keep [keeps_rules]:
  "keeps (on_db I) (GetStorageUsage s u)" "keeps (on_db I) (PresignGet s u b)" "keeps (on_db I) (ListBlobs u)"
  "keeps (on_db I) (ListBlobsInFolder u r)" "keeps (on_db I) (GetFolder u f)" "keeps (on_db I) (ListFolders collate u r)"
  "keeps (on_db I) (ListTrash second collate u)" "keeps (on_db I) (Search second lower collate p)"
proof -
  have "keeps (on_db I) (GetUserStorageUsed_pg u)"
    unfolding GetUserStorageUsed_pg_def by (rule keeps_db_call) (auto simp: Let_def split: if_splits)
  then show "keeps (on_db I) (GetStorageUsage s u)" unfolding GetStorageUsage_def by (intro keeps_rules)
  have q: "keeps (on_db I) (requireFolder f u)" for f unfolding requireFolder_def by (intro keeps_rules)
  show "keeps (on_db I) (PresignGet s u b)" "keeps (on_db I) (ListBlobs u)" "keeps (on_db I) (GetFolder u f)"
    unfolding PresignGet_def GetBlobMeta_pg_def ListBlobs_def ListBlobs_pg_def GetFolder_def by (intro keeps_rules)+
  show "keeps (on_db I) (ListBlobsInFolder u r)" "keeps (on_db I) (ListFolders collate u r)"
    unfolding ListBlobsInFolder_def ListBlobsInFolder_pg_def ListFolders_def ListFolders_pg_def by (intro keeps_rules q)+
  show "keeps (on_db I) (ListTrash second collate u)" "keeps (on_db I) (Search second lower collate p)"
    unfolding ListTrash_def ListTrashedBlobs_pg_def ListTrashedFolders_pg_def Search_def SearchBlobs_pg_def SearchFolders_pg_def
    by (intro keeps_rules)+
qed

lemma sharing_reads_keep [keeps_rules]:
  "keeps (on_db I) (GetRecipientPublicKey h e)" "keeps (on_db I) (ListSharedWithMe u)" "keeps (on_db I) (ListMyShares b u)"
  "keeps (on_db I) (ListBlobs_fav u)" "keeps (on_db I) (ListFolders_fav u)"
  unfolding GetRecipientPublicKey_def ListSharedWithMe_def ListSharedWithUser_pg_def ListMyShares_def ListSharesForBlob_pg_def
    ListBlobs_fav_def ListFavoriteBlobs_pg_def ListFolders_fav_def ListFavoriteFolders_pg_def
  by (intro keeps_rules)+

lemma keeps_GetSharedFile [keeps_rules]: "keeps (on_db I) (GetSharedFile h i u)"
  unfolding GetSharedFile_def GetShare_pg_def GetBlobInfo_pg_def
  by (rule keeps_bind, intro keeps_rules, rule keeps_option, rule keeps_fail, rule keeps_world) (intro keeps_rules)

section \<open>The interface\<close>

locale server_tables = storage_tables +
  assumes share_insert: "I now d \<Longrightarrow> U (sh_OwnerID s) \<Longrightarrow> owns (sh_OwnerID s) (sh_BlobID s) d \<Longrightarrow>
      sh_RecipientID s \<noteq> sh_OwnerID s \<Longrightarrow> insert_share s d = Inr (x, d') \<Longrightarrow> I now d'"
    and share_revoke: "I now d \<Longrightarrow> U u \<Longrightarrow> I now (revoke_share i u now d)"
    and mark_insert: "I now d \<Longrightarrow> U (fv_user_id v) \<Longrightarrow> (fv_blob_id v = None) \<noteq> (fv_folder_id v = None) \<Longrightarrow>
      insert_favorite v d = Inr (x, d') \<Longrightarrow> I now d'"
    and mark_remove: "I now d \<Longrightarrow> U u \<Longrightarrow> I now (d\<lparr>favorites := filter (\<lambda>v. \<not> (fv_user_id v = u \<and> q v)) (favorites d)\<rparr>)"
    and session_revoke: "I now d \<Longrightarrow> U u \<Longrightarrow> RevokeSession_tx i u now d = Inr (y, d') \<Longrightarrow> I now d'"
    and others_revoke: "I now d \<Longrightarrow> U u \<Longrightarrow> RevokeOtherSessions_tx u i now d = Inr (z, d') \<Longrightarrow> I now d'"
begin

lemma sharing_writes_keep:
  "U (cp_OwnerID p) \<Longrightarrow> keeps (on_db I) (CreateShare h newID p)" "U u \<Longrightarrow> keeps (on_db I) (RevokeShare i u)"
proof -
  show "keeps (on_db I) (CreateShare h newID p)" if "U (cp_OwnerID p)"
    by (rule CreateShare_keeps_by, rule share_insert) (use that in \<open>simp_all add: share_row_def\<close>)
  show "keeps (on_db I) (RevokeShare i u)" if "U u"
    unfolding RevokeShare_def RevokeShare_pg_def
    by (intro keeps_rules keeps_db_call) (use that in \<open>auto intro: share_revoke\<close>)
qed

lemma favorite_writes_keep:
  assumes "U u"
  shows "keeps (on_db I) (AddBlob u b)" "keeps (on_db I) (RemoveBlob u b)"
    "keeps (on_db I) (AddFolder u f)" "keeps (on_db I) (RemoveFolder u f)"
proof -
  show "keeps (on_db I) (AddBlob u b)" "keeps (on_db I) (AddFolder u f)"
    unfolding favorite_defs by (rule keeps_db_call, erule mark_insert [rotated 3]; simp add: assms)+
  have rm: "keeps (on_db I) (db_call (\<lambda>_ d. Inr ((), d\<lparr>favorites := filter (\<lambda>v. \<not> (fv_user_id v = u \<and> q v)) (favorites d)\<rparr>)))" for q
    by (rule keeps_db_call, elim Inr_inject [elim_format], elim Pair_inject, hypsubst) (rule mark_remove [OF _ assms])
  show "keeps (on_db I) (RemoveBlob u b)" "keeps (on_db I) (RemoveFolder u f)"
    unfolding favorite_defs by (rule rm)+
qed

lemma session_writes_keep:
  assumes "U u"
  shows "keeps (on_db I) (RevokeDeviceSession s u i)" "keeps (on_db I) (RevokeOtherDeviceSessions s u i)"
proof -
  have "keeps (on_db I) (RevokeSession_pg i u)"
    unfolding RevokeSession_pg_def by (intro keeps_rules keeps_db_call) (rule session_revoke [OF _ assms])
  then show "keeps (on_db I) (RevokeDeviceSession s u i)"
    unfolding RevokeDeviceSession_def by (intro keeps_rules)
  have "keeps (on_db I) (RevokeOtherSessions_pg u i)"
    unfolding RevokeOtherSessions_pg_def by (rule keeps_db_call) (rule others_revoke [OF _ assms])
  then show "keeps (on_db I) (RevokeOtherDeviceSessions s u i)"
    unfolding RevokeOtherDeviceSessions_def by (intro keeps_rules)
qed

text \<open>The handlers, for a request of a user that the predicate allows for.\<close>

lemma storage_handlers_serve:
  assumes u: "rq_ctxUserID rq = Some u" and "U u"
  shows "serves (on_db I) (storageGetUsage d rq)" "serves (on_db I) (storagePresignGet d rq)"
    "serves (on_db I) (storageDeleteBlob d rq)" "serves (on_db I) (storageListBlobs d rq)"
    "serves (on_db I) (renameBlob d vr rq qr)" "serves (on_db I) (storageSearch d second lower collate rq)"
    "serves (on_db I) (storageInitiateMultipart d vi i rq qi)" "serves (on_db I) (storageCompleteMultipart d vc rq qc)"
    "serves (on_db I) (storageAbortUpload d rq)"
  unfolding storageGetUsage_def storagePresignGet_def storageDeleteBlob_def storageListBlobs_def renameBlob_def storageSearch_def
    storageInitiateMultipart_def storageCompleteMultipart_def storageAbortUpload_def Let_def
  by (intro serves_as_user [OF u] serves_rules keeps_at_storage keeps_rules DeleteBlob_keeps RenameBlob_keeps
      InitiateMultipartUpload_keeps CompleteMultipartUpload_keeps AbortUpload_keeps assms(2); simp add: assms(2))+

lemma folder_handlers_serve:
  assumes u: "rq_ctxUserID rq = Some u" and "U u"
  shows "serves (on_db I) (createFolder d vc i rq qc)" "serves (on_db I) (getFolder d rq)"
    "serves (on_db I) (listFolders d collate rq)" "serves (on_db I) (renameFolder d vr rq qr)"
    "serves (on_db I) (moveFolder d rq qm)" "serves (on_db I) (deleteFolder d rq)" "serves (on_db I) (moveBlob d rq qb)"
  unfolding createFolder_def getFolder_def listFolders_def renameFolder_def moveFolder_def deleteFolder_def moveBlob_def Let_def
  by (intro serves_as_user [OF u] serves_rules keeps_at_storage keeps_rules CreateFolder_keeps RenameFolder_keeps
      MoveFolder_keeps DeleteFolder_keeps MoveBlob_keeps assms(2); simp add: assms(2))+

lemma trash_handlers_serve:
  assumes u: "rq_ctxUserID rq = Some u" and "U u"
  shows "serves (on_db I) (trashList d second collate rq)" "serves (on_db I) (trashRestoreBlob d rq)"
    "serves (on_db I) (trashDeleteBlob d rq)" "serves (on_db I) (trashRestoreFolder d rq)"
    "serves (on_db I) (trashDeleteFolder d rq)" "serves (on_db I) (trashEmpty d rq)"
  unfolding trashList_def trashRestoreBlob_def trashDeleteBlob_def trashRestoreFolder_def trashDeleteFolder_def trashEmpty_def
  by (intro serves_as_user [OF u] serves_rules keeps_at_storage keeps_rules RestoreBlob_keeps HardDeleteBlob_keeps
      RestoreFolder_keeps HardDeleteFolder_keeps EmptyTrash_keeps assms(2))+

lemma sharing_handlers_serve:
  assumes u: "rq_ctxUserID rq = Some u" and "U u"
  shows "serves (on_db I) (getRecipientPublicKey d rq)" "serves (on_db I) (createShare d vs pt ft i rq qs)"
    "serves (on_db I) (listSharedWithMe d ft rq)" "serves (on_db I) (listMyShares d ft rq)"
    "serves (on_db I) (getSharedFile d ft rq)" "serves (on_db I) (revokeShare d rq)"
    "serves (on_db I) (favoritesAdd d ty rq)" "serves (on_db I) (favoritesRemove d ty rq)" "serves (on_db I) (favoritesList d rq)"
  unfolding getRecipientPublicKey_def createShare_def listSharedWithMe_def listMyShares_def getSharedFile_def revokeShare_def
    favoritesAdd_def favoritesRemove_def favoritesList_def Let_def
  by (intro serves_as_user [OF u] serves_rules keeps_at_storage keeps_rules sharing_writes_keep favorite_writes_keep
      assms(2); simp add: assms(2))+

lemma session_handlers_serve:
  assumes u: "rq_ctxUserID rq = Some u" and "U u"
  shows "serves (on_db I) (listSessions rq)" "serves (on_db I) (revokeSession d rq)"
    "serves (on_db I) (revokeOtherSessions d rq)" "serves (on_db I) (listAuditEvents pt rq)"
  unfolding listSessions_def revokeSession_def revokeOtherSessions_def listAuditEvents_def Let_def
  by (intro serves_as_user [OF u] serves_rules auth_reads_keep ListEvents_keeps session_writes_keep assms(2))+

text \<open>Hence every protected route.\<close>

lemma protected_routes_serve:
  assumes "(m, p, h) \<in> set (protected_routes d pf rn)" and "rq_ctxUserID rq = Some u" and "U u"
  shows "serves (on_db I) (h rq)"
proof -
  note rules = serves_answer serves_at_auth serves_RateLimit storage_handlers_serve [OF assms(2,3)]
    folder_handlers_serve [OF assms(2,3)] trash_handlers_serve [OF assms(2,3)] sharing_handlers_serve [OF assms(2,3)]
    session_handlers_serve [OF assms(2,3)]
  from assms(1) show ?thesis
    unfolding protected_routes_def session_routes_def storage_routes_def trash_routes_def share_routes_def favorite_routes_def
      Route_def Use_def publicKeyRL_def
    by (simp only: list.map append.simps list.set insert_iff empty_iff prod.case prod.inject simp_thms)
      (elim disjE conjE; hypsubst; intro rules)
qed

end

end
