(* ===== verification/Server_Invariant.thy ===== *)
theory Server_Invariant
  imports Server_Routes
begin

text \<open>
  The whole server as a state machine: requests to any route, background jobs, the audit worker,
  uploads of clients and the passing of time, in any order and with any faults. All tables stay
  consistent together.
\<close>

section \<open>The invariant\<close>

text \<open>The content of the account tables is consistent and continues \<open>d0\<close>; so are files, shares and favorites.\<close>

definition sound :: "db \<Rightarrow> time \<Rightarrow> db \<Rightarrow> bool" where
  "sound d0 now d \<longleftrightarrow> linked (\<lambda>_. True) now d \<and> auth_from d0 now d"

lemma auth_from_accounts: "accounts d' = accounts d \<Longrightarrow> auth_from d0 now d' = auth_from d0 now d"
  by (simp add: auth_from_def auth_ok_def users_ok_def devices_ok_def refresh_ok_def resets_ok_def user_exists_def
      history_def device_history_def refresh_history_def reset_history_def)

text \<open>What a statement on files keeps for every content of the accounts it keeps for all of them.\<close>

lemma sound_by:
  assumes "sound d0 now d" and "linked_as (\<lambda>_. True) (accounts d) now d \<Longrightarrow> linked_as (\<lambda>_. True) (accounts d) now d'"
  shows "sound d0 now d'"
  using assms auth_from_accounts [of d' d d0 now] by (simp add: sound_def linked_as_def del: accounts_def)

lemma linked_frame:
  assumes "linked Q now d" and "auth_frame d d'"
  shows "linked Q now d'"
proof -
  have "share_ok d s \<Longrightarrow> share_ok d' s" for s
    using assms(2) by (auto simp: share_ok_def auth_frame_def)
  moreover have "favorite_ok d v \<Longrightarrow> favorite_ok d' v" for v
    using assms(2) by (auto simp: favorite_ok_def auth_frame_def resource_exists_def folder_ref_def folder_exists_def
        split: option.splits)
  ultimately show ?thesis
    using assms by (auto simp: linked_def auth_frame_def wf_db_def shares_ok_def favorites_ok_def)
qed

interpretation links_auth: auth_tables "linked Q" for Q
  by unfold_locales (rule linked_frame)

lemma sound_auth:
  assumes "sound d0 now d" and "auth_frame d d'" and "auth_ok d \<Longrightarrow> auth_ok d' \<and> history d d'"
  shows "sound d0 now d'"
  using assms linked_frame auth_fromI unfolding sound_def by blast

interpretation sound: server_tables "sound d0" "\<lambda>_. True" for d0
proof unfold_locales
  fix now d u d' p g
  assume s: "sound d0 now d" and d': "d' = d\<lparr>stored_blobs := map (\<lambda>b. if p b then g b else b) (stored_blobs d)\<rparr>"
    and l: "\<And>b. p b \<Longrightarrow> bl_UserID b = u"
      "\<And>b. bl_ID (g b) = bl_ID b \<and> bl_ObjectKey (g b) = bl_ObjectKey b \<and> bl_UserID (g b) = bl_UserID b"
      "\<And>b. b \<in> set (stored_blobs d) \<Longrightarrow> p b \<Longrightarrow> blob_ok now (folders d) b \<Longrightarrow> blob_ok now (folders d) (g b)"
  from s show "sound d0 now d'" by (rule sound_by) (rule links.blobs_update [OF _ TrueI d' l])
next
  fix now d u pf h n d'
  assume s: "sound d0 now d" and up: "update_folders pf h d = Inr (n, d')"
    and l: "\<And>f. pf f \<Longrightarrow> fo_UserID f = u"
      "\<And>f. fo_ID (h f) = fo_ID f \<and> fo_UserID (h f) = fo_UserID f \<and> fo_DeletedAt (h f) = fo_DeletedAt f"
      "\<And>f. f \<in> set (folders d) \<Longrightarrow> pf f \<Longrightarrow> ref_ok (folders d) (fo_ParentID (h f)) (fo_UserID f) (fo_DeletedAt f)"
  from s show "sound d0 now d'" by (rule sound_by) (rule links.folders_update [OF _ TrueI up l])
next
  fix now d s x d'
  assume l: "sound d0 now d" and o: "owns (sh_OwnerID s) (sh_BlobID s) d" and n: "sh_RecipientID s \<noteq> sh_OwnerID s"
    and ins: "insert_share s d = Inr (x, d')"
  have "accounts d' = accounts d" using ins by (auto simp: insert_share_def split: if_splits)
  moreover have "linked (\<lambda>_. True) now d'"
    using o l n [symmetric] by (auto simp: owns_def sound_def intro: insert_share_linked [where Q = "\<lambda>_. True", OF _ ins TrueI])
  ultimately show "sound d0 now d'"
    using l auth_from_accounts [of d' d d0 now] by (simp add: sound_def del: accounts_def)
next
  fix now d u i
  assume l: "sound d0 now d"
  have "accounts (revoke_share i u now d) = accounts d" by (simp add: revoke_share_def)
  then have "auth_from d0 now (revoke_share i u now d)"
    using l auth_from_accounts [of "revoke_share i u now d" d d0 now] unfolding sound_def by blast
  with l revoke_share_linked [of "\<lambda>_. True" now d i u]
  show "sound d0 now (revoke_share i u now d)" by (simp add: sound_def)
next
  fix now d v x d'
  assume l: "sound d0 now d" and "(fv_blob_id v = None) \<noteq> (fv_folder_id v = None)" and ins: "insert_favorite v d = Inr (x, d')"
  then have "linked (\<lambda>_. True) now d'" by (auto simp: sound_def intro: insert_favorite_linked)
  moreover have "accounts d' = accounts d" using ins by (auto simp: insert_favorite_def split: if_splits)
  ultimately show "sound d0 now d'" using l auth_from_accounts [of d' d d0 now] by (simp add: sound_def del: accounts_def)
next
  fix now d u q
  assume l: "sound d0 now d"
  let ?d = "d\<lparr>favorites := filter (\<lambda>v. \<not> (fv_user_id v = u \<and> q v)) (favorites d)\<rparr>"
  have "accounts ?d = accounts d" by simp
  moreover have "linked (\<lambda>_. True) now ?d" using l by (intro remove_favorite_linked) (simp add: sound_def)
  ultimately show "sound d0 now ?d" using l auth_from_accounts [of ?d d d0 now] by (simp add: sound_def del: accounts_def)
next
  fix now d u i y d'
  assume s: "sound d0 now d" and tx: "RevokeSession_tx i u now d = Inr (y, d')"
  have "auth_frame d d'" using framed_revoke(2) tx by (auto simp: framed_def)
  with s show "sound d0 now d'" by (rule sound_auth) (rule keeps_tablesD [OF tables_RevokeSession tx])
next
  fix now d u i z d'
  assume s: "sound d0 now d" and tx: "RevokeOtherSessions_tx u i now d = Inr (z, d')"
  have "auth_frame d d'" using framed_revoke(3) tx by (auto simp: framed_def)
  with s show "sound d0 now d'" by (rule sound_auth) (rule keeps_tablesD [OF tables_RevokeOthers tx])
next
  show "wf_db now d" if "sound d0 now d" for now d using that by (simp add: sound_def linked_def)
next
  fix now d u q gone d'
  assume s: "sound d0 now d" and q: "\<And>b. q b \<Longrightarrow> bl_UserID b = u" and del: "delete_blobs q d = Inr (gone, d')"
  from s show "sound d0 now d'" by (rule sound_by) (rule links.blobs_delete [OF _ TrueI q del])
next
  fix now d b x d'
  assume s: "sound d0 now d" and ins: "insert_blob b d = Inr (x, d')" and ok: "blob_ok now (folders d) b"
  from s show "sound d0 now d'" by (rule sound_by) (rule links.blob_insert [OF _ TrueI ins ok])
next
  fix now d f x d'
  assume s: "sound d0 now d" and ins: "insert_folder f d = Inr (x, d')"
    and ok: "ref_ok (folders d) (fo_ParentID f) (fo_UserID f) (fo_DeletedAt f)" "past now (fo_DeletedAt f)"
  from s show "sound d0 now d'" by (rule sound_by) (rule links.folder_insert [OF _ TrueI ins ok])
next
  fix now d u i tr d'
  assume s: "sound d0 now d" and tx: "TrashFolder_tx i u now d = Inr (tr, d')"
  from s show "sound d0 now d'" by (rule sound_by) (rule links.trash_folder [OF _ TrueI tx])
next
  fix now d u i rn d'
  assume s: "sound d0 now d" and tx: "RestoreFolder_tx i u d = Inr (rn, d')"
  from s show "sound d0 now d'" by (rule sound_by) (rule links.restore_folder [OF _ TrueI tx])
next
  fix now d u i rk d'
  assume s: "sound d0 now d" and tx: "HardDeleteFolder_tx i u d = Inr (rk, d')"
  from s show "sound d0 now d'" by (rule sound_by) (rule links.remove_folder [OF _ TrueI tx])
next
  fix now d u re d'
  assume s: "sound d0 now d" and tx: "EmptyTrashedFolders_tx u d = Inr (re, d')"
  from s show "sound d0 now d'" by (rule sound_by) (rule links.empty_folders [OF _ TrueI tx])
qed

section \<open>The public routes\<close>

lemma keeps_conj:
  fixes m :: "('x world_scheme, 'e, 'a) eff"
  assumes "keeps (on_db I) m" and "keeps (on_db J) m"
  shows "keeps (on_db (\<lambda>now d. I now d \<and> J now d)) m"
proof (rule keepsI)
  fix w :: "'x world_scheme"
  assume "on_db (\<lambda>now d. I now d \<and> J now d) w"
  with keeps_snd [OF assms(1), of w] keeps_snd [OF assms(2), of w]
  show "on_db (\<lambda>now d. I now d \<and> J now d) (snd (m w))" by (simp add: on_db_def)
qed

lemma sound_run_auth: "keeps (on_db (sound d0)) (run_auth s x)"
  unfolding sound_def [abs_def] by (rule keeps_conj) (rule links_auth.operations_keep, rule run_auth_keeps)

lemma keeps_of_ignore: "keeps I (ignore m) \<Longrightarrow> keeps I m"
  by (rule keepsI, drule (1) keeps_snd) (simp add: ignore_def)

lemma sound_auth_ops:
  "keeps (on_db (sound d0)) (Register s i j dr p)" "keeps (on_db (sound d0)) (LoginInit s rnd i e a)"
  "keeps (on_db (sound d0)) (LoginFinalize s i dr q)" "keeps (on_db (sound d0)) (Refresh s dr tok)"
  "keeps (on_db (sound d0)) (Logout s tok v)" "keeps (on_db (sound d0)) (RequestPasswordReset s i rnd e)"
  "keeps (on_db (sound d0)) (ResetPassword s tok r)"
  using sound_run_auth [of d0 s "OpRegister i j dr p"] sound_run_auth [of d0 s "OpLoginInit rnd i e a"]
    sound_run_auth [of d0 s "OpLoginFinalize i dr q"] sound_run_auth [of d0 s "OpRefresh dr tok"]
    sound_run_auth [of d0 s "OpLogout tok v"] sound_run_auth [of d0 s "OpRequestReset i rnd e"]
    sound_run_auth [of d0 s "OpResetPassword tok r"]
  by (simp_all add: keeps_of_ignore)

lemma sound_CleanOrphanedSessions: "keeps (on_db (sound d0)) CleanOrphanedSessions"
  by (rule keeps_of_ignore, rule sound_run_auth [where x = OpCleanOrphaned, unfolded run_auth.simps])

lemma serves_cookies [serves_rules]:
  "serves P h \<Longrightarrow> serves P (setDeviceCookie cfg i h)" "serves P h \<Longrightarrow> serves P (clearRefreshTokenCookie cfg h)"
  "serves P h \<Longrightarrow> serves P (setAuthCookie cfg pair h)"
  unfolding setDeviceCookie_def clearRefreshTokenCookie_def setAuthCookie_def setRefreshTokenCookie_def Let_def
  by (intro serves_rules; assumption)+

lemma serves_token_responses [serves_rules]:
  "serves P (writeRegisterResponse cfg pair)" "serves P (writeLoginFinalizeResponse cfg result)" "serves P (writeRefreshResponse cfg pair)"
  unfolding writeRegisterResponse_def writeLoginFinalizeResponse_def writeRefreshResponse_def Let_def by (intro serves_rules)+

lemma auth_handlers_serve:
  "serves (on_db (sound d0)) (register d vr nd i pr dr rq b1)" "serves (on_db (sound d0)) (loginInit d vi rnd i b2)"
  "serves (on_db (sound d0)) (loginFinalize d vf nd pr dr rq b3)" "serves (on_db (sound d0)) (refresh d dr rq)"
  "serves (on_db (sound d0)) (logout d rq)" "serves (on_db (sound d0)) (requestPasswordReset d vq i rnd b4)"
  "serves (on_db (sound d0)) (getRecoveryData vg b5)" "serves (on_db (sound d0)) (resetPasswordConfirm d vc b6)"
  unfolding register_def loginInit_def loginFinalize_def refresh_def logout_def requestPasswordReset_def getRecoveryData_def
    resetPasswordConfirm_def Let_def
  by (intro serves_rules sound_auth_ops auth_reads_keep | auto intro!: serves_rules)+

lemma auth_routes_serve:
  assumes "(m, p, h) \<in> set (auth_routes d pf rn)"
  shows "serves (on_db (sound d0)) (h rq)"
  using assms unfolding auth_routes_def
  by (simp only: list.set insert_iff empty_iff prod.inject simp_thms)
    (elim disjE conjE; hypsubst; intro serves_answer serves_at_auth auth_handlers_serve)

section \<open>The gate\<close>

lemma serves_sum [serves_rules]:
  "(\<And>e. serves P (h e)) \<Longrightarrow> (\<And>x. serves P (k x)) \<Longrightarrow> serves P (case r of Inl e \<Rightarrow> h e | Inr x \<Rightarrow> k x)"
  by (cases r) auto

lemma keeps_IsBlocked [keeps_rules]: "keeps (on_db I) (IsBlocked rd us i)"
  unfolding IsBlocked_def by (intro keeps_rules keeps_redis_call)

lemma serves_gate:
  assumes "\<And>uid sid. serves (on_db I) (h (rq\<lparr>rq_ctxUserID := Some uid, rq_ctxSessionID := Some sid\<rparr>))"
  shows "serves (on_db I) (gate d h rq)"
  unfolding gate_def AuthMiddleware_def Let_def
  by (rule serves_option, rule serves_WriteError, rule serves_world)
    (intro serves_rules keeps_rules assms)

text \<open>Every route keeps the invariant, whoever sends whatever.\<close>

lemma NewRouter_serves:
  assumes "(m, p, h) \<in> set (NewRouter d pf rn)"
  shows "serves (on_db (sound d0)) (h rq)"
proof -
  have "serves (on_db (sound d0)) (gate d h' rq)" if "(m', p', h') \<in> set (protected_routes d pf rn)" for m' p' h'
    by (rule serves_gate, rule sound.protected_routes_serve [OF that]) simp_all
  moreover have "serves (on_db (sound d0)) (loginRL d h' rq)" if "(m', p', h') \<in> set (auth_routes d pf rn)" for m' p' h'
    unfolding loginRL_def by (rule serves_RateLimit, rule auth_routes_serve [OF that])
  moreover have "serves (on_db (sound d0)) (answer PHealth health)"
    unfolding health_def by (intro serves_rules)
  ultimately show ?thesis
    using assms by (auto simp: NewRouter_def Route_def Use_def)
qed

section \<open>The state machine\<close>

text \<open>
  A step is a request served by some route, a turn of a background job or of the audit worker, the
  passing of time (with new faults for what follows), or a change outside the server's control: clients
  upload objects, Redis drops keys, mails go out.
\<close>

inductive server_step :: "('r, 'o) Deps \<Rightarrow> platform \<Rightarrow> (string \<Rightarrow> string option) \<Rightarrow> ('r, 'o) gworld \<Rightarrow> ('r, 'o) gworld \<Rightarrow> bool"
  for d pf inet where
  request: "(m, p, h) \<in> set (NewRouter d pf rn) \<Longrightarrow> server_step d pf inet w (snd (h rq w))"
| sessions_job: "server_step d pf inet w (snd (at_auth CleanOrphanedSessions w))"
| trash_job: "server_step d pf inet w (snd (at_storage (CleanExpiredTrash (dp_Trash d) ttl) w))"
| orphans_job: "server_step d pf inet w (snd (at_storage (CleanOrphanedBlobs (dp_Blobs d) ttl) w))"
| worker: "worker_turn inet ids (w_queue w, w) = (q, w') \<Longrightarrow> server_step d pf inet w (w'\<lparr>w_queue := q\<rparr>)"
| tick: "w_now w \<le> t \<Longrightarrow> server_step d pf inet w (w\<lparr>w_now := t, w_faults := fs\<rparr>)"
| outside: "server_step d pf inet w (w\<lparr>w_redis := r, w_mails := ms, w_objects := os\<rparr>)"

inductive_cases server_stepE: "server_step d pf inet w w'"

lemma sound_clean_ups:
  "keeps (on_db (sound d0)) (CleanExpiredTrash s ttl)" "keeps (on_db (sound d0)) (CleanOrphanedBlobs s ttl)"
proof -
  have "keeps (on_db (sound d0)) m" if "\<And>A. keeps (on_db (linked_as (\<lambda>_. True) A)) m" for m :: "('x world_scheme, 'e, 'b) eff"
  proof (rule keepsI)
    fix w :: "'x world_scheme"
    assume w: "on_db (sound d0) w"
    then have "on_db (linked_as (\<lambda>_. True) (accounts (w_db w))) w"
      by (simp add: on_db_def sound_def linked_as_def del: accounts_def)
    from keeps_snd [OF that this] w auth_from_accounts show "on_db (sound d0) (snd (m w))"
      unfolding on_db_def sound_def linked_as_def by (metis auth_from_def)
  qed
  then show "keeps (on_db (sound d0)) (CleanExpiredTrash s ttl)" "keeps (on_db (sound d0)) (CleanOrphanedBlobs s ttl)"
    by (blast intro: links.CleanExpiredTrash_keeps links.CleanOrphanedBlobs_keeps)+
qed

lemma keeps_insertWithRetry: "keeps (on_db (sound d0)) (insertWithRetry inet ids e)"
proof -
  have "sound d0 now (d\<lparr>audit_log := l\<rparr>)" if "sound d0 now d" for now d l
  proof -
    have "auth_from d0 now (d\<lparr>audit_log := l\<rparr>) = auth_from d0 now d"
      by (simp add: auth_from_def auth_defs history_defs)
    then show ?thesis
      using that by (simp add: sound_def linked_def wf_db_def shares_ok_def share_ok_def [abs_def] favorites_ok_def
          favorite_ok_def [abs_def] resource_exists_def [abs_def] folder_ref_def folder_exists_def [abs_def] user_exists_def cong: option.case_cong)
  qed
  then have "keeps (on_db (sound d0)) (InsertAuditEvent_pg inet i e)" for i
    unfolding InsertAuditEvent_pg_def
    by (intro keeps_db_call) (auto simp: insert_audit_def split: option.splits if_splits)
  then have "keeps (on_db (sound d0)) (try_inserts inet is e)" for "is"
    by (induction "is") (auto intro!: keeps_rules keeps_attempt split: sum.split)
  then show ?thesis unfolding insertWithRetry_def by (simp only: split: prod.split) blast
qed

lemma server_step_sound: "server_step d pf inet w w' \<Longrightarrow> on_db (sound d0) w \<Longrightarrow> on_db (sound d0) w'"
proof (induction rule: server_step.induct)
  case (request m p h rn w rq)
  then show ?case by (rule servesD [OF NewRouter_serves])
next
  case (sessions_job w)
  have "on_db (sound d0) (auth_part w)" using sessions_job by (simp add: on_db_def auth.get_db auth.get_now)
  from keeps_snd [OF sound_CleanOrphanedSessions this] show ?case
    by (simp add: at_auth_def on_db_def auth.put_db auth.put_now)
next
  case (trash_job w ttl)
  then show ?case by (rule keeps_snd [OF keeps_at_storage [OF sound_clean_ups(1)]])
next
  case (orphans_job w ttl)
  then show ?case by (rule keeps_snd [OF keeps_at_storage [OF sound_clean_ups(2)]])
next
  case (worker ids w q w')
  then have "on_db (sound d0) w'"
    by (auto simp: worker_turn_def split: list.splits intro: keeps_snd [OF keeps_insertWithRetry])
  then show ?case by (simp add: on_db_def)
next
  case (tick w t fs)
  then show ?case by (auto simp: on_db_def sound_def linked_def auth_from_def intro: wf_db_mono)
next
  case (outside w r ms os)
  then show ?case by (simp add: on_db_def)
qed

text \<open>
  C1. However requests to any route, background jobs, the audit worker, failures of the databases and the
  clock interleave, the tables stay consistent together: files and folders refer to folders of the same user, shares
  and favorites point at existing rows of the right users, every session belongs to its user, and no
  device or refresh session that was revoked or used, and no reset token that was used, ever becomes
  usable again.
\<close>

theorem server_reachable_consistent:
  assumes "(server_step d pf inet)\<^sup>*\<^sup>* w w'"
    and "wf_db (w_now w) (w_db w)" and "shares_ok (w_db w)" and "favorites_ok (w_db w)" and "auth_ok (w_db w)"
  shows "wf_db (w_now w') (w_db w') \<and> shares_ok (w_db w') \<and> favorites_ok (w_db w') \<and> auth_ok (w_db w')
    \<and> history (w_db w) (w_db w')"
proof -
  from assms(2-) have "on_db (sound (w_db w)) w" by (simp add: on_db_def sound_def linked_def auth_from_def)
  with assms(1) have "on_db (sound (w_db w)) w'"
    by (induction rule: rtranclp_induct) (blast intro: server_step_sound)+
  then show ?thesis
    by (simp add: on_db_def sound_def linked_def auth_from_def)
qed

end
