(* ===== verification/Server_Isolation.thy ===== *)
theory Server_Isolation
  imports Server_Invariant
begin

text \<open>
  Accounts are separate at the level of HTTP. What a user owns (account, sessions, folders, files and
  the shares given) changes through requests that carry the user's access token only, and a request
  that carries no accepted token changes nothing at all.
\<close>

section \<open>What a user owns\<close>

definition own_shares :: "uuid \<Rightarrow> db \<Rightarrow> FileShare list" where
  "own_shares v d = filter (\<lambda>s. sh_OwnerID s = v) (file_shares d)"

definition own_account ::
  "uuid \<Rightarrow> db \<Rightarrow> user_row list \<times> device_session list \<times> refresh_session list \<times> PasswordResetToken list" where
  "own_account v d = (filter (\<lambda>x. us_id x = v) (users d), filter (\<lambda>r. ds_UserID r = v) (device_sessions d),
     filter (\<lambda>q. rs_user_id q = v) (refresh_sessions d), filter (\<lambda>t. pt_UserID t = v) (password_reset_tokens d))"

definition tenant_view where
  "tenant_view v d = (user_view v d, own_shares v d, own_account v d)"

definition private_to where
  "private_to v V now d \<longleftrightarrow> linked (\<lambda>_. True) now d \<and> auth_ok d \<and> tenant_view v d = V"

text \<open>Shares of the user refer to files of the user, which no one else deletes.\<close>

lemma own_shares_removed:
  assumes wf: "wf_db now d" and sh: "shares_ok d" and "u \<noteq> v"
    and pb: "\<And>b. b \<in> set (stored_blobs d) \<Longrightarrow> pb b \<Longrightarrow> bl_UserID b = u"
    and d': "file_shares d' = filter (\<lambda>s. sh_BlobID s \<notin> bl_ID ` {b \<in> set (stored_blobs d). pb b}) (file_shares d)"
  shows "own_shares v d' = own_shares v d"
  unfolding own_shares_def d'
proof (rule filter_filter_view)
  fix s assume s: "s \<in> set (file_shares d)" "sh_OwnerID s = v"
  then obtain b where b: "b \<in> set (stored_blobs d)" "bl_ID b = sh_BlobID s" "bl_UserID b = v"
    using sh by (auto simp: shares_ok_def share_ok_def)
  have "b' = b" if "b' \<in> set (stored_blobs d)" "bl_ID b' = sh_BlobID s" for b'
    using distinct_map_eqD [of bl_ID "stored_blobs d" b' b] wf that b by (simp add: wf_db_def)
  with pb b \<open>u \<noteq> v\<close> show "sh_BlobID s \<notin> bl_ID ` {b \<in> set (stored_blobs d). pb b}" by force
qed

section \<open>The statements\<close>

lemma private_by:
  assumes "private_to v V now d"
    and "linked_as (\<lambda>_. True) (accounts d) now d \<Longrightarrow> linked_as (\<lambda>_. True) (accounts d) now d'"
    and "wf_db now d \<and> user_view v d = user_view v d \<Longrightarrow> wf_db now d' \<and> user_view v d' = user_view v d"
    and "wf_db now d \<Longrightarrow> shares_ok d \<Longrightarrow> own_shares v d' = own_shares v d"
  shows "private_to v V now d'"
proof -
  from assms(1) have l: "linked (\<lambda>_. True) now d" and a: "auth_ok d" and V: "tenant_view v d = V"
    by (simp_all add: private_to_def)
  from assms(2) l have d': "linked (\<lambda>_. True) now d'" "accounts d' = accounts d"
    by (simp_all add: linked_as_def del: accounts_def)
  moreover have "auth_ok d' = auth_ok d" using d'(2) by (simp add: auth_defs)
  moreover have "tenant_view v d' = tenant_view v d"
    using assms(3,4) l d'(2) by (simp add: linked_def tenant_view_def own_account_def)
  ultimately show ?thesis using a V by (simp add: private_to_def)
qed

lemma shares_untouched:
  "TrashFolder_tx i u now d = Inr (tr, d') \<Longrightarrow> file_shares d' = file_shares d"
  "RestoreFolder_tx i u d = Inr (rn, d') \<Longrightarrow> file_shares d' = file_shares d"
  "insert_blob b d = Inr (x, d') \<Longrightarrow> file_shares d' = file_shares d"
  "insert_folder f d = Inr (y, d') \<Longrightarrow> file_shares d' = file_shares d"
  "update_folders pf h d = Inr (n, d') \<Longrightarrow> file_shares d' = file_shares d"
  by (auto elim!: TrashFolder_txD RestoreFolder_txD simp: trash_rows_def restore_rows_def insert_blob_def insert_folder_def
      update_folders_def Let_def split: if_splits)

lemma own_account_revoke:
  assumes ok: "auth_ok d" and "u \<noteq> v"
  shows "RevokeSession_tx i u now d = Inr (y, d') \<Longrightarrow> own_account v d' = own_account v d"
    and "RevokeOtherSessions_tx u i now d = Inr (z, d') \<Longrightarrow> own_account v d' = own_account v d"
proof -
  have user: "rs_user_id q = u" if "r \<in> set (device_sessions d)" "ds_ID r = i" "ds_UserID r = u"
    "q \<in> set (refresh_sessions d)" "rs_device_session_id q = i" for r q
    using ok that distinct_map_eqD [of ds_ID "device_sessions d" r] unfolding auth_ok_def refresh_ok_def devices_ok_def by metis
  show "own_account v d' = own_account v d" if "RevokeSession_tx i u now d = Inr (y, d')"
    using that user \<open>u \<noteq> v\<close>
    by (auto simp: RevokeSession_tx_def own_account_def revoke_devices_def revoke_refresh_def split: if_splits intro!: filter_map_view)
  show "own_account v d' = own_account v d" if "RevokeOtherSessions_tx u i now d = Inr (z, d')"
    using that \<open>u \<noteq> v\<close>
    by (auto simp: RevokeOtherSessions_tx_def own_account_def revoke_devices_def revoke_refresh_def intro!: filter_map_view)
qed

lemma private_auth:
  assumes "private_to v V now d" and "auth_frame d d'" and "auth_ok d \<Longrightarrow> auth_ok d' \<and> history d d'"
    and "auth_ok d \<Longrightarrow> own_account v d' = own_account v d"
  shows "private_to v V now d'"
  using assms linked_frame [of "\<lambda>_. True" now d d']
  by (auto simp: private_to_def tenant_view_def user_view_def own_shares_def auth_frame_def)

lemma private_marks:
  assumes "private_to v V now d" and "linked (\<lambda>_. True) now d'"
    and "accounts d' = accounts d" "folders d' = folders d" "stored_blobs d' = stored_blobs d"
    and "own_shares v d' = own_shares v d"
  shows "private_to v V now d'"
  using assms by (auto simp: private_to_def tenant_view_def user_view_def own_account_def auth_defs)

interpretation tenant: server_tables "private_to v V" "\<lambda>u. u \<noteq> v" for v V
proof unfold_locales
  fix now d u d' p g
  assume s: "private_to v V now d" and u: "u \<noteq> v"
    and d': "d' = d\<lparr>stored_blobs := map (\<lambda>b. if p b then g b else b) (stored_blobs d)\<rparr>"
    and l: "\<And>b. p b \<Longrightarrow> bl_UserID b = u"
      "\<And>b. bl_ID (g b) = bl_ID b \<and> bl_ObjectKey (g b) = bl_ObjectKey b \<and> bl_UserID (g b) = bl_UserID b"
      "\<And>b. b \<in> set (stored_blobs d) \<Longrightarrow> p b \<Longrightarrow> blob_ok now (folders d) b \<Longrightarrow> blob_ok now (folders d) (g b)"
  show "private_to v V now d'"
    by (rule private_by [OF s links.blobs_update [OF _ TrueI d' l] other.blobs_update [OF _ u d' l]])
      (simp_all add: own_shares_def d')
next
  fix now d u q gone d'
  assume s: "private_to v V now d" and u: "u \<noteq> v" and q: "\<And>b. q b \<Longrightarrow> bl_UserID b = u" and del: "delete_blobs q d = Inr (gone, d')"
  show "private_to v V now d'"
    by (rule private_by [OF s links.blobs_delete [OF _ TrueI q del] other.blobs_delete [OF _ u q del]])
      (simp_all, erule (1) own_shares_removed [OF _ _ u, where pb = q], use q del in \<open>auto simp: delete_blobs_def Let_def\<close>)
next
  fix now d b x d'
  assume s: "private_to v V now d" and u: "bl_UserID b \<noteq> v" and ins: "insert_blob b d = Inr (x, d')" and ok: "blob_ok now (folders d) b"
  show "private_to v V now d'"
    by (rule private_by [OF s links.blob_insert [OF _ TrueI ins ok] other.blob_insert [OF _ u ins ok]])
      (simp_all add: own_shares_def shares_untouched(3) [OF ins])
next
  fix now d f x d'
  assume s: "private_to v V now d" and u: "fo_UserID f \<noteq> v" and ins: "insert_folder f d = Inr (x, d')"
    and ok: "ref_ok (folders d) (fo_ParentID f) (fo_UserID f) (fo_DeletedAt f)" "past now (fo_DeletedAt f)"
  show "private_to v V now d'"
    by (rule private_by [OF s links.folder_insert [OF _ TrueI ins ok] other.folder_insert [OF _ u ins ok]])
      (simp_all add: own_shares_def shares_untouched(4) [OF ins])
next
  fix now d u pf h n d'
  assume s: "private_to v V now d" and u: "u \<noteq> v" and up: "update_folders pf h d = Inr (n, d')"
    and l: "\<And>f. pf f \<Longrightarrow> fo_UserID f = u"
      "\<And>f. fo_ID (h f) = fo_ID f \<and> fo_UserID (h f) = fo_UserID f \<and> fo_DeletedAt (h f) = fo_DeletedAt f"
      "\<And>f. f \<in> set (folders d) \<Longrightarrow> pf f \<Longrightarrow> ref_ok (folders d) (fo_ParentID (h f)) (fo_UserID f) (fo_DeletedAt f)"
  show "private_to v V now d'"
    by (rule private_by [OF s links.folders_update [OF _ TrueI up l] other.folders_update [OF _ u up l]])
      (simp_all add: own_shares_def shares_untouched(5) [OF up])
next
  fix now d u i tr d'
  assume s: "private_to v V now d" and u: "u \<noteq> v" and tx: "TrashFolder_tx i u now d = Inr (tr, d')"
  show "private_to v V now d'"
    by (rule private_by [OF s links.trash_folder [OF _ TrueI tx] other.trash_folder [OF _ u tx]])
      (simp_all add: own_shares_def shares_untouched(1) [OF tx])
next
  fix now d u i rn d'
  assume s: "private_to v V now d" and u: "u \<noteq> v" and tx: "RestoreFolder_tx i u d = Inr (rn, d')"
  show "private_to v V now d'"
    by (rule private_by [OF s links.restore_folder [OF _ TrueI tx] other.restore_folder [OF _ u tx]])
      (simp_all add: own_shares_def shares_untouched(2) [OF tx])
next
  fix now d u i rk d'
  assume s: "private_to v V now d" and u: "u \<noteq> v" and tx: "HardDeleteFolder_tx i u d = Inr (rk, d')"
  have "own_shares v d' = own_shares v d" if wf: "wf_db now d" and "shares_ok d"
    using tx
  proof (rule HardDeleteFolder_txD)
    fix f0 ids
    assume "f0 \<in> set (folders d)" "folder_is i u f0" "set ids = below (\<lambda>_. True) d {i}"
      and rm: "remove_rows (in_folders ids) (id_in ids) d d'"
    note own = below_own [OF wf this(1-3)]
    show ?thesis
      by (rule own_shares_removed [OF that u in_folders_owner [OF wf own]]) (use rm in \<open>auto simp: remove_rows_def\<close>)
  qed simp
  then show "private_to v V now d'"
    by (intro private_by [OF s links.remove_folder [OF _ TrueI tx] other.remove_folder [OF _ u tx]])
next
  fix now d u re d'
  assume s: "private_to v V now d" and u: "u \<noteq> v" and tx: "EmptyTrashedFolders_tx u d = Inr (re, d')"
  have "own_shares v d' = own_shares v d" if "wf_db now d" and "shares_ok d"
    by (rule own_shares_removed [OF that u, where pb = "\<lambda>b. bl_UserID b = u \<and>
        in_folders (map fo_ID (filter (\<lambda>f. fo_UserID f = u \<and> fo_DeletedAt f \<noteq> None) (folders d))) b"])
      (use EmptyTrashedFolders_txD [OF tx] in \<open>auto simp: remove_rows_def simp del: not_None_eq\<close>)
  then show "private_to v V now d'"
    by (intro private_by [OF s links.empty_folders [OF _ TrueI tx] other.empty_folders [OF _ u tx]])
next
  fix now d s x d'
  assume l: "private_to v V now d" and u: "sh_OwnerID s \<noteq> v" and o: "owns (sh_OwnerID s) (sh_BlobID s) d"
    and n: "sh_RecipientID s \<noteq> sh_OwnerID s" and ins: "insert_share s d = Inr (x, d')"
  have "linked (\<lambda>_. True) now d'"
    using o l n [symmetric] by (auto simp: owns_def private_to_def intro: insert_share_linked [where Q = "\<lambda>_. True", OF _ ins TrueI])
  with l show "private_to v V now d'"
    by (rule private_marks) (use ins u in \<open>auto simp: insert_share_def own_shares_def split: if_splits\<close>)
next
  fix now d u i
  assume l: "private_to v V now d" and u: "u \<noteq> v"
  from l show "private_to v V now (revoke_share i u now d)"
    by (rule private_marks, use l in \<open>simp add: private_to_def revoke_share_linked\<close>)
      (use u in \<open>auto simp: revoke_share_def own_shares_def revokes_def intro!: filter_map_view\<close>)
next
  fix now d m x d'
  assume l: "private_to v V now d" and "(fv_blob_id m = None) \<noteq> (fv_folder_id m = None)" and ins: "insert_favorite m d = Inr (x, d')"
  then have "linked (\<lambda>_. True) now d'" by (auto simp: private_to_def intro: insert_favorite_linked)
  with l show "private_to v V now d'"
    by (rule private_marks) (use ins in \<open>auto simp: insert_favorite_def own_shares_def split: if_splits\<close>)
next
  fix now d u q
  assume l: "private_to v V now d"
  then have "linked (\<lambda>_. True) now (d\<lparr>favorites := filter (\<lambda>v. \<not> (fv_user_id v = u \<and> q v)) (favorites d)\<rparr>)"
    by (intro remove_favorite_linked) (simp add: private_to_def)
  with l show "private_to v V now (d\<lparr>favorites := filter (\<lambda>v. \<not> (fv_user_id v = u \<and> q v)) (favorites d)\<rparr>)"
    by (rule private_marks) (simp_all add: own_shares_def)
next
  fix now d u i y d'
  assume s: "private_to v V now d" and u: "u \<noteq> v" and tx: "RevokeSession_tx i u now d = Inr (y, d')"
  have "auth_frame d d'" using framed_revoke(2) tx by (auto simp: framed_def)
  with s show "private_to v V now d'"
    by (rule private_auth) (rule keeps_tablesD [OF tables_RevokeSession tx], assumption, rule own_account_revoke(1) [OF _ u tx])
next
  fix now d u i z d'
  assume s: "private_to v V now d" and u: "u \<noteq> v" and tx: "RevokeOtherSessions_tx u i now d = Inr (z, d')"
  have "auth_frame d d'" using framed_revoke(3) tx by (auto simp: framed_def)
  with s show "private_to v V now d'"
    by (rule private_auth) (rule keeps_tablesD [OF tables_RevokeOthers tx], assumption, rule own_account_revoke(2) [OF _ u tx])
next
  show "wf_db now d" if "private_to v V now d" for now d using that by (simp add: private_to_def linked_def)
qed

section \<open>Behind the gate\<close>

text \<open>The entries of the router outside \<open>/auth\<close> other than the health check stand behind the gate.\<close>

lemma gated_entries:
  assumes "(m, p, h) \<in> set (NewRouter d pf rn)" and "take 5 p \<noteq> ''/auth''" and "p \<noteq> ''/health''"
  obtains h' where "(m, p, h') \<in> set (protected_routes d pf rn)" and "h = gate d h'"
proof -
  have "(\<exists>h'. (m, p, h') \<in> set (protected_routes d pf rn) \<and> h = gate d h') \<or> take 5 p = ''/auth'' \<or> p = ''/health''"
    using assms(1) unfolding NewRouter_def Use_def by (auto simp: Route_def)
  with assms(2,3) that show thesis by blast
qed

lemma IsBlocked_world:
  fixes w :: "('r, 'x) cworld_scheme"
  obtains fs where "snd (IsBlocked rd us i w) = w\<lparr>w_faults := fs\<rparr>"
proof (cases "w_faults w")
  case Nil
  have "w\<lparr>w_faults := []\<rparr> = w" using Nil by simp
  with Nil show thesis
    by (intro that [of "[]"]) (simp add: IsBlocked_def bindE_def redis_call_def pop_fault_def ret_def)
next
  case (Cons f fs)
  have "w\<lparr>w_redis := w_redis w\<rparr> = w" by simp
  with Cons show thesis
    by (intro that [of fs]) (simp add: IsBlocked_def bindE_def redis_call_def pop_fault_def ret_def)
qed

lemma gate_refuses:
  assumes "\<And>tok uid sid. bearer_token rq = Some tok \<Longrightarrow>
      ParseAccessToken (as_Jwt (dp_Auth d)) (dp_Codec d) (as_Tokens (dp_Auth d)) (w_now w) tok = Inr (uid, sid) \<Longrightarrow>
      sid \<noteq> uuid_Nil \<and> fst (IsBlocked (as_Redis (dp_Auth d)) (cd_String (dp_Codec d)) sid w) \<noteq> Inr False"
  shows "\<exists>st msg fs. gate d h rq w = WriteError st msg (w\<lparr>w_faults := fs\<rparr>) \<and> st \<in> {401, 503}"
proof (cases "bearer_token rq")
  case None
  have "w\<lparr>w_faults := w_faults w\<rparr> = w" by simp
  then show ?thesis by (intro exI [of _ 401] exI [of _ "''unauthorized''"] exI [of _ "w_faults w"]) (simp add: gate_def AuthMiddleware_def None)
next
  case (Some tok)
  note tok = Some
  show ?thesis
  proof (cases "ParseAccessToken (as_Jwt (dp_Auth d)) (dp_Codec d) (as_Tokens (dp_Auth d)) (w_now w) tok")
    case (Inl e)
    have "w\<lparr>w_faults := w_faults w\<rparr> = w" by simp
    then show ?thesis
      by (intro exI [of _ 401] exI [of _ "''unauthorized''"] exI [of _ "w_faults w"]) (simp add: gate_def AuthMiddleware_def tok Inl)
  next
    case (Inr us)
    then obtain uid sid where us: "us = (uid, sid)" by (cases us)
    from assms [OF tok Inr [unfolded us]] have sid: "sid \<noteq> uuid_Nil"
      and b: "fst (IsBlocked (as_Redis (dp_Auth d)) (cd_String (dp_Codec d)) sid w) \<noteq> Inr False" by auto
    obtain fs where "snd (IsBlocked (as_Redis (dp_Auth d)) (cd_String (dp_Codec d)) sid w) = w\<lparr>w_faults := fs\<rparr>"
      by (rule IsBlocked_world)
    then obtain r where r: "IsBlocked (as_Redis (dp_Auth d)) (cd_String (dp_Codec d)) sid w = (r, w\<lparr>w_faults := fs\<rparr>)"
      by (metis prod.collapse)
    show ?thesis
      using b r sid by (cases r) (auto simp: gate_def AuthMiddleware_def tok Inr us call_def Let_def)
  qed
qed

text \<open>
  C9. Without an accepted access token nothing happens: on every route but \<open>/health\<close> and those under
  \<open>/auth\<close>, a request whose bearer token is missing, does not verify or belongs to a session that is
  blocked (or cannot be looked up) is answered 401 or 503, and the databases, the object store, the
  outbox and the audit queue are exactly as before.
\<close>

theorem unauthenticated_changes_nothing:
  assumes "(m, p, h) \<in> set (NewRouter d pf rn)" and "take 5 p \<noteq> ''/auth''" and "p \<noteq> ''/health''"
    and "\<And>tok uid sid. bearer_token rq = Some tok \<Longrightarrow>
      ParseAccessToken (as_Jwt (dp_Auth d)) (dp_Codec d) (as_Tokens (dp_Auth d)) (w_now w) tok = Inr (uid, sid) \<Longrightarrow>
      sid \<noteq> uuid_Nil \<and> fst (IsBlocked (as_Redis (dp_Auth d)) (cd_String (dp_Codec d)) sid w) \<noteq> Inr False"
  shows "rp_Status (fst (h rq w)) \<in> {401, 503} \<and> (\<exists>fs. snd (h rq w) = w\<lparr>w_faults := fs\<rparr>)"
proof -
  obtain h' where h: "h = gate d h'" by (rule gated_entries [OF assms(1-3)])
  have "\<exists>st msg fs. gate d h' rq w = WriteError st msg (w\<lparr>w_faults := fs\<rparr>) \<and> st \<in> {401, 503}"
    by (rule gate_refuses) (rule assms(4))
  then obtain st msg fs where g: "gate d h' rq w = WriteError st msg (w\<lparr>w_faults := fs\<rparr>)" "st \<in> {401, 503}" by blast
  then show ?thesis by (auto simp: h WriteError_def reply_def)
qed

text \<open>
  C2. Tenant isolation of the HTTP interface: on every route outside \<open>/auth\<close>, a request that does not
  carry an access token of user \<open>v\<close> leaves everything \<open>v\<close> owns exactly as it is, whatever the request
  says and whatever fails while it is served, when the tables were consistent: the account, the device and refresh sessions, the pending
  password resets, the folders, the files and the shares given to others.
\<close>

theorem requests_isolated:
  assumes "(m, p, h) \<in> set (NewRouter d pf rn)" and "take 5 p \<noteq> ''/auth''"
    and "\<And>tok sid. bearer_token rq = Some tok \<Longrightarrow>
      ParseAccessToken (as_Jwt (dp_Auth d)) (dp_Codec d) (as_Tokens (dp_Auth d)) (w_now w) tok \<noteq> Inr (v, sid)"
    and "linked (\<lambda>_. True) (w_now w) (w_db w)" and "auth_ok (w_db w)"
  shows "tenant_view v (w_db (snd (h rq w))) = tenant_view v (w_db w)"
proof (cases "p = ''/health''")
  case True
  with assms(1) have "h = (\<lambda>rq. answer PHealth health)"
    by (auto simp: NewRouter_def Route_def Use_def protected_routes_def)
  then show ?thesis by (simp add: answer_def health_def reply_def)
next
  case False
  obtain h' where h': "(m, p, h') \<in> set (protected_routes d pf rn)" and h: "h = gate d h'"
    by (rule gated_entries [OF assms(1,2) False])
  let ?I = "private_to v (tenant_view v (w_db w))"
  have w: "on_db ?I w" using assms(4,5) by (simp add: on_db_def private_to_def)
  show ?thesis
  proof (cases rule: AuthMiddleware_cases [of "as_Jwt (dp_Auth d)" "dp_Codec d" "as_Tokens (dp_Auth d)" "as_Redis (dp_Auth d)" h' rq w])
    case (refused w' st msg)
    then show ?thesis by (simp add: h gate_def)
  next
    case (passed token uid sid w')
    then have "uid \<noteq> v" using assms(3) by blast
    have "on_db ?I w'"
      using w passed(3,4) keeps_snd [OF keeps_IsBlocked w, of "as_Redis (dp_Auth d)" "cd_String (dp_Codec d)" sid]
      by (cases "sid = uuid_Nil") auto
    then have "on_db ?I (snd (h' (rq\<lparr>rq_ctxUserID := Some uid, rq_ctxSessionID := Some sid\<rparr>) w'))"
      by (rule servesD [OF tenant.protected_routes_serve [OF h' _ \<open>uid \<noteq> v\<close>], rotated]) simp
    with passed(5) show ?thesis by (simp add: h gate_def on_db_def private_to_def)
  qed
qed

end
