(* ===== verification/Configuration.thy ===== *)
theory Configuration
  imports Http "HOL-Library.State_Monad"
begin

text \<open>
  \<open>config/config.go\<close>: the configuration read from the environment. The loader collects every problem
  it meets; \<open>Load\<close> returns a configuration only when there was none. The errors the loader appends
  are the constructors of \<open>config_err\<close>, in the order the source appends them.
\<close>

section \<open>strconv.ParseBool and time.ParseDuration\<close>

definition ParseBool :: "string \<Rightarrow> bool option" where
  "ParseBool s =
     (if s \<in> set [''1'', ''t'', ''T'', ''TRUE'', ''true'', ''True''] then Some True
      else if s \<in> set [''0'', ''f'', ''F'', ''FALSE'', ''false'', ''False''] then Some False
      else None)"

fun leadingInt :: "nat \<Rightarrow> string \<Rightarrow> (nat \<times> string) option" where
  "leadingInt x [] = Some (x, [])"
| "leadingInt x (c # s) =
     (case digit_of c of None \<Rightarrow> Some (x, c # s)
      | Some k \<Rightarrow> if x > 2 ^ 63 div 10 then None
                  else if x * 10 + k > 2 ^ 63 then None
                  else leadingInt (x * 10 + k) s)"

text \<open>The digits after the point and how many of them fit; the flag is the source's \<open>overflow\<close>.\<close>

fun leadingFraction :: "nat \<Rightarrow> nat \<Rightarrow> bool \<Rightarrow> string \<Rightarrow> nat \<times> nat \<times> string" where
  "leadingFraction x n ovf [] = (x, n, [])"
| "leadingFraction x n ovf (c # s) =
     (case digit_of c of None \<Rightarrow> (x, n, c # s)
      | Some k \<Rightarrow> if ovf \<or> x > (2 ^ 63 - 1) div 10 \<or> x * 10 + k > 2 ^ 63 then leadingFraction x n True s
                  else leadingFraction (x * 10 + k) (n + 1) False s)"

text \<open>The micro sign has two encodings.\<close>

definition unitMap :: "string \<Rightarrow> nat option" where
  "unitMap = map_of
     [(''ns'', 1), (''us'', 1000), ([CHR 0xC2, CHR 0xB5, CHR ''s''], 1000), ([CHR 0xCE, CHR 0xBC, CHR ''s''], 1000),
      (''ms'', 1000000), (''s'', 1000000000), (''m'', 60 * 1000000000), (''h'', 3600 * 1000000000)]"

definition is_numeric :: "char \<Rightarrow> bool" where
  "is_numeric c \<longleftrightarrow> c = CHR ''.'' \<or> digit_of c \<noteq> None"

text \<open>
  A number with a unit. \<open>nanos f n unit\<close> is \<open>uint64(float64(f) * (float64(unit) / scale))\<close> for the scale
  \<open>10 ^ n\<close>, computed by the machine's floating point.
\<close>

definition duration_term :: "(nat \<Rightarrow> nat \<Rightarrow> nat \<Rightarrow> nat) \<Rightarrow> string \<Rightarrow> (nat \<times> string) option" where
  "duration_term nanos s =
     (if s = [] \<or> \<not> is_numeric (hd s) then None
      else (case leadingInt 0 s of None \<Rightarrow> None
        | Some (v, s1) \<Rightarrow>
            (case (if take 1 s1 = ''.'' then leadingFraction 0 0 False (tl s1) else (0, 0, s1)) of (f, n, s2) \<Rightarrow>
               if length s1 = length s \<and> \<not> (take 1 s1 = ''.'' \<and> length s2 \<noteq> length (tl s1)) then None
               else (case unitMap (takeWhile (\<lambda>c. \<not> is_numeric c) s2) of None \<Rightarrow> None
                 | Some unit \<Rightarrow>
                     if v > 2 ^ 63 div unit then None
                     else (let v' = (if f > 0 then (v * unit + nanos f n unit) mod 2 ^ 64 else v * unit) in
                       if f > 0 \<and> v' > 2 ^ 63 then None
                       else Some (v', dropWhile (\<lambda>c. \<not> is_numeric c) s2))))))"

lemma leadingInt_length: "leadingInt x s = Some (v, r) \<Longrightarrow> length r \<le> length s"
  by (induction x s rule: leadingInt.induct) (auto split: option.splits if_splits)

lemma leadingFraction_length: "length (snd (snd (leadingFraction x n b s))) \<le> length s"
  by (induction x n b s rule: leadingFraction.induct) (auto split: option.splits simp: le_SucI)

lemma unitMap_nonempty: "unitMap u = Some k \<Longrightarrow> u \<noteq> [] \<and> 0 < k"
  by (auto simp: unitMap_def split: if_splits)

lemma duration_term_length:
  assumes "duration_term nanos s = Some (v, r)"
  shows "length r < length s"
proof -
  from assms obtain v0 s1 f n s2 k where i: "leadingInt 0 s = Some (v0, s1)"
    and s2: "(if take 1 s1 = ''.'' then leadingFraction 0 0 False (tl s1) else (0, 0, s1)) = (f, n, s2)"
    and u: "unitMap (takeWhile (\<lambda>c. \<not> is_numeric c) s2) = Some k" and r: "r = dropWhile (\<lambda>c. \<not> is_numeric c) s2"
    by (auto simp: duration_term_def Let_def split: if_splits option.splits prod.splits)
  have "length s2 \<le> length s1"
    using s2 leadingFraction_length [of 0 0 False "tl s1"] by (auto split: if_splits)
  moreover have "length r < length s2"
  proof -
    have "length (takeWhile (\<lambda>c. \<not> is_numeric c) s2) + length r = length s2"
      unfolding r by (metis length_append takeWhile_dropWhile_id)
    with unitMap_nonempty [OF u] show ?thesis by (cases "takeWhile (\<lambda>c. \<not> is_numeric c) s2") auto
  qed
  ultimately show ?thesis using leadingInt_length [OF i] by simp
qed

function duration_terms :: "(nat \<Rightarrow> nat \<Rightarrow> nat \<Rightarrow> nat) \<Rightarrow> nat \<Rightarrow> string \<Rightarrow> nat option" where
  "duration_terms nanos d s =
     (if s = [] then Some d
      else (case duration_term nanos s of None \<Rightarrow> None
        | Some (v, r) \<Rightarrow> let d' = (d + v) mod 2 ^ 64 in if d' > 2 ^ 63 then None else duration_terms nanos d' r))"
  by pat_completeness auto

termination
  by (relation "measure (\<lambda>(nanos, d, s). length s)") (auto dest: duration_term_length)

declare duration_terms.simps [simp del]

definition ParseDuration :: "(nat \<Rightarrow> nat \<Rightarrow> nat \<Rightarrow> nat) \<Rightarrow> string \<Rightarrow> int option" where
  "ParseDuration nanos s =
     (case cut_sign s of (neg, r) \<Rightarrow>
        if r = ''0'' then Some 0
        else if r = [] then None
        else (case duration_terms nanos 0 r of None \<Rightarrow> None
              | Some d \<Rightarrow> if neg then Some (- int d) else if d > 2 ^ 63 - 1 then None else Some (int d)))"

lemma duration_terms_range: "duration_terms nanos d s = Some v \<Longrightarrow> d \<le> 2 ^ 63 \<Longrightarrow> v \<le> 2 ^ 63"
proof (induction nanos d s rule: duration_terms.induct)
  case (1 nanos d s)
  then show ?case
    by (subst (asm) (2) duration_terms.simps) (auto simp: Let_def split: if_splits option.splits)
qed

text \<open>A duration fits into 64 bits.\<close>

lemma ParseDuration_range: "ParseDuration nanos s = Some d \<Longrightarrow> - (2 ^ 63) \<le> d \<and> d < 2 ^ 63"
  by (auto simp: ParseDuration_def split: prod.splits option.splits if_splits dest!: duration_terms_range)

section \<open>The configuration\<close>

record ServerConfig =
  sc_ReadHeaderTimeout :: int
  sc_ReadTimeout :: int
  sc_WriteTimeout :: int
  sc_IdleTimeout :: int
  sc_ShutdownTimeout :: int

record JWTConfig =
  jc_Secret :: string
  jc_AccessTTL :: int
  jc_RefreshTTL :: int

record MinIOConfig =
  mc_Endpoint :: string
  mc_PublicEndpoint :: string
  mc_AccessKey :: string
  mc_SecretKey :: string
  mc_Bucket :: string
  mc_UseSSL :: bool
  mc_Region :: string
  mc_PresignTTL :: int

record SMTPConfig =
  sm_ResendAPIKey :: string
  sm_From :: string

record Config =
  cf_HTTPAddr :: string
  cf_DatabaseURL :: string
  cf_RedisURL :: string
  cf_LogLevel :: string
  cf_FrontendOrigin :: string
  cf_StorageQuotaBytes :: int64
  cf_MaxUploadBytes :: int64
  cf_TrashTTL :: int
  cf_Server :: ServerConfig
  cf_JWT :: JWTConfig
  cf_RefreshCookie :: RefreshCookieConfig
  cf_MinIO :: MinIOConfig
  cf_SMTP :: SMTPConfig

text \<open>
  The process's environment, with the parameters of \<open>ToLower\<close> and \<open>ParseDuration\<close>.
\<close>

record environment =
  LookupEnv :: "string \<Rightarrow> string option"
  uni_lower :: "string \<Rightarrow> string"
  float_nanos :: "nat \<Rightarrow> nat \<Rightarrow> nat \<Rightarrow> nat"

datatype config_err =
  Required string
| InvalidDuration string string
| NotPositive string string
| SecretTooShort
| RefreshTTLTooLong int
| UnknownSameSite string
| SameSiteNoneInsecure
| HostPrefixInsecure
| HostPrefixDomain
| HostPrefixPath

text \<open>The methods of \<open>loader\<close> run on the list of errors.\<close>

type_synonym 'a loader = "(config_err list, 'a) state"

definition report :: "config_err \<Rightarrow> unit loader" where
  "report e = State_Monad.update (\<lambda>errs. errs @ [e])"

definition report_if :: "bool \<Rightarrow> config_err \<Rightarrow> unit loader" where
  "report_if c e = (if c then report e else State_Monad.return ())"

section \<open>The loader\<close>

definition envStr :: "environment \<Rightarrow> string \<Rightarrow> string \<Rightarrow> string" where
  "envStr env key def = (case LookupEnv env key of None \<Rightarrow> def | Some v \<Rightarrow> v)"

definition envInt64 :: "environment \<Rightarrow> string \<Rightarrow> int64 \<Rightarrow> int64" where
  "envInt64 env key def =
     (case LookupEnv env key of None \<Rightarrow> def
      | Some v \<Rightarrow> if v = [] then def else (case ParseInt v of None \<Rightarrow> def | Some n \<Rightarrow> word_of_int n))"

definition envBool :: "environment \<Rightarrow> string \<Rightarrow> bool \<Rightarrow> bool" where
  "envBool env key def =
     (case LookupEnv env key of None \<Rightarrow> def
      | Some v \<Rightarrow> if v = [] then def else (case ParseBool v of None \<Rightarrow> def | Some b \<Rightarrow> b))"

definition parseSameSite :: "environment \<Rightarrow> string \<Rightarrow> SameSite option" where
  "parseSameSite env s =
     (let t = ToLower (uni_lower env) (TrimSpace s) in
      if t = ''strict'' then Some SameSiteStrict
      else if t = ''lax'' then Some SameSiteLax
      else if t = ''none'' then Some SameSiteNone
      else None)"

definition requireStr :: "environment \<Rightarrow> string \<Rightarrow> string loader" where
  "requireStr env key = do {
     let v = envStr env key [];
     report_if (v = []) (Required key);
     State_Monad.return v }"

definition requirePosDuration :: "environment \<Rightarrow> string \<Rightarrow> int \<Rightarrow> int loader" where
  "requirePosDuration env key def =
     (case LookupEnv env key of
        None \<Rightarrow> State_Monad.return def
      | Some raw \<Rightarrow>
          if raw = [] then State_Monad.return def
          else (case ParseDuration (float_nanos env) raw of
                  None \<Rightarrow> do { report (InvalidDuration key raw); State_Monad.return def }
                | Some d \<Rightarrow>
                    if d \<le> 0 then do { report (NotPositive key raw); State_Monad.return def }
                    else State_Monad.return d))"

definition sec :: int where
  "sec = 1000000000"

definition buildServer :: "environment \<Rightarrow> ServerConfig loader" where
  "buildServer env = do {
     readHeader \<leftarrow> requirePosDuration env ''HTTP_READ_HEADER_TIMEOUT'' (10 * sec);
     read \<leftarrow> requirePosDuration env ''HTTP_READ_TIMEOUT'' (35 * 60 * sec);
     write \<leftarrow> requirePosDuration env ''HTTP_WRITE_TIMEOUT'' (35 * 60 * sec);
     idle \<leftarrow> requirePosDuration env ''HTTP_IDLE_TIMEOUT'' (120 * sec);
     shutdown \<leftarrow> requirePosDuration env ''HTTP_SHUTDOWN_TIMEOUT'' (10 * sec);
     State_Monad.return \<lparr>sc_ReadHeaderTimeout = readHeader, sc_ReadTimeout = read, sc_WriteTimeout = write,
       sc_IdleTimeout = idle, sc_ShutdownTimeout = shutdown\<rparr> }"

definition maxRefreshTTL :: int where
  "maxRefreshTTL = 7 * 24 * 3600 * sec"

definition buildJWT :: "environment \<Rightarrow> JWTConfig loader" where
  "buildJWT env = do {
     secret \<leftarrow> requireStr env ''JWT_SECRET'';
     report_if (secret \<noteq> [] \<and> length secret < 32) SecretTooShort;
     refreshTTL \<leftarrow> requirePosDuration env ''JWT_REFRESH_TTL'' (24 * 3600 * sec);
     report_if (refreshTTL > maxRefreshTTL) (RefreshTTLTooLong refreshTTL);
     accessTTL \<leftarrow> requirePosDuration env ''JWT_ACCESS_TTL'' (15 * 60 * sec);
     State_Monad.return \<lparr>jc_Secret = secret, jc_AccessTTL = accessTTL, jc_RefreshTTL = refreshTTL\<rparr> }"

definition buildRefreshCookie :: "environment \<Rightarrow> RefreshCookieConfig loader" where
  "buildRefreshCookie env = do {
     let raw = envStr env ''REFRESH_COOKIE_SAMESITE'' ''strict'';
     report_if (parseSameSite env raw = None) (UnknownSameSite raw);
     let sameSite = (case parseSameSite env raw of None \<Rightarrow> SameSiteLax | Some m \<Rightarrow> m);
     let secure = envBool env ''REFRESH_COOKIE_SECURE'' False;
     report_if (sameSite = SameSiteNone \<and> \<not> secure) SameSiteNoneInsecure;
     let name = envStr env ''REFRESH_COOKIE_NAME'' (if secure then ''__Host-refresh_token'' else ''refresh_token'');
     let path = envStr env ''REFRESH_COOKIE_PATH'' ''/'';
     let domain = envStr env ''REFRESH_COOKIE_DOMAIN'' [];
     report_if (prefix ''__Host-'' name \<and> \<not> secure) HostPrefixInsecure;
     report_if (prefix ''__Host-'' name \<and> domain \<noteq> []) HostPrefixDomain;
     report_if (prefix ''__Host-'' name \<and> path \<noteq> ''/'') HostPrefixPath;
     State_Monad.return \<lparr>rc_Name = name, rc_Path = path, rc_Domain = domain, rc_Secure = secure, rc_SameSite = sameSite\<rparr> }"

definition buildMinIO :: "environment \<Rightarrow> MinIOConfig loader" where
  "buildMinIO env = do {
     endpoint \<leftarrow> requireStr env ''MINIO_ENDPOINT'';
     accessKey \<leftarrow> requireStr env ''MINIO_ACCESS_KEY'';
     secretKey \<leftarrow> requireStr env ''MINIO_SECRET_KEY'';
     presignTTL \<leftarrow> requirePosDuration env ''MINIO_PRESIGN_TTL'' (3600 * sec);
     State_Monad.return \<lparr>mc_Endpoint = endpoint, mc_PublicEndpoint = envStr env ''MINIO_PUBLIC_ENDPOINT'' [],
       mc_AccessKey = accessKey, mc_SecretKey = secretKey, mc_Bucket = envStr env ''MINIO_BUCKET'' ''blobs'',
       mc_UseSSL = envBool env ''MINIO_USE_SSL'' False, mc_Region = envStr env ''MINIO_REGION'' ''us-east-1'',
       mc_PresignTTL = presignTTL\<rparr> }"

definition buildSMTP :: "environment \<Rightarrow> SMTPConfig loader" where
  "buildSMTP env = State_Monad.return
     \<lparr>sm_ResendAPIKey = envStr env ''RESEND_API_KEY'' [], sm_From = envStr env ''SMTP_FROM'' []\<rparr>"

definition build :: "environment \<Rightarrow> Config loader" where
  "build env = do {
     databaseURL \<leftarrow> requireStr env ''DATABASE_URL'';
     redisURL \<leftarrow> requireStr env ''REDIS_URL'';
     trashTTL \<leftarrow> requirePosDuration env ''TRASH_TTL'' (30 * 24 * 3600 * sec);
     server \<leftarrow> buildServer env;
     jwt \<leftarrow> buildJWT env;
     cookie \<leftarrow> buildRefreshCookie env;
     minio \<leftarrow> buildMinIO env;
     smtp \<leftarrow> buildSMTP env;
     State_Monad.return \<lparr>cf_HTTPAddr = envStr env ''HTTP_ADDR'' '':8080'', cf_DatabaseURL = databaseURL, cf_RedisURL = redisURL,
       cf_LogLevel = envStr env ''LOG_LEVEL'' ''info'', cf_FrontendOrigin = envStr env ''FRONTEND_ORIGIN'' [],
       cf_StorageQuotaBytes = envInt64 env ''STORAGE_QUOTA_BYTES'' 0, cf_MaxUploadBytes = envInt64 env ''MAX_UPLOAD_BYTES'' 0,
       cf_TrashTTL = trashTTL, cf_Server = server, cf_JWT = jwt, cf_RefreshCookie = cookie, cf_MinIO = minio, cf_SMTP = smtp\<rparr> }"

definition Load :: "environment \<Rightarrow> config_err list + Config" where
  "Load env = (case run_state (build env) [] of (cfg, errs) \<Rightarrow> if errs \<noteq> [] then Inl errs else Inr cfg)"

section \<open>What a loaded configuration guarantees\<close>

text \<open>The problems of an environment, stated for each kind of error.\<close>

definition required_keys :: "string list" where
  "required_keys = [''DATABASE_URL'', ''REDIS_URL'', ''JWT_SECRET'', ''MINIO_ENDPOINT'', ''MINIO_ACCESS_KEY'', ''MINIO_SECRET_KEY'']"

definition duration_keys :: "string list" where
  "duration_keys = [''TRASH_TTL'', ''HTTP_READ_HEADER_TIMEOUT'', ''HTTP_READ_TIMEOUT'', ''HTTP_WRITE_TIMEOUT'', ''HTTP_IDLE_TIMEOUT'',
     ''HTTP_SHUTDOWN_TIMEOUT'', ''JWT_REFRESH_TTL'', ''JWT_ACCESS_TTL'', ''MINIO_PRESIGN_TTL'']"

definition given_duration :: "environment \<Rightarrow> string \<Rightarrow> string \<Rightarrow> int option \<Rightarrow> bool" where
  "given_duration env key raw d \<longleftrightarrow> LookupEnv env key = Some raw \<and> raw \<noteq> [] \<and> ParseDuration (float_nanos env) raw = d"

definition cookie_secure :: "environment \<Rightarrow> bool" where
  "cookie_secure env = envBool env ''REFRESH_COOKIE_SECURE'' False"

definition host_prefixed :: "environment \<Rightarrow> bool" where
  "host_prefixed env \<longleftrightarrow> (case LookupEnv env ''REFRESH_COOKIE_NAME'' of
     None \<Rightarrow> cookie_secure env | Some name \<Rightarrow> prefix ''__Host-'' name)"

fun violates :: "environment \<Rightarrow> config_err \<Rightarrow> bool" where
  "violates env (Required key) \<longleftrightarrow> key \<in> set required_keys \<and> envStr env key [] = []"
| "violates env (InvalidDuration key raw) \<longleftrightarrow> key \<in> set duration_keys \<and> given_duration env key raw None"
| "violates env (NotPositive key raw) \<longleftrightarrow> key \<in> set duration_keys \<and> (\<exists>d \<le> 0. given_duration env key raw (Some d))"
| "violates env SecretTooShort \<longleftrightarrow> length (envStr env ''JWT_SECRET'' []) \<in> {1..<32}"
| "violates env (RefreshTTLTooLong d) \<longleftrightarrow> d > maxRefreshTTL \<and> (\<exists>raw. given_duration env ''JWT_REFRESH_TTL'' raw (Some d))"
| "violates env (UnknownSameSite s) \<longleftrightarrow> LookupEnv env ''REFRESH_COOKIE_SAMESITE'' = Some s \<and> parseSameSite env s = None"
| "violates env SameSiteNoneInsecure \<longleftrightarrow> \<not> cookie_secure env
     \<and> (\<exists>s. LookupEnv env ''REFRESH_COOKIE_SAMESITE'' = Some s \<and> parseSameSite env s = Some SameSiteNone)"
| "violates env HostPrefixInsecure \<longleftrightarrow> host_prefixed env \<and> \<not> cookie_secure env"
| "violates env HostPrefixDomain \<longleftrightarrow> host_prefixed env \<and> envStr env ''REFRESH_COOKIE_DOMAIN'' [] \<noteq> []"
| "violates env HostPrefixPath \<longleftrightarrow> host_prefixed env \<and> envStr env ''REFRESH_COOKIE_PATH'' ''/'' \<noteq> ''/''"

definition cookie_config_ok :: "RefreshCookieConfig \<Rightarrow> bool" where
  "cookie_config_ok c \<longleftrightarrow>
     (prefix ''__Host-'' (rc_Name c) \<longrightarrow> rc_Secure c \<and> rc_Domain c = [] \<and> rc_Path c = ''/'')
     \<and> (rc_SameSite c = SameSiteNone \<longrightarrow> rc_Secure c)"

definition is_duration :: "int \<Rightarrow> bool" where
  "is_duration t \<longleftrightarrow> 0 < t \<and> t < 2 ^ 63"

definition config_ok :: "Config \<Rightarrow> bool" where
  "config_ok c \<longleftrightarrow>
     cf_DatabaseURL c \<noteq> [] \<and> cf_RedisURL c \<noteq> [] \<and> 32 \<le> length (jc_Secret (cf_JWT c))
     \<and> mc_Endpoint (cf_MinIO c) \<noteq> [] \<and> mc_AccessKey (cf_MinIO c) \<noteq> [] \<and> mc_SecretKey (cf_MinIO c) \<noteq> []
     \<and> list_all is_duration
         [cf_TrashTTL c, jc_AccessTTL (cf_JWT c), jc_RefreshTTL (cf_JWT c), mc_PresignTTL (cf_MinIO c),
          sc_ReadHeaderTimeout (cf_Server c), sc_ReadTimeout (cf_Server c), sc_WriteTimeout (cf_Server c),
          sc_IdleTimeout (cf_Server c), sc_ShutdownTimeout (cf_Server c)]
     \<and> jc_RefreshTTL (cf_JWT c) \<le> maxRefreshTTL
     \<and> cookie_config_ok (cf_RefreshCookie c)"

text \<open>The value and the errors of the two readers that report.\<close>

definition duration_value :: "environment \<Rightarrow> string \<Rightarrow> int \<Rightarrow> int" where
  "duration_value env key def = fst (run_state (requirePosDuration env key def) [])"

definition duration_errs :: "environment \<Rightarrow> string \<Rightarrow> config_err list" where
  "duration_errs env key = snd (run_state (requirePosDuration env key 0) [])"

lemma run_report [simp]: "run_state (report e) es = ((), es @ [e])"
  by (simp add: report_def State_Monad.update_def)

lemma run_report_if [simp]: "run_state (report_if c e) es = ((), es @ (if c then [e] else []))"
  by (simp add: report_if_def)

lemma run_requireStr [simp]:
  "run_state (requireStr env key) es = (envStr env key [], es @ (if envStr env key [] = [] then [Required key] else []))"
  by (simp add: requireStr_def)

lemma run_requirePosDuration [simp]:
  "run_state (requirePosDuration env key def) es = (duration_value env key def, es @ duration_errs env key)"
  by (simp add: duration_value_def duration_errs_def requirePosDuration_def split: option.split)

lemma set_duration_errs:
  "set (duration_errs env key) =
     {e. \<exists>raw. e = InvalidDuration key raw \<and> given_duration env key raw None
        \<or> e = NotPositive key raw \<and> (\<exists>d \<le> 0. given_duration env key raw (Some d))}"
  by (auto simp: duration_errs_def requirePosDuration_def given_duration_def split: option.split)

lemma duration_value_cases:
  obtains "duration_value env key def = def" and "\<nexists>raw d. 0 < d \<and> given_duration env key raw (Some d)"
  | raw where "given_duration env key raw (Some (duration_value env key def))" and "0 < duration_value env key def"
proof (cases "\<exists>raw d. 0 < d \<and> given_duration env key raw (Some d)")
  case True
  then obtain raw d where "0 < d" "given_duration env key raw (Some d)" by blast
  then show thesis by (intro that(2) [of raw]) (auto simp: duration_value_def requirePosDuration_def given_duration_def)
next
  case False
  then have "duration_value env key def = def"
    by (auto simp: duration_value_def requirePosDuration_def given_duration_def not_le split: option.split)
  with False show thesis by (intro that(1))
qed

lemma is_duration_value:
  assumes "is_duration def"
  shows "is_duration (duration_value env key def)"
  by (rule duration_value_cases [of env key def])
    (use assms in \<open>auto simp: is_duration_def given_duration_def dest: ParseDuration_range\<close>)

lemma parseSameSite_default [simp]: "parseSameSite env ''strict'' = Some SameSiteStrict"
proof -
  have "TrimSpace ''strict'' = ''strict''" by code_simp
  moreover have "ToLower (uni_lower env) ''strict'' = ''strict''" by (simp add: ToLower_def is_ascii_def lower_ascii_def)
  ultimately show ?thesis by (simp add: parseSameSite_def)
qed

lemma given_name:
  "prefix ''__Host-'' (envStr env ''REFRESH_COOKIE_NAME'' (if envBool env ''REFRESH_COOKIE_SECURE'' False
     then ''__Host-refresh_token'' else ''refresh_token'')) = host_prefixed env"
  by (simp add: envStr_def host_prefixed_def cookie_secure_def split: option.split)

lemmas build_defs = build_def buildServer_def buildJWT_def buildRefreshCookie_def buildMinIO_def buildSMTP_def Let_def

lemma build_errs: "e \<in> set (snd (run_state (build env) [])) \<longleftrightarrow> violates env e"
proof (cases e)
  case (Required key)
  show ?thesis unfolding Required by (simp add: build_defs set_duration_errs required_keys_def) metis
next
  case (InvalidDuration key raw)
  show ?thesis unfolding InvalidDuration by (simp add: build_defs set_duration_errs duration_keys_def) metis
next
  case (NotPositive key raw)
  show ?thesis unfolding NotPositive by (simp add: build_defs set_duration_errs duration_keys_def) metis
next
  case (RefreshTTLTooLong d)
  have "d = duration_value env ''JWT_REFRESH_TTL'' (86400 * sec) \<and> maxRefreshTTL < duration_value env ''JWT_REFRESH_TTL'' (86400 * sec)
      \<longleftrightarrow> violates env (RefreshTTLTooLong d)"
    by (rule duration_value_cases [of env "''JWT_REFRESH_TTL''" "86400 * sec"])
      (auto simp: maxRefreshTTL_def sec_def given_duration_def)
  then show ?thesis unfolding RefreshTTLTooLong by (simp add: build_defs set_duration_errs)
next
  case (UnknownSameSite s)
  then show ?thesis by (auto simp: build_defs set_duration_errs envStr_def split: option.split)
next
  case SameSiteNoneInsecure
  then show ?thesis by (auto simp: build_defs set_duration_errs envStr_def cookie_secure_def split: option.split)
next
  case SecretTooShort
  then show ?thesis by (simp add: build_defs set_duration_errs Suc_le_eq)
qed (simp_all add: build_defs set_duration_errs given_name cookie_secure_def)

lemma build_cookie_ok:
  assumes v: "\<And>e. \<not> violates env e"
  shows "cookie_config_ok (cf_RefreshCookie (fst (run_state (build env) [])))"
proof -
  have "parseSameSite env (envStr env ''REFRESH_COOKIE_SAMESITE'' ''strict'') \<noteq> Some SameSiteNone \<or> cookie_secure env"
    using v [of SameSiteNoneInsecure] by (auto simp: envStr_def split: option.split)
  then show ?thesis
    using v [of HostPrefixInsecure] v [of HostPrefixDomain] v [of HostPrefixPath]
    by (simp add: build_defs cookie_config_ok_def given_name cookie_secure_def split: option.split)
qed

lemma build_ok:
  assumes "snd (run_state (build env) []) = []"
  shows "config_ok (fst (run_state (build env) []))"
proof -
  have v: "\<not> violates env e" for e using build_errs [of e env] assms by simp
  have keys: "envStr env k [] \<noteq> []" if "k \<in> set required_keys" for k using v [of "Required k"] that by simp
  have secret: "32 \<le> length (envStr env ''JWT_SECRET'' [])"
    using v [of SecretTooShort] keys [of "''JWT_SECRET''"] by (auto simp: required_keys_def not_less Suc_le_eq)
  have refresh: "duration_value env ''JWT_REFRESH_TTL'' (24 * 3600 * sec) \<le> maxRefreshTTL"
    by (rule duration_value_cases [of env "''JWT_REFRESH_TTL''" "24 * 3600 * sec"], simp add: maxRefreshTTL_def sec_def)
      (use v [of "RefreshTTLTooLong (duration_value env ''JWT_REFRESH_TTL'' (24 * 3600 * sec))"] in \<open>auto simp: not_less\<close>)
  have d: "is_duration (10 * sec)" "is_duration (120 * sec)" "is_duration (900 * sec)" "is_duration (2100 * sec)"
    "is_duration (3600 * sec)" "is_duration (86400 * sec)" "is_duration (2592000 * sec)"
    by (simp_all add: is_duration_def sec_def)
  have "list_all (\<lambda>k. envStr env k [] \<noteq> []) required_keys" using keys by (simp add: list_all_iff)
  then have "envStr env ''DATABASE_URL'' [] \<noteq> []" "envStr env ''REDIS_URL'' [] \<noteq> []" "envStr env ''MINIO_ENDPOINT'' [] \<noteq> []"
    "envStr env ''MINIO_ACCESS_KEY'' [] \<noteq> []" "envStr env ''MINIO_SECRET_KEY'' [] \<noteq> []"
    by (simp_all add: required_keys_def)
  note k = this
  let ?c = "fst (run_state (build env) [])"
  have c1: "cf_DatabaseURL ?c \<noteq> []" "cf_RedisURL ?c \<noteq> []" "32 \<le> length (jc_Secret (cf_JWT ?c))"
    "mc_Endpoint (cf_MinIO ?c) \<noteq> []" "mc_AccessKey (cf_MinIO ?c) \<noteq> []" "mc_SecretKey (cf_MinIO ?c) \<noteq> []"
    by (simp_all add: build_defs k secret)
  have c2: "jc_RefreshTTL (cf_JWT ?c) \<le> maxRefreshTTL"
    using refresh by (simp add: build_defs)
  have c3: "is_duration (cf_TrashTTL ?c)" "is_duration (jc_AccessTTL (cf_JWT ?c))" "is_duration (jc_RefreshTTL (cf_JWT ?c))"
    "is_duration (mc_PresignTTL (cf_MinIO ?c))" "is_duration (sc_ReadHeaderTimeout (cf_Server ?c))"
    "is_duration (sc_ReadTimeout (cf_Server ?c))" "is_duration (sc_WriteTimeout (cf_Server ?c))"
    "is_duration (sc_IdleTimeout (cf_Server ?c))" "is_duration (sc_ShutdownTimeout (cf_Server ?c))"
    by (simp_all add: build_defs is_duration_value d)
  show ?thesis unfolding config_ok_def by (simp only: list.pred_inject simp_thms c1 c2 c3 build_cookie_ok [OF v] not_False_eq_True)
qed

text \<open>
  C11. The configuration is checked before the server starts: \<open>Load\<close> either returns a configuration in which every required
  value is there, the signing secret has at least 32 bytes, every duration is positive and fits 64 bits,
  refresh tokens live at most seven days and the cookie attributes agree with each other; or it returns
  the list of exactly those problems the environment has, all of them at once.
\<close>

theorem Load_checks:
  "case Load env of
     Inl errs \<Rightarrow> errs \<noteq> [] \<and> set errs = {e. violates env e}
   | Inr cfg \<Rightarrow> {e. violates env e} = {} \<and> config_ok cfg"
proof (cases "snd (run_state (build env) []) = []")
  case True
  with build_errs [of _ env] have "\<not> violates env e" for e by simp
  with True build_ok [OF True] show ?thesis by (simp add: Load_def split_beta)
next
  case False
  with build_errs [of _ env] show ?thesis by (auto simp: Load_def split_beta)
qed

lemma Load_ok: "Load env = Inr cfg \<Longrightarrow> config_ok cfg"
  using build_ok [of env] by (auto simp: Load_def split: prod.splits if_splits)

end
