(* ===== verification/Wiring.thy ===== *)
theory Wiring
  imports Server_Isolation Configuration
begin

text \<open>
  \<open>internal/app/app.go\<close>: from a loaded configuration to a running server. \<open>Run\<close> is modelled up
  to the point where the server listens, \<open>start\<close> is \<open>main\<close> up to there; \<open>wireDeps\<close> connects the services, \<open>cleanup_jobs\<close> are the background
  jobs. The libraries that connect to PostgreSQL, Redis and MinIO are parameters.
\<close>

section \<open>Connecting\<close>

text \<open>The settings of the pool (\<open>pool.go\<close>).\<close>

record pool_config =
  po_URL :: string
  po_MaxConns :: nat
  po_MinConns :: nat
  po_MaxConnLifetime :: int
  po_MaxConnIdleTime :: int
  po_HealthCheckPeriod :: int

datatype pool_err = PoolParse | PoolNew | PoolPing

record ('r, 'o) libraries =
  lb_ParseLevel :: "string \<Rightarrow> bool"
  lb_pgx_ParseConfig :: "string \<Rightarrow> bool"
  lb_pgx_New :: "pool_config \<Rightarrow> bool"
  lb_pgx_Ping :: "pool_config \<Rightarrow> bool"
  lb_redis_ParseURL :: "string \<Rightarrow> string option"
  lb_redis_NewClient :: "string \<Rightarrow> 'r redis"
  lb_redis_Ping :: "'r redis \<Rightarrow> bool"
  lb_minio_New :: "string \<Rightarrow> string \<Rightarrow> string \<Rightarrow> bool \<Rightarrow> string \<Rightarrow> 'o client option"
  lb_url_Parse :: "string \<Rightarrow> (string \<times> string) option"
  lb_jwt :: jwt_lib
  lb_codec :: codec

definition NewPool :: "('r, 'o) libraries \<Rightarrow> string \<Rightarrow> pool_err + pool_config" where
  "NewPool lb databaseURL =
     (if \<not> lb_pgx_ParseConfig lb databaseURL then Inl PoolParse
      else (let cfg = \<lparr>po_URL = databaseURL, po_MaxConns = 25, po_MinConns = 2, po_MaxConnLifetime = 3600 * sec,
                       po_MaxConnIdleTime = 30 * 60 * sec, po_HealthCheckPeriod = 60 * sec\<rparr> in
        if \<not> lb_pgx_New lb cfg then Inl PoolNew
        else if \<not> lb_pgx_Ping lb cfg then Inl PoolPing
        else Inr cfg))"

section \<open>wireDeps\<close>

record ('r, 'o) wiredDeps =
  wd_router :: "('r, 'o) Deps"
  wd_sessions :: "'r AuthService"
  wd_trash :: "'o Service"
  wd_orphans :: "'o Service"

text \<open>
  The three services run on the same database; the authentication service and the middleware share the
  token service, the blocklist and Redis.
\<close>

definition wireDeps :: "('r, 'o) libraries \<Rightarrow> (string \<Rightarrow> string) \<Rightarrow> Config \<Rightarrow> 'r redis \<Rightarrow> 'o Store \<Rightarrow> ('r, 'o) wiredDeps" where
  "wireDeps lb lower cfg redisClient ms =
     (let tokens = NewService_jwt (string_bytes (jc_Secret (cf_JWT cfg))) (jc_AccessTTL (cf_JWT cfg));
          publicKeyRL = \<lparr>rl_prefix = ''rl:pubkey:'', rl_limit = 20, rl_window = 60 * sec\<rparr>;
          loginRL = \<lparr>rl_prefix = ''rl:login:'', rl_limit = 10, rl_window = 60 * sec\<rparr>;
          authSvc = \<lparr>as_Redis = redisClient, as_Codec = lb_codec lb, as_Jwt = lb_jwt lb, as_Tokens = tokens,
            as_AccessTTL = jc_AccessTTL (cf_JWT cfg), as_RefreshTTL = jc_RefreshTTL (cf_JWT cfg), as_Audit = True,
            as_FrontendOrigin = cf_FrontendOrigin cfg, as_UniLower = lower\<rparr>;
          storageSvc = \<lparr>sv_Objects = ms, sv_PresignTTL = mc_PresignTTL (cf_MinIO cfg),
            sv_MaxUploadBytes = cf_MaxUploadBytes cfg, sv_QuotaBytes = cf_StorageQuotaBytes cfg\<rparr>;
          sharingSvc = \<lparr>hs_Objects = ms, hs_PresignTTL = mc_PresignTTL (cf_MinIO cfg), hs_UniLower = lower\<rparr>
      in \<lparr>wd_router = \<lparr>dp_Auth = authSvc, dp_LoginRateLimiter = loginRL, dp_PublicKeyRateLimiter = publicKeyRL,
            dp_RefreshCookie = cf_RefreshCookie cfg, dp_Blobs = storageSvc, dp_Trash = storageSvc, dp_Sharing = sharingSvc\<rparr>,
          wd_sessions = authSvc, wd_trash = storageSvc, wd_orphans = storageSvc\<rparr>)"

section \<open>Run\<close>

datatype start_err =
  ConfigErr "config_err list" | LogLevelErr | DbStart pool_err | RedisStart client_err | MinioStart store_err | MinioBucket minio_err

text \<open>A result of a library as a step on the object store's state.\<close>

definition lift_result :: "('e \<Rightarrow> start_err) \<Rightarrow> 'e + 'a \<Rightarrow> ('o, start_err, 'a) eff" where
  "lift_result f x = (case x of Inl e \<Rightarrow> fail (f e) | Inr a \<Rightarrow> ret a)"

definition store_config :: "MinIOConfig \<Rightarrow> StoreConfig" where
  "store_config m = \<lparr>sc_Endpoint = mc_Endpoint m, sc_PublicEndpoint = mc_PublicEndpoint m, sc_AccessKey = mc_AccessKey m,
     sc_SecretKey = mc_SecretKey m, sc_Bucket = mc_Bucket m, sc_UseSSL = mc_UseSSL m, sc_Region = mc_Region m\<rparr>"

definition Run :: "('r, 'o) libraries \<Rightarrow> (string \<Rightarrow> string) \<Rightarrow> Config \<Rightarrow> ('o, start_err, ('r, 'o) wiredDeps) eff" where
  "Run lb lower cfg =
     bindE (lift_result DbStart (NewPool lb (cf_DatabaseURL cfg))) (\<lambda>_.
     bindE (lift_result RedisStart 
       (NewClient (lb_redis_ParseURL lb) (lb_redis_NewClient lb) (lb_redis_Ping lb) (cf_RedisURL cfg))) (\<lambda>redisClient.
     bindE (lift_result MinioStart (NewStore (lb_minio_New lb) (lb_url_Parse lb) (store_config (cf_MinIO cfg)))) (\<lambda>ms.
     bindE (map_err MinioBucket (EnsureBucket ms)) (\<lambda>_.
     ret (wireDeps lb lower cfg redisClient ms)))))"

text \<open>\<open>main\<close>: nothing runs without a valid configuration and a known log level.\<close>

definition start :: "('r, 'o) libraries \<Rightarrow> environment \<Rightarrow> ('o, start_err, Config \<times> ('r, 'o) wiredDeps) eff" where
  "start lb env =
     bindE (lift_result ConfigErr (Load env)) (\<lambda>cfg.
     if \<not> lb_ParseLevel lb (cf_LogLevel cfg) then fail LogLevelErr
     else bindE (Run lb (uni_lower env) cfg) (\<lambda>wired. ret (cfg, wired)))"

text \<open>
  The jobs with their interval and timeout. An error of a job is logged only: the state after it is what
  the job left.
\<close>

definition cleanup_jobs ::
  "Config \<Rightarrow> ('r, 'o) wiredDeps \<Rightarrow> (string \<times> int \<times> int \<times> (('r, 'o) gworld \<Rightarrow> ('r, 'o) gworld)) list" where
  "cleanup_jobs cfg wired =
     [(''session cleanup'', 3600 * sec, 30 * sec, \<lambda>w. snd (at_auth CleanOrphanedSessions w)),
      (''trash cleanup'', 3600 * sec, 60 * sec, \<lambda>w. snd (at_storage (CleanExpiredTrash (wd_trash wired) (cf_TrashTTL cfg)) w)),
      (''orphan blobs cleanup'', 3600 * sec, 60 * sec,
         \<lambda>w. snd (at_storage (CleanOrphanedBlobs (wd_orphans wired) (mc_PresignTTL (cf_MinIO cfg))) w))]"

text \<open>The loop of one job: a turn at each tick, until the context is done.\<close>

fun runCleanupJob :: "(('r, 'o) gworld \<Rightarrow> ('r, 'o) gworld) \<Rightarrow> time list \<Rightarrow> ('r, 'o) gworld \<Rightarrow> ('r, 'o) gworld" where
  "runCleanupJob fn [] w = w"
| "runCleanupJob fn (t # ticks) w = runCleanupJob fn ticks (fn (w\<lparr>w_now := max t (w_now w)\<rparr>))"

section \<open>What start gives\<close>

lemma startD:
  assumes "start lb env o0 = (Inr (cfg, wired), o1)"
  obtains rc ms where "Load env = Inr cfg" and "wired = wireDeps lb (uni_lower env) cfg rc ms"
proof -
  from assms have "Load env = Inr cfg \<and> (\<exists>rc ms. wired = wireDeps lb (uni_lower env) cfg rc ms)"
    by (auto simp: start_def Run_def bindE_def lift_result_def NewClient_def map_err_def ret_def fail_def
        split: sum.splits prod.splits if_splits)
  with that show thesis by blast
qed

lemma wired_deps [simp]:
  "dp_LoginRateLimiter (wd_router (wireDeps lb lower cfg rc ms)) = \<lparr>rl_prefix = ''rl:login:'', rl_limit = 10, rl_window = 60 * sec\<rparr>"
  "dp_RefreshCookie (wd_router (wireDeps lb lower cfg rc ms)) = cf_RefreshCookie cfg"
  "as_Redis (dp_Auth (wd_router (wireDeps lb lower cfg rc ms))) = rc"
  "dp_Trash (wd_router (wireDeps lb lower cfg rc ms)) = wd_trash (wireDeps lb lower cfg rc ms)"
  "dp_Blobs (wd_router (wireDeps lb lower cfg rc ms)) = wd_orphans (wireDeps lb lower cfg rc ms)"
  by (simp_all add: wireDeps_def Let_def)

text \<open>Every turn of a job is a step of the server.\<close>

lemma jobs_are_steps:
  assumes "start lb env o0 = (Inr (cfg, wired), o1)" and "(name, interval, timeout, fn) \<in> set (cleanup_jobs cfg wired)"
  shows "server_step (wd_router wired) pf inet w (fn w)"
proof -
  obtain rc ms where w: "wired = wireDeps lb (uni_lower env) cfg rc ms" using assms(1) by (rule startD)
  show ?thesis
    using assms(2) by (auto simp: cleanup_jobs_def w wired_deps(4,5) [symmetric] simp del: wired_deps(4,5) intro: server_step.intros)
qed

lemma runCleanupJob_steps:
  assumes "start lb env o0 = (Inr (cfg, wired), o1)" and "(name, interval, timeout, fn) \<in> set (cleanup_jobs cfg wired)"
  shows "(server_step (wd_router wired) pf inet)\<^sup>*\<^sup>* w (runCleanupJob fn ticks w)"
proof (induction ticks arbitrary: w)
  case (Cons t ticks)
  have "server_step (wd_router wired) pf inet w (w\<lparr>w_now := max t (w_now w), w_faults := w_faults w\<rparr>)"
    by (rule tick) simp
  then have "server_step (wd_router wired) pf inet w (w\<lparr>w_now := max t (w_now w)\<rparr>)" by simp
  then show ?case
    unfolding runCleanupJob.simps
    by (rule converse_rtranclp_into_rtranclp) (rule converse_rtranclp_into_rtranclp, rule jobs_are_steps [OF assms], rule Cons.IH)
qed simp

end
