(* ===== verification/Wiring_Properties.thy ===== *)
theory Wiring_Properties
  imports Wiring
begin

text \<open>
  The cookies and the throttling of a server that was started from a valid configuration.
\<close>

section \<open>Responses and their cookies\<close>

definition emits :: "(Cookie \<Rightarrow> bool) \<Rightarrow> ('w, 'b) handler \<Rightarrow> bool" where
  "emits C h \<longleftrightarrow> (\<forall>w. \<forall>c \<in> set (rp_Cookies (fst (h w))). C c)"

named_theorems emits_rules

lemma emits_reply [emits_rules]: "emits C (reply st b)"
  by (simp add: emits_def reply_def)

lemma emits_WriteError [emits_rules]: "emits C (WriteError st msg)"
  by (simp add: emits_def)

lemma emits_WriteInternalError [emits_rules]: "emits C WriteInternalError"
  by (simp add: emits_def WriteInternalError_def)

lemma emits_call [emits_rules]: "(\<And>x. emits C (e x)) \<Longrightarrow> (\<And>x. emits C (k x)) \<Longrightarrow> emits C (call m e k)"
  by (auto simp: emits_def call_def split: prod.split sum.split)

lemma emits_decoded [emits_rules]: "(\<And>x. emits C (k x)) \<Longrightarrow> emits C (decoded body validate k)"
  by (auto simp: decoded_def WriteValidationError_def split: option.splits validate_err.splits intro: emits_rules)

lemma emits_MustUserID [emits_rules]: "(\<And>u. emits C (k u)) \<Longrightarrow> emits C (MustUserID rq k)"
  by (auto simp: MustUserID_def intro: emits_rules split: option.split)

lemma emits_mustDecodeB64 [emits_rules]: "(\<And>x. emits C (k x)) \<Longrightarrow> emits C (mustDecodeB64 s f mn mx k)"
  by (auto simp: mustDecodeB64_def split: prod.splits intro: emits_rules)

lemma emits_set_cookie: "C c \<Longrightarrow> emits C h \<Longrightarrow> emits C (set_cookie c h)"
  by (auto simp: emits_def set_cookie_def split_beta)

lemma emits_logged_async [emits_rules]: "emits C h \<Longrightarrow> emits C (logged_async e h)"
  by (simp add: emits_def logged_async_def)

lemma emits_if [emits_rules]: "emits C h \<Longrightarrow> emits C k \<Longrightarrow> emits C (if c then h else k)"
  by simp

lemma emits_option [emits_rules]: "emits C h \<Longrightarrow> (\<And>x. emits C (k x)) \<Longrightarrow> emits C (case r of None \<Rightarrow> h | Some x \<Rightarrow> k x)"
  by (cases r) auto

lemma emits_sum [emits_rules]: "(\<And>e. emits C (h e)) \<Longrightarrow> (\<And>x. emits C (k x)) \<Longrightarrow> emits C (case r of Inl e \<Rightarrow> h e | Inr x \<Rightarrow> k x)"
  by (cases r) auto

lemma emits_prod [emits_rules]: "(\<And>x y. emits C (k x y)) \<Longrightarrow> emits C (case r of (x, y) \<Rightarrow> k x y)"
  by (cases r) auto

lemma emits_world: "(\<And>w. emits C (h w)) \<Longrightarrow> emits C (\<lambda>w. h w w)"
  by (simp add: emits_def)

lemma emits_at_auth [emits_rules]: "emits C h \<Longrightarrow> emits C (at_auth h)"
  by (simp add: emits_def at_auth_def within_def split_beta)

lemma emits_answer [emits_rules]: "emits C h \<Longrightarrow> emits C (answer f h)"
  by (simp add: emits_def answer_def split_beta)

lemma emits_uuid [emits_rules]:
  "(\<And>i. emits C (k i)) \<Longrightarrow> emits C (uuid_param d rq name msg k)" "(\<And>j. emits C (k' j)) \<Longrightarrow> emits C (uuid_field d field msg k')"
  unfolding uuid_param_def uuid_field_def by (intro emits_rules; assumption)+

lemma emits_audited [emits_rules]: "emits C h \<Longrightarrow> emits C (audited rq u ev i n h)"
  unfolding audited_def by (rule emits_logged_async)

lemma emits_audited_all [emits_rules]: "emits C h \<Longrightarrow> emits C (foldr (\<lambda>x. audited rq u ev (g x) (n x)) xs h)"
  by (induction xs) (auto intro: emits_audited)

lemma emits_error_writers [emits_rules]:
  "emits C (writeStorageErr e)" "emits C (writeFolderErr e)" "emits C (writeSharingErr e')" "emits C (writeAuthErr e'')"
proof -
  show "emits C (writeStorageErr e)" by (cases e) (simp_all add: writeStorageErr_def emits_rules)
  show "emits C (writeFolderErr e)" by (cases e) (simp_all add: writeFolderErr_def emits_rules)
  show "emits C (writeSharingErr e')" by (cases e') (simp_all add: writeSharingErr_def emits_rules)
  show "emits C (writeAuthErr e'')" by (cases e'') (simp_all add: writeAuthErr_def emits_rules)
qed

lemma emits_share_expiry [emits_rules]: "(\<And>t. emits C (k t)) \<Longrightarrow> emits C (share_expiry parse_time field k)"
  unfolding share_expiry_def
  by (rule emits_option, blast, rule emits_option, rule emits_WriteError, rule emits_world, rule emits_if, rule emits_WriteError)

lemma emits_RateLimit: "emits C (h rq) \<Longrightarrow> emits C (RateLimitMiddleware rd l key h rq)"
  unfolding RateLimitMiddleware_def by (intro emits_rules)

lemma emits_gate: "(\<And>u s. emits C (h (rq\<lparr>rq_ctxUserID := Some u, rq_ctxSessionID := Some s\<rparr>))) \<Longrightarrow> emits C (gate d h rq)"
  unfolding gate_def AuthMiddleware_def Let_def
  by (rule emits_option, rule emits_WriteError, rule emits_world) (intro emits_rules)

section \<open>What browsers accept\<close>

text \<open>
  A cookie with the prefix \<open>__Host-\<close> must be secure, without domain and for the path \<open>/\<close>, one with
  the prefix \<open>__Secure-\<close> must be secure, and \<open>SameSite=None\<close> is honoured on secure cookies only.
\<close>

definition browser_accepts :: "Cookie \<Rightarrow> bool" where
  "browser_accepts c \<longleftrightarrow>
     (prefix ''__Host-'' (ck_Name c) \<longrightarrow> ck_Secure c \<and> ck_Domain c = [] \<and> ck_Path c = ''/'')
     \<and> (prefix ''__Secure-'' (ck_Name c) \<longrightarrow> ck_Secure c)
     \<and> (ck_SameSite c = SameSiteNone \<longrightarrow> ck_Secure c)"

definition session_cookie :: "RefreshCookieConfig \<Rightarrow> Cookie \<Rightarrow> bool" where
  "session_cookie cfg c \<longleftrightarrow> ck_Name c \<in> {rc_Name cfg, deviceCookieName cfg} \<and> ck_HttpOnly c \<and> ck_Secure c = rc_Secure cfg
     \<and> ck_SameSite c = rc_SameSite cfg \<and> ck_Domain c = rc_Domain cfg \<and> ck_Path c = rc_Path cfg"

lemma emits_cookies [emits_rules]:
  "emits (session_cookie cfg) h \<Longrightarrow> emits (session_cookie cfg) (setDeviceCookie cfg i h)"
  "emits (session_cookie cfg) h \<Longrightarrow> emits (session_cookie cfg) (clearRefreshTokenCookie cfg h)"
  "emits (session_cookie cfg) h \<Longrightarrow> emits (session_cookie cfg) (setAuthCookie cfg pair h)"
  unfolding setDeviceCookie_def clearRefreshTokenCookie_def setAuthCookie_def setRefreshTokenCookie_def Let_def
  by (rule emits_set_cookie; simp add: session_cookie_def baseRefreshCookie_def)+

lemma auth_routes_emit:
  assumes "(m, p, h) \<in> set (auth_routes d pf rn)"
  shows "emits (session_cookie (dp_RefreshCookie d)) (h rq)"
proof -
  have "emits (session_cookie (dp_RefreshCookie d)) (writeRegisterResponse (dp_RefreshCookie d) pair)"
    "emits (session_cookie (dp_RefreshCookie d)) (writeLoginFinalizeResponse (dp_RefreshCookie d) result)"
    "emits (session_cookie (dp_RefreshCookie d)) (writeRefreshResponse (dp_RefreshCookie d) pair)" for pair result
    unfolding writeRegisterResponse_def writeLoginFinalizeResponse_def writeRefreshResponse_def Let_def by (intro emits_rules)+
  note responses = this
  have "emits (session_cookie (dp_RefreshCookie d)) (register d vr nd i pr dr rq b1)"
    "emits (session_cookie (dp_RefreshCookie d)) (loginInit d vi rnd i b2)"
    "emits (session_cookie (dp_RefreshCookie d)) (loginFinalize d vf nd pr dr rq b3)"
    "emits (session_cookie (dp_RefreshCookie d)) (refresh d dr rq)"
    "emits (session_cookie (dp_RefreshCookie d)) (logout d rq)"
    "emits (session_cookie (dp_RefreshCookie d)) (requestPasswordReset d vq i rnd b4)"
    "emits (session_cookie (dp_RefreshCookie d)) (getRecoveryData vg b5)"
    "emits (session_cookie (dp_RefreshCookie d)) (resetPasswordConfirm d vc b6)"
    for vr nd i pr dr b1 vi rnd b2 vf b3 vq b4 vg b5 vc b6
    unfolding register_def loginInit_def loginFinalize_def refresh_def logout_def requestPasswordReset_def getRecoveryData_def
      resetPasswordConfirm_def Let_def
    by (intro emits_rules responses | auto intro!: emits_rules responses)+
  note handlers = this
  show ?thesis
    using assms unfolding auth_routes_def
    by (simp only: list.set insert_iff empty_iff prod.inject simp_thms)
      (elim disjE conjE; hypsubst; intro emits_answer emits_at_auth handlers)
qed

lemma protected_routes_emit:
  assumes "(m, p, h) \<in> set (protected_routes d pf rn)"
  shows "emits C (h rq)"
proof -
  have storage: "emits C (storageGetUsage d rq)" "emits C (storagePresignGet d rq)" "emits C (storageDeleteBlob d rq)"
    "emits C (storageListBlobs d rq)" "emits C (renameBlob d vr rq qr)" "emits C (storageSearch d second lower collate rq)"
    "emits C (storageInitiateMultipart d vi i rq qi)" "emits C (storageCompleteMultipart d vc rq qc)" "emits C (storageAbortUpload d rq)"
    for rq vr qr second lower collate vi i qi vc qc
    unfolding storageGetUsage_def storagePresignGet_def storageDeleteBlob_def storageListBlobs_def renameBlob_def storageSearch_def
      storageInitiateMultipart_def storageCompleteMultipart_def storageAbortUpload_def Let_def
    by (intro emits_rules)+
  have folders: "emits C (createFolder d vc i rq qc)" "emits C (getFolder d rq)" "emits C (listFolders d collate rq)"
    "emits C (renameFolder d vr rq qr)" "emits C (moveFolder d rq qm)" "emits C (deleteFolder d rq)" "emits C (moveBlob d rq qb)"
    for rq vc i qc collate vr qr qm qb
    unfolding createFolder_def getFolder_def listFolders_def renameFolder_def moveFolder_def deleteFolder_def moveBlob_def Let_def
    by (intro emits_rules)+
  have trash: "emits C (trashList d second collate rq)" "emits C (trashRestoreBlob d rq)" "emits C (trashDeleteBlob d rq)"
    "emits C (trashRestoreFolder d rq)" "emits C (trashDeleteFolder d rq)" "emits C (trashEmpty d rq)" for rq second collate
    unfolding trashList_def trashRestoreBlob_def trashDeleteBlob_def trashRestoreFolder_def trashDeleteFolder_def trashEmpty_def
    by (intro emits_rules)+
  have sharing: "emits C (getRecipientPublicKey d rq)" "emits C (createShare d vs pt ft i rq qs)" "emits C (listSharedWithMe d ft rq)"
    "emits C (listMyShares d ft rq)" "emits C (getSharedFile d ft rq)" "emits C (revokeShare d rq)"
    "emits C (favoritesAdd d ty rq)" "emits C (favoritesRemove d ty rq)" "emits C (favoritesList d rq)"
    for rq vs pt ft i qs ty
    unfolding getRecipientPublicKey_def createShare_def listSharedWithMe_def listMyShares_def getSharedFile_def revokeShare_def
      favoritesAdd_def favoritesRemove_def favoritesList_def Let_def
    by (intro emits_rules)+
  have sessions: "emits C (listSessions rq)" "emits C (revokeSession d rq)" "emits C (revokeOtherSessions d rq)"
    "emits C (listAuditEvents pt rq)" for rq pt
    unfolding listSessions_def revokeSession_def revokeOtherSessions_def listAuditEvents_def Let_def
    by (intro emits_rules)+
  from assms show ?thesis
    unfolding protected_routes_def session_routes_def storage_routes_def trash_routes_def share_routes_def favorite_routes_def
      Route_def Use_def publicKeyRL_def
    by (simp only: list.map append.simps list.set insert_iff empty_iff prod.case prod.inject simp_thms)
      (elim disjE conjE; hypsubst; intro emits_answer emits_at_auth emits_RateLimit storage folders trash sharing sessions)
qed

lemma NewRouter_emits:
  assumes "(m, p, h) \<in> set (NewRouter d pf rn)"
  shows "emits (session_cookie (dp_RefreshCookie d)) (h rq)"
proof -
  have "emits (session_cookie (dp_RefreshCookie d)) (gate d h' rq)" if "(m', p', h') \<in> set (protected_routes d pf rn)" for m' p' h'
    by (rule emits_gate, rule protected_routes_emit [OF that])
  moreover have "emits (session_cookie (dp_RefreshCookie d)) (loginRL d h' rq)" if "(m', p', h') \<in> set (auth_routes d pf rn)" for m' p' h'
    unfolding loginRL_def by (rule emits_RateLimit, rule auth_routes_emit [OF that])
  moreover have "emits (session_cookie (dp_RefreshCookie d)) (answer PHealth health)"
    unfolding health_def by (intro emits_rules)
  ultimately show ?thesis
    using assms by (auto simp: NewRouter_def Route_def Use_def)
qed

lemma session_cookie_accepted:
  assumes "cookie_config_ok cfg" and "session_cookie cfg c"
  shows "browser_accepts c \<longleftrightarrow> (prefix ''__Secure-'' (ck_Name c) \<longrightarrow> ck_Secure c)"
proof -
  have "prefix ''__Host-'' (deviceCookieName cfg) \<longleftrightarrow> prefix ''__Host-'' (rc_Name cfg)"
    by (simp add: deviceCookieName_def)
  with assms show ?thesis by (auto simp: browser_accepts_def cookie_config_ok_def session_cookie_def)
qed

text \<open>
  C20. Every cookie a started server sets, on any route, is \<open>HttpOnly\<close> and meets the rules of browsers for the
  \<open>__Host-\<close> prefix and for \<open>SameSite=None\<close>. The rule for the \<open>__Secure-\<close> prefix is the only one the
  configuration does not enforce: a cookie is accepted exactly when its name does not begin with
  \<open>__Secure-\<close> or it is secure.
\<close>

theorem cookies_accepted:
  assumes "start lb env o0 = (Inr (cfg, wired), o1)" and "(m, p, h) \<in> set (NewRouter (wd_router wired) pf rn)"
    and "c \<in> set (rp_Cookies (fst (h rq w)))"
  shows "ck_HttpOnly c \<and> (browser_accepts c \<longleftrightarrow> (prefix ''__Secure-'' (ck_Name c) \<longrightarrow> ck_Secure c))"
proof -
  obtain rc ms where cfg: "Load env = Inr cfg" and w: "wired = wireDeps lb (uni_lower env) cfg rc ms"
    using assms(1) by (rule startD)
  from NewRouter_emits [OF assms(2), of rq] assms(3) have c: "session_cookie (cf_RefreshCookie cfg) c"
    by (simp add: emits_def w)
  then have "ck_HttpOnly c" by (simp add: session_cookie_def)
  moreover from Load_ok [OF cfg] have "cookie_config_ok (cf_RefreshCookie cfg)" by (simp add: config_ok_def)
  ultimately show ?thesis using session_cookie_accepted c by blast
qed

section \<open>Throttling\<close>

text \<open>
  C21. Brute force against the public routes is throttled: once ten requests from an address were counted
  in the current minute, a started server answers every further request of that address under \<open>/auth\<close>
  with 429 as long as Redis works, and apart from the content of Redis nothing changes. The address is the
  one \<open>realIP\<close> reads, which a client can set in a header.
\<close>

theorem auth_throttled:
  assumes "start lb env o0 = (Inr (cfg, wired), o1)" and "incr_contract cell (as_Redis (dp_Auth (wd_router wired)))"
    and "(m, p, h) \<in> set (NewRouter (wd_router wired) pf rn)" and "take 5 p = ''/auth''" and "w_faults w = []"
    and "cell (w_redis w) (''rl:login:'' @ realIP rq) = Some (n, Some dl)" and "w_now w < dl"
    and "10 \<le> sint n" and "sint n < 2 ^ 63 - 1"
  shows "rp_Status (fst (h rq w)) = 429 \<and> (\<exists>r. snd (h rq w) = w\<lparr>w_redis := r\<rparr>)"
proof -
  obtain rc ms where w: "wired = wireDeps lb (uni_lower env) cfg rc ms" using assms(1) by (rule startD)
  have ic: "incr_contract cell rc" using assms(2) by (simp add: w)
  have "\<exists>h'. h = loginRL (wd_router wired) h'"
    using assms(3,4) by (auto simp: NewRouter_def Use_def Route_def protected_routes_def)
  then obtain h' where h: "h = loginRL (wd_router wired) h'" by blast
  let ?l = "\<lparr>rl_prefix = ''rl:login:'', rl_limit = 10, rl_window = 60 * sec\<rparr>"
  have "live cell (w_redis w) (w_now w) (''rl:login:'' @ realIP rq)" using assms(6,7) by (simp add: live_def)
  then obtain r where r: "rd_Incr rc (''rl:login:'' @ realIP rq) (w_now w) (w_redis w) = (Some (n + 1), r)"
    using ic assms(6,9) unfolding incr_contract_def by blast
  have n: "sint (n + 1) = sint n + 1" using assms(9) by (rule sint_succ)
  have "\<exists>r'. Allow rc ?l (realIP rq) w = (Inr False, w\<lparr>w_redis := r'\<rparr>)"
    using Allow_nil [of w "rc" ?l "realIP rq" "n + 1" r] assms(5,8) r n by (auto simp: word_sle_eq)
  then obtain r' where "Allow rc ?l (realIP rq) w = (Inr False, w\<lparr>w_redis := r'\<rparr>)" by blast
  then have "h rq w = WriteError 429 ''rate limit exceeded'' (w\<lparr>w_redis := r'\<rparr>)"
    by (simp add: h loginRL_def RateLimitMiddleware_def call_def w)
  then show ?thesis by auto
qed

end
