(* ===== verification/Trash_Audit.thy ===== *)
theory Trash_Audit
  imports Wiring_Properties Storage_Trash
begin

text \<open>
  The request that empties the trash, down to the audit queue: what it deletes, what it answers and
  which events it records.
\<close>

section \<open>Several events in the queue\<close>

lemma fold_LogAsync: "length q \<le> queueSize \<Longrightarrow> fold LogAsync es q = take queueSize (q @ es)"
proof (induction es arbitrary: q)
  case (Cons e es)
  then show ?case by (cases "length q < queueSize") (simp_all add: LogAsync_def take_Cons')
qed simp

lemma audited_all:
  "foldr (\<lambda>x. audited rq u ev (g x) (n x)) xs h w =
     h (w\<lparr>w_queue := fold LogAsync (map (\<lambda>x. auditEvent u ev (realIP rq) (rq_Header rq ''User-Agent'') (g x) (n x)) xs) (w_queue w)\<rparr>)"
  by (induction xs arbitrary: w) (simp_all add: audited_def logged_async_def)

section \<open>DELETE /trash\<close>

definition deletion_events :: "request \<Rightarrow> uuid \<Rightarrow> db \<Rightarrow> AuditEvent list" where
  "deletion_events rq u d =
     map (\<lambda>b. auditEvent u ''file_hard_deleted'' (realIP rq) (rq_Header rq ''User-Agent'') (Some (bl_ID b)) (bl_FileName b))
       (filter (\<lambda>b. bl_UserID b = u \<and> bl_DeletedAt b \<noteq> None) (stored_blobs d))
     @ map (\<lambda>f. auditEvent u ''folder_hard_deleted'' (realIP rq) (rq_Header rq ''User-Agent'') (Some (fo_ID f)) (fo_Name f))
       (filter (\<lambda>f. fo_UserID f = u \<and> fo_DeletedAt f \<noteq> None) (folders d))"

text \<open>
  C22. Emptying the trash over HTTP, when no call fails: the answer is 204, no trashed file or folder of the user is left, and
  the audit queue gets one event for each file and then one for each folder that was deleted, in order,
  up to its capacity of 512; events beyond that are lost.
\<close>

theorem trashEmpty_audited:
  assumes "wf_db (w_now w) (w_db w)" and "w_faults w = []" and "length (w_queue w) \<le> queueSize"
    and "rq_ctxUserID rq = Some u" and "u \<noteq> uuid_Nil"
  shows "rp_Status (fst (trashEmpty d rq w)) = 204
    \<and> (\<forall>b \<in> set (stored_blobs (w_db (snd (trashEmpty d rq w)))). bl_UserID b = u \<longrightarrow> bl_DeletedAt b = None)
    \<and> (\<forall>f \<in> set (folders (w_db (snd (trashEmpty d rq w)))). fo_UserID f = u \<longrightarrow> fo_DeletedAt f = None)
    \<and> w_queue (snd (trashEmpty d rq w)) = take queueSize (w_queue w @ deletion_events rq u (w_db w))"
proof -
  let ?s = "storage_part w" and ?ev = "\<lambda>ev i n. auditEvent u ev (realIP rq) (rq_Header rq ''User-Agent'') (Some i) n"
  have s: "wf_db (w_now ?s) (w_db ?s)" "w_faults ?s = []" using assms(1,2) by (simp_all add: storage_part_def)
  obtain fs d2 y where e: "EmptyTrash (dp_Trash d) u ?s
      = (Inr (map (\<lambda>b. \<lparr>eb_ID = bl_ID b, eb_FileName = bl_FileName b, eb_ObjectKey = bl_ObjectKey b\<rparr>)
               (filter (\<lambda>b. bl_UserID b = u \<and> bl_DeletedAt b \<noteq> None) (stored_blobs (w_db w))), fs), ?s\<lparr>w_db := d2, w_obj := y\<rparr>)"
    and fs: "map (\<lambda>f. (ef_ID f, ef_Name f)) fs
      = map (\<lambda>f. (fo_ID f, fo_Name f)) (filter (\<lambda>f. fo_UserID f = u \<and> fo_DeletedAt f \<noteq> None) (folders (w_db w)))"
    and d2: "folders d2 = filter (\<lambda>f. \<not> (fo_UserID f = u \<and> fo_DeletedAt f \<noteq> None)) (folders (w_db w))"
      "stored_blobs d2 = filter (\<lambda>b. \<not> (bl_UserID b = u \<and> bl_DeletedAt b \<noteq> None)) (stored_blobs (w_db w))"
    by (rule EmptyTrash_returns [OF s, of "dp_Trash d" u]) (simp add: storage_part_def del: not_None_eq)
  have ev: "map (\<lambda>f. ?ev ''folder_hard_deleted'' (ef_ID f) (ef_Name f)) fs
      = map (\<lambda>f. ?ev ''folder_hard_deleted'' (fo_ID f) (fo_Name f)) (filter (\<lambda>f. fo_UserID f = u \<and> fo_DeletedAt f \<noteq> None) (folders (w_db w)))"
    using arg_cong [OF fs, of "map (\<lambda>(i, n). ?ev ''folder_hard_deleted'' i n)"] by (simp add: comp_def del: not_None_eq)
  have q: "fold LogAsync (deletion_events rq u (w_db w)) (w_queue w) = take queueSize (w_queue w @ deletion_events rq u (w_db w))"
    by (rule fold_LogAsync [OF assms(3)])
  have "trashEmpty d rq w = reply 204 NoBody ((put_storage w (?s\<lparr>w_db := d2, w_obj := y\<rparr>))
      \<lparr>w_queue := fold LogAsync (deletion_events rq u (w_db w)) (w_queue w)\<rparr>)"
    using assms(4,5) by (simp add: trashEmpty_def MustUserID_def call_def at_storage_def within_def e audited_all
        deletion_events_def comp_def ev put_storage_def del: not_None_eq)
  then show ?thesis
    unfolding q by (auto simp: reply_def put_storage_def d2)
qed

end
