(* ===== verification/Cache_Frame.thy ===== *)
theory Cache_Frame
  imports Server_Isolation
begin

text \<open>
  The interface between the server and Redis. \<open>cache_predicate\<close> lists what a predicate on the content of
  Redis must survive, command by command, to survive every request to every route and every job,
  whatever fails: the entries of the blocklist and of the pending logins that are set, the pending
  logins that are taken, and the counters of the rate limiters.
\<close>

section \<open>The clock stands still\<close>

definition at_time :: "time \<Rightarrow> 'x world_scheme \<Rightarrow> bool" where
  "at_time t w \<longleftrightarrow> w_now w = t"

lemma at_time_db_call [keeps_rules]: "keeps (at_time t) (db_call c)"
  by (rule keepsI) (simp add: at_time_def)

lemma at_time_query [keeps_rules]: "keeps (at_time t) (query q)"
  unfolding query_def by (rule at_time_db_call)

lemma at_time_obj_call [keeps_rules]: "keeps (at_time t) (obj_call m)"
  by (rule keepsI) (simp add: at_time_def)

lemma at_time_found [keeps_rules]: "keeps (at_time t) (GetFolder_pg f u)"
  unfolding GetFolder_pg_def by (rule at_time_query)

lemmas blob_queries = RegisterBlob_pg_def GetPendingBlobMeta_pg_def ConfirmBlobUpload_pg_def AbortPendingBlob_pg_def
  PurgeOrphanedBlobs_pg_def GetBlobMeta_pg_def ListBlobs_pg_def ListBlobsInFolder_pg_def RemoveBlob_pg_def MoveBlob_pg_def
  RenameBlob_pg_def TrashBlob_pg_def RestoreBlob_pg_def PeekTrashedBlob_pg_def HardDeleteBlob_pg_def ListTrashedBlobs_pg_def
  EmptyTrashedBlobs_pg_def PurgeExpiredBlobs_pg_def SearchBlobs_pg_def GetUserStorageUsed_pg_def

lemmas folder_queries = CreateFolder_pg_def ListFolders_pg_def RenameFolder_pg_def MoveFolder_pg_def SearchFolders_pg_def
  IsDescendantOf_pg_def TrashFolder_pg_def RestoreFolder_pg_def HardDeleteFolder_pg_def ListTrashedFolders_pg_def
  EmptyTrashedFolders_pg_def PurgeExpiredFolders_pg_def

lemma at_time_helpers [keeps_rules]:
  "keeps (at_time t) (requireFolder f u)" "keeps (at_time t) (folder_name_of r u)" "keeps (at_time t) (move_target p)"
  "keeps (at_time t) (source_name r u)" "keeps (at_time t) (remove_objects s ks)" "keeps (at_time t) (release_upload s k v)"
  "keeps (at_time t) (quota_check s q)" "keeps (at_time t) (presign_parts s k v is)"
proof -
  show "keeps (at_time t) (presign_parts s k v is)"
  proof (induction "is")
    case (Cons i "is")
    then show ?case unfolding presign_parts.simps by (intro keeps_rules)
  qed (unfold presign_parts.simps, rule keeps_ret)
qed (unfold requireFolder_def folder_name_of_def move_target_def source_name_def remove_objects_def release_upload_def
    quota_check_def IsDescendantOf_pg_def GetUserStorageUsed_pg_def, (intro keeps_rules)+)

lemma at_time_files [keeps_rules]:
  "keeps (at_time t) (GetStorageUsage s u)" "keeps (at_time t) (PresignGet s u b)" "keeps (at_time t) (DeleteBlob u b)"
  "keeps (at_time t) (RestoreBlob u b)" "keeps (at_time t) (HardDeleteBlob s u b)" "keeps (at_time t) (ListBlobs u)"
  "keeps (at_time t) (ListBlobsInFolder u r)" "keeps (at_time t) (MoveBlob u b r)" "keeps (at_time t) (RenameBlob u b n)"
  "keeps (at_time t) (InitiateMultipartUpload s us i p)" "keeps (at_time t) (CompleteMultipartUpload s q)"
  "keeps (at_time t) (AbortUpload s u b)" "keeps (at_time t) (Search second lower collate sp)"
  unfolding GetStorageUsage_def PresignGet_def DeleteBlob_def RestoreBlob_def HardDeleteBlob_def ListBlobs_def
    ListBlobsInFolder_def MoveBlob_def RenameBlob_def InitiateMultipartUpload_def CompleteMultipartUpload_def AbortUpload_def
    Search_def blob_queries folder_queries Let_def
  by (intro keeps_rules)+

lemma at_time_folders [keeps_rules]:
  "keeps (at_time t) (CreateFolder i c)" "keeps (at_time t) (GetFolder u f)" "keeps (at_time t) (ListFolders collate u r)"
  "keeps (at_time t) (RenameFolder u f n)" "keeps (at_time t) (MoveFolder m)" "keeps (at_time t) (DeleteFolder u f)"
  "keeps (at_time t) (RestoreFolder u f)" "keeps (at_time t) (HardDeleteFolder s u f)" "keeps (at_time t) (ListTrash second collate u)"
  "keeps (at_time t) (EmptyTrash s u)" "keeps (at_time t) (CleanExpiredTrash s ttl)" "keeps (at_time t) (CleanOrphanedBlobs s ttl)"
  unfolding CreateFolder_def GetFolder_def ListFolders_def RenameFolder_def MoveFolder_def DeleteFolder_def RestoreFolder_def
    HardDeleteFolder_def ListTrash_def EmptyTrash_def CleanExpiredTrash_def CleanOrphanedBlobs_def blob_queries folder_queries
  by (intro keeps_rules)+

lemma at_time_sharing [keeps_rules]:
  "keeps (at_time t) (GetRecipientPublicKey h e)" "keeps (at_time t) (CreateShare h i p)" "keeps (at_time t) (ListSharedWithMe u)"
  "keeps (at_time t) (ListMyShares b u)" "keeps (at_time t) (RevokeShare i u)" "keeps (at_time t) (GetSharedFile h i u)"
proof -
  show "keeps (at_time t) (GetSharedFile h i u)"
    unfolding GetSharedFile_def GetShare_pg_def GetBlobInfo_pg_def
    by (rule keeps_bind, intro keeps_rules, rule keeps_option, rule keeps_fail, rule keeps_world) (intro keeps_rules)
qed (unfold GetRecipientPublicKey_def CreateShare_def ListSharedWithMe_def ListMyShares_def RevokeShare_def GetPublicKeyByEmail_pg_def
    GetBlobInfo_pg_def CreateShare_pg_def ListSharedWithUser_pg_def ListSharesForBlob_pg_def RevokeShare_pg_def, (intro keeps_rules)+)

section \<open>Predicates on the content of Redis\<close>

definition on_cache :: "(time \<Rightarrow> 'r \<Rightarrow> bool) \<Rightarrow> ('r, 'x) cworld_scheme \<Rightarrow> bool" where
  "on_cache K w \<longleftrightarrow> K (w_now w) (w_redis w)"

lemma db_call_redis [simp]: "w_redis (snd (db_call c w)) = w_redis w"
  by (simp add: db_call_def pop_fault_def split: list.splits prod.splits sum.splits)

lemma on_cache_db_call [keeps_rules]: "keeps (on_cache K) (db_call c)"
  by (rule keepsI) (simp add: on_cache_def)

lemma on_cache_query [keeps_rules]: "keeps (on_cache K) (query q)"
  unfolding query_def by (rule on_cache_db_call)

lemma on_cache_redis_call:
  fixes K :: "time \<Rightarrow> 'r \<Rightarrow> bool"
  assumes "\<And>now r. K now r \<Longrightarrow> K now (snd (c now r))"
  shows "keeps (on_cache K) (redis_call c)"
proof (rule keepsI)
  fix w :: "('r, 'x) cworld_scheme"
  assume "on_cache K w"
  moreover have "w_redis (snd (pop_fault w)) = w_redis w" by (simp add: pop_fault_def split: list.splits)
  ultimately show "on_cache K (snd (redis_call c w))"
    using assms [of "w_now w" "w_redis w"]
    by (auto simp: on_cache_def redis_call_def split: prod.splits) (metis pop_fault_frame(2) snd_conv)+
qed

lemma on_cache_log_async [keeps_rules]: "keeps (on_cache K) (log_async s e)"
  by (rule keepsI) (simp add: log_async_def on_cache_def)

lemma on_cache_notify [keeps_rules]: "keeps (on_cache K) (notify m)"
  by (rule keepsI) (simp add: notify_def on_cache_def pop_fault_def split: list.splits)

lemma on_cache_IsBlocked [keeps_rules]: "keeps (on_cache K) (IsBlocked rd us i)"
  unfolding IsBlocked_def by (intro keeps_rules on_cache_redis_call) simp

text \<open>Operations of the storage side do not reach Redis.\<close>

lemma on_cache_at_storage [keeps_rules]:
  fixes K :: "time \<Rightarrow> 'r \<Rightarrow> bool" and m :: "('o sworld, 'e, 'a) eff"
  assumes "\<And>t. keeps (at_time t) m"
  shows "keeps (on_cache K) (at_storage m)"
proof (rule keepsI)
  fix w :: "('r, 'o) gworld"
  assume "on_cache K w"
  moreover have "w_now (snd (m (storage_part w))) = w_now w"
    using keeps_snd [OF assms [of "w_now w"], of "storage_part w"] by (simp add: at_time_def storage_part_def)
  ultimately show "on_cache K (snd (at_storage m w))" by (simp add: on_cache_def at_storage_def put_storage_def)
qed

lemma on_cache_reads [keeps_rules]:
  "keeps (on_cache K) (ListDeviceSessions u)" "keeps (on_cache K) (ListEvents u n b)" "keeps (on_cache K) (GetRecoveryData tok)"
  "keeps (on_cache K) CleanOrphanedSessions"
proof -
  show "keeps (on_cache K) (ListEvents u n b)"
    unfolding ListEvents_def Let_def ListAuditEvents_pg_def by (rule keeps_world) (rule on_cache_query)
qed (unfold ListDeviceSessions_def ListActiveSessions_pg_def GetRecoveryData_def GetUserIDFromResetToken_pg_def
    GetRecoveryDataByUserID_pg_def CleanOrphanedSessions_def RevokeOrphanedSessions_pg_def, (intro keeps_rules)+)

lemma on_cache_marks [keeps_rules]:
  "keeps (on_cache K) (AddBlob u b)" "keeps (on_cache K) (RemoveBlob u b)" "keeps (on_cache K) (AddFolder u f)"
  "keeps (on_cache K) (RemoveFolder u f)" "keeps (on_cache K) (ListBlobs_fav u)" "keeps (on_cache K) (ListFolders_fav u)"
  unfolding favorite_defs ListBlobs_fav_def ListFavoriteBlobs_pg_def ListFolders_fav_def ListFavoriteFolders_pg_def
  by (intro keeps_rules)+

lemma serves_logged [serves_rules]: "serves (on_cache K) h \<Longrightarrow> serves (on_cache K) (logged_async e h)"
  by (simp add: serves_def logged_async_def on_cache_def)

lemma serves_audit [serves_rules]:
  "serves (on_cache K) h \<Longrightarrow> serves (on_cache K) (audited rq u ev i n h)"
  "serves (on_cache K) h \<Longrightarrow> serves (on_cache K) (foldr (\<lambda>x. audited rq u ev (g x) (nm x)) xs h)"
proof -
  show one: "serves (on_cache K) h \<Longrightarrow> serves (on_cache K) (audited rq u ev i n h)" for h i n
    unfolding audited_def by (rule serves_logged)
  show "serves (on_cache K) h \<Longrightarrow> serves (on_cache K) (foldr (\<lambda>x. audited rq u ev (g x) (nm x)) xs h)"
    by (induction xs) (auto intro: one)
qed

lemma serves_MustUserID [serves_rules]: "(\<And>u. serves P (k u)) \<Longrightarrow> serves P (MustUserID rq k)"
  by (auto simp: MustUserID_def split: option.split intro: serves_WriteError)

lemma on_cache_at_auth: "serves (on_cache K) h \<Longrightarrow> serves (on_cache K) (at_auth h)"
  by (simp add: serves_def on_cache_def at_auth_def auth_part_def put_auth_def)

section \<open>The interface\<close>

locale cache_predicate =
  fixes d :: "('r, 'o) Deps" and K :: "time \<Rightarrow> 'r \<Rightarrow> bool" and fresh :: "uuid \<Rightarrow> bool"
  assumes later: "K now r \<Longrightarrow> now \<le> t \<Longrightarrow> K t r"
    and blocked: "K now r \<Longrightarrow> K now (rd_Set (as_Redis (dp_Auth d)) (keyPrefix @ cd_String (dp_Codec d) i) ''1''
      (as_AccessTTL (dp_Auth d)) now r)"
    and pending: "K now r \<Longrightarrow> fresh i \<Longrightarrow> K now (rd_Set (as_Redis (dp_Auth d)) (srpKeyPrefix @ cd_String (dp_Codec d) i) data
      SRPSessionTTL now r)"
    and taken: "K now r \<Longrightarrow> K now (snd (rd_GetDel (as_Redis (dp_Auth d)) (srpKeyPrefix @ cd_String (dp_Codec d) i) now r))"
    and counted: "K now r \<Longrightarrow> l \<in> {dp_LoginRateLimiter d, dp_PublicKeyRateLimiter d} \<Longrightarrow>
      K now (snd (rd_Incr (as_Redis (dp_Auth d)) (rl_prefix l @ k) now r))"
    and timed: "K now r \<Longrightarrow> l \<in> {dp_LoginRateLimiter d, dp_PublicKeyRateLimiter d} \<Longrightarrow>
      K now (rd_Expire (as_Redis (dp_Auth d)) (rl_prefix l @ k) n now r)"
begin

lemma Block_keeps:
  "keeps (on_cache K) (Block (as_Redis (dp_Auth d)) (cd_String (dp_Codec d)) i (as_AccessTTL (dp_Auth d)))"
  "keeps (on_cache K) (BlockBatch (as_Redis (dp_Auth d)) (cd_String (dp_Codec d)) ids (as_AccessTTL (dp_Auth d)))"
proof -
  have one: "keeps (on_cache K) (redis_call (\<lambda>now r. (Inr (), rd_Set (as_Redis (dp_Auth d)) (keyPrefix @ cd_String (dp_Codec d) j)
      ''1'' (as_AccessTTL (dp_Auth d)) now r)))" for j
    by (rule on_cache_redis_call) (simp add: blocked)
  then show "keeps (on_cache K) (Block (as_Redis (dp_Auth d)) (cd_String (dp_Codec d)) i (as_AccessTTL (dp_Auth d)))"
    unfolding Block_def .
  show "keeps (on_cache K) (BlockBatch (as_Redis (dp_Auth d)) (cd_String (dp_Codec d)) ids (as_AccessTTL (dp_Auth d)))"
    unfolding BlockBatch_def by (intro keeps_if keeps_ret keeps_pipelined) (auto intro: one)
qed

lemma Allow_keeps:
  assumes "l \<in> {dp_LoginRateLimiter d, dp_PublicKeyRateLimiter d}"
  shows "keeps (on_cache K) (Allow (as_Redis (dp_Auth d)) l k)"
proof -
  have "K now (snd (incrExpireScript (as_Redis (dp_Auth d)) (rl_prefix l @ k) n now r))" if "K now r" for now r n
    using counted [OF that assms, of k] timed [OF _ assms]
    by (cases "rd_Incr (as_Redis (dp_Auth d)) (rl_prefix l @ k) now r") (auto simp: incrExpireScript_def split: option.split)
  then show ?thesis unfolding Allow_def Let_def by (intro keeps_rules on_cache_redis_call)
qed

lemma Consume_srp_keeps: "keeps (on_cache K) (Consume_srp (as_Redis (dp_Auth d)) (dp_Codec d) i)"
  unfolding Consume_srp_def
proof (rule keeps_attempt [OF on_cache_redis_call])
  fix now r assume "K now r"
  then show "K now (snd (case rd_GetDel (as_Redis (dp_Auth d)) (srpKeyPrefix @ cd_String (dp_Codec d) i) now r of
      (None, r1) \<Rightarrow> (Inl RedisReply, r1) | (Some data, r1) \<Rightarrow> (Inr data, r1)))"
    using taken [of now r i] by (auto split: prod.split option.split)
qed (rule keeps_world, intro keeps_rules)

lemma Store_srp_keeps:
  fixes k :: "bool \<Rightarrow> (('r, 'x) cworld_scheme, auth_err, 'a) eff"
  assumes "fresh i" and "\<And>x. keeps (on_cache K) (k x)"
  shows "keeps (on_cache K) (\<lambda>w. bindE (Store_srp (as_Redis (dp_Auth d)) (dp_Codec d) i
    (login_entry u email aHex sess (w_now w))) k w)"
proof (rule keepsI)
  fix w :: "('r, 'x) cworld_scheme"
  assume w: "on_cache K w"
  have set: "keeps (on_cache K) (redis_call (\<lambda>now r. (Inr (), rd_Set (as_Redis (dp_Auth d)) (srpKeyPrefix @ cd_String (dp_Codec d) i)
      data SRPSessionTTL now r)))" for data
    by (rule on_cache_redis_call) (simp add: pending [OF _ assms(1)])
  have ttl: "en_ExpiresAt (login_entry u email aHex sess (w_now w)) - w_now w = SRPSessionTTL" by (simp add: login_entry_def)
  have "\<exists>m. Store_srp (as_Redis (dp_Auth d)) (dp_Codec d) i (login_entry u email aHex sess (w_now w)) w = m w \<and> keeps (on_cache K) m"
  proof (cases "cd_Marshal (dp_Codec d) (record_of_entry (dp_Codec d) (login_entry u email aHex sess (w_now w)))")
    case None
    then show ?thesis by (intro exI [of _ "ret False"]) (simp add: Store_srp_def keeps_ret)
  next
    case (Some data)
    let ?m = "attempt (redis_call (\<lambda>now r. (Inr (), rd_Set (as_Redis (dp_Auth d)) (srpKeyPrefix @ cd_String (dp_Codec d) i)
      data SRPSessionTTL now r))) (\<lambda>x. ret (\<not> isl x))"
    have "Store_srp (as_Redis (dp_Auth d)) (dp_Codec d) i (login_entry u email aHex sess (w_now w)) w = ?m w"
      unfolding Store_srp_def Let_def ttl Some by (simp add: SRPSessionTTL_def)
    moreover have "keeps (on_cache K) ?m" by (rule keeps_attempt [OF set keeps_ret])
    ultimately show ?thesis by blast
  qed
  then obtain m where "Store_srp (as_Redis (dp_Auth d)) (dp_Codec d) i (login_entry u email aHex sess (w_now w)) w = m w"
    and "keeps (on_cache K) m" by blast
  moreover from keeps_bind [OF this(2) assms(2)] w have "on_cache K (snd (bindE m k w))" by (rule keeps_snd)
  ultimately show "on_cache K (snd (bindE (Store_srp (as_Redis (dp_Auth d)) (dp_Codec d) i
    (login_entry u email aHex sess (w_now w))) k w))" by (simp add: bindE_def)
qed

text \<open>The operations of the authentication service.\<close>

lemma issue_keeps:
  "keeps (on_cache K) (issueTokenPairForDevice s dr u j k)" "keeps (on_cache K) (issueTokenPair s i dr u v)"
proof -
  show "keeps (on_cache K) (issueTokenPairForDevice s dr u j k)" for j k
    unfolding issueTokenPairForDevice_def CreateRefreshSession_pg_def by (rule keeps_world) (intro keeps_rules)
  then show "keeps (on_cache K) (issueTokenPair s i dr u v)"
    unfolding issueTokenPair_def CreateDeviceSession_pg_def by (intro keeps_rules)
qed

lemma RevokeSession_keeps:
  "keeps (on_cache K) (RevokeSession_pg i u)" "keeps (on_cache K) (RevokeOtherSessions_pg u i)"
  unfolding RevokeSession_pg_def RevokeOtherSessions_pg_def by (intro keeps_rules)+

lemma logins_keep:
  "keeps (on_cache K) (Register (dp_Auth d) i j dr p)" "keeps (on_cache K) (LoginFinalize (dp_Auth d) i dr q)"
  "fresh i \<Longrightarrow> keeps (on_cache K) (LoginInit (dp_Auth d) rnd i e a)"
proof -
  show "keeps (on_cache K) (Register (dp_Auth d) i j dr p)"
    unfolding Register_def CreateUser_pg_def by (intro keeps_rules issue_keeps)
  show "keeps (on_cache K) (LoginFinalize (dp_Auth d) i dr q)"
    unfolding LoginFinalize_def RevokeUserOrphanedSessions_pg_def by (intro keeps_rules Consume_srp_keeps issue_keeps)
  show "keeps (on_cache K) (LoginInit (dp_Auth d) rnd i e a)" if "fresh i"
    unfolding LoginInit_def Let_def GetByEmail_pg_def
    by (rule keeps_bind, intro keeps_rules, rule keeps_option, rule keeps_fail, rule keeps_sum, rule keeps_fail,
        rule Store_srp_keeps [OF that]) (intro keeps_rules)
qed

lemma sessions_keep:
  "keeps (on_cache K) (Refresh (dp_Auth d) dr tok)" "keeps (on_cache K) (Logout (dp_Auth d) tok v)"
  "keeps (on_cache K) (RevokeDeviceSession (dp_Auth d) u i)" "keeps (on_cache K) (RevokeOtherDeviceSessions (dp_Auth d) u i)"
  unfolding Refresh_def Let_def handleTokenReuse_def FindRevokedSession_pg_def GetCryptoSaltAndKEKByUserID_pg_def
    ConsumeRefreshSession_pg_def UpdateLastActive_pg_def Logout_def RevokeDeviceSession_def RevokeOtherDeviceSessions_def
  by (intro keeps_rules Block_keeps RevokeSession_keeps issue_keeps)+

lemma resets_keep:
  "keeps (on_cache K) (RequestPasswordReset (dp_Auth d) i rnd e)" "keeps (on_cache K) (ResetPassword (dp_Auth d) tok r)"
proof -
  show "keeps (on_cache K) (RequestPasswordReset (dp_Auth d) i rnd e)"
    unfolding RequestPasswordReset_def Let_def InvalidateUserTokens_pg_def CreateResetToken_pg_def GetByEmail_pg_def
    by (rule keeps_bind, intro keeps_rules, rule keeps_option, rule keeps_ret, rule keeps_if, rule keeps_ret, rule keeps_bind,
        intro keeps_rules, rule keeps_option, rule keeps_fail, rule keeps_prod, rule keeps_world, intro keeps_rules)
  show "keeps (on_cache K) (ResetPassword (dp_Auth d) tok r)"
    unfolding ResetPassword_def ConsumeResetToken_pg_def UpdateCredentialsAndKEK_pg_def
    by (intro keeps_rules Block_keeps RevokeSession_keeps)
qed

text \<open>The routes.\<close>

lemma auth_handlers_keep:
  "serves (on_cache K) (register d vr nd i pr dr rq b1)" "fresh i \<Longrightarrow> serves (on_cache K) (loginInit d vi rnd i b2)"
  "serves (on_cache K) (loginFinalize d vf nd pr dr rq b3)" "serves (on_cache K) (refresh d dr rq)"
  "serves (on_cache K) (logout d rq)" "serves (on_cache K) (requestPasswordReset d vq i rnd b4)"
  "serves (on_cache K) (getRecoveryData vg b5)" "serves (on_cache K) (resetPasswordConfirm d vc b6)"
  unfolding register_def loginInit_def loginFinalize_def refresh_def logout_def requestPasswordReset_def getRecoveryData_def
    resetPasswordConfirm_def Let_def
  by (intro serves_rules keeps_rules logins_keep sessions_keep resets_keep | assumption | auto intro!: serves_rules)+

lemma storage_handlers_keep:
  "serves (on_cache K) (storageGetUsage d rq)" "serves (on_cache K) (storagePresignGet d rq)"
  "serves (on_cache K) (storageDeleteBlob d rq)" "serves (on_cache K) (storageListBlobs d rq)"
  "serves (on_cache K) (renameBlob d vr rq qr)" "serves (on_cache K) (storageSearch d second lower collate rq)"
  "serves (on_cache K) (storageInitiateMultipart d vi i rq qi)" "serves (on_cache K) (storageCompleteMultipart d vc rq qc)"
  "serves (on_cache K) (storageAbortUpload d rq)"
  unfolding storageGetUsage_def storagePresignGet_def storageDeleteBlob_def storageListBlobs_def renameBlob_def storageSearch_def
    storageInitiateMultipart_def storageCompleteMultipart_def storageAbortUpload_def Let_def
  by (intro serves_rules keeps_rules)+

lemma folder_handlers_keep:
  "serves (on_cache K) (createFolder d vc i rq qc)" "serves (on_cache K) (getFolder d rq)"
  "serves (on_cache K) (listFolders d collate rq)" "serves (on_cache K) (renameFolder d vr rq qr)"
  "serves (on_cache K) (moveFolder d rq qm)" "serves (on_cache K) (deleteFolder d rq)" "serves (on_cache K) (moveBlob d rq qb)"
  unfolding createFolder_def getFolder_def listFolders_def renameFolder_def moveFolder_def deleteFolder_def moveBlob_def Let_def
  by (intro serves_rules keeps_rules)+

lemma trash_handlers_keep:
  "serves (on_cache K) (trashList d second collate rq)" "serves (on_cache K) (trashRestoreBlob d rq)"
  "serves (on_cache K) (trashDeleteBlob d rq)" "serves (on_cache K) (trashRestoreFolder d rq)"
  "serves (on_cache K) (trashDeleteFolder d rq)" "serves (on_cache K) (trashEmpty d rq)"
  unfolding trashList_def trashRestoreBlob_def trashDeleteBlob_def trashRestoreFolder_def trashDeleteFolder_def trashEmpty_def
  by (intro serves_rules keeps_rules)+

lemma sharing_handlers_keep:
  "serves (on_cache K) (getRecipientPublicKey d rq)" "serves (on_cache K) (createShare d vs pt ft i rq qs)"
  "serves (on_cache K) (listSharedWithMe d ft rq)" "serves (on_cache K) (listMyShares d ft rq)"
  "serves (on_cache K) (getSharedFile d ft rq)" "serves (on_cache K) (revokeShare d rq)"
  "serves (on_cache K) (favoritesAdd d ty rq)" "serves (on_cache K) (favoritesRemove d ty rq)" "serves (on_cache K) (favoritesList d rq)"
  unfolding getRecipientPublicKey_def createShare_def listSharedWithMe_def listMyShares_def getSharedFile_def revokeShare_def
    favoritesAdd_def favoritesRemove_def favoritesList_def Let_def
  by (intro serves_rules keeps_rules)+

lemma session_handlers_keep:
  "serves (on_cache K) (listSessions rq)" "serves (on_cache K) (revokeSession d rq)"
  "serves (on_cache K) (revokeOtherSessions d rq)" "serves (on_cache K) (listAuditEvents pt rq)"
  unfolding listSessions_def revokeSession_def revokeOtherSessions_def listAuditEvents_def Let_def
  by (intro serves_rules keeps_rules sessions_keep)+

lemma RateLimit_keeps:
  "l \<in> {dp_LoginRateLimiter d, dp_PublicKeyRateLimiter d} \<Longrightarrow> serves (on_cache K) (h rq) \<Longrightarrow>
     serves (on_cache K) (RateLimitMiddleware (as_Redis (dp_Auth d)) l key h rq)"
  unfolding RateLimitMiddleware_def by (intro serves_rules Allow_keeps)

lemma protected_routes_keep:
  assumes "(m, p, h) \<in> set (protected_routes d pf rn)"
  shows "serves (on_cache K) (h rq)"
proof -
  note rules = serves_answer on_cache_at_auth RateLimit_keeps [OF insertI2 [OF singletonI]] storage_handlers_keep
    folder_handlers_keep trash_handlers_keep sharing_handlers_keep session_handlers_keep
  from assms show ?thesis
    unfolding protected_routes_def session_routes_def storage_routes_def trash_routes_def share_routes_def favorite_routes_def
      Route_def Use_def publicKeyRL_def
    by (simp only: list.map append.simps list.set insert_iff empty_iff prod.case prod.inject simp_thms)
      (elim disjE conjE; hypsubst; intro rules)
qed

lemma auth_routes_keep:
  assumes "(m, p, h) \<in> set (auth_routes d pf rn)" and "fresh (rn_SessionID rn)"
  shows "serves (on_cache K) (h rq)"
  using assms(1) unfolding auth_routes_def
  by (simp only: list.set insert_iff empty_iff prod.inject simp_thms)
    (elim disjE conjE; hypsubst; intro serves_answer on_cache_at_auth auth_handlers_keep assms(2))

lemma gate_keeps:
  assumes "\<And>rq. serves (on_cache K) (h rq)"
  shows "serves (on_cache K) (gate d h rq)"
  unfolding gate_def AuthMiddleware_def Let_def
  by (rule serves_option, rule serves_WriteError, rule serves_world) (intro serves_rules keeps_rules assms)

lemma NewRouter_keeps:
  assumes "(m, p, h) \<in> set (NewRouter d pf rn)" and "fresh (rn_SessionID rn)"
  shows "serves (on_cache K) (h rq)"
proof -
  have "serves (on_cache K) (gate d h' rq)" if "(m', p', h') \<in> set (protected_routes d pf rn)" for m' p' h'
    by (rule gate_keeps, rule protected_routes_keep [OF that])
  moreover have "serves (on_cache K) (loginRL d h' rq)" if "(m', p', h') \<in> set (auth_routes d pf rn)" for m' p' h'
    unfolding loginRL_def by (rule RateLimit_keeps, simp, rule auth_routes_keep [OF that assms(2)])
  moreover have "serves (on_cache K) (answer PHealth health)"
    unfolding health_def by (intro serves_rules)
  ultimately show ?thesis
    using assms by (auto simp: NewRouter_def Route_def Use_def)
qed

end

end
