(* ===== verification/Http_Properties.thy ===== *)
theory Http_Properties
  imports Auth_Handlers
begin

text \<open>
  Properties that span the HTTP layer and the services behind it: what the authentication gate lets
  through, what a revocation leaves in Redis, and the sizes of the key material an account is created
  with.
\<close>

section \<open>The gate\<close>

text \<open>
  C14. The gate. Whatever the request, the handler behind the authentication middleware runs only when
  the request carries a bearer token with an HMAC signature of the service's secret that has not
  expired, names a user, and names a session that is not on the blocklist (or none); it runs with
  exactly these identities. When the blocklist cannot be asked the request is refused.
\<close>

theorem auth_gate:
  fixes w :: "('r, 'x) cworld_scheme"
  assumes "jwt_contract jl" and "AuthMiddleware jl cd js rd nxt rq w = (resp, w')"
    and "rp_Status resp \<noteq> 401" and "rp_Status resp \<noteq> 503"
  shows "\<exists>token c uid sid w1. bearer_token rq = Some token
    \<and> jl_Header jl token = Some (SigningMethodHMAC, c) \<and> jl_Verify jl SigningMethodHMAC (js_secret js) token
    \<and> w_now w < ac_ExpiresAt c \<and> cd_Parse cd (ac_Subject c) = Some uid \<and> uid \<noteq> uuid_Nil
    \<and> (sid \<noteq> uuid_Nil \<longrightarrow> IsBlocked rd (cd_String cd) sid w = (Inr False, w1))
    \<and> nxt (rq\<lparr>rq_ctxUserID := Some uid, rq_ctxSessionID := Some sid\<rparr>) w1 = (resp, w')"
proof (cases rule: AuthMiddleware_cases [of jl cd js rd nxt rq w])
  case (refused w'' st msg)
  then show ?thesis using assms(2-4) by auto
next
  case (passed token uid sid w1)
  from ParseAccessToken_sound [OF assms(1) passed(2)] passed assms(2) show ?thesis by force
qed

section \<open>Revocation of a device session\<close>

lemma call_status:
  assumes "rp_Status (fst (call m e k w)) = st" and "\<And>x w'. m w = (Inl x, w') \<Longrightarrow> rp_Status (fst (e x w')) \<noteq> st"
  obtains x w1 where "m w = (Inr x, w1)" and "call m e k w = k x w1"
  using assms by (cases "m w"; cases "fst (m w)") (auto simp: call_def)

lemma RevokeDeviceSession_nil:
  assumes "w_faults w = []" and "RevokeDeviceSession s u i w = (Inr (), w1)"
  shows "w_redis w1 = rd_Set (as_Redis s) (keyPrefix @ cd_String (as_Codec s) i) ''1'' (as_AccessTTL s) (w_now w) (w_redis w)"
    and "w_now w1 = w_now w"
proof -
  have "\<exists>d. RevokeSession_pg i u w = (Inr (), w\<lparr>w_db := d\<rparr>)"
    using assms(2) by (auto simp: RevokeDeviceSession_def RevokeSession_pg_def bindE_def map_err_def fail_def ret_def
        db_call_nil [OF assms(1)] split: sum.splits prod.splits if_splits)
  then obtain d where "RevokeSession_pg i u w = (Inr (), w\<lparr>w_db := d\<rparr>)" by blast
  with assms show "w_redis w1 = rd_Set (as_Redis s) (keyPrefix @ cd_String (as_Codec s) i) ''1'' (as_AccessTTL s) (w_now w) (w_redis w)"
    and "w_now w1 = w_now w"
    by (auto simp: RevokeDeviceSession_def bindE_def ignore_cw Block_nil)
qed

section \<open>Registration\<close>

lemma issueTokenPair_users:
  fixes w :: "'r aworld"
  shows "users (w_db (snd (issueTokenPair s i dr u v w))) = users (w_db w)"
proof -
  let ?I = "on_db (\<lambda>_ d. users d = users (w_db w)) :: 'r aworld \<Rightarrow> bool"
  have dev: "keeps ?I (CreateDeviceSession_pg i u v)"
    unfolding CreateDeviceSession_pg_def
    by (rule keeps_db_call)
      (auto simp: CreateDeviceSession_stmt_def insert_device_session_def revoke_refresh_def
        elim!: stmt_bind_InrE split: if_splits option.splits)
  have ref: "keeps ?I (CreateRefreshSession_pg p)" for p
    unfolding CreateRefreshSession_pg_def
    by (rule keeps_db_call) (auto simp: insert_refresh_session_def split: if_splits)
  have "keeps ?I (issueTokenPairForDevice s dr u j k)" for j k
    unfolding issueTokenPairForDevice_def by (rule keeps_world) (intro keeps_rules ref)
  then have "keeps ?I (issueTokenPair s i dr u v)"
    unfolding issueTokenPair_def by (intro keeps_rules dev)
  from keeps_snd [OF this, of w] show ?thesis by (simp add: on_db_def)
qed

lemma Register_users:
  assumes "Register s i proposedID dr p w = (Inr pair, w')"
  shows "\<exists>row \<in> set (users (w_db w')). us_id row = i \<and> us_email row = normal_email s (rg_Email p)
    \<and> us_crypto_salt row = rg_CryptoSalt p \<and> us_public_key row = nullableBytes (rg_PublicKey p)
    \<and> us_encrypted_private_key row = nullableBytes (rg_EncryptedPrivateKey p)
    \<and> us_kek_encrypted_master row = nullableBytes (rg_KEKEncryptedMaster p)
    \<and> us_kek_encrypted_recovery row = nullableBytes (rg_KEKEncryptedRecovery p)
    \<and> us_recovery_salt row = nullableBytes (rg_RecoverySalt p)"
  using assms unfolding Register_def
proof (rule bindE_InrE)
  fix x w1
  assume c: "CreateUser_pg \<lparr>nu_ID = i, nu_Email = normal_email s (rg_Email p), nu_SRPSalt = rg_SRPSalt p,
         nu_SRPVerifier = rg_SRPVerifier p, nu_BcryptSalt = rg_BcryptSalt p,
         nu_CryptoSalt = rg_CryptoSalt p, nu_PublicKey = rg_PublicKey p,
         nu_EncryptedPrivateKey = rg_EncryptedPrivateKey p,
         nu_KEKEncryptedMaster = rg_KEKEncryptedMaster p,
         nu_KEKEncryptedRecovery = rg_KEKEncryptedRecovery p,
         nu_RecoverySalt = rg_RecoverySalt p\<rparr> w = (Inr x, w1)"
    and t: "issueTokenPair s proposedID dr i (rg_Device p) w1 = (Inr pair, w')"
  have "db_call (\<lambda>now. insert_user (user_row_of now \<lparr>nu_ID = i, nu_Email = normal_email s (rg_Email p), nu_SRPSalt = rg_SRPSalt p,
         nu_SRPVerifier = rg_SRPVerifier p, nu_BcryptSalt = rg_BcryptSalt p,
         nu_CryptoSalt = rg_CryptoSalt p, nu_PublicKey = rg_PublicKey p,
         nu_EncryptedPrivateKey = rg_EncryptedPrivateKey p,
         nu_KEKEncryptedMaster = rg_KEKEncryptedMaster p,
         nu_KEKEncryptedRecovery = rg_KEKEncryptedRecovery p,
         nu_RecoverySalt = rg_RecoverySalt p\<rparr>)) w = (Inr x, w1)"
    using c unfolding CreateUser_pg_def by (rule map_err_InrE)
  then obtain row where "users (w_db w1) = users (w_db w) @ [row]" and
    "row = user_row_of (w_now w) \<lparr>nu_ID = i, nu_Email = normal_email s (rg_Email p), nu_SRPSalt = rg_SRPSalt p,
         nu_SRPVerifier = rg_SRPVerifier p, nu_BcryptSalt = rg_BcryptSalt p,
         nu_CryptoSalt = rg_CryptoSalt p, nu_PublicKey = rg_PublicKey p,
         nu_EncryptedPrivateKey = rg_EncryptedPrivateKey p,
         nu_KEKEncryptedMaster = rg_KEKEncryptedMaster p,
         nu_KEKEncryptedRecovery = rg_KEKEncryptedRecovery p,
         nu_RecoverySalt = rg_RecoverySalt p\<rparr>"
    by (auto simp: insert_user_def split: if_splits dest!: db_call_ok(1) arg_cong [where f = users])
  moreover have "users (w_db w') = users (w_db w1)" using issueTokenPair_users [of s proposedID dr i "rg_Device p" w1] t by simp
  ultimately show ?thesis by (simp add: user_row_of_def)
qed

lemma mustDecodeB64E:
  assumes "mustDecodeB64 b f mn mx k w = (resp, w')" and "rp_Status resp \<noteq> 400"
  obtains raw where "k raw w = (resp, w')" and "mn \<le> length raw" and "mx > 0 \<Longrightarrow> length raw \<le> mx"
proof -
  obtain raw ok where d: "StdEncoding_DecodeString b = (raw, ok)" by (cases "StdEncoding_DecodeString b")
  have n: "\<not> (\<not> ok \<or> mn > 0 \<and> length raw < mn \<or> mx > 0 \<and> length raw > mx)"
    using assms by (auto simp: mustDecodeB64_def d split: if_splits)
  show thesis by (rule that [of raw]) (use assms(1) n in \<open>auto simp: mustDecodeB64_def d\<close>)
qed

lemma callE:
  assumes "call m e k w = (resp, w')" and "\<And>x w'. rp_Status (fst (e x w')) \<noteq> rp_Status resp"
  obtains x w1 where "m w = (Inr x, w1)" and "k x w1 = (resp, w')"
proof (cases "m w")
  case (Pair r w1)
  show thesis
  proof (cases r)
    case (Inl x)
    then show thesis using assms Pair assms(2) [of x w1] by (simp add: call_def)
  next
    case (Inr x)
    then show thesis using assms(1) Pair by (intro that [of x w1]) (simp_all add: call_def)
  qed
qed

lemma writeAuthErr_status: "rp_Status (fst (writeAuthErr e w)) \<in> {400, 401, 409, 500}"
  by (cases e) (simp_all add: writeAuthErr_def)

text \<open>
  C37. Key material. When a registration is answered with 201, the account exists under the normalised
  address, and what it stores has the sizes of the key formats: a P-256 public key in SPKI form, two
  AES key wraps of 256-bit keys, a private key that is at least wrapped, and salts that are not empty.
\<close>

theorem register_key_sizes:
  fixes w :: "'r aworld"
  assumes "register d validate newDevice i proposedID dr rq body w = (resp, w')" and "rp_Status resp = 201"
  shows "\<exists>q row. body = Some q \<and> validate q = None \<and> row \<in> set (users (w_db w')) \<and> us_id row = i
    \<and> us_email row = normal_email (dp_Auth d) (qr_Email q) \<and> us_crypto_salt row \<noteq> []
    \<and> (\<exists>pub epk km kr rs. us_public_key row = Some pub \<and> length pub = 91
        \<and> us_encrypted_private_key row = Some epk \<and> 69 \<le> length epk
        \<and> us_kek_encrypted_master row = Some km \<and> length km = 40
        \<and> us_kek_encrypted_recovery row = Some kr \<and> length kr = 40
        \<and> us_recovery_salt row = Some rs \<and> rs \<noteq> [])"
proof -
  obtain q where q: "body = Some q" "validate q = None"
    using assms by (auto simp: register_def decoded_def WriteValidationError_def reply_def split: option.splits validate_err.splits)
  have ne: "rp_Status resp \<noteq> 400" using assms(2) by simp
  have ae: "rp_Status (fst (writeAuthErr e w2 :: BaseTokenResponse response \<times> 'r aworld)) \<noteq> rp_Status resp" for e w2
  proof -
    have "rp_Status (fst (writeAuthErr e w2 :: BaseTokenResponse response \<times> 'r aworld)) \<in> {400, 401, 409, 500}"
      by (rule writeAuthErr_status)
    then show ?thesis using assms(2) by force
  qed
  note E = mustDecodeB64E [OF _ ne]
  from assms(1) [unfolded register_def q(1) decoded_def option.case q(2) Let_def ecSpkiLen_def]
  show ?thesis
  proof (elim E callE [OF _ ae])
    fix cs pub epk km kr rs :: bytes and pair w1
    assume len: "1 \<le> length cs" "91 \<le> length pub" "0 < (91 :: nat) \<Longrightarrow> length pub \<le> 91" "69 \<le> length epk"
      "40 \<le> length km" "0 < (40 :: nat) \<Longrightarrow> length km \<le> 40" "40 \<le> length kr" "0 < (40 :: nat) \<Longrightarrow> length kr \<le> 40" "1 \<le> length rs"
    let ?dev = "ensureDeviceID (as_Codec (dp_Auth d)) newDevice rq (dp_RefreshCookie d)"
    assume r: "Register (dp_Auth d) i proposedID dr
             \<lparr>rg_Email = qr_Email q, rg_SRPSalt = qr_SRPSalt q, rg_SRPVerifier = qr_SRPVerifier q,
              rg_BcryptSalt = qr_BcryptSalt q, rg_CryptoSalt = cs, rg_PublicKey = pub,
              rg_EncryptedPrivateKey = epk, rg_KEKEncryptedMaster = km,
              rg_KEKEncryptedRecovery = kr, rg_RecoverySalt = rs, rg_Device = parseDeviceInfo rq ?dev\<rparr> w = (Inr pair, w1)"
      and k: "setDeviceCookie (dp_RefreshCookie d) ?dev (writeRegisterResponse (dp_RefreshCookie d) pair) w1 = (resp, w')"
    have "w' = w1"
      using k by (auto simp: setDeviceCookie_def set_cookie_def writeRegisterResponse_def setAuthCookie_def
          setRefreshTokenCookie_def reply_def Let_def)
    have sz: "nullableBytes pub = Some pub" "nullableBytes epk = Some epk" "nullableBytes km = Some km"
      "nullableBytes kr = Some kr" "nullableBytes rs = Some rs" "cs \<noteq> []" "rs \<noteq> []"
      using len by (auto simp: nullableBytes_def)
    from Register_users [OF r] obtain row where "row \<in> set (users (w_db w1))" "us_id row = i"
      "us_email row = normal_email (dp_Auth d) (qr_Email q)" "us_crypto_salt row = cs" "us_public_key row = Some pub"
      "us_encrypted_private_key row = Some epk" "us_kek_encrypted_master row = Some km"
      "us_kek_encrypted_recovery row = Some kr" "us_recovery_salt row = Some rs"
      by (auto simp: sz)
    with q len sz \<open>w' = w1\<close> show ?thesis
      by (intro exI [of _ q] exI [of _ row]) auto
  qed
qed

end
