(* ===== verification/Cache_Steps.thy ===== *)
theory Cache_Steps
  imports Cache_Frame Http_Properties
begin

text \<open>
  What Redis guarantees across requests. While the server runs, only its own commands and the passing
  of time change Redis: a blocked session stays blocked and a pending login that was taken stays taken,
  whatever requests are served, whatever jobs run and whatever fails. So a revoked session is locked out
  for good, and the proof of a pending login is checked once.
\<close>

section \<open>A running server\<close>

text \<open>
  The steps of \<open>server_step\<close> with Redis left to the server. The identifiers drawn for new logins are
  among the \<open>fresh\<close> ones.
\<close>

inductive running_step ::
  "('r, 'o) Deps \<Rightarrow> platform \<Rightarrow> (string \<Rightarrow> string option) \<Rightarrow> (uuid \<Rightarrow> bool) \<Rightarrow> ('r, 'o) gworld \<Rightarrow> ('r, 'o) gworld \<Rightarrow> bool"
  for d pf inet fresh where
  request: "(m, p, h) \<in> set (NewRouter d pf rn) \<Longrightarrow> fresh (rn_SessionID rn) \<Longrightarrow>
    running_step d pf inet fresh w (snd (h rq w))"
| sessions_job: "running_step d pf inet fresh w (snd (at_auth CleanOrphanedSessions w))"
| trash_job: "running_step d pf inet fresh w (snd (at_storage (CleanExpiredTrash (dp_Trash d) ttl) w))"
| orphans_job: "running_step d pf inet fresh w (snd (at_storage (CleanOrphanedBlobs (dp_Blobs d) ttl) w))"
| worker: "worker_turn inet ids (w_queue w, w) = (q, w') \<Longrightarrow> running_step d pf inet fresh w (w'\<lparr>w_queue := q\<rparr>)"
| tick: "w_now w \<le> t \<Longrightarrow> running_step d pf inet fresh w (w\<lparr>w_now := t, w_faults := fs\<rparr>)"
| outside: "running_step d pf inet fresh w (w\<lparr>w_mails := ms, w_objects := os\<rparr>)"

inductive_cases running_stepE: "running_step d pf inet fresh w w'"

lemma running_step_is_step: "running_step d pf inet fresh w w' \<Longrightarrow> server_step d pf inet w w'"
proof (erule running_stepE)
  fix ms os
  assume "w' = w\<lparr>w_mails := ms, w_objects := os\<rparr>"
  then have "w' = w\<lparr>w_redis := w_redis w, w_mails := ms, w_objects := os\<rparr>" by simp
  then show ?thesis by (metis server_step.outside)
qed (auto intro: server_step.intros)

lemma on_cache_insertWithRetry: "keeps (on_cache K) (insertWithRetry inet ids e)"
proof -
  have "keeps (on_cache K) (try_inserts inet is e)" for "is"
    by (induction "is") (auto intro!: keeps_rules keeps_attempt simp: InsertAuditEvent_pg_def split: sum.split)
  then show ?thesis unfolding insertWithRetry_def by (simp only: split: prod.split) blast
qed

context cache_predicate
begin

lemma running_step_keeps: "running_step d pf inet fresh w w' \<Longrightarrow> on_cache K w \<Longrightarrow> on_cache K w'"
proof (induction rule: running_step.induct)
  case (request m p h rn w rq)
  then show ?case by (intro servesD [OF NewRouter_keeps])
next
  case (sessions_job w)
  then have "on_cache K (auth_part w)" by (simp add: on_cache_def auth_part_def)
  from keeps_snd [OF on_cache_reads(4) this] show ?case by (simp add: on_cache_def at_auth_def put_auth_def)
next
  case (trash_job w ttl)
  then show ?case by (rule keeps_snd [rotated]) (intro keeps_rules)
next
  case (orphans_job w ttl)
  then show ?case by (rule keeps_snd [rotated]) (intro keeps_rules)
next
  case (worker ids w q w')
  then have "on_cache K w'"
    by (auto simp: worker_turn_def split: list.splits intro: keeps_snd [OF on_cache_insertWithRetry])
  then show ?case by (simp add: on_cache_def)
next
  case (tick w t fs)
  then show ?case by (auto simp: on_cache_def intro: later)
qed (simp add: on_cache_def)

lemma running_steps_keep: "(running_step d pf inet fresh)\<^sup>*\<^sup>* w w' \<Longrightarrow> on_cache K w \<Longrightarrow> on_cache K w'"
  by (induction rule: rtranclp_induct) (auto intro: running_step_keeps)

end

section \<open>Keys that stay as they are\<close>

text \<open>\<open>INCR\<close> and \<open>EXPIRE\<close> leave the strings under other keys alone.\<close>

definition counter_frame :: "('r \<Rightarrow> time \<Rightarrow> string \<Rightarrow> string option) \<Rightarrow> 'r redis \<Rightarrow> bool" where
  "counter_frame view rd \<longleftrightarrow> (\<forall>k n now r t k'. now \<le> t \<longrightarrow> k' \<noteq> k \<longrightarrow>
     view (snd (rd_Incr rd k now r)) t k' = view r t k' \<and> view (rd_Expire rd k n now r) t k' = view r t k')"

text \<open>
  What a server needs of Redis and its settings: the commands do what they are documented to do,
  identifiers are written in a way that can be read back, access tokens live a millisecond at least,
  and the counters have keys of their own.
\<close>

definition cache_laws :: "('r \<Rightarrow> time \<Rightarrow> string \<Rightarrow> string option) \<Rightarrow> ('r, 'o) Deps \<Rightarrow> bool" where
  "cache_laws view d \<longleftrightarrow> redis_contract view (as_Redis (dp_Auth d)) \<and> counter_frame view (as_Redis (dp_Auth d))
     \<and> uuid_text (dp_Codec d) \<and> 1000000 \<le> as_AccessTTL (dp_Auth d)
     \<and> prefix ''rl:'' (rl_prefix (dp_LoginRateLimiter d)) \<and> prefix ''rl:'' (rl_prefix (dp_PublicKeyRateLimiter d))"

lemma cache_lawsD:
  assumes "cache_laws view d" and "now \<le> t"
  shows "1000000 \<le> ttl \<Longrightarrow> k' \<noteq> k \<Longrightarrow> view (rd_Set (as_Redis (dp_Auth d)) k v ttl now r) t k' = view r t k'"
    and "1000000 \<le> ttl \<Longrightarrow> t < now + 1000000 * (ttl div 1000000) \<Longrightarrow>
      view (rd_Set (as_Redis (dp_Auth d)) k v ttl now r) t k = Some v"
    and "view (snd (rd_GetDel (as_Redis (dp_Auth d)) k now r)) t k' = (if k' = k then None else view r t k')"
    and "k' \<noteq> k \<Longrightarrow> view (snd (rd_Incr (as_Redis (dp_Auth d)) k now r)) t k' = view r t k'"
    and "k' \<noteq> k \<Longrightarrow> view (rd_Expire (as_Redis (dp_Auth d)) k n now r) t k' = view r t k'"
  using assms unfolding cache_laws_def redis_contract_def set_contract_def getdel_contract_def counter_frame_def by simp_all

lemma access_millis: "cache_laws view d \<Longrightarrow> 1000000 \<le> as_AccessTTL (dp_Auth d)"
  by (simp add: cache_laws_def)

text \<open>The keys of the three stores are apart.\<close>

lemma keys_apart:
  assumes "cache_laws view d" and "l \<in> {dp_LoginRateLimiter d, dp_PublicKeyRateLimiter d}"
  shows "keyPrefix @ a \<noteq> rl_prefix l @ k" "srpKeyPrefix @ a \<noteq> rl_prefix l @ k"
  using assms by (auto simp: cache_laws_def keyPrefix_def srpKeyPrefix_def prefix_def)

lemma stores_apart: "keyPrefix @ a \<noteq> srpKeyPrefix @ b"
  by (simp add: keyPrefix_def srpKeyPrefix_def)

definition stays_blocked ::
  "('r \<Rightarrow> time \<Rightarrow> string \<Rightarrow> string option) \<Rightarrow> ('r, 'o) Deps \<Rightarrow> uuid \<Rightarrow> time \<Rightarrow> time \<Rightarrow> 'r \<Rightarrow> bool" where
  "stays_blocked view d i t0 now r \<longleftrightarrow> (cache_laws view d \<longrightarrow> t0 \<le> now
     \<and> (\<forall>t. now \<le> t \<longrightarrow> t < t0 + 1000000 * (as_AccessTTL (dp_Auth d) div 1000000) \<longrightarrow>
          view r t (keyPrefix @ cd_String (dp_Codec d) i) \<noteq> None))"

definition stays_taken ::
  "('r \<Rightarrow> time \<Rightarrow> string \<Rightarrow> string option) \<Rightarrow> ('r, 'o) Deps \<Rightarrow> uuid \<Rightarrow> time \<Rightarrow> 'r \<Rightarrow> bool" where
  "stays_taken view d sid now r \<longleftrightarrow> (cache_laws view d \<longrightarrow>
     (\<forall>t. now \<le> t \<longrightarrow> view r t (srpKeyPrefix @ cd_String (dp_Codec d) sid) = None))"

text \<open>Both predicates meet the interface on the server's own Redis.\<close>

interpretation lockout: cache_predicate d "stays_blocked view d i t0" "\<lambda>_. True" for view d i t0
proof
  fix now r t j l k n data
  let ?K = "stays_blocked view d i t0" and ?s = "as_Redis (dp_Auth d)"
  assume K: "?K now r"
  show "?K t r" if "now \<le> t" using K that by (auto simp: stays_blocked_def)
  show "?K now (rd_Set ?s (keyPrefix @ cd_String (dp_Codec d) j) ''1'' (as_AccessTTL (dp_Auth d)) now r)"
  proof (cases "cd_String (dp_Codec d) j = cd_String (dp_Codec d) i")
    case True
    show ?thesis
      unfolding stays_blocked_def True
      using K by (auto simp: stays_blocked_def access_millis cache_lawsD(2) [of view d])
  next
    case False
    then show ?thesis using K by (auto simp: stays_blocked_def access_millis cache_lawsD(1) [of view d])
  qed
  show "?K now (rd_Set ?s (srpKeyPrefix @ cd_String (dp_Codec d) j) data SRPSessionTTL now r)"
    using K stores_apart by (auto simp: stays_blocked_def cache_lawsD(1) [of view d] SRPSessionTTL_def)
  show "?K now (snd (rd_GetDel ?s (srpKeyPrefix @ cd_String (dp_Codec d) j) now r))"
    using K stores_apart by (auto simp: stays_blocked_def cache_lawsD(3) [of view d])
  show "?K now (snd (rd_Incr ?s (rl_prefix l @ k) now r))" "?K now (rd_Expire ?s (rl_prefix l @ k) n now r)"
    if l: "l \<in> {dp_LoginRateLimiter d, dp_PublicKeyRateLimiter d}"
    using K keys_apart(1) [OF _ l] by (auto simp: stays_blocked_def cache_lawsD(4,5) [of view d])
qed

interpretation taken: cache_predicate d "stays_taken view d sid" "\<lambda>i. i \<noteq> sid" for view d sid
proof
  fix now r t j l k n data
  let ?K = "stays_taken view d sid" and ?s = "as_Redis (dp_Auth d)"
  assume K: "?K now r"
  show "?K t r" if "now \<le> t" using K that by (simp add: stays_taken_def)
  show "?K now (rd_Set ?s (keyPrefix @ cd_String (dp_Codec d) j) ''1'' (as_AccessTTL (dp_Auth d)) now r)"
    using K stores_apart [symmetric] by (auto simp: stays_taken_def cache_lawsD(1) [of view d] access_millis)
  show "?K now (rd_Set ?s (srpKeyPrefix @ cd_String (dp_Codec d) j) data SRPSessionTTL now r)" if "j \<noteq> sid"
    using K that uuid_text_inj [of "dp_Codec d" j sid]
    by (auto simp: stays_taken_def cache_laws_def cache_lawsD(1) [of view d] SRPSessionTTL_def)
  show "?K now (snd (rd_GetDel ?s (srpKeyPrefix @ cd_String (dp_Codec d) j) now r))"
    using K by (auto simp: stays_taken_def cache_lawsD(3) [of view d])
  show "?K now (snd (rd_Incr ?s (rl_prefix l @ k) now r))" "?K now (rd_Expire ?s (rl_prefix l @ k) n now r)"
    if l: "l \<in> {dp_LoginRateLimiter d, dp_PublicKeyRateLimiter d}"
    using K keys_apart(2) [OF _ l] by (auto simp: stays_taken_def cache_lawsD(4,5) [of view d])
qed

section \<open>Revoked sessions\<close>

text \<open>A revocation that is served without a failure leaves the session on the blocklist.\<close>

lemma revokeSession_blocks:
  fixes w :: "'r aworld"
  assumes "w_faults w = []" and "revokeSession d rq w = (resp, w1)" and "rp_Status resp = 204"
    and "cd_Parse (as_Codec (dp_Auth d)) (rq_Param rq ''id'') = Some i"
  shows "w_redis w1 = rd_Set (as_Redis (dp_Auth d)) (keyPrefix @ cd_String (as_Codec (dp_Auth d)) i) ''1''
      (as_AccessTTL (dp_Auth d)) (w_now w) (w_redis w)" and "w_now w1 = w_now w"
proof -
  let ?s = "dp_Auth d"
  obtain uid where uid: "rq_ctxUserID rq = Some uid" "uid \<noteq> uuid_Nil"
    using assms(2,3) by (auto simp: revokeSession_def MustUserID_def split: option.splits if_splits)
  have h: "revokeSession d rq = call (RevokeDeviceSession ?s uid i)
             (\<lambda>e. if e = ErrSessionNotFound then WriteError 404 ''session not found'' else WriteInternalError)
             (\<lambda>_. logged_async (auditEvent uid ''session_revoked'' (realIP rq) (rq_Header rq ''User-Agent'')
                                 (Some i) []) (reply 204 NoBody))"
    using uid assms(4) by (simp add: revokeSession_def MustUserID_def)
  have "rp_Status (fst (revokeSession d rq w)) = 204" using assms(2,3) by simp
  then obtain x w0 where r: "RevokeDeviceSession ?s uid i w = (Inr x, w0)"
    and w1: "revokeSession d rq w = logged_async (auditEvent uid ''session_revoked'' (realIP rq) (rq_Header rq ''User-Agent'')
                                 (Some i) []) (reply 204 NoBody) w0"
    unfolding h by (rule call_status) (auto simp: WriteInternalError_def split: if_splits)
  have "w_redis w1 = w_redis w0" "w_now w1 = w_now w0"
    using w1 assms(2) by (auto simp: logged_async_def reply_def)
  with RevokeDeviceSession_nil [OF assms(1), of ?s uid i w0] r
  show "w_redis w1 = rd_Set (as_Redis ?s) (keyPrefix @ cd_String (as_Codec ?s) i) ''1'' (as_AccessTTL ?s) (w_now w) (w_redis w)"
    and "w_now w1 = w_now w" by simp_all
qed

text \<open>Whether or not the lookup fails, a session that is on the blocklist is never reported as free.\<close>

lemma IsBlocked_listed:
  fixes w :: "('r, 'x) cworld_scheme"
  assumes "redis_contract view rd" and "view (w_redis w) (w_now w) (keyPrefix @ us i) \<noteq> None"
  shows "fst (IsBlocked rd us i w) \<noteq> Inr False"
proof -
  have "0 < rd_Exists rd (keyPrefix @ us i) (w_now w) (w_redis w)"
    using assms unfolding redis_contract_def exists_contract_def by blast
  moreover have "w_redis (snd (pop_fault w)) = w_redis w" by (simp add: pop_fault_def split: list.splits)
  moreover have "w_now (snd (pop_fault w)) = w_now w" by (rule pop_fault_frame)
  ultimately show ?thesis
    by (cases "pop_fault w") (simp add: IsBlocked_def bindE_def redis_call_def ret_def)
qed

text \<open>
  C6. A device session that its user revokes is locked out at once and for good. When the revocation was
  answered with 204 and nothing failed while it was served, every request to a route outside \<open>/auth\<close> and
  \<open>/health\<close> that carries an access token issued for the session before is refused with 401 or 503 and
  changes nothing: at once and at any later time, after any requests and jobs the server has run in
  between, and whatever fails then. Between the two, Redis is changed by the server only; the lifetime
  of access tokens is a whole number of milliseconds and the same in both services.
\<close>

theorem revoked_session_locked_out:
  assumes "cache_laws view d" and "jwt_contract (as_Jwt (dp_Auth d))"
    and "js_accessTTL (as_Tokens (dp_Auth d)) = as_AccessTTL (dp_Auth d)" and "as_AccessTTL (dp_Auth d) mod 1000000 = 0"
    and "w_faults w = []" and "at_auth (revokeSession d rq) w = (resp, w1)" and "rp_Status resp = 204"
    and "cd_Parse (dp_Codec d) (rq_Param rq ''id'') = Some i" and "i \<noteq> uuid_Nil"
    and "(running_step d pf inet (\<lambda>_. True))\<^sup>*\<^sup>* w1 w2"
    and "IssueAccess (as_Jwt (dp_Auth d)) (dp_Codec d) (as_Tokens (dp_Auth d)) u i t0 = Inr (tok, ex)" and "t0 \<le> w_now w"
    and "bearer_token rq' = Some tok" and "(m, p, h) \<in> set (NewRouter d pf rn)" and "take 5 p \<noteq> ''/auth''" and "p \<noteq> ''/health''"
  shows "rp_Status (fst (h rq' w2)) \<in> {401, 503} \<and> (\<exists>fs. snd (h rq' w2) = w2\<lparr>w_faults := fs\<rparr>)"
proof -
  let ?s = "dp_Auth d" and ?ttl = "as_AccessTTL (dp_Auth d)"
  have ttl: "1000000 * (?ttl div 1000000) = ?ttl" using assms(4) by (metis mult_div_mod_eq add.right_neutral)
  obtain a where a: "revokeSession d rq (auth_part w) = (resp, a)" and w1: "w1 = put_auth w a"
    using assms(6) by (auto simp: at_auth_def within_def split: prod.splits)
  have "w_faults (auth_part w) = []" using assms(5) by (simp add: auth_part_def)
  note b = revokeSession_blocks [OF this a assms(7,8)]
  have w1: "w_redis w1 = rd_Set (as_Redis ?s) (keyPrefix @ cd_String (dp_Codec d) i) ''1'' ?ttl (w_now w) (w_redis w)"
    "w_now w1 = w_now w"
    using b by (simp_all add: w1 part_defs)
  have "on_cache (stays_blocked view d i (w_now w)) w1"
    using cache_lawsD(2) [OF assms(1), of "w_now w"] access_millis [OF assms(1)]
    by (simp add: on_cache_def stays_blocked_def w1)
  then have "on_cache (stays_blocked view d i (w_now w)) w2" by (rule lockout.running_steps_keep [OF assms(10)])
  then have now: "w_now w \<le> w_now w2"
    and blk: "w_now w2 < w_now w + ?ttl \<Longrightarrow> view (w_redis w2) (w_now w2) (keyPrefix @ cd_String (dp_Codec d) i) \<noteq> None"
    using assms(1) ttl by (auto simp: on_cache_def stays_blocked_def)
  have red: "redis_contract view (as_Redis ?s)" and ut: "uuid_text (dp_Codec d)" using assms(1) by (simp_all add: cache_laws_def)
  obtain h' where h: "h = gate d h'" by (rule gated_entries [OF assms(14-16)])
  have "\<exists>st msg fs. gate d h' rq' w2 = WriteError st msg (w2\<lparr>w_faults := fs\<rparr>) \<and> st \<in> {401, 503}"
  proof (rule gate_refuses)
    fix tok' uid sid
    assume "bearer_token rq' = Some tok'" and p: "ParseAccessToken (as_Jwt ?s) (dp_Codec d) (as_Tokens ?s) (w_now w2) tok' = Inr (uid, sid)"
    then have p: "w_now w2 < 1000000000 * ((t0 + ?ttl) div 1000000000)" "sid = i"
      using assms(13) parse_issued [OF assms(2) ut assms(11), of "w_now w2"] assms(3) by (auto split: if_splits)
    have "1000000000 * ((t0 + ?ttl) div 1000000000) \<le> t0 + ?ttl" by simp
    with p(1) assms(12) have "w_now w2 < w_now w + ?ttl" by linarith
    then show "sid \<noteq> uuid_Nil \<and> fst (IsBlocked (as_Redis ?s) (cd_String (dp_Codec d)) sid w2) \<noteq> Inr False"
      using IsBlocked_listed [OF red] blk assms(9) p(2) by blast
  qed
  then obtain st msg fs where g: "gate d h' rq' w2 = WriteError st msg (w2\<lparr>w_faults := fs\<rparr>)" "st \<in> {401, 503}" by blast
  then show ?thesis by (auto simp: h WriteError_def reply_def)
qed

section \<open>Pending logins\<close>

text \<open>Once the command of an attempt reached Redis, the pending login is gone, whatever the attempt then does.\<close>

lemma LoginFinalize_takes:
  fixes w :: "'r aworld"
  assumes "cache_laws view d" and "cd_Parse (dp_Codec d) (lf_SessionID p) = Some sid" and "fst (pop_fault w) \<noteq> FailBefore"
  shows "on_cache (stays_taken view d sid) (snd (LoginFinalize (dp_Auth d) i dr p w))"
proof -
  obtain f w0 where f: "pop_fault w = (f, w0)" by (rule prod.exhaust)
  let ?r = "snd (rd_GetDel (as_Redis (dp_Auth d)) (srpKeyPrefix @ cd_String (dp_Codec d) sid) (w_now w0) (w_redis w0))"
  have "\<exists>x. Consume_srp (as_Redis (dp_Auth d)) (dp_Codec d) sid w = (Inr x, w0\<lparr>w_redis := ?r\<rparr>)"
    using assms(3)
    by (simp add: Consume_srp_def attempt_def redis_call_def f ret_def split: prod.splits option.splits sum.splits)
  then obtain x where c: "Consume_srp (as_Redis (dp_Auth d)) (dp_Codec d) sid w = (Inr x, w0\<lparr>w_redis := ?r\<rparr>)" ..
  have "on_cache (stays_taken view d sid) (w0\<lparr>w_redis := ?r\<rparr>)"
    using cache_lawsD(3) [OF assms(1)] by (simp add: on_cache_def stays_taken_def)
  then show ?thesis
    unfolding LoginFinalize_def assms(2) option.case bindE_def [of "Consume_srp _ _ _"] c prod.case sum.case
      RevokeUserOrphanedSessions_pg_def
    by (intro keeps_snd [of "on_cache (stays_taken view d sid)"] keeps_rules taken.issue_keeps)
qed

lemma LoginFinalize_unknown:
  assumes "Consume_srp (as_Redis s) (as_Codec s) sid w = (Inr None, w')"
    and "cd_Parse (as_Codec s) (lf_SessionID p) = Some sid"
  shows "fst (LoginFinalize s i dr p w) = Inl ErrInvalidCredentials"
  by (simp add: LoginFinalize_def bindE_def fail_def assms)

text \<open>An attempt at a pending login that is gone, or that cannot be asked for, is refused.\<close>

lemma LoginFinalize_refused:
  fixes w :: "'r aworld"
  assumes "cd_Parse (dp_Codec d) (lf_SessionID p) = Some sid"
    and "fst (pop_fault w) = FailBefore \<or> cache_laws view d \<and> on_cache (stays_taken view d sid) w"
  shows "fst (LoginFinalize (dp_Auth d) i dr p w) = Inl ErrInvalidCredentials"
proof -
  obtain f w0 where f: "pop_fault w = (f, w0)" by (rule prod.exhaust)
  have w0: "w_now w0 = w_now w" "w_redis w0 = w_redis w"
    using f by (auto simp: pop_fault_def split: list.splits)
  have "\<exists>w1. Consume_srp (as_Redis (dp_Auth d)) (dp_Codec d) sid w = (Inr None, w1)"
  proof (cases "f = FailBefore")
    case True
    then show ?thesis by (simp add: Consume_srp_def attempt_def redis_call_def f ret_def)
  next
    case False
    then have "fst (rd_GetDel (as_Redis (dp_Auth d)) (srpKeyPrefix @ cd_String (dp_Codec d) sid) (w_now w) (w_redis w)) = None"
      using assms(2) f unfolding cache_laws_def redis_contract_def getdel_contract_def on_cache_def stays_taken_def by auto
    then obtain r where "rd_GetDel (as_Redis (dp_Auth d)) (srpKeyPrefix @ cd_String (dp_Codec d) sid) (w_now w) (w_redis w) = (None, r)"
      by (metis prod.collapse)
    with False show ?thesis by (simp add: Consume_srp_def attempt_def redis_call_def f w0 ret_def)
  qed
  then obtain w1 where "Consume_srp (as_Redis (dp_Auth d)) (dp_Codec d) sid w = (Inr None, w1)" ..
  then show ?thesis using assms(1) by (rule LoginFinalize_unknown)
qed

text \<open>
  C19. A pending login is tried once. An attempt to finish it whose lookup does not reach Redis is refused as
  invalid credentials before any proof is checked; after any other attempt, with a right or a wrong
  proof and whatever fails while it is served, every later attempt with the same session identifier is
  refused as invalid credentials, whatever the server has done in between and whatever fails. Redis is
  changed by the server only, and the identifiers it draws for other logins are different ones.
\<close>

theorem login_attempt_single_use:
  assumes "cache_laws view d" and "cd_Parse (dp_Codec d) (lf_SessionID p) = Some sid" and "lf_SessionID p' = lf_SessionID p"
    and "at_auth (LoginFinalize (dp_Auth d) i dr p) w = (res, w1)" and "(running_step d pf inet (\<lambda>j. j \<noteq> sid))\<^sup>*\<^sup>* w1 w2"
  shows "if fst (pop_fault (auth_part w)) = FailBefore then res = Inl ErrInvalidCredentials
         else fst (at_auth (LoginFinalize (dp_Auth d) i' dr' p') w2) = Inl ErrInvalidCredentials"
proof -
  obtain a where a: "LoginFinalize (dp_Auth d) i dr p (auth_part w) = (res, a)" and w1: "w1 = put_auth w a"
    using assms(4) by (auto simp: at_auth_def within_def split: prod.splits)
  show ?thesis
  proof (cases "fst (pop_fault (auth_part w)) = FailBefore")
    case True
    then show ?thesis using LoginFinalize_refused [where d = d and w = "auth_part w", OF assms(2)] a by (metis fst_conv)
  next
    case False
    have "on_cache (stays_taken view d sid) w1"
      using LoginFinalize_takes [OF assms(1,2) False] a by (simp add: w1 on_cache_def part_defs) (metis snd_conv)
    then have "on_cache (stays_taken view d sid) w2" by (rule taken.running_steps_keep [OF assms(5)])
    then have "on_cache (stays_taken view d sid) (auth_part w2)" by (simp add: on_cache_def auth_part_def)
    with assms(1,2,3) have "fst (LoginFinalize (dp_Auth d) i' dr' p' (auth_part w2)) = Inl ErrInvalidCredentials"
      by (intro LoginFinalize_refused [where view = view]) auto
    with False show ?thesis by (simp add: at_auth_def within_def case_prod_beta)
  qed
qed

end
