(* ===== verification/Storage_Checks.thy ===== *)
theory Storage_Checks
  imports Storage_Isolation
begin

text \<open>
  The checks the storage service makes before it changes anything: file names, the quota, the cycle
  check of \<open>MoveFolder\<close>, and the escaping of search texts.
\<close>

section \<open>File names\<close>

text \<open>
  C31. \<open>sanitizeFileName\<close> returns a name that is not empty, is neither \<open>.\<close> nor \<open>..\<close>, and has no path
  separator, unless the name is the single separator itself.
\<close>

theorem sanitizeFileName_safe:
  "sanitizeFileName n \<noteq> [] \<and> sanitizeFileName n \<notin> {''.'', ''..''} \<and>
   (set (sanitizeFileName n) \<inter> {slash, backslash} = {} \<or> sanitizeFileName n = [slash])"
proof -
  let ?t = "TrimSpace n"
  let ?r = "ReplaceAll1 backslash [slash] ?t"
  have bin: "''file.bin'' \<noteq> []" "''file.bin'' \<notin> {''.'', ''..''}" "set ''file.bin'' \<inter> {slash, backslash} = {}"
    by (simp_all add: slash_def backslash_def)
  have nob: "backslash \<notin> set (Base ?r)"
    using set_Base [of ?r] set_ReplaceAll1 [of backslash "[slash]" ?t]
    by (auto simp: slash_def backslash_def)
  have "Base ?r = [slash]" if "slash \<in> set (Base ?r)"
    using that unfolding Base_slash by (intro Base_root) simp_all
  with nob Base_nonempty [of ?r] bin show ?thesis
    by (auto simp: sanitizeFileName_def Let_def)
qed

section \<open>Quota\<close>

lemma GetUserStorageUsed_ok:
  assumes "GetUserStorageUsed_pg u w = (Inr used, w')"
  shows "sint used = storage_used u (w_db w)" and "w_db w' = w_db w"
proof -
  have "(let total = storage_used u (w_db w) in
      if - (2 ^ 63) \<le> total \<and> total < 2 ^ 63 then Inr (word_of_int total, w_db w) else Inl DbError)
      = Inr (used, w_db w')"
    using db_call_ok(1) [OF assms [unfolded GetUserStorageUsed_pg_def]] .
  then have "used = word_of_int (storage_used u (w_db w))" "w_db w' = w_db w"
    and "- (2 ^ 63) \<le> storage_used u (w_db w)" "storage_used u (w_db w) < 2 ^ 63"
    by (auto simp: Let_def split: if_splits)
  then show "sint used = storage_used u (w_db w)" and "w_db w' = w_db w"
    by (simp_all add: sint_sbintrunc' signed_take_bit_int_eq_self)
qed

lemma sint_plus_exact:
  fixes a b :: int64
  assumes "- (2 ^ 63) \<le> sint a + sint b" and "sint a + sint b < 2 ^ 63"
  shows "sint (a + b) = sint a + sint b"
  using assms by (simp add: sint_word_ariths signed_take_bit_int_eq_self)

lemma storage_used_insert:
  assumes "insert_blob b d = Inr (x, d')"
  shows "storage_used u d' = storage_used u d + (if bl_UserID b = u then sint (bl_FileSize b) else 0)"
  using assms by (auto simp: insert_blob_def storage_used_def split: if_splits)


lemma quota_check_ok:
  assumes "quota_check s p w = (Inr (), w')" and "sint (sv_QuotaBytes s) > 0"
    and "storage_used (im_UserID p) (w_db w) + sint (im_FileSize p) < 2 ^ 63"
    and "0 \<le> sint (im_FileSize p)"
  shows "storage_used (im_UserID p) (w_db w) + sint (im_FileSize p) \<le> sint (sv_QuotaBytes s)"
proof -
  from assms(1,2) obtain used w1 where u: "GetUserStorageUsed_pg (im_UserID p) w = (Inr used, w1)"
    and le: "sint (used + im_FileSize p) \<le> sint (sv_QuotaBytes s)"
    by (auto simp: quota_check_def fail_def split: if_splits elim!: bindE_InrE map_err_InrE)
  have "sint used \<ge> - (2 ^ 63)" using sint_ge [of used] by simp
  then have "sint (used + im_FileSize p) = sint used + sint (im_FileSize p)"
    using GetUserStorageUsed_ok(1) [OF u] assms(3,4) by (intro sint_plus_exact) auto
  with le GetUserStorageUsed_ok(1) [OF u] show ?thesis by simp
qed

lemma keeps_same_db: "keeps (on_db (\<lambda>_ d. d = d0)) m \<Longrightarrow> m w = (r, w') \<Longrightarrow> w_db w = d0 \<Longrightarrow> w_db w' = d0"
  using keeps_snd [of "on_db (\<lambda>_ d. d = d0)" m w] by (simp add: on_db_def)

text \<open>An accepted upload is exactly one inserted row.\<close>

lemma InitiateMultipartUpload_row:
  assumes "InitiateMultipartUpload s us i p w = (Inr r, w')"
  obtains b where "insert_blob b (w_db w) = Inr ((), w_db w')" and "bl_UserID b = im_UserID p"
    and "bl_FileSize b = im_FileSize p" and "bl_ID b = i" and "bl_UploadedAt b = None"
    and "\<exists>w1. quota_check s p w = (Inr (), w1)"
proof -
  let ?d = "w_db w"
  have "keeps (on_db (\<lambda>_ d. d = ?d)) (case im_FolderID p of None \<Rightarrow> ret () | Some f \<Rightarrow> requireFolder f (im_UserID p))"
    unfolding requireFolder_def by (intro keeps_rules)
  note same = keeps_same_db [OF keeps_quota_check [of "\<lambda>_ d. d = ?d"]] keeps_same_db [OF this]
    keeps_same_db [OF keeps_obj_call [of "\<lambda>_ d. d = ?d"]]
  from assms obtain w1 w2 w3 w4 uid x where q: "quota_check s p w = (Inr (), w1)"
    and f: "(case im_FolderID p of None \<Rightarrow> ret () | Some f \<Rightarrow> requireFolder f (im_UserID p)) w1 = (Inr (), w2)"
    and n: "obj_call (NewMultipartUpload (sv_Objects s) (object_key us (im_UserID p) i)) w2 = (Inr uid, w3)"
    and reg: "RegisterBlob_pg \<lparr>rb_ID = i, rb_UserID = im_UserID p, rb_FileName = sanitizeFileName (im_FileName p),
        rb_ContentType = TrimSpace (im_ContentType p), rb_ObjectKey = object_key us (im_UserID p) i,
        rb_FileSize = im_FileSize p, rb_FileSizePlain = im_FileSizePlain p, rb_ChunkSize = im_ChunkSize p,
        rb_EncryptedFileKey = im_EncryptedFileKey p, rb_FolderID = im_FolderID p, rb_UploadID = uid\<rparr> w3 = (Inr (), w4)"
    and pp: "presign_parts s (object_key us (im_UserID p) i) uid [1..im_PartCount p] w4 = (Inr x, w')"
    by (auto simp: InitiateMultipartUpload_def Let_def fail_def ret_def attempt_def ignore_def bindE_def
        split: if_splits prod.splits sum.splits)
  have "w_db w3 = ?d" using same(1) [OF q refl] same(2) [OF f] same(3) [OF n] by simp
  moreover have "w_db w' = w_db w4"
    by (rule keeps_same_db [OF keeps_presign_parts pp refl])
  ultimately show thesis
    using db_call_ok(1) [OF reg [unfolded RegisterBlob_pg_def]] q
    by (intro that) (auto simp: new_blob_row_def)
qed

text \<open>
  C26. The quota holds: an upload that is accepted, when the bytes in use plus its size are a number
  an \<open>int64\<close> can hold and the declared size is not negative, leaves the user's total within the quota.
\<close>

theorem InitiateMultipartUpload_within_quota:
  assumes "InitiateMultipartUpload s us i p w = (Inr r, w')" and "sint (sv_QuotaBytes s) > 0"
    and "0 \<le> sint (im_FileSize p)" and "storage_used (im_UserID p) (w_db w) + sint (im_FileSize p) < 2 ^ 63"
  shows "storage_used (im_UserID p) (w_db w') = storage_used (im_UserID p) (w_db w) + sint (im_FileSize p)
    \<and> storage_used (im_UserID p) (w_db w') \<le> sint (sv_QuotaBytes s)"
proof -
  from assms(1) obtain b w1 where b: "insert_blob b (w_db w) = Inr ((), w_db w')" "bl_UserID b = im_UserID p"
    "bl_FileSize b = im_FileSize p" and q: "quota_check s p w = (Inr (), w1)"
    by (elim InitiateMultipartUpload_row) blast
  have used: "storage_used (im_UserID p) (w_db w') = storage_used (im_UserID p) (w_db w) + sint (im_FileSize p)"
    using storage_used_insert [OF b(1), of "im_UserID p"] b(2,3) by simp
  with quota_check_ok [OF q assms(2,4,3)] show ?thesis by simp
qed


section \<open>The cycle check of MoveFolder\<close>

abbreviation parent_rel :: "db \<Rightarrow> (uuid \<times> uuid) set" where
  "parent_rel d \<equiv> child_rel (\<lambda>_. True) (folders d)"

text \<open>No folder lies more than 100 levels below \<open>x\<close>: the depth \<open>IsDescendantOf\<close> looks at.\<close>

definition shallow :: "uuid \<Rightarrow> db \<Rightarrow> bool" where
  "shallow x d \<longleftrightarrow> (\<forall>y. (x, y) \<notin> parent_rel d ^^ 101)"

text \<open>All folders above an active folder are active.\<close>

lemma active_path:
  assumes wf: "wf_db now d"
  shows "(x, fo_ID f) \<in> parent_rel d ^^ k \<Longrightarrow> f \<in> set (folders d) \<Longrightarrow> is_active f \<Longrightarrow>
    (x, fo_ID f) \<in> child_rel is_active (folders d) ^^ k"
proof (induction k arbitrary: f)
  case (Suc k)
  from Suc.prems(1) obtain z where z: "(x, z) \<in> parent_rel d ^^ k" "(z, fo_ID f) \<in> parent_rel d" by auto
  then obtain c where c: "c \<in> set (folders d)" "fo_ID c = fo_ID f" "fo_ParentID c = Some z"
    by (auto simp: child_rel_def)
  have "c = f" using folder_unique [OF wf_dbD(1) [OF wf] c(1) Suc.prems(2) c(2)] .
  from folder_refD [OF wf c(1,3)] obtain p where p: "p \<in> set (folders d)" "fo_ID p = z" by blast
  have "is_active p" using parent_active [OF wf Suc.prems(2,3) p(1)] c(3) p(2) \<open>c = f\<close> by simp
  with Suc.IH [of p] z(1) p have "(x, z) \<in> child_rel is_active (folders d) ^^ k" by simp
  moreover have "(z, fo_ID f) \<in> child_rel is_active (folders d)"
    using child_relI [OF Suc.prems(2), of z is_active] c(3) \<open>c = f\<close> Suc.prems(3) by simp
  ultimately show ?case by (rule relpow_Suc_I)
qed simp

lemma shallow_path: "shallow x d \<Longrightarrow> (x, y) \<in> parent_rel d ^^ k \<Longrightarrow> k \<le> 100"
proof (rule ccontr)
  assume sh: "shallow x d" and path: "(x, y) \<in> parent_rel d ^^ k" and "\<not> k \<le> 100"
  then have "parent_rel d ^^ k = parent_rel d ^^ 101 O parent_rel d ^^ (k - 101)"
    by (simp flip: relpow_add)
  with path sh show False by (auto simp: shallow_def simp del: relpow.simps)
qed

lemma not_descendant:
  assumes wf: "wf_db now d" and sh: "shallow x d" and x: "x \<in> fo_ID ` set (folders d)"
    and p: "p \<in> set (folders d)" "is_active p"
    and no: "fo_ID p \<notin> set (walk_depth is_active (folders d) 100 (map fo_ID (filter (\<lambda>f. fo_ID f = x) (folders d))))"
  shows "(x, fo_ID p) \<notin> (parent_rel d)\<^sup>*"
proof
  assume "(x, fo_ID p) \<in> (parent_rel d)\<^sup>*"
  then obtain k where k: "(x, fo_ID p) \<in> parent_rel d ^^ k" by (auto simp: rtrancl_power)
  from active_path [OF wf k p] shallow_path [OF sh k] x
  have "fo_ID p \<in> set (walk_depth is_active (folders d) 100 (map fo_ID (filter (\<lambda>f. fo_ID f = x) (folders d))))"
    unfolding walk_depth_set by (auto simp del: relpow.simps)
  with no show False ..
qed

lemma acyclic_move:
  assumes ac: "acyclic_folders t" and target: "\<And>i. np = Some i \<Longrightarrow> (x, i) \<notin> (child_rel (\<lambda>_. True) t)\<^sup>*"
  shows "acyclic_folders (map (\<lambda>f. if folder_is x u f \<and> is_active f then f\<lparr>fo_ParentID := np\<rparr> else f) t)"
proof (cases np)
  case None
  show ?thesis
    unfolding acyclic_folders_def
    by (rule acyclic_subset [OF ac [unfolded acyclic_folders_def]]) (auto simp: child_rel_def None split: if_splits)
next
  case (Some i)
  have "acyclic (insert (i, x) (child_rel (\<lambda>_. True) t))"
    using ac target [OF Some] by (simp add: acyclic_insert acyclic_folders_def)
  then show ?thesis
    unfolding acyclic_folders_def
    by (rule acyclic_subset) (auto simp: child_rel_def Some folder_is_def split: if_splits)
qed

text \<open>What is known of the database when \<open>MoveFolder\<close> writes.\<close>

definition can_move :: "MoveFolderParams \<Rightarrow> time \<Rightarrow> db \<Rightarrow> bool" where
  "can_move p now d \<longleftrightarrow> wf_db now d \<and> acyclic_folders (folders d) \<and> shallow (mf_FolderID p) d"

definition no_cycle :: "MoveFolderParams \<Rightarrow> time \<Rightarrow> db \<Rightarrow> bool" where
  "no_cycle p now d \<longleftrightarrow> acyclic_folders (folders d) \<and>
     (\<forall>i. mf_NewParentID p = Some i \<longrightarrow> (mf_FolderID p, i) \<notin> (parent_rel d)\<^sup>*)"

lemma triple_is_descendant:
  "triple (on_db (\<lambda>now d. can_move p now d \<and> folder_exists (mf_FolderID p) d \<and> active_target (Some i) u d))
     (bindE (map_err Db (IsDescendantOf_pg (mf_FolderID p) i))
        (\<lambda>isDesc. if isDesc then fail ErrFolderCycle else ret n))
     (\<lambda>_. on_db (\<lambda>now d. acyclic_folders (folders d) \<and> (mf_FolderID p, i) \<notin> (parent_rel d)\<^sup>*))
     (\<lambda>_. on_db (\<lambda>now d. acyclic_folders (folders d)))"
  (is "triple (on_db ?I) _ (\<lambda>_. on_db ?Q) (\<lambda>_. on_db ?R)")
proof (rule triple_bindE)
  let ?q = "\<lambda>_ d. i \<in> set (walk_depth is_active (folders d) 100
       (map fo_ID (filter (\<lambda>f. fo_ID f = mf_FolderID p) (folders d))))"
  show "triple (on_db ?I) (map_err Db (IsDescendantOf_pg (mf_FolderID p) i))
      (\<lambda>b w. on_db ?I w \<and> b = ?q (w_now w) (w_db w)) (\<lambda>_. on_db ?R)"
    unfolding IsDescendantOf_pg_def
    by (rule triple_map_err, rule triple_weaken [OF triple_query [of ?I ?q]]) (auto simp: on_db_def can_move_def)
  show "triple (\<lambda>w. on_db ?I w \<and> b = ?q (w_now w) (w_db w)) (if b then fail ErrFolderCycle else ret n)
      (\<lambda>_. on_db ?Q) (\<lambda>_. on_db ?R)" for b
  proof (cases b)
    case True
    then show ?thesis by (auto simp: on_db_def can_move_def intro!: triple_fail)
  next
    case False
    have "?Q now d" if I: "?I now d" and "\<not> ?q now d" for now d
    proof -
      obtain f where "f \<in> set (folders d)" "fo_ID f = i" "is_active f"
        using I by (auto simp: active_target_def ref_ok_def is_active_def)
      with not_descendant [of now d "mf_FolderID p" f] that show ?thesis
        by (auto simp: can_move_def folder_exists_def)
    qed
    with False show ?thesis by (auto simp: on_db_def intro!: triple_ret)
  qed
qed


abbreviation forest :: "time \<Rightarrow> db \<Rightarrow> bool" where
  "forest now d \<equiv> acyclic_folders (folders d)"

lemma triple_move_target_forest:
  "triple (on_db (\<lambda>now d. can_move p now d \<and> folder_exists (mf_FolderID p) d)) (move_target p)
     (\<lambda>_. on_db (no_cycle p)) (\<lambda>_. on_db forest)"
proof (cases "mf_NewParentID p")
  case None
  then show ?thesis
    by (auto simp: move_target_def no_cycle_def can_move_def on_db_def intro!: triple_ret)
next
  case (Some i)
  let ?I = "\<lambda>now d. can_move p now d \<and> folder_exists (mf_FolderID p) d"
  have get: "triple (on_db ?I) (found ErrFolderNotFound (GetFolder_pg i (mf_UserID p)))
      (\<lambda>_. on_db (\<lambda>now d. can_move p now d \<and> folder_exists (mf_FolderID p) d \<and> active_target (Some i) (mf_UserID p) d))
      (\<lambda>_. on_db forest)"
    by (rule triple_weaken [OF triple_found_folder [of ?I]]) (auto simp: on_db_def can_move_def)
  have check: "triple (on_db (\<lambda>now d. can_move p now d \<and> folder_exists (mf_FolderID p) d \<and> active_target (Some i) (mf_UserID p) d))
     (bindE (map_err Db (IsDescendantOf_pg (mf_FolderID p) i))
        (\<lambda>isDesc. if isDesc then fail ErrFolderCycle else ret n))
     (\<lambda>_. on_db (no_cycle p)) (\<lambda>_. on_db forest)" for n
    by (rule triple_weaken [OF triple_is_descendant [of p i]]) (auto simp: on_db_def no_cycle_def Some)
  show ?thesis
    unfolding move_target_def Some option.case
    using triple_bindE [OF get check]
    by (cases "i = mf_FolderID p") (auto simp: on_db_def can_move_def intro!: triple_fail)
qed

lemma triple_MoveFolder_pg_forest:
  "triple (on_db (no_cycle p)) (MoveFolder_pg p) (\<lambda>_. on_db forest) (\<lambda>_. on_db forest)"
  unfolding MoveFolder_pg_def
proof (rule triple_bindE, rule triple_map_err, rule triple_db_call)
  fix now d n d'
  assume nc: "no_cycle p now d"
    and up: "update_folders (\<lambda>f. folder_is (mf_FolderID p) (mf_UserID p) f \<and> is_active f)
      (\<lambda>f. f\<lparr>fo_ParentID := mf_NewParentID p\<rparr>) d = Inr (n, d')"
  show "forest now d'"
    unfolding update_foldersD(1) [OF up] using nc acyclic_move [of "folders d"] by (simp add: no_cycle_def)
qed (auto simp: no_cycle_def intro: keeps_rules)

lemma MoveFolder_forest: "triple (on_db (can_move p)) (MoveFolder p) (\<lambda>_. on_db forest) (\<lambda>_. on_db forest)"
proof -
  let ?I = "\<lambda>now d. can_move p now d \<and> folder_exists (mf_FolderID p) d"
  have get: "triple (on_db (can_move p)) (found ErrFolderNotFound (GetFolder_pg (mf_FolderID p) (mf_UserID p)))
      (\<lambda>_. on_db ?I) (\<lambda>_. on_db forest)"
    by (rule triple_weaken [OF triple_found_folder [of "can_move p"]])
      (auto simp: on_db_def can_move_def active_target_def ref_ok_def folder_exists_def
        intro: rev_image_eqI)
  have src: "triple (on_db ?I) (source_name r (mf_UserID p)) (\<lambda>_. on_db ?I) (\<lambda>_. on_db forest)" for r
    by (rule triple_weaken [OF keeps_source_name [of ?I]]) (auto simp: on_db_def can_move_def)
  show ?thesis
    unfolding MoveFolder_def
    by (intro triple_bindE [OF get] triple_bindE [OF src] triple_bindE [OF triple_move_target_forest]
        triple_bindE [OF triple_MoveFolder_pg_forest] keeps_ret)
qed

text \<open>
  C27. Moving a folder never makes the folder tree cyclic, whatever the faults, as long as no folder
  lies more than 100 levels below the one that is moved.
\<close>

theorem MoveFolder_keeps_forest:
  assumes "wf_db (w_now w) (w_db w)" and "acyclic_folders (folders (w_db w))" and "shallow (mf_FolderID p) (w_db w)"
  shows "acyclic_folders (folders (w_db (snd (MoveFolder p w))))"
proof -
  have "on_db forest (snd (MoveFolder p w))"
    by (rule keeps_like_snd [OF MoveFolder_forest]) (use assms in \<open>simp add: on_db_def can_move_def\<close>)
  then show ?thesis by (simp add: on_db_def)
qed

section \<open>Search\<close>

lemma like_plain: "c \<notin> {backslash, CHR ''%'', CHR ''_''} \<Longrightarrow> like (c # p) s = (s \<noteq> [] \<and> hd s = c \<and> like p (tl s))"
  by simp

lemma like_escaped: "like (backslash # c # p) s = (s \<noteq> [] \<and> hd s = c \<and> like p (tl s))"
  by (simp add: backslash_def)

lemma escapeLike_Cons:
  "escapeLike (c # s) =
     (if c \<in> {backslash, CHR ''%'', CHR ''_''} then backslash # c # escapeLike s else c # escapeLike s)"
  by (auto simp: escapeLike_def ReplaceAll1_def backslash_def)

text \<open>An escaped text matches itself only; the rest of the pattern matches the rest.\<close>

lemma like_escapeLike: "like (escapeLike q @ p) s \<longleftrightarrow> (\<exists>t. s = q @ t \<and> like p t)"
proof (induction q arbitrary: s)
  case Nil
  show ?case by (simp add: escapeLike_def ReplaceAll1_def)
next
  case (Cons c q)
  have "like (escapeLike (c # q) @ p) s = (s \<noteq> [] \<and> hd s = c \<and> like (escapeLike q @ p) (tl s))"
    by (cases "c \<in> {backslash, CHR ''%'', CHR ''_''}")
      (simp_all only: escapeLike_Cons if_True if_False append_Cons like_escaped like_plain not_False_eq_True)
  also have "\<dots> \<longleftrightarrow> (\<exists>t. s = (c # q) @ t \<and> like p t)"
    unfolding Cons.IH by (cases s) auto
  finally show ?case .
qed

lemma like_percent: "like [CHR ''%''] s"
  by (auto simp: backslash_def intro: bexI [of _ "length s"])

lemma like_pattern_sublist: "like (like_pattern q) s \<longleftrightarrow> sublist q s"
proof -
  have "like (like_pattern q) s \<longleftrightarrow> (\<exists>k \<le> length s. like (escapeLike q @ [CHR ''%'']) (drop k s))"
    by (auto simp: like_pattern_def backslash_def less_Suc_eq_le simp del: upt_Suc)
  also have "\<dots> \<longleftrightarrow> (\<exists>k \<le> length s. \<exists>t. drop k s = q @ t)"
    by (simp add: like_escapeLike like_percent del: like.simps)
  also have "\<dots> \<longleftrightarrow> sublist q s"
    unfolding sublist_def
    by (metis append_eq_conv_conj append_take_drop_id le_add1 length_append)
  finally show ?thesis .
qed

text \<open>
  The case folding of the database leaves \<open>%\<close>, \<open>_\<close> and the escape character alone: folding a pattern
  is the pattern of the folded text.
\<close>

definition folds_patterns :: "(string \<Rightarrow> string) \<Rightarrow> bool" where
  "folds_patterns lower \<longleftrightarrow> (\<forall>s. lower (like_pattern s) = like_pattern (lower s))"

lemma ilike_contains:
  "folds_patterns lower \<Longrightarrow> ilike lower name (like_pattern q) \<longleftrightarrow> Contains (lower name) (lower q)"
  by (simp add: folds_patterns_def ilike_def like_pattern_sublist Contains_sublist del: like.simps)

text \<open>The two queries of a search read the database they started from.\<close>

lemma errgroup2_queries:
  fixes w :: "'b world_scheme"
  assumes "errgroup2 second (map_err f (query q)) (map_err g (query r)) w = (Inr (x, y), w')"
  shows "x = q (w_now w) (w_db w)" and "y = r (w_now w) (w_db w)" and "w_db w' = w_db w"
proof -
  have now: "w_now (snd (query p v)) = w_now v" for p and v :: "'b world_scheme"
    unfolding query_def by (rule db_call_now)
  obtain c v where c: "query q w = (c, v)" by (rule prod.exhaust)
  obtain c' v' where c': "query r w = (c', v')" by (rule prod.exhaust)
  obtain e u where e: "query r v = (e, u)" by (rule prod.exhaust)
  obtain e' u' where e': "query q v' = (e', u')" by (rule prod.exhaust)
  note frame = query_db [of q w] now [of q w] query_db [of r w] now [of r w]
    query_db [of r v] query_db [of q v']
  show "x = q (w_now w) (w_db w)" and "y = r (w_now w) (w_db w)" and "w_db w' = w_db w"
    using assms frame query_ok(1) [of q w] query_ok(1) [of r w] query_ok(1) [of r v] query_ok(1) [of q v']
    by (auto simp: errgroup2_def attempt_def map_err_def fail_def ret_def c c' e e' split: if_splits sum.splits)
qed

text \<open>
  A page of at most \<open>n\<close> of the hits, each once and in the order of \<open>key\<close>; a hit that is left out comes
  after a full page.
\<close>

definition page_of :: "nat \<Rightarrow> ('a \<Rightarrow> 'k :: linorder) \<Rightarrow> 'a set \<Rightarrow> 'a list \<Rightarrow> bool" where
  "page_of n key hits xs \<longleftrightarrow> length xs \<le> n \<and> set xs \<subseteq> hits \<and> distinct xs \<and> sorted (map key xs)
     \<and> (\<forall>h \<in> hits. h \<notin> set xs \<longrightarrow> length xs = n \<and> (\<forall>x \<in> set xs. key x \<le> key h))"

lemma page_of_sorted:
  assumes "distinct (map i rows)" and "\<And>b. j (scan b) = i b" and "\<And>b. key (scan b) = key b"
  shows "page_of n key {scan b |b. b \<in> set rows \<and> p b} (take n (map scan (sort_key key (filter p rows))))"
proof -
  let ?hits = "map scan (sort_key key (filter p rows))"
  have set: "set ?hits = {scan b |b. b \<in> set rows \<and> p b}" by auto
  have s: "sorted (map key ?hits)" by (simp add: comp_def assms(3))
  have "distinct (map j ?hits)"
  proof -
    have "distinct (map i (sort_key key (filter p rows)))"
      using assms(1) by (auto simp: distinct_map intro: inj_on_subset)
    then show ?thesis by (simp add: comp_def assms(2))
  qed
  then have d: "distinct ?hits" unfolding distinct_map [of j] by blast
  have "key x \<le> key h" if "x \<in> set (take n ?hits)" "h \<in> set ?hits" "h \<notin> set (take n ?hits)" for x h
  proof -
    have "h \<in> set (drop n ?hits)" using that(2,3) by (metis Un_iff append_take_drop_id set_append)
    then show ?thesis
      using s that(1) sorted_append [of "map key (take n ?hits)" "map key (drop n ?hits)"]
      by (metis append_take_drop_id image_eqI list.set_map map_append)
  qed
  moreover have "length (take n ?hits) = n" if "h \<in> set ?hits" "h \<notin> set (take n ?hits)" for h
    using that by (metis length_take min.absorb2 nat_le_linear take_all)
  ultimately show ?thesis
    unfolding page_of_def set [symmetric]
    using s d by (auto simp: take_map [symmetric] sorted_wrt_take dest: in_set_takeD)
qed

text \<open>
  C30. Search is exact. The user's own files outside the trash whose name contains the query come newest first
  and at most 200, the own active folders in the order of their names and at most 50; a row that is left
  out comes after a full page, no row comes twice, and nothing else is returned or changed. Names are
  compared up to the database's case folding: \<open>%\<close>, \<open>_\<close> and the escape character in the query stand for
  themselves, provided that the folding leaves the pattern's own characters alone.
\<close>

theorem Search_exact:
  fixes w :: "'o sworld"
  assumes "folds_patterns lower" and "wf_db (w_now w) (w_db w)" and "Search second lower collate p w = (Inr r, w')"
  shows "page_of 200 (\<lambda>b. - bl_CreatedAt b) {scanBlob (sp_UserID p) b |b. b \<in> set (stored_blobs (w_db w)) \<and> bl_UserID b = sp_UserID p
        \<and> is_visible b \<and> Contains (lower (bl_FileName b)) (lower (sp_Query p))} (map sr_Blob (se_Blobs r))
    \<and> page_of 50 (\<lambda>f. collate (fo_Name f)) {scanFolder f |f. f \<in> set (folders (w_db w)) \<and> fo_UserID f = sp_UserID p
        \<and> is_active f \<and> Contains (lower (fo_Name f)) (lower (sp_Query p))} (se_Folders r)
    \<and> w_db w' = w_db w"
proof -
  let ?u = "sp_UserID p" and ?d = "w_db w"
  let ?B = "filter (\<lambda>b. bl_UserID b = ?u \<and> is_visible b \<and> Contains (lower (bl_FileName b)) (lower (sp_Query p))) (stored_blobs ?d)"
  let ?F = "filter (\<lambda>f. fo_UserID f = ?u \<and> is_active f \<and> Contains (lower (fo_Name f)) (lower (sp_Query p))) (folders ?d)"
  from assms(3) obtain bs fs where
    g: "errgroup2 second (map_err Db (SearchBlobs_pg lower ?u (sp_Query p)))
       (map_err Db (SearchFolders_pg lower collate ?u (sp_Query p))) w = (Inr (bs, fs), w')"
    and r: "r = \<lparr>se_Blobs = bs, se_Folders = fs\<rparr>"
    unfolding Search_def by (elim bindE_InrE) (auto simp: ret_def)
  note q = errgroup2_queries [OF g [unfolded SearchBlobs_pg_def SearchFolders_pg_def]]
  have "map sr_Blob bs = take 200 (map (scanBlob ?u) (sort_key (\<lambda>b. - bl_CreatedAt b) ?B))"
    unfolding q(1) by (simp add: take_map comp_def ilike_contains [OF assms(1)] conj_ac)
  moreover have "fs = take 50 (map scanFolder (sort_key (\<lambda>f. collate (fo_Name f)) ?F))"
    unfolding q(2) by (simp add: ilike_contains [OF assms(1)] conj_ac)
  moreover have "distinct (map bl_ID (stored_blobs ?d))" "distinct (map fo_ID (folders ?d))"
    using wf_dbD(1,3) [OF assms(2)] by (simp_all add: folder_ids_distinct_def)
  ultimately show ?thesis
    using page_of_sorted [where i = bl_ID and j = bl_ID and scan = "scanBlob ?u" and rows = "stored_blobs ?d" and n = 200
        and key = "\<lambda>b. - bl_CreatedAt b" and p = "\<lambda>b. bl_UserID b = ?u \<and> is_visible b \<and> Contains (lower (bl_FileName b)) (lower (sp_Query p))"]
      page_of_sorted [where i = fo_ID and j = fo_ID and scan = scanFolder and rows = "folders ?d" and n = 50
        and key = "\<lambda>f. collate (fo_Name f)" and p = "\<lambda>f. fo_UserID f = ?u \<and> is_active f \<and> Contains (lower (fo_Name f)) (lower (sp_Query p))"]
      q(3)
    by (simp add: r scanBlob_def scanFolder_def)
qed

section \<open>A run of MoveFolder, and where the check ends\<close>

lemma MoveFolder_run:
  assumes wf: "wf_db (w_now w) (w_db w)" and nf: "w_faults w = []"
    and f: "f \<in> set (folders (w_db w))" "folder_is (mf_FolderID p) (mf_UserID p) f" "is_active f" "fo_ParentID f = None"
    and g: "g \<in> set (folders (w_db w))" "folder_is i (mf_UserID p) g" "is_active g"
    and np: "mf_NewParentID p = Some i" "i \<noteq> mf_FolderID p"
    and no: "i \<notin> set (walk_depth is_active (folders (w_db w)) 100
      (map fo_ID (filter (\<lambda>f. fo_ID f = mf_FolderID p) (folders (w_db w)))))"
    and names: "folder_names_unique (map (\<lambda>f. if folder_is (mf_FolderID p) (mf_UserID p) f \<and> is_active f
      then f\<lparr>fo_ParentID := Some i\<rparr> else f) (folders (w_db w)))"
  shows "MoveFolder p w =
     (Inr \<lparr>fm_FolderName = fo_Name f, fm_SrcFolderName = [], fm_DstFolderName = fo_Name g\<rparr>,
      w\<lparr>w_db := (w_db w)\<lparr>folders := map (\<lambda>f. if folder_is (mf_FolderID p) (mf_UserID p) f \<and> is_active f
        then f\<lparr>fo_ParentID := Some i\<rparr> else f) (folders (w_db w))\<rparr>\<rparr>)"
proof -
  let ?p = "\<lambda>f. folder_is (mf_FolderID p) (mf_UserID p) f \<and> is_active f"
  note ids = wf_dbD(1) [OF wf, unfolded folder_ids_distinct_def]
  have "find ?p (folders (w_db w)) = Some f"
    by (rule find_key_unique [OF ids f(1)]) (use f in \<open>auto simp: folder_is_def\<close>)
  then have get: "GetFolder_pg (mf_FolderID p) (mf_UserID p) w = (Inr (Some f), w)"
    using nf by (simp add: GetFolder_pg_def query_nil)
  have "find (\<lambda>f. folder_is i (mf_UserID p) f \<and> is_active f) (folders (w_db w)) = Some g"
    by (rule find_key_unique [OF ids g(1)]) (use g in \<open>auto simp: folder_is_def\<close>)
  then have get2: "GetFolder_pg i (mf_UserID p) w = (Inr (Some g), w)"
    using nf by (simp add: GetFolder_pg_def query_nil)
  have desc: "IsDescendantOf_pg (mf_FolderID p) i w = (Inr False, w)"
    using nf no by (simp add: IsDescendantOf_pg_def query_nil)
  have "folder_ref (Some i) (w_db w)"
    using g by (auto simp: folder_ref_def folder_exists_def folder_is_def)
  then have "update_folders ?p (\<lambda>f. f\<lparr>fo_ParentID := Some i\<rparr>) (w_db w) = Inr (length (filter ?p (folders (w_db w))),
      (w_db w)\<lparr>folders := map (\<lambda>f. if ?p f then f\<lparr>fo_ParentID := Some i\<rparr> else f) (folders (w_db w))\<rparr>)"
    using names folder_nameD [OF wf] by (auto simp: update_folders_def Let_def)
  moreover have "filter ?p (folders (w_db w)) \<noteq> []" using f by (auto simp: filter_empty_conv)
  ultimately show ?thesis
    using nf by (simp add: MoveFolder_def MoveFolder_pg_def found_def bindE_def map_err_def ret_def source_name_def
        move_target_def get get2 desc f(4) np db_call_nil)
qed


text \<open>A chain of folders: folder 1 at the root, folder \<open>k + 1\<close> in folder \<open>k\<close>.\<close>

definition chain_folder :: "nat \<Rightarrow> Folder" where
  "chain_folder k = \<lparr>fo_ID = of_nat (Suc k), fo_UserID = 7, fo_ParentID = (if k = 0 then None else Some (of_nat k)),
     fo_Name = ''a'', fo_CreatedAt = 0, fo_DeletedAt = None\<rparr>"

definition chain :: "nat \<Rightarrow> Folder list" where
  "chain n = map chain_folder [0..<n]"

definition chain_db :: "nat \<Rightarrow> db" where
  "chain_db n = \<lparr>users = [], device_sessions = [], refresh_sessions = [], folders = chain n,
     stored_blobs = [], file_shares = [], favorites = [], password_reset_tokens = [], audit_log = []\<rparr>"

lemma small_unat: "n < 1000 \<Longrightarrow> unat (of_nat n :: uuid) = n"
  by (simp add: unat_of_nat)

lemma small_uuid_eq: "j < 1000 \<Longrightarrow> k < 1000 \<Longrightarrow> ((of_nat j :: uuid) = of_nat k) = (j = k)"
  by (metis small_unat)

lemma chain_simps [simp]:
  "fo_ID (chain_folder k) = of_nat (Suc k)" "fo_UserID (chain_folder k) = 7" "fo_Name (chain_folder k) = ''a''"
  "fo_DeletedAt (chain_folder k) = None" "is_active (chain_folder k)"
  "fo_ParentID (chain_folder k) = (if k = 0 then None else Some (of_nat k))"
  by (simp_all add: chain_folder_def is_active_def)

lemma chain_db_simps [simp]: "folders (chain_db n) = chain n" "stored_blobs (chain_db n) = []"
  by (simp_all add: chain_db_def)

lemma set_chain: "set (chain n) = chain_folder ` {..<n}"
  by (auto simp: chain_def)

lemma chain_edge:
  assumes "(x, y) \<in> child_rel p (chain n)"
  obtains k where "k < n" and "0 < k" and "x = of_nat k" and "y = of_nat (Suc k)"
  using assms by (auto simp: child_rel_def set_chain split: if_splits)

lemma chain_path: "(x, y) \<in> child_rel p (chain n) ^^ m \<Longrightarrow> y = x + of_nat m"
proof (induction m arbitrary: y)
  case (Suc m)
  then obtain z where z: "z = x + of_nat m" "(z, y) \<in> child_rel p (chain n)" by auto
  from z(2) have "y = z + 1" by (rule chain_edge) simp
  with z show ?case by simp
qed simp

lemma chain_path_back: "m < n \<Longrightarrow> 0 < j \<Longrightarrow> j + m \<le> n \<Longrightarrow>
  (of_nat j, of_nat (j + m)) \<in> child_rel (\<lambda>_. True) (chain n) ^^ m"
proof (induction m)
  case (Suc m)
  then have "(of_nat j, of_nat (j + m)) \<in> child_rel (\<lambda>_. True) (chain n) ^^ m" by simp
  moreover have "(of_nat (j + m), of_nat (Suc (j + m))) \<in> child_rel (\<lambda>_. True) (chain n)"
    using child_relI [of "chain_folder (j + m)" "chain n" "of_nat (j + m)" "\<lambda>_. True"] Suc.prems
    by (simp add: set_chain)
  ultimately show ?case by auto
qed simp

lemma chain_wf:
  assumes "n < 999"
  shows "wf_db 0 (chain_db n)"
proof -
  have inj: "Suc j = Suc k" if "of_nat (Suc j) = (of_nat (Suc k) :: uuid)" "j < n" "k < n" for j k
    using that small_uuid_eq [of "Suc j" "Suc k"] assms by simp
  then have ids: "folder_ids_distinct (chain n)"
    by (auto simp: folder_ids_distinct_def chain_def distinct_map inj_on_def comp_def simp del: of_nat_Suc)
  have keys: "active_folder_keys (chain n) = map (\<lambda>k. (7, if k = 0 then None else Some (of_nat k), ''a'')) [0..<n]"
    by (induction n) (auto simp: active_folder_keys_def chain_def)
  have names: "folder_names_unique (chain n)"
    unfolding folder_names_unique_def keys
    using assms by (auto simp: distinct_map inj_on_def small_uuid_eq split: if_splits)
  have "folder_ok 0 (chain n) (chain_folder k)" if "k < n" for k
  proof -
    have "folder_name_ok ''a''" by (simp add: folder_name_ok_def char_length_def)
    moreover have "\<exists>f \<in> set (chain n). fo_ID f = of_nat k \<and> fo_UserID f = 7 \<and> fo_DeletedAt f = None" if "0 < k"
      using that \<open>k < n\<close> by (intro bexI [of _ "chain_folder (k - 1)"]) (auto simp: set_chain)
    ultimately show ?thesis
      by (auto simp: folder_ok_def ref_ok_def)
  qed
  with ids names show ?thesis by (auto simp: wf_db_def set_chain)
qed

lemma chain_acyclic:
  assumes "n < 999"
  shows "acyclic_folders (chain n)"
proof -
  have "child_rel (\<lambda>_. True) (chain n) \<subseteq> measure unat"
  proof
    fix e assume "e \<in> child_rel (\<lambda>_. True) (chain n)"
    then obtain k where "k < n" "e = (of_nat k, of_nat (Suc k))" by (cases e) (auto elim: chain_edge)
    with assms small_unat [of k] small_unat [of "Suc k"] show "e \<in> measure unat" by (simp del: of_nat_Suc)
  qed
  then show ?thesis
    unfolding acyclic_folders_def by (rule acyclic_subset [OF wf_acyclic [OF wf_measure]])
qed


text \<open>Once a folder is on a cycle, the walk of \<open>TrashFolder\<close> does not end.\<close>

lemma TrashFolder_cycle:
  assumes "f \<in> set (folders d)" and "folder_is x u f" and "is_active f"
    and "(x, x) \<in> (child_rel is_active (folders d))\<^sup>+"
  shows "TrashFolder_tx x u now d = Inl DbError"
proof -
  let ?start = "map fo_ID (filter (\<lambda>f. folder_is x u f \<and> is_active f) (folders d))"
  have "x \<in> set ?start" using assms(1-3) by (auto simp: folder_is_def image_iff)
  then have "walk is_active (folders d) n ?start = None" for n
    using cycle_paths [OF assms(4), of n] walk_path_None [of x ?start] by blast
  then have "subtree_walk is_active (folders d) ?start = None" by (simp add: subtree_walk_None)
  then show ?thesis by (simp add: TrashFolder_tx_def stmt_bind_def subtree_ids_def)
qed

definition deep_world :: "unit sworld" where
  "deep_world = \<lparr>w_db = chain_db 102, w_now = 0, w_faults = [], w_obj = ()\<rparr>"

definition deep_move :: MoveFolderParams where
  "deep_move = \<lparr>mf_FolderID = 1, mf_UserID = 7, mf_NewParentID = Some 102\<rparr>"

text \<open>Folder 1 of a chain of \<open>n\<close> moved into folder \<open>n\<close>.\<close>

definition moved :: "nat \<Rightarrow> Folder \<Rightarrow> Folder" where
  "moved n f = (if folder_is 1 7 f \<and> is_active f then f\<lparr>fo_ParentID := Some (of_nat n)\<rparr> else f)"

lemma moved_chain_folder: "k < 998 \<Longrightarrow> moved n (chain_folder k) =
    (if k = 0 then (chain_folder 0)\<lparr>fo_ParentID := Some (of_nat n)\<rparr> else chain_folder k)"
  using small_uuid_eq [of "Suc k" 1] by (cases k) (auto simp: moved_def folder_is_def)

lemma moved_names:
  assumes "n < 998"
  shows "folder_names_unique (map (moved n) (chain n))"
proof -
  have gen: "active_folder_keys (map (moved n) (map chain_folder ks)) =
      map (\<lambda>k. (7, Some (of_nat (if k = 0 then n else k)), ''a'')) ks" if "set ks \<subseteq> {..<n}" for ks
    using that
  proof (induction ks)
    case (Cons k ks)
    then have "k < 998" using assms by simp
    from Cons moved_chain_folder [OF this, of n] show ?case
      by (simp add: active_folder_keys_def del: of_nat_Suc)
  qed (simp add: active_folder_keys_def)
  have keys: "active_folder_keys (map (moved n) (chain n)) =
      map (\<lambda>k. (7, Some (of_nat (if k = 0 then n else k)), ''a'')) [0..<n]"
    unfolding chain_def by (rule gen) auto
  show ?thesis
    unfolding folder_names_unique_def keys distinct_map
    using assms by (auto simp: inj_on_def small_uuid_eq split: if_splits)
qed

lemma moved_cyclic:
  assumes "0 < n" and "n < 998"
  shows "(1, 1) \<in> (child_rel is_active (map (moved n) (chain n)))\<^sup>+"
proof -
  let ?R = "child_rel is_active (map (moved n) (chain n))"
  have "child_rel (\<lambda>_. True) (chain n) \<subseteq> ?R"
  proof
    fix e assume "e \<in> child_rel (\<lambda>_. True) (chain n)"
    then obtain k where k: "k < n" "0 < k" "e = (of_nat k, of_nat (Suc k))" by (cases e) (auto elim: chain_edge)
    have "moved n (chain_folder k) = chain_folder k" using moved_chain_folder [of k n] k assms by simp
    then have "chain_folder k \<in> set (map (moved n) (chain n))"
      using k(1) by (force simp: set_chain)
    from child_relI [OF this, of "of_nat k" is_active] k show "e \<in> ?R" by simp
  qed
  then have "(child_rel (\<lambda>_. True) (chain n))\<^sup>* \<subseteq> ?R\<^sup>*" by (rule rtrancl_mono)
  moreover have "(of_nat 1, of_nat (1 + (n - 1))) \<in> (child_rel (\<lambda>_. True) (chain n))\<^sup>*"
    by (rule relpow_imp_rtrancl, rule chain_path_back) (use assms in auto)
  ultimately have "(1, of_nat n) \<in> ?R\<^sup>*" using assms(1) by auto
  moreover have "(chain_folder 0)\<lparr>fo_ParentID := Some (of_nat n)\<rparr> \<in> set (map (moved n) (chain n))"
    using moved_chain_folder [of 0 n] assms(1) by (force simp: set_chain)
  from child_relI [OF this, of "of_nat n" is_active] have "(of_nat n, 1) \<in> ?R" by (simp add: is_active_def)
  ultimately show ?thesis by (rule rtrancl_into_trancl1)
qed

text \<open>
  C28. Below 100 levels the cycle check is blind: in a consistent chain of 102 folders, moving the
  first into the last is accepted and closes a cycle, after which moving the folder to the trash can
  only fail.
\<close>

theorem MoveFolder_deep_cycle:
  "wf_db (w_now deep_world) (w_db deep_world) \<and> acyclic_folders (folders (w_db deep_world))
   \<and> fst (MoveFolder deep_move deep_world)
       = Inr \<lparr>fm_FolderName = ''a'', fm_SrcFolderName = [], fm_DstFolderName = ''a''\<rparr>
   \<and> \<not> acyclic_folders (folders (w_db (snd (MoveFolder deep_move deep_world))))
   \<and> fst (DeleteFolder 7 1 (snd (MoveFolder deep_move deep_world))) = Inl (Db DbError)"
proof -
  have wf: "wf_db (w_now deep_world) (w_db deep_world)" using chain_wf [of 102] by (simp add: deep_world_def)
  have ac: "acyclic_folders (folders (w_db deep_world))" using chain_acyclic [of 102] by (simp add: deep_world_def)
  have "102 \<notin> set (walk_depth is_active (chain 102) 100 (map fo_ID (filter (\<lambda>f. fo_ID f = 1) (chain 102))))"
  proof
    assume "102 \<in> set (walk_depth is_active (chain 102) 100 (map fo_ID (filter (\<lambda>f. fo_ID f = 1) (chain 102))))"
    then obtain k where "k \<le> 100" "(1, 102) \<in> child_rel is_active (chain 102) ^^ k"
      unfolding walk_depth_set by (auto simp del: relpow.simps)
    from chain_path [OF this(2)] have "of_nat 102 = (of_nat (Suc k) :: uuid)" by simp
    with \<open>k \<le> 100\<close> small_uuid_eq [of 102 "Suc k"] show False by simp
  qed
  with MoveFolder_run [OF wf, of "chain_folder 0" deep_move "chain_folder 101" 102] moved_names [of 102]
  have run: "MoveFolder deep_move deep_world =
     (Inr \<lparr>fm_FolderName = ''a'', fm_SrcFolderName = [], fm_DstFolderName = ''a''\<rparr>,
      deep_world\<lparr>w_db := (chain_db 102)\<lparr>folders := map (moved 102) (chain 102)\<rparr>\<rparr>)"
    by (simp add: deep_world_def deep_move_def folder_is_def set_chain moved_def [abs_def] cong: if_cong)
  let ?w = "deep_world\<lparr>w_db := (chain_db 102)\<lparr>folders := map (moved 102) (chain 102)\<rparr>\<rparr>"
  let ?f = "(chain_folder 0)\<lparr>fo_ParentID := Some (of_nat 102)\<rparr>"
  have cyc: "(1, 1) \<in> (child_rel is_active (map (moved 102) (chain 102)))\<^sup>+" by (rule moved_cyclic) simp_all
  have m: "moved 102 (chain_folder 0) = ?f" using moved_chain_folder [of 0 102] by simp
  have "chain_folder 0 \<in> set (chain 102)" by (simp add: set_chain)
  then have "moved 102 (chain_folder 0) \<in> set (map (moved 102) (chain 102))" by simp
  then have f: "?f \<in> set (map (moved 102) (chain 102))" by (simp only: m)
  have f7: "folder_is 1 7 ?f" "is_active ?f" by (simp_all add: folder_is_def is_active_def)
  then obtain g where g: "find (\<lambda>g. folder_is 1 7 g \<and> is_active g) (map (moved 102) (chain 102)) = Some g"
    using f find_NoneD [OF _ f, of "\<lambda>g. folder_is 1 7 g \<and> is_active g"] by fastforce
  have "TrashFolder_tx 1 7 0 (w_db ?w) = Inl DbError"
    by (rule TrashFolder_cycle [of ?f]) (use f f7 cyc in simp_all)
  with g have "fst (DeleteFolder 7 1 ?w) = Inl (Db DbError)"
    by (simp add: DeleteFolder_def found_def GetFolder_pg_def query_nil TrashFolder_pg_def db_call_nil bindE_def
        map_err_def ret_def deep_world_def)
  moreover have "\<not> acyclic_folders (map (moved 102) (chain 102))"
    using cyc acyclic_child_rel [of "map (moved 102) (chain 102)" is_active] by (auto simp: acyclic_def)
  ultimately show ?thesis using wf ac run by simp
qed

end
