(* ===== verification/Storage_Samples.thy ===== *)
theory Storage_Samples
  imports Storage_Checks
begin

text \<open>
  A concrete world for the storage service: an object store kept in memory that satisfies the
  contract \<open>s3_safe\<close>, and a small consistent database. The properties of the storage service are
  applied to it, so that their hypotheses are seen to be satisfiable together.
\<close>

section \<open>An object store in memory\<close>

definition mem_client :: "string list client" where
  "mem_client = \<lparr>
     cl_BucketExists = (\<lambda>b ks. (Inr True, ks)),
     cl_MakeBucket = (\<lambda>b ks. (Inr (), ks)),
     cl_PresignedGetObject = (\<lambda>b k t ks. (Inr k, ks)),
     cl_Presign = (\<lambda>m b k t ps ks. (Inr k, ks)),
     cl_StatObject = (\<lambda>b k ks. (if k \<in> set ks then Inr 5 else Inl (ErrorResponse ''NoSuchKey'' 404), ks)),
     cl_RemoveObject = (\<lambda>b k ks. (Inr (), filter (\<lambda>x. x \<noteq> k) ks)),
     cl_NewMultipartUpload = (\<lambda>b k ks. (Inr ''up'', ks)),
     cl_CompleteMultipartUpload = (\<lambda>b k u ps ks. (Inr (), k # ks)),
     cl_AbortMultipartUpload = (\<lambda>b k u ks. (Inr (), ks))\<rparr>"

definition mem_store :: "string list Store" where
  "mem_store = \<lparr>st_client = mem_client, st_presignClient = mem_client, st_bucket = ''b''\<rparr>"

definition mem_service :: "string list Service" where
  "mem_service = \<lparr>sv_Objects = mem_store, sv_PresignTTL = 900000000000, sv_MaxUploadBytes = 0, sv_QuotaBytes = 100\<rparr>"

lemma mem_store_safe: "s3_safe set mem_store"
  by (auto simp: s3_safe_def s3_contract_def s3_grows_def mem_store_def mem_client_def StatObject_def
      NewMultipartUpload_def CompleteMultipartUpload_store_def AbortMultipartUpload_def PresignUploadPart_def
      PresignedGetObject_def)

lemma mem_service_safe: "s3_safe set (sv_Objects mem_service)"
  by (simp add: mem_service_def mem_store_safe)

section \<open>A database\<close>

text \<open>Folder 2 in folder 1 with a file; folder 3 with a file in it, both in the trash since 5.\<close>

definition sample_folder :: "uuid \<Rightarrow> uuid option \<Rightarrow> string \<Rightarrow> time option \<Rightarrow> Folder" where
  "sample_folder i p n del = \<lparr>fo_ID = i, fo_UserID = 7, fo_ParentID = p, fo_Name = n, fo_CreatedAt = 0, fo_DeletedAt = del\<rparr>"

definition sample_blob :: "uuid \<Rightarrow> uuid \<Rightarrow> string \<Rightarrow> time option \<Rightarrow> Blob" where
  "sample_blob i p k del = \<lparr>bl_ID = i, bl_UserID = 7, bl_FolderID = Some p, bl_FileName = ''f'', bl_ContentType = [],
     bl_ObjectKey = k, bl_FileSize = 5, bl_FileSizePlain = 3, bl_ChunkSize = 1, bl_CreatedAt = 0, bl_UploadedAt = Some 1,
     bl_EncryptedFileKey = [], bl_UploadID = ''up'', bl_DeletedAt = del\<rparr>"

definition sample_user :: "uuid \<Rightarrow> string \<Rightarrow> user_row" where
  "sample_user i e = \<lparr>us_id = i, us_email = e, us_srp_salt = [], us_srp_verifier = [], us_bcrypt_salt = [],
     us_crypto_salt = [], us_public_key = None, us_encrypted_private_key = None, us_kek_encrypted_master = None,
     us_kek_encrypted_recovery = None, us_recovery_salt = None, us_created_at = 0\<rparr>"

definition sample_db :: db where
  "sample_db = \<lparr>users = [sample_user 7 ''a@b'', sample_user 8 ''c@d''], device_sessions = [], refresh_sessions = [],
     folders = [sample_folder 1 None ''docs'' None, sample_folder 2 (Some 1) ''x'' None, sample_folder 3 None ''old'' (Some 5)],
     stored_blobs = [sample_blob 11 2 ''k1'' None, sample_blob 12 3 ''k2'' (Some 5)],
     file_shares = [], favorites = [], password_reset_tokens = [], audit_log = []\<rparr>"

definition sample_world :: "string list sworld" where
  "sample_world = \<lparr>w_db = sample_db, w_now = 10, w_faults = [], w_obj = [''k1'', ''k2'']\<rparr>"

lemmas sample_defs = sample_world_def sample_db_def sample_folder_def sample_blob_def sample_user_def

lemma sample_wf: "wf_db (w_now sample_world) (w_db sample_world)"
  by code_simp

lemma sample_faults: "w_faults sample_world = []"
  by (simp add: sample_world_def)

lemma sample_rel: "child_rel (\<lambda>_. True) (folders (w_db sample_world)) = {(1, 2)}"
  by (auto simp: child_rel_def sample_defs)

lemma sample_acyclic: "acyclic_folders (folders (w_db sample_world))"
  by (simp add: acyclic_folders_def sample_rel acyclic_insert acyclic_def [of "{}"])

lemma sample_below: "below (\<lambda>_. True) (w_db sample_world) {1} = {1, 2}" "below (\<lambda>_. True) (w_db sample_world) {3} = {3}"
proof -
  have *: "y = x \<or> (x = 1 \<and> y = 2)" if "(x, y) \<in> {(1, 2)}\<^sup>*" for x y :: uuid
    using that by (induction rule: rtrancl_induct) auto
  show "below (\<lambda>_. True) (w_db sample_world) {1} = {1, 2}"
    unfolding sample_rel by (auto dest: *)
  show "below (\<lambda>_. True) (w_db sample_world) {3} = {3}"
    unfolding sample_rel by (auto dest: *)
qed

section \<open>The properties at this world\<close>

theorem CleanExpiredTrash_complete_witness:
  "wf_db (w_now sample_world) (w_db sample_world) \<and> w_faults sample_world = [] \<and>
   (\<exists>w'. CleanExpiredTrash mem_service 2 sample_world = (Inr (), w')
     \<and> map fo_ID (folders (w_db w')) = [1, 2] \<and> map bl_ID (stored_blobs (w_db w')) = [11])"
  using CleanExpiredTrash_complete [OF sample_wf sample_faults, of mem_service 2] sample_wf sample_faults
  by (auto simp: sample_defs expired_def)

theorem HardDeleteFolder_complete_witness:
  "\<exists>w'. HardDeleteFolder mem_service 7 3 sample_world = (Inr ''old'', w')
     \<and> map fo_ID (folders (w_db w')) = [1, 2] \<and> map bl_ID (stored_blobs (w_db w')) = [11]"
  using HardDeleteFolder_complete [OF sample_wf sample_faults sample_acyclic,
      of "sample_folder 3 None ''old'' (Some 5)" 3 7 mem_service]
  unfolding sample_below
  by (auto simp: sample_defs folder_is_def is_active_def)

lemma sample_below_active: "below is_active (w_db sample_world) {1} = {1, 2}"
proof -
  have "below is_active (w_db sample_world) {1} = below (\<lambda>_. True) (w_db sample_world) {1}"
    by (rule below_active) (unfold sample_below, auto simp: sample_defs is_active_def)
  then show ?thesis by (simp only: sample_below)
qed

theorem DeleteFolder_complete_witness:
  "\<exists>w'. DeleteFolder 7 1 sample_world = (Inr ''docs'', w')
     \<and> (\<exists>g \<in> set (folders (w_db w')). fo_ID g = 2 \<and> fo_DeletedAt g = Some (w_now sample_world))"
proof -
  let ?f = "sample_folder 1 None ''docs'' None"
  have 1: "?f \<in> set (folders (w_db sample_world))" "folder_is 1 7 ?f" "is_active ?f"
    by (auto simp: sample_defs folder_is_def is_active_def)
  from DeleteFolder_complete [OF sample_wf sample_faults sample_acyclic 1] show ?thesis
    unfolding sample_below_active by (auto simp: sample_defs)
qed

theorem DeleteFolder_RestoreFolder_witness:
  "\<exists>w'. DeleteFolder 7 1 sample_world = (Inr ''docs'', w') \<and> RestoreFolder 7 1 w' = (Inr ''docs'', sample_world)"
proof -
  let ?f = "sample_folder 1 None ''docs'' None"
  have "\<exists>w'. DeleteFolder 7 1 sample_world = (Inr (fo_Name ?f), w') \<and> RestoreFolder 7 1 w' = (Inr (fo_Name ?f), sample_world)"
    by (rule DeleteFolder_RestoreFolder [OF sample_wf sample_faults sample_acyclic])
      (unfold sample_below, auto simp: sample_defs folder_is_def is_active_def)
  then show ?thesis by (simp add: sample_folder_def)
qed

theorem no_visible_file_loses_its_object_witness:
  "\<exists>w'. run_op mem_service (\<lambda>_. []) (OpEmptyTrash 7) sample_world = (Inr (), w') \<and> ''k1'' \<in> set (w_obj w')"
proof -
  let ?run = "run_op mem_service (\<lambda>_. []) (OpEmptyTrash 7) sample_world"
  let ?b = "sample_blob 11 2 ''k1'' None"
  have run: "?run = (Inr (), snd ?run)" by (simp add: ignore_def)
  have "?b \<in> set (stored_blobs (w_db (snd ?run)))" and "is_visible ?b" and "bl_ObjectKey ?b \<in> set (w_obj sample_world)"
    by code_simp+
  from no_visible_file_loses_its_object [OF mem_service_safe sample_wf run this] run show ?thesis
    by (intro exI [of _ "snd ?run"]) (simp add: sample_blob_def)
qed

theorem user_operations_isolated_witness:
  "user_view 7 (w_db (snd (run_op mem_service (\<lambda>_. []) (OpDeleteFolder 8 1) sample_world))) = user_view 7 (w_db sample_world)"
  by (rule user_operations_isolated [OF sample_wf, where u = 8]) (simp, code_simp)

theorem MoveFolder_keeps_forest_witness:
  "acyclic_folders (folders (w_db (snd (MoveFolder \<lparr>mf_FolderID = 2, mf_UserID = 7, mf_NewParentID = None\<rparr> sample_world))))"
proof (rule MoveFolder_keeps_forest [OF sample_wf sample_acyclic])
  have "{(1, 2 :: uuid)} O {(1, 2)} = ({} :: (uuid \<times> uuid) set)" by auto
  then have "({(1, 2)} :: (uuid \<times> uuid) set) ^^ (2 + 99) = {}" unfolding relpow_add by (simp add: numeral_2_eq_2)
  then show "shallow (mf_FolderID \<lparr>mf_FolderID = 2, mf_UserID = 7, mf_NewParentID = None\<rparr>) (w_db sample_world)"
    by (simp add: shallow_def sample_rel)
qed


theorem storage_reachable_consistent_witness:
  "\<exists>w :: string list sworld. folders (w_db w) = [] \<and> stored_blobs (w_db w) = [] \<and>
     map fo_ID (folders (w_db (snd (run_op mem_service (\<lambda>_. []) (OpCreateFolder 1
       \<lparr>cf_UserID = 7, cf_ParentID = None, cf_Name = ''docs''\<rparr>) w)))) = [1] \<and>
     wf_db (w_now w) (w_db (snd (run_op mem_service (\<lambda>_. []) (OpCreateFolder 1
       \<lparr>cf_UserID = 7, cf_ParentID = None, cf_Name = ''docs''\<rparr>) w)))"
proof -
  let ?w = "sample_world\<lparr>w_db := sample_db\<lparr>folders := [], stored_blobs := []\<rparr>\<rparr>"
  let ?op = "OpCreateFolder 1 \<lparr>cf_UserID = 7, cf_ParentID = None, cf_Name = ''docs''\<rparr>"
  let ?w' = "snd (run_op mem_service (\<lambda>_. []) ?op ?w)"
  have "(storage_step mem_service (\<lambda>_. []))\<^sup>*\<^sup>* ?w ?w'"
    by (rule r_into_rtranclp, rule storage_step.op)
  then have "wf_db (w_now ?w') (w_db ?w')"
    by (rule storage_reachable_consistent [rotated 2]) simp_all
  moreover have "w_now ?w' = w_now ?w" and "map fo_ID (folders (w_db ?w')) = [1]"
    by code_simp+
  ultimately show ?thesis by (intro exI [of _ ?w]) simp
qed

theorem HardDeleteBlob_object_first_witness:
  "HardDeleteBlob mem_service 7 12 sample_world
     = (Inr ''f'', sample_world\<lparr>w_db := sample_db\<lparr>stored_blobs := [sample_blob 11 2 ''k1'' None]\<rparr>, w_obj := [''k1'']\<rparr>) \<and>
   sample_blob 12 3 ''k2'' (Some 5) \<notin> {sample_blob 11 2 ''k1'' None} \<and> ''k2'' \<notin> set [''k1'']"
proof -
  have run: "HardDeleteBlob mem_service 7 12 sample_world
     = (Inr ''f'', sample_world\<lparr>w_db := sample_db\<lparr>stored_blobs := [sample_blob 11 2 ''k1'' None]\<rparr>, w_obj := [''k1'']\<rparr>)"
    by code_simp
  have "s3_contract set (sv_Objects mem_service)" using mem_service_safe by (simp add: s3_safe_def)
  from HardDeleteBlob_object_first [OF this sample_wf, of "sample_blob 12 3 ''k2'' (Some 5)" 12 7, OF _ _ _ run]
  show ?thesis using run by (simp add: sample_defs blob_is_def)
qed

definition sample_upload :: InitiateMultipartParams where
  "sample_upload = \<lparr>im_UserID = 7, im_FileName = '' a/b.txt '', im_ContentType = [], im_FileSize = 20, im_FileSizePlain = 18,
     im_ChunkSize = 8, im_PartCount = 2, im_EncryptedFileKey = [], im_FolderID = Some 2\<rparr>"

theorem InitiateMultipartUpload_within_quota_witness:
  "\<exists>r w'. InitiateMultipartUpload mem_service (\<lambda>_. ''u'') 20 sample_upload sample_world = (Inr r, w')
     \<and> storage_used 7 (w_db w') = 30 \<and> storage_used 7 (w_db w') \<le> 100"
proof -
  have "\<not> Option.is_none (case fst (InitiateMultipartUpload mem_service (\<lambda>_. ''u'') 20 sample_upload sample_world) of
      Inl _ \<Rightarrow> None | Inr _ \<Rightarrow> Some ())"
    by code_simp
  then obtain r w' where run: "InitiateMultipartUpload mem_service (\<lambda>_. ''u'') 20 sample_upload sample_world = (Inr r, w')"
    by (cases "InitiateMultipartUpload mem_service (\<lambda>_. ''u'') 20 sample_upload sample_world"; cases "fst (InitiateMultipartUpload mem_service (\<lambda>_. ''u'') 20 sample_upload sample_world)") auto
  have u: "im_UserID sample_upload = 7" "sint (im_FileSize sample_upload) = 20" "sint (sv_QuotaBytes mem_service) = 100"
    "storage_used 7 (w_db sample_world) = 10"
    by code_simp+
  from InitiateMultipartUpload_within_quota [OF run] run show ?thesis by (simp add: u)
qed

theorem Search_exact_witness:
  "\<exists>r w'. Search False (\<lambda>s. s) (\<lambda>s. s) \<lparr>sp_UserID = 7, sp_Query = ''oc''\<rparr> sample_world = (Inr r, w')
     \<and> map fo_ID (se_Folders r) = [1] \<and> se_Blobs r = []"
proof -
  let ?run = "Search False (\<lambda>s. s) (\<lambda>s. s) \<lparr>sp_UserID = 7, sp_Query = ''oc''\<rparr> sample_world"
  have "map_sum (\<lambda>_. ()) (\<lambda>r. map fo_ID (se_Folders r)) (fst ?run) = Inr [1]" by code_simp
  then obtain r w' where run: "?run = (Inr r, w')" and f: "map fo_ID (se_Folders r) = [1]"
    by (cases "?run"; cases "fst ?run") auto
  have "folds_patterns (\<lambda>s. s)" by (simp add: folds_patterns_def)
  from Search_exact [OF this sample_wf run]
  have "set (map sr_Blob (se_Blobs r)) \<subseteq> {scanBlob 7 b |b. b \<in> set (stored_blobs (w_db sample_world)) \<and> Contains (bl_FileName b) ''oc''}"
    by (auto simp: page_of_def)
  moreover have "\<forall>b \<in> set (stored_blobs (w_db sample_world)). \<not> Contains (bl_FileName b) ''oc''" by code_simp
  ultimately have "x \<notin> set (map sr_Blob (se_Blobs r))" for x by fastforce
  then have "se_Blobs r = []" by (metis list.map_disc_iff list.set_intros(1) neq_Nil_conv)
  with run f show ?thesis by metis
qed

end
