(* ===== verification/Sharing_Samples.thy ===== *)
theory Sharing_Samples
  imports Sharing_Properties Storage_Samples
begin

text \<open>
  The sample database with a share and a favorite, and the properties of sharing and favorites
  applied to it.
\<close>

definition mem_sharing :: "string list SharingService" where
  "mem_sharing = \<lparr>hs_Objects = mem_store, hs_PresignTTL = 900000000000, hs_UniLower = id\<rparr>"

definition sample_share :: "time option \<Rightarrow> FileShare" where
  "sample_share e = \<lparr>sh_ID = 21, sh_BlobID = 11, sh_OwnerID = 7, sh_RecipientID = 8, sh_EphemeralPub = [1],
     sh_WrappedFileKey = [2], sh_ExpiresAt = e, sh_RevokedAt = None, sh_CreatedAt = 3\<rparr>"

definition recipient :: user_row where
  "recipient = (sample_user 8 ''c@d'')\<lparr>us_public_key := Some [4]\<rparr>"

definition shared_world :: "FileShare list \<Rightarrow> string list sworld" where
  "shared_world ss = sample_world\<lparr>w_db := sample_db\<lparr>users := [sample_user 7 ''a@b'', recipient], file_shares := ss,
     favorites := [\<lparr>fv_user_id = 7, fv_blob_id = Some 11, fv_folder_id = None, fv_created_at = 2\<rparr>]\<rparr>\<rparr>"

lemmas shared_defs = shared_world_def sample_share_def recipient_def sample_world_def sample_db_def sample_user_def

lemma shared_world_sel:
  "w_faults (shared_world ss) = []" "w_now (shared_world ss) = 10" "file_shares (w_db (shared_world ss)) = ss"
  "w_obj (shared_world ss) = [''k1'', ''k2'']" "distinct (map us_email (users (w_db (shared_world ss))))"
  "recipient \<in> set (users (w_db (shared_world ss)))" "sample_blob 11 2 ''k1'' None \<in> set (stored_blobs (w_db (shared_world ss)))"
  by (simp_all add: shared_defs)

lemma shared_wf: "wf_db 10 (w_db (shared_world ss))"
  using sample_wf by (simp add: wf_db_def shared_world_def sample_world_def)

lemma shared_favorites: "favorites_ok (w_db (shared_world ss))"
  by (simp add: favorites_ok_def favorite_ok_def resource_exists_def folder_ref_def user_exists_def shared_defs sample_blob_def)

lemma shared_linked: "linked (\<lambda>_. True) 10 (w_db (shared_world []))" "linked (\<lambda>_. True) 10 (w_db (shared_world [sample_share e]))"
  using shared_wf shared_favorites
  by (simp_all add: linked_def shares_ok_def active_shares_def shared_world_sel share_ok_def)
    (simp add: shared_defs user_exists_def sample_blob_def)

definition share_request :: CreateShareParams where
  "share_request = \<lparr>cp_BlobID = 11, cp_OwnerID = 7, cp_RecipientEmail = '' C@d'', cp_RecipientID = 0,
     cp_EphemeralPub = [5], cp_WrappedFileKey = [6], cp_ExpiresAt = Some 50\<rparr>"

lemma share_email_sample: "us_email recipient = share_email mem_sharing (cp_RecipientEmail share_request)"
proof -
  have "TrimSpace (ToLower id '' C@d'') = ''c@d''" by code_simp
  then show ?thesis by (simp add: recipient_def sample_user_def share_email_def mem_sharing_def share_request_def)
qed

section \<open>Cases\<close>

lemma sample_download:
  "\<exists>res w'. GetSharedFile mem_sharing 21 8 (shared_world [sample_share None]) = (Inr res, w')"
proof -
  let ?w = "shared_world [sample_share None]"
  have "\<exists>v. share_view (w_db ?w) (sample_share None) = Some v \<and> sh_BlobID v = 11 \<and> validateShareAccess v 8 10 = None"
    by (simp add: share_view_def validateShareAccess_def shared_defs sample_blob_def)
  then obtain v where v: "share_view (w_db ?w) (sample_share None) = Some v" "sh_BlobID v = 11" "validateShareAccess v 8 10 = None"
    by blast
  have "map_err ShareDb (GetShare_pg 21) ?w = (Inr (Some v), ?w)"
    using v(1) by (simp add: GetShare_pg_def query_nil map_err_def shared_world_sel) (simp add: sample_share_def)
  moreover have "\<exists>info. GetBlobInfo_pg 11 ?w = (Inr (Some info), ?w)"
    by (simp add: GetBlobInfo_pg_def query_nil shared_world_sel) (simp add: shared_defs sample_blob_def)
  ultimately show ?thesis
    using v by (auto simp: GetSharedFile_def bindE_def map_err_def shared_world_sel obj_call_def mem_sharing_def mem_store_def
        mem_client_def PresignedGetObject_def ret_def)
qed

theorem GetSharedFile_authorised_witness:
  "\<exists>res w'. GetSharedFile mem_sharing 21 8 (shared_world [sample_share None]) = (Inr res, w')
     \<and> sh_WrappedFileKey (sf_Share res) = [2]"
proof -
  obtain res w' where g: "GetSharedFile mem_sharing 21 8 (shared_world [sample_share None]) = (Inr res, w')"
    using sample_download by blast
  have "shares_ok (w_db (shared_world [sample_share None]))" "distinct (map bl_ID (stored_blobs (w_db (shared_world [sample_share None]))))"
    using shared_linked(2) shared_wf by (auto simp: linked_def wf_db_def)
  from GetSharedFile_authorised [OF this g] g show ?thesis by (auto simp: shared_world_sel sample_share_def)
qed

theorem revocation_final_witness:
  "\<exists>w1. RevokeShare 21 7 (shared_world [sample_share None]) = (Inr (), w1)
     \<and> (\<forall>res w3. GetSharedFile mem_sharing 21 8 w1 \<noteq> (Inr res, w3))"
proof -
  let ?w = "shared_world [sample_share None]"
  obtain w1 where r: "RevokeShare 21 7 ?w = (Inr (), w1)"
    by (simp add: RevokeShare_def RevokeShare_pg_def bindE_def map_err_def db_call_nil shared_world_sel ret_def)
      (simp add: revokes_def sample_share_def ret_def)
  have l: "linked (\<lambda>_. True) (w_now ?w) (w_db ?w)" using shared_linked(2) by (simp add: shared_world_sel)
  have s: "(linked_step mem_service mem_sharing (\<lambda>_. []) {})\<^sup>*\<^sup>* w1 w1" by simp
  have n: "21 \<notin> ({} :: uuid set)" by simp
  from revocation_final [OF l r s n] r show ?thesis by blast
qed

theorem expired_share_blocks_sharing_witness:
  "GetSharedFile mem_sharing 21 8 (shared_world [sample_share (Some 9)]) = (Inl ErrExpired, shared_world [sample_share (Some 9)])
   \<and> CreateShare mem_sharing 22 share_request (shared_world [sample_share (Some 9)]) = (Inl ErrDuplicateShare, shared_world [sample_share (Some 9)])"
proof -
  let ?w = "shared_world [sample_share (Some 9)]" and ?s = "sample_share (Some 9)" and ?b = "sample_blob 11 2 ''k1'' None"
  have "GetSharedFile mem_sharing (sh_ID ?s) (sh_RecipientID ?s) ?w = (Inl ErrExpired, ?w)
    \<and> CreateShare mem_sharing 22 share_request ?w = (Inl ErrDuplicateShare, ?w)"
    by (rule expired_share_blocks_sharing [where b = ?b and r = recipient and e = 9 and pub = "[4]"])
      (simp_all add: shared_world_sel shared_linked share_email_sample,
       simp_all add: sample_share_def sample_blob_def recipient_def sample_user_def share_request_def)
  then show ?thesis by (simp add: sample_share_def)
qed

theorem share_roundtrip_witness:
  "\<exists>v w1 res w2. CreateShare mem_sharing 22 share_request (shared_world []) = (Inr (v, share_notice v), w1)
    \<and> GetSharedFile mem_sharing 22 8 (w1\<lparr>w_now := 40\<rparr>) = (Inr res, w2)
    \<and> sf_DownloadURL res = ''k1'' \<and> sh_WrappedFileKey (sf_Share res) = [6]"
proof -
  let ?w = "shared_world []" and ?b = "sample_blob 11 2 ''k1'' None"
  have "\<exists>v w1 res w2. CreateShare mem_sharing 22 share_request ?w = (Inr (v, share_notice v), w1)
    \<and> GetSharedFile mem_sharing 22 (us_id recipient) (w1\<lparr>w_now := 40\<rparr>) = (Inr res, w2)
    \<and> sf_DownloadURL res = ''k1'' \<and> sf_FileName res = bl_FileName ?b
    \<and> sh_WrappedFileKey (sf_Share res) = cp_WrappedFileKey share_request \<and> sh_EphemeralPub (sf_Share res) = cp_EphemeralPub share_request"
    by (rule share_roundtrip [where b = ?b and r = recipient and pub = "[4]" and o' = "[''k1'', ''k2'']"])
      (simp_all add: shared_world_sel shared_linked share_email_sample,
       simp_all add: sample_blob_def recipient_def sample_user_def share_request_def mem_sharing_def mem_store_def
         mem_client_def PresignedGetObject_def user_exists_def shared_world_def)
  then show ?thesis by (auto simp: recipient_def sample_user_def share_request_def)
qed

theorem favorites_refine_marks_witness:
  "\<exists>bs. ListBlobs_fav 7 (shared_world []) = (Inr bs, shared_world []) \<and> distinct (map bl_ID bs)"
proof -
  let ?w = "shared_world []"
  have "w_faults ?w = []" "favorites_ok (w_db ?w)" "wf_db (w_now ?w) (w_db ?w)" "user_exists 7 (w_db ?w)"
    "11 \<in> bl_ID ` set (stored_blobs (w_db ?w))" "folder_exists 1 (w_db ?w)"
    using shared_favorites shared_wf
    by (simp_all add: shared_world_sel)
      (simp_all add: user_exists_def folder_exists_def shared_defs sample_blob_def sample_folder_def)
  from favorites_refine_marks [OF this] show ?thesis by blast
qed

end
