(* ===== verification/Auth_Samples.thy ===== *)
theory Auth_Samples
  imports Auth_Login
begin

text \<open>
  Concrete instances: an in-memory Redis, codecs and a token library that satisfy the contracts, a
  small database, and for every property of the authentication side with hypotheses a case in which
  they hold.
\<close>

section \<open>Text encodings\<close>

text \<open>Strings one after the other, each byte marked and each string terminated.\<close>

definition enc_str :: "string \<Rightarrow> string" where
  "enc_str s = concat (map (\<lambda>c. [CHR ''c'', c]) s) @ [CHR ''.'']"

fun dec_str :: "string \<Rightarrow> (string \<times> string) option" where
  "dec_str [] = None"
| "dec_str [c] = (if c = CHR ''.'' then Some ([], []) else None)"
| "dec_str (c # d # s) =
     (if c = CHR ''.'' then Some ([], d # s)
      else map_option (\<lambda>(x, r). (d # x, r)) (dec_str s))"

fun dec_list :: "nat \<Rightarrow> string \<Rightarrow> string list option" where
  "dec_list 0 s = (if s = [] then Some [] else None)"
| "dec_list (Suc n) s = (case dec_str s of None \<Rightarrow> None
     | Some (x, r) \<Rightarrow> map_option (\<lambda>xs. x # xs) (dec_list n r))"

lemma dec_enc_str: "dec_str (enc_str s @ r) = Some (s, r)"
proof (induction s)
  case Nil
  show ?case by (cases r) (simp_all add: enc_str_def)
next
  case (Cons c s)
  then show ?case by (simp add: enc_str_def)
qed

lemma dec_enc_list: "dec_list (length xs) (concat (map enc_str xs)) = Some xs"
  by (induction xs) (simp_all add: dec_enc_str)

definition enc_int :: "int \<Rightarrow> string" where
  "enc_int n = (if n < 0 then CHR ''-'' # replicate (nat (- n)) (CHR ''i'') else replicate (nat n) (CHR ''i''))"

definition dec_int :: "string \<Rightarrow> int" where
  "dec_int s = (case s of [] \<Rightarrow> 0 | c # r \<Rightarrow> if c = CHR ''-'' then - int (length r) else int (length s))"

lemma dec_enc_int [simp]: "dec_int (enc_int n) = n"
proof (cases "0 < n")
  case True
  then obtain k where "nat n = Suc k" by (metis Suc_pred zero_less_nat_eq)
  with True show ?thesis by (simp add: dec_int_def enc_int_def)
qed (auto simp: dec_int_def enc_int_def)

section \<open>Codecs, tokens and the cache\<close>

definition bits_String :: "uuid \<Rightarrow> string" where
  "bits_String u = map (\<lambda>i. if bit u i then CHR ''1'' else CHR ''0'') [0..<128]"

definition bits_Parse :: "string \<Rightarrow> uuid option" where
  "bits_Parse s = (if length s = 128 then Some (horner_sum of_bool 2 (map (\<lambda>c. c = CHR ''1'') s)) else None)"

definition record_strings :: "srpRecord \<Rightarrow> string list" where
  "record_strings r = [sr_UserID r, sr_Email r, sr_SRPSaltHex r, sr_AHex r, sr_VerifierHex r, sr_BHex r,
     sr_BPubHex r, sr_CryptoSalt r, sr_BcryptSalt r, sr_EncryptedPrivateKey r, sr_KEKEncryptedMaster r,
     enc_int (sr_ExpiresAt r)]"

definition record_of_strings :: "string list \<Rightarrow> srpRecord" where
  "record_of_strings x = \<lparr>sr_UserID = x ! 0, sr_Email = x ! 1, sr_SRPSaltHex = x ! 2, sr_AHex = x ! 3,
     sr_VerifierHex = x ! 4, sr_BHex = x ! 5, sr_BPubHex = x ! 6, sr_CryptoSalt = x ! 7,
     sr_BcryptSalt = x ! 8, sr_EncryptedPrivateKey = x ! 9, sr_KEKEncryptedMaster = x ! 10,
     sr_ExpiresAt = dec_int (x ! 11)\<rparr>"

definition sample_codec :: codec where
  "sample_codec = \<lparr>cd_String = bits_String, cd_Parse = bits_Parse,
     cd_Marshal = (\<lambda>r. Some (concat (map enc_str (record_strings r)))),
     cd_Unmarshal = (\<lambda>s. map_option record_of_strings (dec_list 12 s))\<rparr>"

lemma sample_uuid_text: "uuid_text sample_codec"
proof -
  have "bits_Parse (bits_String u) = Some u" for u
    using horner_sum_bit_eq_take_bit [of u 128] take_bit_length_eq [of u]
    by (simp add: bits_Parse_def bits_String_def comp_def if_distrib cong: if_cong)
  then show ?thesis by (simp add: uuid_text_def sample_codec_def)
qed

lemma sample_json_safe: "json_safe sample_codec r"
proof -
  have "length (record_strings r) = 12" by (simp add: record_strings_def)
  then have "dec_list 12 (concat (map enc_str (record_strings r))) = Some (record_strings r)"
    using dec_enc_list [of "record_strings r"] by simp
  moreover have "record_of_strings (record_strings r) = r"
    by (simp add: record_of_strings_def record_strings_def)
  ultimately show ?thesis by (simp add: json_safe_def sample_codec_def)
qed

text \<open>A token is the key followed by the claims, in the encoding above.\<close>

definition sample_token :: "bytes \<Rightarrow> accessClaims \<Rightarrow> string" where
  "sample_token k c = concat (map enc_str [bytes_string k, ac_Subject c, enc_int (ac_IssuedAt c),
     enc_int (ac_ExpiresAt c), ac_SessionID c])"

definition sample_header :: "string \<Rightarrow> (signing_method \<times> accessClaims) option" where
  "sample_header tok = (case dec_list 5 tok of None \<Rightarrow> None
     | Some x \<Rightarrow> Some (SigningMethodHMAC, \<lparr>ac_Subject = x ! 1, ac_IssuedAt = dec_int (x ! 2),
         ac_ExpiresAt = dec_int (x ! 3), ac_SessionID = x ! 4\<rparr>))"

definition sample_verify :: "signing_method \<Rightarrow> bytes \<Rightarrow> string \<Rightarrow> bool" where
  "sample_verify m k tok = (case dec_list 5 tok of None \<Rightarrow> False | Some x \<Rightarrow> x ! 0 = bytes_string k)"

definition sample_jwt :: jwt_lib where
  "sample_jwt = \<lparr>jl_NumericDate = (\<lambda>t. 1000000000 * (t div 1000000000)),
     jl_Sign = (\<lambda>k c. Some (sample_token k c)),
     jl_Parse = (\<lambda>kf now tok. case sample_header tok of None \<Rightarrow> None
       | Some (m, c) \<Rightarrow> (case kf m of None \<Rightarrow> None
           | Some k \<Rightarrow> if sample_verify m k tok \<and> now < ac_ExpiresAt c then Some (c, True) else None)),
     jl_Header = sample_header, jl_Verify = sample_verify\<rparr>"

lemma dec_sample_token:
  "dec_list 5 (sample_token k c) = Some [bytes_string k, ac_Subject c, enc_int (ac_IssuedAt c),
     enc_int (ac_ExpiresAt c), ac_SessionID c]"
proof -
  let ?x = "[bytes_string k, ac_Subject c, enc_int (ac_IssuedAt c), enc_int (ac_ExpiresAt c), ac_SessionID c]"
  have "length ?x = 5" by simp
  with dec_enc_list [of ?x] show ?thesis unfolding sample_token_def by metis
qed

lemma sample_jwt_contract: "jwt_contract sample_jwt"
proof -
  have sel: "jl_Verify sample_jwt = sample_verify" "jl_Header sample_jwt = sample_header"
    "jl_Sign sample_jwt = (\<lambda>k c. Some (sample_token k c))"
    by (simp_all add: sample_jwt_def)
  have "parse_contract sample_jwt"
    unfolding parse_contract_def sel by (simp add: sample_jwt_def)
  moreover have "sign_contract sample_jwt"
    unfolding sign_contract_def sel by (simp add: sample_header_def sample_verify_def dec_sample_token)
  moreover have "date_contract sample_jwt"
    by (simp add: date_contract_def sample_jwt_def)
  ultimately show ?thesis by (simp add: jwt_contract_def)
qed

text \<open>Strings with their expiry, and counters with theirs.\<close>

type_synonym mem = "(string \<Rightarrow> (string \<times> time) option) \<times> (string \<Rightarrow> (int64 \<times> time option) option)"

definition mem_view :: "mem \<Rightarrow> time \<Rightarrow> string \<Rightarrow> string option" where
  "mem_view r t k = (case fst r k of None \<Rightarrow> None | Some (v, e) \<Rightarrow> if t < e then Some v else None)"

definition mem_redis :: "mem redis" where
  "mem_redis = \<lparr>rd_Set = (\<lambda>k v ttl now r. ((fst r)(k \<mapsto> (v, now + 1000000 * (ttl div 1000000))), snd r)),
     rd_GetDel = (\<lambda>k now r. (mem_view r now k, ((fst r)(k := None), snd r))),
     rd_Exists = (\<lambda>k now r. if mem_view r now k = None then 0 else 1),
     rd_Incr = (\<lambda>k now r. (case snd r k of
         None \<Rightarrow> (Some 1, (fst r, (snd r)(k \<mapsto> (1, None))))
       | Some (c, e) \<Rightarrow> if (case e of None \<Rightarrow> True | Some t \<Rightarrow> now < t)
           then (Some (c + 1), (fst r, (snd r)(k \<mapsto> (c + 1, e))))
           else (Some 1, (fst r, (snd r)(k \<mapsto> (1, None)))))),
     rd_Expire = (\<lambda>k s now r. (fst r, case snd r k of None \<Rightarrow> snd r
       | Some (c, e) \<Rightarrow> (snd r)(k \<mapsto> (c, Some (now + s * 1000000000)))))\<rparr>"

lemma mem_redis_contract: "redis_contract mem_view mem_redis"
proof -
  have "1000000 * (ttl div 1000000) \<le> ttl" for ttl :: int by simp
  then have "\<not> t < now + 1000000 * (ttl div 1000000)" if "now + ttl \<le> t" for t now ttl :: int
    using that by (metis add_left_mono le_less_trans not_less)
  then show ?thesis
    by (auto simp: redis_contract_def set_contract_def getdel_contract_def exists_contract_def mem_redis_def mem_view_def)
qed

lemma mem_counter_contract: "incr_contract snd mem_redis" "expire_contract snd mem_redis"
  by (auto simp: incr_contract_def expire_contract_def live_def mem_redis_def split: option.splits if_splits)

section \<open>A database and a service\<close>

definition sample_account :: "uuid \<Rightarrow> string \<Rightarrow> user_row" where
  "sample_account i email = \<lparr>us_id = i, us_email = email, us_srp_salt = hex_EncodeToString [1, 2],
     us_srp_verifier = hex_EncodeToString (Bytes (Exp bigG 5 bigN)), us_bcrypt_salt = ''salt'',
     us_crypto_salt = [7], us_public_key = None, us_encrypted_private_key = None,
     us_kek_encrypted_master = None, us_kek_encrypted_recovery = Some [1], us_recovery_salt = Some [2],
     us_created_at = 0\<rparr>"

definition sample_device :: "uuid \<Rightarrow> uuid \<Rightarrow> string \<Rightarrow> device_session" where
  "sample_device i u dev = \<lparr>ds_ID = i, ds_UserID = u, ds_device_id = dev, ds_DeviceName = ''laptop'',
     ds_IPAddress = [], ds_UserAgent = [], ds_CreatedAt = 0, ds_LastActiveAt = 0, ds_RevokedAt = None\<rparr>"

definition sample_refresh :: "uuid \<Rightarrow> string \<Rightarrow> time option \<Rightarrow> refresh_session" where
  "sample_refresh i tok revoked = \<lparr>rs_id = i, rs_user_id = 1, rs_device_session_id = 10,
     rs_refresh_token_hash = refreshTokenHash tok, rs_client_key = [9], rs_expires_at = 10 ^ 12,
     rs_created_at = 0, rs_revoked_at = revoked\<rparr>"

definition sample_reset :: "string \<Rightarrow> PasswordResetToken" where
  "sample_reset tok = \<lparr>pt_ID = 30, pt_UserID = 1, pt_TokenHash = refreshTokenHash tok,
     pt_ExpiresAt = 10 ^ 12, pt_UsedAt = None, pt_CreatedAt = 0\<rparr>"

definition sample_auth_db :: "refresh_session list \<Rightarrow> db" where
  "sample_auth_db rs = \<lparr>users = [sample_account 1 ''ann@x.org'', sample_account 2 ''bob@x.org''],
     device_sessions = [sample_device 10 1 ''d1'', sample_device 11 1 ''d2'', sample_device 12 2 ''d1''],
     refresh_sessions = rs, folders = [], stored_blobs = [], file_shares = [], favorites = [],
     password_reset_tokens = [sample_reset ''reset''], audit_log = []\<rparr>"

definition sample_auth :: "mem AuthService" where
  "sample_auth = \<lparr>as_Redis = mem_redis, as_Codec = sample_codec, as_Jwt = sample_jwt,
     as_Tokens = \<lparr>js_secret = [1, 2, 3], js_accessTTL = 900 * 10 ^ 9\<rparr>, as_AccessTTL = 900 * 10 ^ 9,
     as_RefreshTTL = 10 ^ 15, as_Audit = True, as_FrontendOrigin = ''https://x.org'', as_UniLower = id\<rparr>"

definition sample_aworld :: "refresh_session list \<Rightarrow> mem aworld" where
  "sample_aworld rs = \<lparr>w_db = sample_auth_db rs, w_now = 5, w_faults = [],
     w_redis = (\<lambda>_. None, \<lambda>_. None), w_queue = [], w_mails = []\<rparr>"

definition sample_draws :: draws where
  "sample_draws = \<lparr>dr_Token = Some [1, 2, 3], dr_Key = Some [4], dr_SessID = 40\<rparr>"

lemmas sample_defs = sample_aworld_def sample_auth_def sample_auth_db_def sample_account_def sample_device_def
  sample_refresh_def sample_reset_def

lemma sample_auth_ok:
  "auth_ok (sample_auth_db [])" "auth_ok (sample_auth_db [sample_refresh 20 tok at])"
  by (simp_all add: auth_defs sample_defs)

lemma sample_view:
  "refresh_view 5 (sample_auth_db [sample_refresh 20 tok None]) (refreshTokenHash tok)
     = Some \<lparr>cs_SessionID = 20, cs_UserID = 1, cs_DeviceSessionID = 10, cs_ClientKey = [9]\<rparr>"
  by (simp add: refresh_view_def refresh_usable_def active_device_def consumed_of_def sample_defs)

lemma TrimSpace_tok: "TrimSpace ''tok'' = ''tok''"
  by code_simp

section \<open>Cases\<close>

theorem PublicEphemeralHex_size_witness:
  "\<exists>s. NewServerSession (Some [1]) (hex_EncodeToString (Bytes (Exp bigG 5 bigN))) = Inr s
     \<and> length (PublicEphemeralHex s) = 512"
proof -
  obtain s where s: "NewServerSession (Some [1]) (hex_EncodeToString (Bytes (Exp bigG 5 bigN))) = Inr s"
    using verifier_session by blast
  with PublicEphemeralHex_size [OF s] show ?thesis by blast
qed

theorem sessions_refine_token_map_witness:
  "refresh_view 6 (snd (consume_refresh 5 (refreshTokenHash ''tok'') (sample_auth_db [sample_refresh 20 ''tok'' None])))
     = (refresh_view 6 (sample_auth_db [sample_refresh 20 ''tok'' None]))(refreshTokenHash ''tok'' := None)"
  using sessions_refine_token_map [OF sample_auth_ok(2), of 5 6 "refreshTokenHash ''tok''"] by simp

definition sample_cworld :: "mem cworld" where
  "sample_cworld = \<lparr>w_db = sample_auth_db [], w_now = 0, w_faults = [], w_redis = (\<lambda>_. None, \<lambda>_. None)\<rparr>"

theorem rate_limit_exact_witness:
  "allow_run mem_redis \<lparr>rl_prefix = ''rl:'', rl_limit = 2, rl_window = 60 * 10 ^ 9\<rparr> ''ip'' [5, 6, 7] sample_cworld
     = [Inr True, Inr True, Inr False]"
proof -
  let ?l = "\<lparr>rl_prefix = ''rl:'', rl_limit = 2, rl_window = 60 * 10 ^ 9\<rparr>"
  have "allow_run mem_redis ?l ''ip'' (5 # [6, 7]) sample_cworld
      = map (\<lambda>n. Inr (int n \<le> sint (rl_limit ?l))) [1..<length [6, 7 :: int] + 2]"
    by (rule rate_limit_exact [OF mem_counter_contract])
      (simp_all add: sample_cworld_def live_def Duration_Seconds_def)
  then show ?thesis by (simp add: upt_rec)
qed

definition sample_event :: AuditEvent where
  "sample_event = audit_event 1 ''logout'' None"

theorem audit_log_fifo_witness:
  "\<exists>q' w'. fold (audit_act Some) [Log sample_event, Turn (50, 51, 52), Log sample_event] ([], sample_cworld) = (q', w')
     \<and> map content (audit_log (w_db w') @ q') = [content sample_event, content sample_event]"
proof -
  let ?as = "[Log sample_event, Turn (50, 51, 52), Log sample_event]"
  obtain q' w' where r: "fold (audit_act Some) ?as ([], sample_cworld) = (q', w')" by (rule prod.exhaust)
  have "audit_ready Some ([], sample_cworld)" "length [] + length (logged ?as) \<le> queueSize"
    "\<forall>e \<in> set (logged ?as). insertable Some (w_db sample_cworld) e" "distinct (turn_ids ?as)"
    "set (turn_ids ?as) \<inter> au_ID ` set (audit_log (w_db sample_cworld)) = {}"
    by (simp_all add: audit_ready_def sample_cworld_def sample_event_def audit_event_def insertable_def
        user_exists_def sample_defs queueSize_def char_length_def)
  with audit_log_fifo [OF r] have "map content (audit_log (w_db w') @ q')
      = map content (audit_log (w_db sample_cworld) @ [] @ logged ?as)" by (elim conjE) (simp del: logged.simps)
  with r show ?thesis by (simp add: sample_cworld_def sample_auth_db_def)
qed

theorem auth_reachable_consistent_witness:
  "\<exists>w'. (auth_step sample_auth)\<^sup>*\<^sup>* (sample_aworld []) w' \<and> auth_ok (w_db w') \<and> history (sample_auth_db []) (w_db w')"
proof -
  have s: "(auth_step sample_auth)\<^sup>*\<^sup>* (sample_aworld [])
      (snd (run_auth sample_auth (OpRevokeDevice 1 10) (sample_aworld [])))"
    by (intro r_into_rtranclp auth_step.op)
  have ok: "auth_ok (w_db (sample_aworld []))" using sample_auth_ok(1) by (simp add: sample_aworld_def)
  have db: "w_db (sample_aworld []) = sample_auth_db []" by (simp add: sample_aworld_def)
  from auth_reachable_consistent [OF ok s] s show ?thesis unfolding db by blast
qed

lemma sample_contract: "redis_contract mem_view (as_Redis sample_auth)"
  using mem_redis_contract by (simp add: sample_auth_def)

lemma sample_world [simp]:
  "w_db (sample_aworld rs) = sample_auth_db rs" "w_now (sample_aworld rs) = 5" "w_faults (sample_aworld rs) = []"
  by (simp_all add: sample_aworld_def)

definition sample_consumed :: ConsumedSession where
  "sample_consumed = \<lparr>cs_SessionID = 20, cs_UserID = 1, cs_DeviceSessionID = 10, cs_ClientKey = [9]\<rparr>"

lemma sample_Refresh:
  "\<exists>pair w'. Refresh sample_auth sample_draws ''tok'' (sample_aworld [sample_refresh 20 ''tok'' None]) = (Inr pair, w')"
proof -
  let ?w = "sample_aworld [sample_refresh 20 ''tok'' None]"
  have c: "consume_refresh 5 (refreshTokenHash ''tok'') (sample_auth_db [sample_refresh 20 ''tok'' None])
      = (Some sample_consumed, sample_auth_db [sample_refresh 20 ''tok'' (Some 5)])"
    by (simp add: consume_refresh_def refresh_usable_def active_device_def consumed_of_def sample_consumed_def sample_defs)
  then have "db_do (ConsumeRefreshSession_pg (refreshTokenHash ''tok'')) ?w
      = (Inr (Some sample_consumed), ?w\<lparr>w_db := sample_auth_db [sample_refresh 20 ''tok'' (Some 5)]\<rparr>)"
    unfolding ConsumeRefreshSession_pg_def
    using db_do_nil [of ?w "\<lambda>now d. Inr (consume_refresh now (refreshTokenHash ''tok'') d)"] by simp
  then show ?thesis
    by (simp add: Refresh_def Let_def TrimSpace_tok bindE_def ignore_cw UpdateLastActive_pg_def db_call_nil
        sample_consumed_def issueTokenPairForDevice_def IssueAccess_def newRefreshToken_def sample_draws_def db_do_def
        map_err_def CreateRefreshSession_pg_def insert_refresh_session_def refresh_row_of_def query_nil
        GetCryptoSaltAndKEKByUserID_pg_def sample_defs user_exists_def sample_jwt_def ret_def)
qed

theorem Refresh_rotates_witness:
  "\<exists>pair w' c. Refresh sample_auth sample_draws ''tok'' (sample_aworld [sample_refresh 20 ''tok'' None]) = (Inr pair, w')
     \<and> refresh_view 6 (w_db w') (refreshTokenHash (tp_RefreshToken pair)) = Some c"
proof -
  let ?w = "sample_aworld [sample_refresh 20 ''tok'' None]"
  obtain pair w' where r: "Refresh sample_auth sample_draws ''tok'' ?w = (Inr pair, w')"
    using sample_Refresh by blast
  have ok: "auth_ok (w_db ?w)" and t: "w_now ?w \<le> 6" "6 < w_now ?w + as_RefreshTTL sample_auth"
    using sample_auth_ok(2) by (simp_all add: sample_auth_def)
  from Refresh_rotates [OF ok r t] obtain c :: ConsumedSession where "refresh_view 6 (w_db w') =
        (refresh_view 6 (w_db ?w)) (refreshTokenHash (TrimSpace ''tok'') := None,
           refreshTokenHash (tp_RefreshToken pair) \<mapsto>
             \<lparr>cs_SessionID = dr_SessID sample_draws, cs_UserID = cs_UserID c,
              cs_DeviceSessionID = cs_DeviceSessionID c, cs_ClientKey = tp_ClientKey pair\<rparr>)"
    by blast
  with r show ?thesis by (metis fun_upd_same)
qed

theorem refresh_reuse_detected_witness:
  "\<exists>w'. Refresh sample_auth sample_draws ''tok'' (sample_aworld [sample_refresh 20 ''tok'' (Some 3)]) = (Inl ErrInvalidRefresh, w')
     \<and> \<not> active_device (w_db w') 10"
proof -
  let ?w = "sample_aworld [sample_refresh 20 ''tok'' (Some 3)]" and ?q = "sample_refresh 20 ''tok'' (Some 3)"
  have 1: "auth_ok (w_db ?w)" and f: "w_faults ?w = []" using sample_auth_ok(2) by simp_all
  have 2: "?q \<in> set (refresh_sessions (w_db ?w))" "rs_revoked_at ?q \<noteq> None" "w_now ?w < rs_expires_at ?q"
    "rs_refresh_token_hash ?q = refreshTokenHash (TrimSpace ''tok'')"
    "\<forall>q' \<in> set (refresh_sessions (w_db ?w)). rs_refresh_token_hash q' = rs_refresh_token_hash ?q \<longrightarrow> q' = ?q"
    "active_device (w_db ?w) (rs_device_session_id ?q)"
    by (simp_all add: sample_auth_db_def sample_refresh_def TrimSpace_tok active_device_def sample_device_def)
  have "rs_device_session_id ?q = 10" by (simp add: sample_refresh_def)
  with refresh_reuse_detected [OF sample_contract 1 2, of 6 sample_draws] show ?thesis
    using f by (auto simp: sample_auth_def)
qed

definition sample_info :: DeviceInfo where
  "sample_info = \<lparr>di_UserAgent = ''ua'', di_IPAddress = ''10.0.0.1'', di_DeviceName = ''laptop'', di_DeviceID = ''d1''\<rparr>"

theorem Logout_ends_session_witness:
  "\<exists>w'. Logout sample_auth ''tok'' sample_info (sample_aworld [sample_refresh 20 ''tok'' None]) = (Inr (), w')
     \<and> \<not> active_device (w_db w') 10"
proof -
  let ?w = "sample_aworld [sample_refresh 20 ''tok'' None]"
  have 1: "auth_ok (w_db ?w)" "w_faults ?w = []" "w_now ?w \<le> 6" using sample_auth_ok(2) by simp_all
  have "refresh_view (w_now ?w) (w_db ?w) (refreshTokenHash (TrimSpace ''tok'')) = Some sample_consumed"
    by (simp add: TrimSpace_tok sample_view sample_consumed_def)
  from Logout_ends_session [OF 1 this, of sample_auth sample_info] show ?thesis
    by (auto simp: sample_consumed_def)
qed

definition sample_credentials :: ResetPasswordParams where
  "sample_credentials = \<lparr>rp_SRPSalt = ''0a'', rp_SRPVerifier = ''0b'', rp_BcryptSalt = ''s'', rp_CryptoSalt = [1],
     rp_KEKEncryptedMaster = [2], rp_KEKEncryptedRecovery = [3], rp_RecoverySalt = [4]\<rparr>"

theorem ResetPassword_complete_witness:
  "\<exists>w'. ResetPassword sample_auth ''reset'' sample_credentials (sample_aworld []) = (Inr (), w')
     \<and> reset_view 6 (w_db w') (refreshTokenHash ''reset'') = None"
proof -
  let ?w = "sample_aworld []"
  have 1: "auth_ok (w_db ?w)" "w_faults ?w = []" using sample_auth_ok(1) by simp_all
  have 2: "reset_view (w_now ?w) (w_db ?w) (refreshTokenHash ''reset'') = Some 1"
    "uuid_Nil \<notin> ds_ID ` set (device_sessions (w_db ?w))"
    by (simp_all add: reset_view_def token_usable_def sample_defs)
  from ResetPassword_complete [OF sample_contract 1 2, of 6 sample_credentials] show ?thesis
    by (auto simp: sample_auth_def)
qed

definition sample_finalize :: "string \<Rightarrow> LoginFinalizeParams" where
  "sample_finalize m1 = \<lparr>lf_SessionID = bits_String 7, lf_M1 = m1, lf_Device = sample_info\<rparr>"

theorem login_completes_witness:
  "\<exists>li w1. LoginInit sample_auth (Some [1]) 7 ''ann@x.org'' (hex_EncodeToString (pad (Exp bigG 3 bigN))) (sample_aworld [])
     = (Inr li, w1)"
proof -
  let ?w = "sample_aworld []" and ?r = "sample_account 1 ''ann@x.org''"
  have n: "normal_email sample_auth ''ann@x.org'' = ''ann@x.org''"
    unfolding normal_email_def by code_simp
  have ok: "uuid_text (as_Codec sample_auth)" "w_faults ?w = []" "auth_ok (w_db ?w)"
    "?r \<in> set (users (w_db ?w))"
    using sample_auth_ok(1) sample_uuid_text by (simp_all add: sample_auth_def) (simp add: sample_auth_db_def)
  have 1: "us_email ?r = normal_email sample_auth ''ann@x.org''"
    "us_srp_verifier ?r = hex_EncodeToString (Bytes (Exp bigG 5 bigN))"
    "us_srp_salt ?r = hex_EncodeToString [1, 2]"
    unfolding n by (simp_all add: sample_account_def)
  have 2: "\<forall>e. en_Email e = us_email ?r \<longrightarrow> en_BcryptSalt e = us_bcrypt_salt ?r \<longrightarrow>
       json_safe (as_Codec sample_auth) (record_of_entry (as_Codec sample_auth) e)"
    using sample_json_safe by (simp add: sample_auth_def)
  have 3: "issuable sample_auth sample_draws (w_db ?w) (us_id ?r)" "50 \<notin> ds_ID ` set (device_sessions (w_db ?w))"
    "0 < as_RefreshTTL sample_auth" "w_now ?w \<le> 6" "6 < w_now ?w + SRPSessionTTL"
    by (simp_all add: issuable_def sample_defs sample_draws_def user_exists_def sample_jwt_def SRPSessionTTL_def)
  from login_completes [OF sample_contract ok 1 2 3, of "[1]" 7 3 sample_info] show ?thesis by blast
qed

end
