(* ===== verification/Http_Samples.thy ===== *)
theory Http_Samples
  imports Http_Properties Auth_Samples
begin

text \<open>Requests at the sample service, and the properties of the HTTP layer applied to them.\<close>

definition sample_request :: request where
  "sample_request = \<lparr>rq_Header = (\<lambda>_. []), rq_Cookie = (\<lambda>_. None), rq_RemoteAddr = ''10.0.0.1:80'',
     rq_Param = (\<lambda>_. bits_String 10), rq_Query = (\<lambda>_. []), rq_Body = [], rq_ctxUserID = Some 1, rq_ctxSessionID = Some 11\<rparr>"

text \<open>A request with a token that has no blanks.\<close>

definition with_token :: "string \<Rightarrow> request" where
  "with_token tok = sample_request\<lparr>rq_Header := (\<lambda>_. ''Bearer '' @ tok)\<rparr>"

definition sample_deps :: "mem AuthDeps" where
  "sample_deps = \<lparr>dp_Auth = sample_auth,
     dp_LoginRateLimiter = \<lparr>rl_prefix = ''rl:login:'', rl_limit = 10, rl_window = 60 * 10 ^ 9\<rparr>,
     dp_PublicKeyRateLimiter = \<lparr>rl_prefix = ''rl:pubkey:'', rl_limit = 20, rl_window = 60 * 10 ^ 9\<rparr>,
     dp_RefreshCookie = \<lparr>rc_Name = ''rt'', rc_Path = ''/'', rc_Domain = [], rc_Secure = True, rc_SameSite = SameSiteStrict\<rparr>\<rparr>"

section \<open>The bearer token of a request\<close>

lemma trim_left_same:
  assumes "\<forall>e \<in> set es. \<forall>x xs. e = x # xs \<longrightarrow> x \<noteq> c"
  shows "trim_left es (c # s) = c # s"
proof -
  have "find (\<lambda>e. e \<noteq> [] \<and> take (length e) (c # s) = e) es = None"
    unfolding find_None_iff
  proof (intro notI, elim exE conjE)
    fix e assume e: "e \<in> set es" "e \<noteq> []" "take (length e) (c # s) = e"
    obtain x xs where "e = x # xs" using e(2) by (auto simp: neq_Nil_conv)
    with e assms show False by auto
  qed
  then show ?thesis by (subst trim_left.simps) simp
qed

lemma TrimSpace_same:
  assumes "c \<in> {CHR ''B'', CHR ''c''}"
  shows "TrimSpace (c # s @ ''.'') = c # s @ ''.''"
proof -
  have "trim_left space_encodings (c # s @ ''.'') = c # s @ ''.''"
    using assms by (intro trim_left_same) (auto simp: space_encodings_def)
  moreover have "trim_left (map rev space_encodings) (CHR ''.'' # rev (c # s)) = CHR ''.'' # rev (c # s)"
    by (rule trim_left_same) (simp add: space_encodings_def)
  ultimately show ?thesis by (simp add: TrimSpace_def)
qed

lemma bearer_sample: "bearer_token (with_token (sample_token [1, 2, 3] c)) = Some (sample_token [1, 2, 3] c)"
proof -
  have "bytes_string [1, 2, 3] \<noteq> []" by (simp add: bytes_string_def)
  then obtain s where s: "sample_token [1, 2, 3] c = CHR ''c'' # s @ ''.''"
    by (cases "bytes_string [1, 2, 3]") (auto simp: sample_token_def enc_str_def)
  have "TrimSpace (''Bearer '' @ sample_token [1, 2, 3] c) = ''Bearer '' @ sample_token [1, 2, 3] c"
    using TrimSpace_same [of "CHR ''B''" "''earer '' @ CHR ''c'' # s"] by (simp add: s)
  moreover have "TrimSpace (sample_token [1, 2, 3] c) = sample_token [1, 2, 3] c"
    using TrimSpace_same [of "CHR ''c''" s] by (simp add: s)
  moreover have "is_bearer ''Bearer''" by code_simp
  ultimately show ?thesis
    by (simp add: bearer_token_def with_token_def sample_request_def Cut_blank_def Let_def s)
qed

lemma sample_issue:
  "\<exists>c ex. IssueAccess sample_jwt sample_codec (as_Tokens sample_auth) 1 10 5 = Inr (sample_token [1, 2, 3] c, ex)"
  by (simp add: IssueAccess_def sample_jwt_def sample_auth_def) blast

section \<open>Cases\<close>

theorem auth_gate_witness:
  "\<exists>c resp w'. AuthMiddleware sample_jwt sample_codec (as_Tokens sample_auth) mem_redis (\<lambda>_. reply 200 (NoBody :: unit body))
       (with_token (sample_token [1, 2, 3] c)) (sample_aworld []) = (resp, w') \<and> rp_Status resp = 200
     \<and> jl_Verify sample_jwt SigningMethodHMAC [1, 2, 3] (sample_token [1, 2, 3] c)"
proof -
  obtain c ex where i: "IssueAccess sample_jwt sample_codec (as_Tokens sample_auth) 1 10 5 = Inr (sample_token [1, 2, 3] c, ex)"
    using sample_issue by blast
  have p: "ParseAccessToken sample_jwt sample_codec (as_Tokens sample_auth) 5 (sample_token [1, 2, 3] c) = Inr (1, 10)"
    using parse_issued [OF sample_jwt_contract sample_uuid_text i, of 5] by (simp add: sample_auth_def)
  obtain w1 where b: "IsBlocked mem_redis (cd_String sample_codec) 10 (sample_aworld []) = (Inr False, w1)"
    using IsBlocked_nil [OF mem_redis_contract, of "sample_aworld []" "cd_String sample_codec" 10]
    by (cases "IsBlocked mem_redis (cd_String sample_codec) 10 (sample_aworld [])") (simp add: sample_aworld_def mem_view_def)
  have a: "AuthMiddleware sample_jwt sample_codec (as_Tokens sample_auth) mem_redis (\<lambda>_. reply 200 (NoBody :: unit body))
       (with_token (sample_token [1, 2, 3] c)) (sample_aworld [])
     = (\<lparr>rp_Status = 200, rp_Cookies = [], rp_Body = NoBody\<rparr>, w1)"
    using p b by (simp add: AuthMiddleware_def bearer_sample Let_def call_def reply_def)
  from auth_gate [OF sample_jwt_contract a] bearer_sample [of c]
  have "jl_Verify sample_jwt SigningMethodHMAC [1, 2, 3] (sample_token [1, 2, 3] c)" by (auto simp: sample_auth_def)
  with a show ?thesis by (intro exI [of _ c]) auto
qed

definition sample_registration :: RegisterRequest where
  "sample_registration = \<lparr>qr_Email = ''new@x.org'', qr_SRPSalt = ''0a'', qr_SRPVerifier = ''0b'', qr_BcryptSalt = ''s'',
     qr_CryptoSalt = StdEncoding_EncodeToString [1], qr_PublicKey = StdEncoding_EncodeToString (replicate 91 0),
     qr_EncryptedPrivateKey = StdEncoding_EncodeToString (replicate 69 0),
     qr_KEKEncryptedMaster = StdEncoding_EncodeToString (replicate 40 0),
     qr_KEKEncryptedRecovery = StdEncoding_EncodeToString (replicate 40 0), qr_RecoverySalt = StdEncoding_EncodeToString [2]\<rparr>"

lemma b64_field:
  "mn \<le> length bs \<Longrightarrow> mx = 0 \<or> length bs \<le> mx \<Longrightarrow> mustDecodeB64 (StdEncoding_EncodeToString bs) f mn mx k = k bs"
  by (auto simp: mustDecodeB64_def)

lemma sample_register:
  "\<exists>resp w'. register sample_deps (\<lambda>_. None) 60 3 61 sample_draws sample_request (Some sample_registration) (sample_aworld [])
     = (resp, w') \<and> rp_Status resp = 201"
proof -
  let ?w = "sample_aworld []"
  define p where "p = \<lparr>rg_Email = ''new@x.org'', rg_SRPSalt = ''0a'', rg_SRPVerifier = ''0b'', rg_BcryptSalt = ''s'',
     rg_CryptoSalt = [1], rg_PublicKey = replicate 91 0, rg_EncryptedPrivateKey = replicate 69 0, rg_KEKEncryptedMaster = replicate 40 0,
     rg_KEKEncryptedRecovery = replicate 40 0, rg_RecoverySalt = [2],
     rg_Device = parseDeviceInfo sample_request (ensureDeviceID sample_codec 60 sample_request (dp_RefreshCookie sample_deps))\<rparr>"
  have n: "normal_email sample_auth ''new@x.org'' = ''new@x.org''" unfolding normal_email_def by code_simp
  define row where "row = user_row_of 5 \<lparr>nu_ID = 3, nu_Email = ''new@x.org'', nu_SRPSalt = rg_SRPSalt p,
         nu_SRPVerifier = rg_SRPVerifier p, nu_BcryptSalt = rg_BcryptSalt p,
         nu_CryptoSalt = rg_CryptoSalt p, nu_PublicKey = rg_PublicKey p,
         nu_EncryptedPrivateKey = rg_EncryptedPrivateKey p,
         nu_KEKEncryptedMaster = rg_KEKEncryptedMaster p,
         nu_KEKEncryptedRecovery = rg_KEKEncryptedRecovery p,
         nu_RecoverySalt = rg_RecoverySalt p\<rparr>"
  let ?d = "(sample_auth_db [])\<lparr>users := users (sample_auth_db []) @ [row]\<rparr>"
  have row: "us_id row = 3" "us_email row = ''new@x.org''" by (simp_all add: row_def user_row_of_def)
  have "char_length ''new@x.org'' = 9" by (simp add: char_length_def)
  then have "insert_user row (sample_auth_db []) = Inr ((), ?d)"
    by (simp add: insert_user_def row) (simp add: sample_defs)
  then have c: "Register sample_auth 3 61 sample_draws p ?w = issueTokenPair sample_auth 61 sample_draws 3 (rg_Device p) (?w\<lparr>w_db := ?d\<rparr>)"
    by (simp add: Register_def bindE_def CreateUser_pg_def map_err_def db_call_nil n row_def) (simp add: p_def n)
  let ?w1 = "?w\<lparr>w_db := ?d\<rparr>"
  have ok: "w_faults ?w1 = []" "auth_ok (w_db ?w1)"
    using sample_auth_ok(1) by (auto simp: auth_defs row) (auto simp: sample_defs)
  have i: "issuable sample_auth sample_draws (w_db ?w1) 3" "61 \<notin> ds_ID ` set (device_sessions (w_db ?w1))" "0 < as_RefreshTTL sample_auth"
    by (auto simp: issuable_def row user_exists_def sample_draws_def sample_jwt_def sample_defs)
  have "\<exists>pair w1. Register sample_auth 3 61 sample_draws p ?w = (Inr pair, w1)"
    unfolding c by (rule issueTokenPair_total [OF ok i, of "rg_Device p"]) blast
  then obtain pair w1 where "Register sample_auth 3 61 sample_draws p ?w = (Inr pair, w1)" by blast
  then show ?thesis
    by (simp add: register_def decoded_def sample_registration_def b64_field ecSpkiLen_def Let_def call_def p_def
        setDeviceCookie_def set_cookie_def writeRegisterResponse_def setAuthCookie_def setRefreshTokenCookie_def reply_def)
      (simp add: sample_deps_def sample_auth_def set_cookie_def reply_def)
qed

theorem register_key_sizes_witness:
  "\<exists>resp w' row. register sample_deps (\<lambda>_. None) 60 3 61 sample_draws sample_request (Some sample_registration) (sample_aworld [])
     = (resp, w') \<and> row \<in> set (users (w_db w')) \<and> us_id row = 3"
proof -
  obtain resp w' where r: "register sample_deps (\<lambda>_. None) 60 3 61 sample_draws sample_request (Some sample_registration) (sample_aworld [])
     = (resp, w')" "rp_Status resp = 201"
    using sample_register by blast
  from register_key_sizes [OF r] r show ?thesis by blast
qed

end
