(* ===== verification/Server_Samples.thy ===== *)
theory Server_Samples
  imports Trash_Audit Cache_Steps Sharing_Samples Http_Samples
begin

text \<open>A server started from a small environment, and the properties of the whole server applied to it.\<close>

section \<open>A server and its world\<close>

definition sample_gdeps :: "(mem, string list) Deps" where
  "sample_gdeps = \<lparr>dp_Auth = sample_auth, dp_LoginRateLimiter = dp_LoginRateLimiter sample_deps,
     dp_PublicKeyRateLimiter = dp_PublicKeyRateLimiter sample_deps, dp_RefreshCookie = dp_RefreshCookie sample_deps,
     dp_Blobs = mem_service, dp_Trash = mem_service, dp_Sharing = mem_sharing\<rparr>"

text \<open>The counter of the address of \<open>sample_request\<close> is at \<open>n\<close>.\<close>

definition sample_gworld :: "int64 \<Rightarrow> (mem, string list) gworld" where
  "sample_gworld n = \<lparr>w_db = w_db (shared_world [sample_share None]), w_now = 10, w_faults = [],
     w_redis = (\<lambda>_. None, [''rl:login:10.0.0.1'' \<mapsto> (n, Some 100)]), w_queue = [], w_mails = [], w_objects = [''k1'', ''k2'']\<rparr>"

lemma sample_gworld_sel [simp]:
  "w_now (sample_gworld n) = 10" "w_faults (sample_gworld n) = []" "w_queue (sample_gworld n) = []"
  "w_db (sample_gworld n) = w_db (shared_world [sample_share None])"
  "snd (w_redis (sample_gworld n)) = [''rl:login:10.0.0.1'' \<mapsto> (n, Some 100)]"
  by (simp_all add: sample_gworld_def)

lemma shared_auth_ok: "auth_ok (w_db (shared_world ss))"
  by (simp add: auth_defs shared_defs)

lemma shared_ok:
  "wf_db 10 (w_db (shared_world [sample_share None]))" "shares_ok (w_db (shared_world [sample_share None]))"
  "favorites_ok (w_db (shared_world [sample_share None]))"
  using shared_linked(2) [of None] by (simp_all add: linked_def)

section \<open>Cases of the router\<close>

theorem server_reachable_consistent_witness:
  "\<forall>pf. \<exists>w'. (server_step sample_gdeps pf Some)\<^sup>*\<^sup>* (sample_gworld 0) w' \<and> shares_ok (w_db w') \<and> auth_ok (w_db w')"
proof
  fix pf
  let ?w' = "snd (at_storage (CleanExpiredTrash (dp_Trash sample_gdeps) 1) (sample_gworld 0))"
  have s: "(server_step sample_gdeps pf Some)\<^sup>*\<^sup>* (sample_gworld 0) ?w'"
    by (intro r_into_rtranclp server_step.trash_job)
  have "wf_db (w_now ?w') (w_db ?w') \<and> shares_ok (w_db ?w') \<and> favorites_ok (w_db ?w') \<and> auth_ok (w_db ?w')
    \<and> history (w_db (sample_gworld 0)) (w_db ?w')"
    by (rule server_reachable_consistent [OF s]) (simp_all add: shared_ok shared_auth_ok)
  with s show "\<exists>w'. (server_step sample_gdeps pf Some)\<^sup>*\<^sup>* (sample_gworld 0) w' \<and> shares_ok (w_db w') \<and> auth_ok (w_db w')" by blast
qed

lemma no_bearer: "bearer_token sample_request = None"
  by code_simp

lemma favorites_entry:
  "(''GET'', ''/favorites/'', gate d (\<lambda>rq. answer PFavorites (favoritesList d rq))) \<in> set (NewRouter d pf rn)"
  by (simp add: NewRouter_def Use_def Route_def protected_routes_def favorite_routes_def)

theorem unauthenticated_changes_nothing_witness:
  "\<forall>pf rn. \<exists>h fs. (''GET'', ''/favorites/'', h) \<in> set (NewRouter sample_gdeps pf rn)
     \<and> rp_Status (fst (h sample_request (sample_gworld 0))) \<in> {401, 503}
     \<and> snd (h sample_request (sample_gworld 0)) = (sample_gworld 0)\<lparr>w_faults := fs\<rparr>"
proof (intro allI)
  fix pf rn
  let ?h = "gate sample_gdeps (\<lambda>rq. answer PFavorites (favoritesList sample_gdeps rq))"
  have "rp_Status (fst (?h sample_request (sample_gworld 0))) \<in> {401, 503}
      \<and> (\<exists>fs. snd (?h sample_request (sample_gworld 0)) = (sample_gworld 0)\<lparr>w_faults := fs\<rparr>)"
    by (rule unauthenticated_changes_nothing [OF favorites_entry]) (simp_all add: no_bearer)
  then show "\<exists>h fs. (''GET'', ''/favorites/'', h) \<in> set (NewRouter sample_gdeps pf rn)
     \<and> rp_Status (fst (h sample_request (sample_gworld 0))) \<in> {401, 503}
     \<and> snd (h sample_request (sample_gworld 0)) = (sample_gworld 0)\<lparr>w_faults := fs\<rparr>"
    using favorites_entry by blast
qed

lemma trash_entry: "(''DELETE'', ''/trash/'', gate d (\<lambda>rq. silent (trashEmpty d rq))) \<in> set (NewRouter d pf rn)"
  by (simp add: NewRouter_def Use_def Route_def protected_routes_def trash_routes_def)

text \<open>User 1 empties the trash; what user 7 owns stays.\<close>

theorem requests_isolated_witness:
  "\<forall>pf rn. \<exists>h c. (''DELETE'', ''/trash/'', h) \<in> set (NewRouter sample_gdeps pf rn)
     \<and> bearer_token (with_token (sample_token [1, 2, 3] c)) = Some (sample_token [1, 2, 3] c)
     \<and> tenant_view 7 (w_db (snd (h (with_token (sample_token [1, 2, 3] c)) (sample_gworld 0)))) = tenant_view 7 (w_db (sample_gworld 0))"
proof (intro allI)
  fix pf rn
  let ?h = "gate sample_gdeps (\<lambda>rq. silent (trashEmpty sample_gdeps rq))"
  obtain c ex where i: "IssueAccess sample_jwt sample_codec (as_Tokens sample_auth) 1 10 5 = Inr (sample_token [1, 2, 3] c, ex)"
    using sample_issue by blast
  have p: "ParseAccessToken sample_jwt sample_codec (as_Tokens sample_auth) 10 (sample_token [1, 2, 3] c) = Inr (1, 10)"
    using parse_issued [OF sample_jwt_contract sample_uuid_text i, of 10] by (simp add: sample_auth_def)
  have "tenant_view 7 (w_db (snd (?h (with_token (sample_token [1, 2, 3] c)) (sample_gworld 0)))) = tenant_view 7 (w_db (sample_gworld 0))"
  proof (rule requests_isolated [OF trash_entry])
    fix tok sid assume "bearer_token (with_token (sample_token [1, 2, 3] c)) = Some tok"
    then have "tok = sample_token [1, 2, 3] c" by (simp add: bearer_sample)
    with p show "ParseAccessToken (as_Jwt (dp_Auth sample_gdeps)) (dp_Codec sample_gdeps) (as_Tokens (dp_Auth sample_gdeps))
        (w_now (sample_gworld 0)) tok \<noteq> Inr (7, sid)"
      by (simp add: sample_gdeps_def sample_auth_def)
  qed (use shared_linked(2) [of None] shared_auth_ok in simp_all)
  then show "\<exists>h c. (''DELETE'', ''/trash/'', h) \<in> set (NewRouter sample_gdeps pf rn)
     \<and> bearer_token (with_token (sample_token [1, 2, 3] c)) = Some (sample_token [1, 2, 3] c)
     \<and> tenant_view 7 (w_db (snd (h (with_token (sample_token [1, 2, 3] c)) (sample_gworld 0)))) = tenant_view 7 (w_db (sample_gworld 0))"
    using trash_entry bearer_sample by blast
qed

theorem trashEmpty_audited_witness:
  "rp_Status (fst (trashEmpty sample_gdeps (sample_request\<lparr>rq_ctxUserID := Some 7\<rparr>) (sample_gworld 0))) = 204
   \<and> map au_ResourceID (w_queue (snd (trashEmpty sample_gdeps (sample_request\<lparr>rq_ctxUserID := Some 7\<rparr>) (sample_gworld 0)))) = [Some 12, Some 3]"
proof -
  let ?rq = "sample_request\<lparr>rq_ctxUserID := Some 7\<rparr>"
  have ev: "map au_ResourceID (deletion_events ?rq 7 (w_db (sample_gworld 0))) = [Some 12, Some 3]"
    by (simp add: deletion_events_def shared_defs sample_blob_def sample_folder_def auditEvent_def)
  have "length (deletion_events ?rq 7 (w_db (sample_gworld 0))) = 2" using arg_cong [OF ev, of length] by simp
  then have "take queueSize (deletion_events ?rq 7 (w_db (sample_gworld 0))) = deletion_events ?rq 7 (w_db (sample_gworld 0))"
    by (simp add: queueSize_def)
  moreover have "rp_Status (fst (trashEmpty sample_gdeps ?rq (sample_gworld 0))) = 204
      \<and> w_queue (snd (trashEmpty sample_gdeps ?rq (sample_gworld 0)))
        = take queueSize (w_queue (sample_gworld 0) @ deletion_events ?rq 7 (w_db (sample_gworld 0)))"
    using trashEmpty_audited [of "sample_gworld 0" ?rq 7 sample_gdeps] by (simp add: shared_ok)
  ultimately show ?thesis using ev by simp
qed

section \<open>Starting a server\<close>

definition sample_env :: environment where
  "sample_env = \<lparr>LookupEnv = [''DATABASE_URL'' \<mapsto> ''db'', ''REDIS_URL'' \<mapsto> ''rd'', ''JWT_SECRET'' \<mapsto> replicate 32 CHR ''k'',
     ''MINIO_ENDPOINT'' \<mapsto> ''s3'', ''MINIO_ACCESS_KEY'' \<mapsto> ''a'', ''MINIO_SECRET_KEY'' \<mapsto> ''s'',
     ''REFRESH_COOKIE_SECURE'' \<mapsto> ''true'', ''JWT_ACCESS_TTL'' \<mapsto> ''15m''],
     uni_lower = id, float_nanos = (\<lambda>f n unit. f * unit div 10 ^ n)\<rparr>"

definition sample_libs :: "(mem, string list) libraries" where
  "sample_libs = \<lparr>lb_ParseLevel = (\<lambda>_. True), lb_pgx_ParseConfig = (\<lambda>_. True), lb_pgx_New = (\<lambda>_. True), lb_pgx_Ping = (\<lambda>_. True),
     lb_redis_ParseURL = Some, lb_redis_NewClient = (\<lambda>_. mem_redis), lb_redis_Ping = (\<lambda>_. True),
     lb_minio_New = (\<lambda>_ _ _ _ _. Some mem_client), lb_url_Parse = (\<lambda>_. None), lb_jwt = sample_jwt, lb_codec = sample_codec\<rparr>"

lemma sample_duration: "ParseDuration nanos ''15m'' = Some 900000000000"
proof -
  have i: "leadingInt 0 ''15m'' = Some (15, ''m'')" by (simp add: digit_of_def)
  have u: "unitMap ''m'' = Some 60000000000" "\<not> is_numeric CHR ''m''"
    by (simp_all add: unitMap_def is_numeric_def digit_of_def)
  have "duration_term nanos ''15m'' = Some (900000000000, [])"
    unfolding duration_term_def i by (simp add: u) (simp add: is_numeric_def digit_of_def)
  then have "duration_terms nanos 0 ''15m'' = Some 900000000000"
    by (subst duration_terms.simps, simp only: option.case prod.case Let_def) (subst duration_terms.simps, simp)
  then show ?thesis by (simp add: ParseDuration_def cut_sign_def)
qed

lemma sample_strings:
  "envStr sample_env ''DATABASE_URL'' [] = ''db''" "envStr sample_env ''REDIS_URL'' [] = ''rd''"
  "envStr sample_env ''JWT_SECRET'' [] = replicate 32 CHR ''k''" "envStr sample_env ''MINIO_ENDPOINT'' [] = ''s3''"
  "envStr sample_env ''MINIO_ACCESS_KEY'' [] = ''a''" "envStr sample_env ''MINIO_SECRET_KEY'' [] = ''s''"
  "envStr sample_env ''REFRESH_COOKIE_SAMESITE'' x = x" "envStr sample_env ''REFRESH_COOKIE_NAME'' x = x"
  "envStr sample_env ''REFRESH_COOKIE_PATH'' x = x" "envStr sample_env ''REFRESH_COOKIE_DOMAIN'' x = x"
  "envStr sample_env ''MINIO_PUBLIC_ENDPOINT'' x = x" "envBool sample_env ''REFRESH_COOKIE_SECURE'' False = True"
  by (simp_all add: envStr_def envBool_def ParseBool_def sample_env_def)

lemma sample_durations:
  "duration_errs sample_env ''TRASH_TTL'' = []" "duration_errs sample_env ''HTTP_READ_HEADER_TIMEOUT'' = []"
  "duration_errs sample_env ''HTTP_READ_TIMEOUT'' = []" "duration_errs sample_env ''HTTP_WRITE_TIMEOUT'' = []"
  "duration_errs sample_env ''HTTP_IDLE_TIMEOUT'' = []" "duration_errs sample_env ''HTTP_SHUTDOWN_TIMEOUT'' = []"
  "duration_errs sample_env ''JWT_REFRESH_TTL'' = []" "duration_errs sample_env ''JWT_ACCESS_TTL'' = []"
  "duration_errs sample_env ''MINIO_PRESIGN_TTL'' = []" "duration_value sample_env ''JWT_REFRESH_TTL'' x = x"
  by (simp_all add: duration_errs_def duration_value_def requirePosDuration_def sample_env_def sample_duration)

lemma sample_load: "\<exists>cfg. Load sample_env = Inr cfg \<and> rc_Name (cf_RefreshCookie cfg) = ''__Host-refresh_token''
   \<and> mc_PublicEndpoint (cf_MinIO cfg) = [] \<and> mc_Endpoint (cf_MinIO cfg) = ''s3''"
proof -
  have "snd (run_state (build sample_env) []) = []"
    by (simp add: build_defs sample_strings sample_durations maxRefreshTTL_def sec_def)
  then show ?thesis
    by (simp add: Load_def split_beta) (simp add: build_defs sample_strings)
qed

lemma sample_start:
  "\<exists>cfg wired. start sample_libs sample_env [] = (Inr (cfg, wired), []) \<and> rc_Name (cf_RefreshCookie cfg) = ''__Host-refresh_token''
     \<and> as_Redis (dp_Auth (wd_router wired)) = mem_redis"
proof -
  obtain cfg where "Load sample_env = Inr cfg" "rc_Name (cf_RefreshCookie cfg) = ''__Host-refresh_token''"
    "mc_PublicEndpoint (cf_MinIO cfg) = []" "mc_Endpoint (cf_MinIO cfg) = ''s3''"
    using sample_load by blast
  then show ?thesis
    by (simp add: start_def Run_def lift_result_def bindE_def ret_def NewPool_def NewClient_def NewStore_def store_config_def
        EnsureBucket_def map_err_def Let_def sample_libs_def mem_client_def)
qed

lemma logout_entry:
  "(''POST'', ''/auth/logout'', loginRL d (\<lambda>rq. silent (at_auth (logout d rq)))) \<in> set (NewRouter d pf rn)"
  by (simp add: NewRouter_def Use_def Route_def auth_routes_def)

lemma sample_realIP: "realIP sample_request = ''10.0.0.1''"
  by code_simp

theorem auth_throttled_witness:
  "\<forall>pf rn. \<exists>cfg wired h. start sample_libs sample_env [] = (Inr (cfg, wired), [])
     \<and> (''POST'', ''/auth/logout'', h) \<in> set (NewRouter (wd_router wired) pf rn)
     \<and> rp_Status (fst (h sample_request (sample_gworld 10))) = 429"
proof (intro allI)
  fix pf rn
  obtain cfg wired where s: "start sample_libs sample_env [] = (Inr (cfg, wired), [])"
    and r: "as_Redis (dp_Auth (wd_router wired)) = mem_redis" using sample_start by blast
  let ?h = "loginRL (wd_router wired) (\<lambda>rq. silent (at_auth (logout (wd_router wired) rq)))"
  have "rp_Status (fst (?h sample_request (sample_gworld 10))) = 429
      \<and> (\<exists>r. snd (?h sample_request (sample_gworld 10)) = (sample_gworld 10)\<lparr>w_redis := r\<rparr>)"
    by (rule auth_throttled [OF s _ logout_entry, where cell = snd and n = 10 and dl = 100])
      (simp_all add: r mem_counter_contract sample_realIP)
  with s show "\<exists>cfg wired h. start sample_libs sample_env [] = (Inr (cfg, wired), [])
     \<and> (''POST'', ''/auth/logout'', h) \<in> set (NewRouter (wd_router wired) pf rn)
     \<and> rp_Status (fst (h sample_request (sample_gworld 10))) = 429"
    using logout_entry by blast
qed

lemma logout_cookie:
  "rp_Cookies (fst (silent (at_auth (logout d rq)) w)) = [(baseRefreshCookie (dp_RefreshCookie d))\<lparr>ck_Value := [], ck_MaxAge := -1\<rparr>]"
  by (simp add: answer_def at_auth_def within_def logout_def Let_def call_def clearRefreshTokenCookie_def set_cookie_def reply_def
      split: prod.split sum.split)

theorem cookies_accepted_witness:
  "\<forall>pf rn. \<exists>cfg wired h c. start sample_libs sample_env [] = (Inr (cfg, wired), [])
     \<and> (''POST'', ''/auth/logout'', h) \<in> set (NewRouter (wd_router wired) pf rn)
     \<and> c \<in> set (rp_Cookies (fst (h sample_request (sample_gworld 0)))) \<and> prefix ''__Host-'' (ck_Name c) \<and> browser_accepts c"
proof (intro allI)
  fix pf rn
  obtain cfg wired where s: "start sample_libs sample_env [] = (Inr (cfg, wired), [])"
    and name: "rc_Name (cf_RefreshCookie cfg) = ''__Host-refresh_token''" and rd: "as_Redis (dp_Auth (wd_router wired)) = mem_redis"
    using sample_start by blast
  obtain rc ms where wd: "wired = wireDeps sample_libs (uni_lower sample_env) cfg rc ms" using s by (rule startD)
  then have rc: "rc = mem_redis" using rd by simp
  let ?h = "loginRL (wd_router wired) (\<lambda>rq. silent (at_auth (logout (wd_router wired) rq)))"
  let ?c = "(baseRefreshCookie (cf_RefreshCookie cfg))\<lparr>ck_Value := [], ck_MaxAge := -1\<rparr>"
  let ?l = "\<lparr>rl_prefix = ''rl:login:'', rl_limit = 10, rl_window = 60 * sec\<rparr>"
  have "\<exists>r. Allow mem_redis ?l ''10.0.0.1'' (sample_gworld 0) = (Inr True, r)"
    by (simp add: Allow_nil mem_redis_def) (simp add: word_sle_eq)
  then obtain r where "Allow mem_redis ?l ''10.0.0.1'' (sample_gworld 0) = (Inr True, r)" by blast
  then have "rp_Cookies (fst (?h sample_request (sample_gworld 0))) = [?c]"
    by (simp add: loginRL_def RateLimitMiddleware_def call_def wd rc sample_realIP logout_cookie)
  then have c: "?c \<in> set (rp_Cookies (fst (?h sample_request (sample_gworld 0))))" by simp
  have "browser_accepts ?c \<longleftrightarrow> (prefix ''__Secure-'' (ck_Name ?c) \<longrightarrow> ck_Secure ?c)"
    using cookies_accepted [OF s logout_entry c] by blast
  moreover have "prefix ''__Host-'' (ck_Name ?c)" "\<not> prefix ''__Secure-'' (ck_Name ?c)"
    by (simp_all add: baseRefreshCookie_def name)
  ultimately show "\<exists>cfg wired h c. start sample_libs sample_env [] = (Inr (cfg, wired), [])
     \<and> (''POST'', ''/auth/logout'', h) \<in> set (NewRouter (wd_router wired) pf rn)
     \<and> c \<in> set (rp_Cookies (fst (h sample_request (sample_gworld 0)))) \<and> prefix ''__Host-'' (ck_Name c) \<and> browser_accepts c"
    using s c logout_entry by blast
qed

section \<open>Redis over time\<close>

lemma mem_counter_frame: "counter_frame mem_view mem_redis"
  by (auto simp: counter_frame_def mem_redis_def mem_view_def split: option.splits)

lemma sample_cache_laws: "cache_laws mem_view sample_gdeps"
  using mem_redis_contract mem_counter_frame sample_uuid_text
  by (simp add: cache_laws_def sample_gdeps_def sample_deps_def sample_auth_def)

lemma sample_gdeps_auth [simp]: "dp_Auth sample_gdeps = sample_auth"
  by (simp add: sample_gdeps_def)

text \<open>User 1 revokes device session 10; a request with its token is made later, with failures ahead.\<close>

theorem revoked_session_locked_out_witness:
  "\<forall>pf rn. \<exists>c resp w1 w2 h. at_auth (revokeSession sample_gdeps sample_request) (put_auth (sample_gworld 0) (sample_aworld [])) = (resp, w1)
     \<and> rp_Status resp = 204 \<and> w2 = w1\<lparr>w_now := 8, w_faults := [FailAfter]\<rparr>
     \<and> (''GET'', ''/favorites/'', h) \<in> set (NewRouter sample_gdeps pf rn)
     \<and> rp_Status (fst (h (with_token (sample_token [1, 2, 3] c)) w2)) \<in> {401, 503}"
proof (intro allI)
  fix pf rn
  let ?a = "sample_aworld []" and ?r = "sample_device 10 1 ''d1''"
  let ?w = "put_auth (sample_gworld 0) ?a"
  have ap: "auth_part ?w = ?a" by (rule auth.get_put)
  obtain c ex where i: "IssueAccess sample_jwt sample_codec (as_Tokens sample_auth) 1 10 5 = Inr (sample_token [1, 2, 3] c, ex)"
    using sample_issue by blast
  have pr: "cd_Parse sample_codec (rq_Param sample_request ''id'') = Some 10"
    using sample_uuid_text by (simp add: uuid_text_def sample_request_def sample_codec_def)
  have "RevokeSession_pg (ds_ID ?r) (ds_UserID ?r) ?a
      = (Inr (), ?a\<lparr>w_db := revoke_session_at (w_now ?a) (ds_ID ?r, ds_UserID ?r) (w_db ?a)\<rparr>)"
    by (rule RevokeSession_nil) (simp_all add: sample_defs)
  then have "\<exists>w1. RevokeDeviceSession sample_auth 1 10 ?a = (Inr (), w1)"
    by (simp add: RevokeDeviceSession_def bindE_def ignore_cw sample_device_def)
  then obtain resp a1 where ra: "revokeSession sample_gdeps sample_request ?a = (resp, a1)" and st: "rp_Status resp = 204"
    using pr by (auto simp: revokeSession_def MustUserID_def call_def logged_async_def reply_def sample_request_def
        sample_auth_def)
  define w1 where "w1 = put_auth ?w a1"
  have r: "at_auth (revokeSession sample_gdeps sample_request) ?w = (resp, w1)" and n: "w_now w1 = w_now a1"
    by (simp_all add: at_auth_def within_def ap ra w1_def) (simp add: put_auth_def)
  have "w_now a1 = 5"
    using revokeSession_blocks(2) [of ?a sample_gdeps sample_request resp a1 10] ra st pr
    by (simp add: sample_auth_def)
  with n have s: "(running_step sample_gdeps pf Some (\<lambda>_. True))\<^sup>*\<^sup>* w1 (w1\<lparr>w_now := 8, w_faults := [FailAfter]\<rparr>)"
    by (intro r_into_rtranclp running_step.tick) simp
  have d: "as_Redis sample_auth = mem_redis" "as_Codec sample_auth = sample_codec" "as_Jwt sample_auth = sample_jwt"
    "as_AccessTTL sample_auth = 900 * 10 ^ 9" "js_accessTTL (as_Tokens sample_auth) = 900 * 10 ^ 9"
    by (simp_all add: sample_auth_def)
  note h = favorites_entry [of sample_gdeps pf rn]
  have "rp_Status (fst (gate sample_gdeps (\<lambda>rq. answer PFavorites (favoritesList sample_gdeps rq))
      (with_token (sample_token [1, 2, 3] c)) (w1\<lparr>w_now := 8, w_faults := [FailAfter]\<rparr>))) \<in> {401, 503}
    \<and> (\<exists>fs. snd (gate sample_gdeps (\<lambda>rq. answer PFavorites (favoritesList sample_gdeps rq))
      (with_token (sample_token [1, 2, 3] c)) (w1\<lparr>w_now := 8, w_faults := [FailAfter]\<rparr>)) = (w1\<lparr>w_now := 8, w_faults := [FailAfter]\<rparr>)\<lparr>w_faults := fs\<rparr>)"
    by (rule revoked_session_locked_out [OF sample_cache_laws _ _ _ _ r st _ _ s _ _ bearer_sample h, where i = 10 and u = 1 and ?t0.0 = 5 and ex = ex])
      (use sample_jwt_contract pr i in \<open>simp_all add: d part_defs\<close>)
  with r st h show "\<exists>c resp w1 w2 h. at_auth (revokeSession sample_gdeps sample_request) ?w = (resp, w1)
     \<and> rp_Status resp = 204 \<and> w2 = w1\<lparr>w_now := 8, w_faults := [FailAfter]\<rparr>
     \<and> (''GET'', ''/favorites/'', h) \<in> set (NewRouter sample_gdeps pf rn)
     \<and> rp_Status (fst (h (with_token (sample_token [1, 2, 3] c)) w2)) \<in> {401, 503}" by blast
qed

text \<open>
  A pending login is stored under identifier 7. A first attempt finds it; a second one, after the clock
  moved and with a failure ahead, is refused.
\<close>

theorem login_attempt_single_use_witness:
  "\<forall>pf. \<exists>(w :: (mem, string list) gworld) e v w1 w2. Consume_srp mem_redis sample_codec 7 (auth_part w) = (Inr (Some e), v)
     \<and> snd (at_auth (LoginFinalize sample_auth 50 sample_draws (sample_finalize ''0a'')) w) = w1
     \<and> w2 = w1\<lparr>w_now := w_now w1 + 3, w_faults := [FailAfter]\<rparr>
     \<and> fst (at_auth (LoginFinalize sample_auth 51 sample_draws (sample_finalize ''0b'')) w2) = Inl ErrInvalidCredentials"
proof
  fix pf
  let ?a = "sample_aworld []"
  define e where "e = login_entry (user_of_row (sample_account 1 ''ann@x.org'')) ''ann@x.org'' ''0c''
      \<lparr>ss_verifier = 5, ss_b = 6, ss_B = 7\<rparr> 5"
  have e: "en_ExpiresAt e = 5 + SRPSessionTTL" by (simp add: e_def login_entry_def)
  obtain r where st: "Store_srp mem_redis sample_codec 7 e ?a = (Inr True, ?a\<lparr>w_redis := r\<rparr>)"
    using Store_srp_ok [OF mem_redis_contract sample_json_safe, of ?a e 7 thesis] by (auto simp: e SRPSessionTTL_def)
  obtain v where c: "Consume_srp mem_redis sample_codec 7 (?a\<lparr>w_redis := r, w_now := 6\<rparr>) = (Inr (Some (rounded e)), v)"
    using srp_store_roundtrip [OF mem_redis_contract sample_uuid_text sample_json_safe, of ?a e 6 7] st
    by (auto simp: e SRPSessionTTL_def)
  define w where "w = put_auth (sample_gworld 0) (?a\<lparr>w_redis := r, w_now := 6\<rparr>)"
  have ap: "auth_part w = ?a\<lparr>w_redis := r, w_now := 6\<rparr>" unfolding w_def by (rule auth.get_put)
  obtain res w1 where l: "at_auth (LoginFinalize sample_auth 50 sample_draws (sample_finalize ''0a'')) w = (res, w1)"
    by (rule prod.exhaust)
  have p: "cd_Parse (as_Codec sample_auth) (lf_SessionID (sample_finalize ''0a'')) = Some 7"
    using sample_uuid_text by (simp add: uuid_text_def sample_auth_def sample_finalize_def sample_codec_def)
  have s: "(running_step sample_gdeps pf Some (\<lambda>j. j \<noteq> 7))\<^sup>*\<^sup>* w1 (w1\<lparr>w_now := w_now w1 + 3, w_faults := [FailAfter]\<rparr>)"
    by (intro r_into_rtranclp running_step.tick) simp
  have "if fst (pop_fault (auth_part w)) = FailBefore then res = Inl ErrInvalidCredentials
     else fst (at_auth (LoginFinalize (dp_Auth sample_gdeps) 51 sample_draws (sample_finalize ''0b''))
       (w1\<lparr>w_now := w_now w1 + 3, w_faults := [FailAfter]\<rparr>)) = Inl ErrInvalidCredentials"
    by (rule login_attempt_single_use [OF sample_cache_laws _ _ _ s, where p = "sample_finalize ''0a''" and i = 50 and dr = sample_draws])
      (simp_all add: p l, simp_all add: sample_finalize_def)
  then show "\<exists>(w :: (mem, string list) gworld) e v w1 w2. Consume_srp mem_redis sample_codec 7 (auth_part w) = (Inr (Some e), v)
     \<and> snd (at_auth (LoginFinalize sample_auth 50 sample_draws (sample_finalize ''0a'')) w) = w1
     \<and> w2 = w1\<lparr>w_now := w_now w1 + 3, w_faults := [FailAfter]\<rparr>
     \<and> fst (at_auth (LoginFinalize sample_auth 51 sample_draws (sample_finalize ''0b'')) w2) = Inl ErrInvalidCredentials"
    using c l by - (rule exI [of _ w], rule exI [of _ "rounded e"], rule exI [of _ v], simp add: ap)
qed

end
