(* ===== verification/Mailer.thy ===== *)
theory Mailer
  imports Prelude
begin

text \<open>
  \<open>pkg/mailer/mailer.go\<close>: notifications through the Resend API. The wording of the mails (the formats and
  HTML templates) is a parameter, as are the encoding of the request and the HTTP client; which request
  goes out, to whom, and what its outcome means is the program's.
\<close>

section \<open>Data\<close>

record MailerConfig =
  ml_ResendAPIKey :: string
  ml_From :: string

record loginEmailData =
  le_DeviceName :: string
  le_IPAddress :: string
  le_Time :: string

record shareEmailData =
  se_OwnerEmail :: string
  se_FileName :: string

record resetEmailData =
  re_ResetURL :: string

record resendRequest =
  rs_From :: string
  rs_To :: "string list"
  rs_Subject :: string
  rs_Text :: string
  rs_HTML :: string

record http_post =
  hp_URL :: string
  hp_Authorization :: string
  hp_ContentType :: string
  hp_Body :: string

text \<open>What a request comes back with: no response, or a status, a body, and whether closing it worked.\<close>

datatype http_reply = NoResponse | Response nat string bool

record mail_library =
  json_Marshal :: "resendRequest \<Rightarrow> string option"
  http_NewRequest :: "http_post \<Rightarrow> bool"
  http_Do :: "http_post \<Rightarrow> http_reply"
  format_time :: "time \<Rightarrow> string"

record mail_texts =
  mt_login :: "string \<times> (loginEmailData \<Rightarrow> string) \<times> (loginEmailData \<Rightarrow> string option)"
  mt_share :: "string \<times> (shareEmailData \<Rightarrow> string) \<times> (shareEmailData \<Rightarrow> string option)"
  mt_reset :: "string \<times> (resetEmailData \<Rightarrow> string) \<times> (resetEmailData \<Rightarrow> string option)"

datatype mail_err = RenderErr | MarshalErr | BuildErr | RequestErr | HTTPStatus nat string | CloseErr

section \<open>Operations\<close>

definition resend_post :: "MailerConfig \<Rightarrow> string \<Rightarrow> http_post" where
  "resend_post cfg payload =
     \<lparr>hp_URL = ''https://api.resend.com/emails'', hp_Authorization = ''Bearer '' @ ml_ResendAPIKey cfg,
      hp_ContentType = ''application/json'', hp_Body = payload\<rparr>"

text \<open>The state is the list of requests that went out.\<close>

definition send ::
  "mail_library \<Rightarrow> MailerConfig \<Rightarrow> string \<Rightarrow> string \<Rightarrow> string \<Rightarrow> string \<Rightarrow> (http_post list, mail_err, unit) eff" where
  "send lb cfg to subject plain html =
     (if ml_ResendAPIKey cfg = [] then ret ()
      else (case json_Marshal lb \<lparr>rs_From = ml_From cfg, rs_To = [to], rs_Subject = subject, rs_Text = plain, rs_HTML = html\<rparr> of
          None \<Rightarrow> fail MarshalErr
        | Some payload \<Rightarrow>
            (let req = resend_post cfg payload in
             if \<not> http_NewRequest lb req then fail BuildErr
             else (\<lambda>sent.
               (case http_Do lb req of
                  NoResponse \<Rightarrow> Inl RequestErr
                | Response status body closed \<Rightarrow>
                    if status \<ge> 300 then Inl (HTTPStatus status (take 512 body))
                    else if closed then Inr () else Inl CloseErr,
                sent @ [req])))))"

text \<open>A notification: the subject, the plain text and the HTML of its data, rendered before anything is sent.\<close>

definition notify_mail ::
  "mail_library \<Rightarrow> MailerConfig \<Rightarrow> string \<times> ('d \<Rightarrow> string) \<times> ('d \<Rightarrow> string option) \<Rightarrow> string \<Rightarrow> 'd
   \<Rightarrow> (http_post list, mail_err, unit) eff" where
  "notify_mail lb cfg texts toEmail data =
     (case texts of (subject, plain, render) \<Rightarrow>
        (case render data of None \<Rightarrow> fail RenderErr | Some html \<Rightarrow> send lb cfg toEmail subject (plain data) html))"

definition NotifyNewLogin ::
  "mail_library \<Rightarrow> mail_texts \<Rightarrow> MailerConfig \<Rightarrow> time \<Rightarrow> string \<Rightarrow> string \<Rightarrow> string \<Rightarrow> (http_post list, mail_err, unit) eff" where
  "NotifyNewLogin lb tx cfg now toEmail deviceName ipAddress =
     notify_mail lb cfg (mt_login tx) toEmail
       \<lparr>le_DeviceName = deviceName, le_IPAddress = ipAddress, le_Time = format_time lb now\<rparr>"

definition NotifyPasswordReset ::
  "mail_library \<Rightarrow> mail_texts \<Rightarrow> MailerConfig \<Rightarrow> string \<Rightarrow> string \<Rightarrow> (http_post list, mail_err, unit) eff" where
  "NotifyPasswordReset lb tx cfg toEmail resetURL = notify_mail lb cfg (mt_reset tx) toEmail \<lparr>re_ResetURL = resetURL\<rparr>"

definition NotifyNewShare ::
  "mail_library \<Rightarrow> mail_texts \<Rightarrow> MailerConfig \<Rightarrow> string \<Rightarrow> string \<Rightarrow> string \<Rightarrow> (http_post list, mail_err, unit) eff" where
  "NotifyNewShare lb tx cfg toEmail ownerEmail fileName =
     notify_mail lb cfg (mt_share tx) toEmail \<lparr>se_OwnerEmail = ownerEmail, se_FileName = fileName\<rparr>"

section \<open>Properties\<close>

text \<open>A mailer without a key is silent: notifications are switched off, not failing.\<close>

lemma send_disabled: "ml_ResendAPIKey cfg = [] \<Longrightarrow> send lb cfg to subject plain html sent = (Inr (), sent)"
  by (simp add: send_def ret_def)

text \<open>
  A notification sends at most one request, to the service, with the configured key; and when it reports
  success with a key, one request went out and was answered below 300.
\<close>

lemma send_at_most_one:
  "snd (send lb cfg to subject plain html sent) = sent
   \<or> (\<exists>payload. snd (send lb cfg to subject plain html sent) = sent @ [resend_post cfg payload])"
  by (auto simp: send_def ret_def fail_def Let_def split: option.split)

lemma send_success:
  assumes "ml_ResendAPIKey cfg \<noteq> []" and "send lb cfg to subject plain html sent = (Inr (), sent')"
  shows "\<exists>payload status body. sent' = sent @ [resend_post cfg payload]
    \<and> http_Do lb (resend_post cfg payload) = Response status body True \<and> status < 300
    \<and> json_Marshal lb \<lparr>rs_From = ml_From cfg, rs_To = [to], rs_Subject = subject, rs_Text = plain, rs_HTML = html\<rparr> = Some payload"
  using assms by (auto simp: send_def ret_def fail_def Let_def not_le split: option.splits if_splits http_reply.splits)

end
