(* ===== verification/Spec2Isabelle.thy ===== *)
theory Spec2Isabelle
  imports Server_Samples Mailer
begin

text \<open>
  A verification development for the zero-knowledge storage backend: a Go server that stores files
  encrypted by its clients, in an S3 object store (MinIO), with metadata in PostgreSQL and short-lived
  state in Redis. Paths below are relative to \<open>src/\<close>.

  \<^bold>\<open>The program and its parts.\<close>
  A request passes the middleware of \<open>internal/controller/restapi\<close> (bearer token, blocklist, rate
  limit) to a handler of its package \<open>v1\<close>, which calls a service of \<open>internal/usecase\<close>: \<open>auth\<close>
  (SRP-6a login, refresh tokens, device sessions, password reset), \<open>storage\<close> (files, folders, trash),
  \<open>sharing\<close>, \<open>favorites\<close>, \<open>audit\<close>. The services use the repositories of
  \<open>internal/repo/persistent/postgres\<close>, the stores of \<open>internal/repo/cache/redis\<close> and
  \<open>internal/repo/storage/minio\<close>, and \<open>pkg/srp\<close>, \<open>pkg/jwt\<close>, \<open>pkg/useragent\<close>, \<open>pkg/mailer\<close>.
  \<open>internal/app\<close> connects them from the settings of \<open>config\<close> and starts background jobs. Services share tables:
  shares and favorites point at files and folders, which the storage service trashes and deletes;
  revoking a device session changes PostgreSQL and then Redis, and the middleware reads only Redis.

  \<^bold>\<open>State and effects.\<close>
  \<open>Prelude\<close> has the machine types (\<open>int64\<close>, \<open>int32\<close> as words, identifiers, instants in
  nanoseconds), the effect of Go's \<open>(value, error)\<close> results (a function from a state to \<open>Inl\<close> of an
  error or \<open>Inr\<close> of a value, with the next state in both cases), and its Hoare triples. \<open>Schema\<close> has
  the rows of \<open>internal/entity\<close> as records, the database of \<open>migrations\<close> as a record of tables with
  its keys, foreign keys and \<open>ON DELETE\<close> actions, and the world: the database, the objects, the
  clock, and a schedule of faults. Each database or Redis call takes the next entry of the schedule: it
  passes, fails before it had an effect, or fails after it (the answer is lost). A call of the object
  store fails when its client, a parameter, says so. A theorem with an arbitrary world therefore holds
  for every pattern of failures; one that assumes an empty schedule says so in its text. A statement or
  a transaction is one call, so it is atomic; an operation is a sequence of calls, and a run is a
  sequence of operations. The authentication world adds the content of Redis and the audit queue,
  and the world of the server (\<open>Server\<close>) the objects: the services run on their parts of it.

  \<^bold>\<open>Theories.\<close>
  \<^item> \<open>Go_Strings\<close>, \<open>Encoding\<close>, \<open>Sha256\<close>: what the code uses of Go's standard library.
  \<^item> \<open>Blob_Repo\<close>, \<open>Folder_Tree\<close>, \<open>Folder_Repo\<close>: \<open>blobs.go\<close> and \<open>folders.go\<close>. \<open>Object_Store\<close>:
    \<open>minio/store.go\<close>. \<open>Storage_Service\<close>: \<open>usecase/storage/service.go\<close>, every method.
  \<^item> \<open>Storage_Invariant\<close>, \<open>Storage_Steps\<close>: the invariant \<open>wf_db\<close> of files and folders, the interface
    \<open>storage_tables\<close> (what a predicate on tables must survive, statement by statement, to survive
    every operation) and the state machine of the service. \<open>Storage_Trash\<close>, \<open>Storage_Objects\<close>,
    \<open>Storage_Isolation\<close>, \<open>Storage_Checks\<close>: trash, the order of changes in the two stores, separation
    of accounts, and the checks (names, quota, cycles, search texts).
  \<^item> \<open>Srp\<close>: \<open>pkg/srp/srp.go\<close>. \<open>Session_Repo\<close>: \<open>users.go\<close>, \<open>device_sessions.go\<close>,
    \<open>refresh_sessions.go\<close>, \<open>password_reset.go\<close>. \<open>Session_Store\<close>, \<open>Token_Store\<close>: their invariant,
    and the interface of single-use tokens they implement. \<open>Redis_Cache\<close>, \<open>Cache_Properties\<close>:
    \<open>cache/redis\<close>. \<open>Jwt\<close>: \<open>pkg/jwt/service.go\<close>. \<open>Audit_Log\<close>: \<open>usecase/audit\<close> and \<open>audit.go\<close>.
    \<open>Auth_Service\<close>: \<open>usecase/auth/service.go\<close>, every method. \<open>Auth_Invariant\<close>, \<open>Auth_Properties\<close>,
    \<open>Auth_Sessions\<close>, \<open>Auth_Login\<close>: what it keeps and achieves.
  \<^item> \<open>Sharing\<close>, \<open>Favorites\<close>: \<open>shares.go\<close>, \<open>favorites.go\<close> and their services. \<open>Links\<close>,
    \<open>Sharing_Properties\<close>: the three services over one database.
  \<^item> \<open>Http\<close>, \<open>Auth_Handlers\<close>, \<open>Http_Properties\<close>: middleware, helpers, and the handlers of \<open>auth.go\<close>,
    \<open>sessions.go\<close> and \<open>audit.go\<close>. \<open>Storage_Handlers\<close>: \<open>storage.go\<close>, \<open>folders.go\<close>, \<open>trash.go\<close>.
    \<open>Sharing_Handlers\<close>: \<open>sharing.go\<close>, \<open>favorites.go\<close>, \<open>health.go\<close>. \<open>Router\<close>: the table of \<open>router.go\<close>.
  \<^item> \<open>Auth_Frame\<close>, \<open>Server\<close>, \<open>Server_Routes\<close>: the interface \<open>server_tables\<close>, which extends \<open>storage_tables\<close>
    by the statements of sharing, favorites and sessions, and gives that every protected route keeps the
    predicate. It is interpreted twice: with all tables being consistent (\<open>Server_Invariant\<close>, which has the
    state machine of the server) and with what one user owns (\<open>Server_Isolation\<close>). \<open>Trash_Audit\<close>: one
    request in full. \<open>Cache_Frame\<close>: the interface \<open>cache_predicate\<close>, the same for predicates on the content
    of Redis; \<open>Cache_Steps\<close> interprets it with a session staying blocked and a pending login staying used,
    over the steps of a server that is the only one to change Redis.
  \<^item> \<open>Configuration\<close>: \<open>config/config.go\<close>. \<open>Wiring\<close>, \<open>Wiring_Properties\<close>: \<open>cmd/app/main.go\<close>, \<open>app.go\<close>,
    \<open>pool.go\<close>, and what a server started from a valid configuration does. \<open>Mailer\<close>: \<open>pkg/mailer\<close>.
  \<^item> \<open>Storage_Samples\<close>, \<open>Auth_Samples\<close>, \<open>Sharing_Samples\<close>, \<open>Http_Samples\<close>, \<open>Server_Samples\<close>: concrete
    instances of the parameters and worlds, at which the properties with hypotheses are applied.

  \<^bold>\<open>What is shown.\<close>
  Storage: in every reachable world references stay inside an account and a trashed folder has
  only trashed contents; no operation removes the object of a file that is visible afterwards,
  whatever fails; no user's operation changes what another user sees; purges and \<open>EmptyTrash\<close> never
  hit a foreign key and remove all they should; trashing a folder marks its subtree and restoring undoes
  that; a search returns exactly the matching rows, page by page; the folder graph stays
  a forest for moves within the depth the cycle check walks, and the check misses cycles below that
  depth. Authentication: a client that knows the password key completes a login and one that does not
  have the proof is refused; a pending login and a refresh token work once; presenting a used refresh
  token revokes the session and blocks its access tokens; logout, revocation and password reset end
  the sessions they should; the access tokens of a revoked session are refused by every protected route
  from then on, unless putting it on the blocklist failed; the token tables refine a map of usable
  tokens. Audit: events are stored in order, each at most three times, and once when nothing fails and
  the queue has room. Sharing: pointers never
  dangle, a download needs a share addressed to the caller that is neither revoked nor expired, and a
  revocation is final. HTTP: a handler behind the gate runs only with a verified, unblocked token;
  without one nothing changes; a request changes nothing that belongs to a user whose token it does not
  carry; and in any interleaving of requests, jobs, the audit worker, faults and time all tables stay
  consistent together. Start: \<open>Load\<close> reports every missing, malformed or contradictory value except quotas and
  flags that do not parse, and a started server sets only cookies that browsers accept (apart from the rule for the
  \<open>__Secure-\<close> prefix) and throttles the public routes.

  \<^bold>\<open>Fuel and bounds.\<close>
  A recursive query is a walk with as many rounds as there are folders plus one; \<open>Folder_Tree\<close> shows
  that this is exact: a walk that has not ended by then never ends, which is an error of the call.
  The cycle check of \<open>MoveFolder\<close> has the code's own bound of 100 levels. Sizes are 64-bit words and
  sums wrap where Go's do. \<open>ParseDuration\<close> recurses on the rest of the text, which each term shortens. The
  other loops recurse over lists.

  \<^bold>\<open>Parameters.\<close>
  Code outside the repository is an argument: the MinIO client (\<open>s3_safe\<close>), the Redis commands
  (\<open>redis_contract\<close>, \<open>counter_frame\<close> and the contracts of \<open>INCR\<close> and \<open>EXPIRE\<close>), the JWT library (\<open>jwt_contract\<close>), the
  text of identifiers, JSON, Unicode lower case beyond ASCII, the database's collation, PostgreSQL's
  \<open>inet\<close>, parsing and printing of instants, the verdict of the validator, the matching of patterns by the
  router library, the rounding of fractional durations, the drivers that connect to the databases, the
  HTTP client and the wording of mails. Identifiers and random bytes are arguments too. The samples
  instantiate the contracts with concrete functions.

  \<^bold>\<open>Not modelled.\<close>
  Listening, signals and shutdown (\<open>serve\<close>), the request log and mount point (\<open>httpserver.go\<close>; its
  \<open>RealIP\<close> middleware of the router library rewrites the remote address from headers, and \<open>rq_RemoteAddr\<close>
  is what it leaves), the migration
  runner (\<open>migrate.go\<close>, \<open>cmd/migrate\<close>), the timeout of the storage routes and the HTML of mails: I/O,
  library calls and texts. A request is a sequence of calls and runs to its end between two others:
  interleaving of two operations between their calls is not modelled, nor are log messages, metrics and
  the pause that hides whether an address has an account. The mail that a goroutine sends after a login
  is sent in place. A \<open>TEXT\<close> column accepts every string of bytes; PostgreSQL refuses a null byte and
  invalid UTF-8.
\<close>

end
